(* ===== verification/Prelude.thy ===== *)
theory Prelude
  imports Main "HOL-Library.Word" "HOL-Library.Monad_Syntax"
    "HOL-Library.Code_Target_Nat"
begin

text \<open>
  What every component shares: the C character classes, the decimal conversions of
  \<^verbatim>\<open>printf\<close> and \<^verbatim>\<open>strtol\<close>/\<^verbatim>\<open>strtoul\<close>, C strings as character lists, the error
  numbers, and the retry loop around an interruptible system call.  A C string is the list
  of its characters before the terminating NUL.  A call that fails with \<^verbatim>\<open>-1\<close> and
  \<^verbatim>\<open>errno = e\<close> is \<open>Inl e\<close>, a call that succeeds is \<open>Inr\<close> of its value.
\<close>

unbundle bit_operations_syntax

named_theorems ctype_simps \<open>the C character classes, unfolded\<close>
named_theorems retry_intros \<open>interruptible calls that return\<close>

type_synonym byte = "8 word"
type_synonym uint32 = "32 word"

section \<open>Error numbers of the C library\<close>

abbreviation (input) EPERM :: int where "EPERM \<equiv> 1"
abbreviation (input) ENOENT :: int where "ENOENT \<equiv> 2"
abbreviation (input) ESRCH :: int where "ESRCH \<equiv> 3"
abbreviation (input) EINTR :: int where "EINTR \<equiv> 4"
abbreviation (input) EIO :: int where "EIO \<equiv> 5"
abbreviation (input) EBADF :: int where "EBADF \<equiv> 9"
abbreviation (input) ECHILD :: int where "ECHILD \<equiv> 10"
abbreviation (input) EAGAIN :: int where "EAGAIN \<equiv> 11"
abbreviation (input) ENOMEM :: int where "ENOMEM \<equiv> 12"
abbreviation (input) EACCES :: int where "EACCES \<equiv> 13"
abbreviation (input) EBUSY :: int where "EBUSY \<equiv> 16"
abbreviation (input) EEXIST :: int where "EEXIST \<equiv> 17"
abbreviation (input) EINVAL :: int where "EINVAL \<equiv> 22"
abbreviation (input) ENOSPC :: int where "ENOSPC \<equiv> 28"
abbreviation (input) ENAMETOOLONG :: int where "ENAMETOOLONG \<equiv> 36"
abbreviation (input) EPROTO :: int where "EPROTO \<equiv> 71"
abbreviation (input) EOVERFLOW :: int where "EOVERFLOW \<equiv> 75"
abbreviation (input) EILSEQ :: int where "EILSEQ \<equiv> 84"
abbreviation (input) EMSGSIZE :: int where "EMSGSIZE \<equiv> 90"
abbreviation (input) ENOTSUP :: int where "ENOTSUP \<equiv> 95"
abbreviation (input) ETIMEDOUT :: int where "ETIMEDOUT \<equiv> 110"

abbreviation (input) INT_MAX :: int where "INT_MAX \<equiv> 2147483647"
abbreviation (input) UINT_MAX :: nat where "UINT_MAX \<equiv> 4294967295"
abbreviation (input) LONG_MAX :: int where "LONG_MAX \<equiv> 9223372036854775807"
abbreviation (input) ULONG_MAX :: nat where "ULONG_MAX \<equiv> 18446744073709551615"

section \<open>Characters (the C locale)\<close>

abbreviation NUL :: char where "NUL \<equiv> CHR 0x00"
abbreviation NL :: char where "NL \<equiv> CHR 0x0A"
abbreviation CR :: char where "CR \<equiv> CHR 0x0D"

definition ord_of :: "char \<Rightarrow> nat" where
  "ord_of c = of_char c"

definition isspace :: "char \<Rightarrow> bool" where
  "isspace c \<longleftrightarrow> ord_of c = 32 \<or> (9 \<le> ord_of c \<and> ord_of c \<le> 13)"

definition isdigit :: "char \<Rightarrow> bool" where
  "isdigit c \<longleftrightarrow> 48 \<le> ord_of c \<and> ord_of c \<le> 57"

definition isalnum :: "char \<Rightarrow> bool" where
  "isalnum c \<longleftrightarrow> isdigit c \<or> (65 \<le> ord_of c \<and> ord_of c \<le> 90) \<or> (97 \<le> ord_of c \<and> ord_of c \<le> 122)"

lemmas ctype_defs [ctype_simps] = isspace_def isdigit_def isalnum_def ord_of_def

lemma ord_of_less [simp]: "ord_of c < 256"
  by (simp add: ord_of_def)

lemma ord_of_char_of: "n < 256 \<Longrightarrow> ord_of (char_of n) = n"
  by (simp add: ord_of_def)

lemma char_of_ord_of [simp]: "char_of (ord_of c) = c"
  by (simp add: ord_of_def)

lemma ord_of_inject [simp]: "ord_of c = ord_of d \<longleftrightarrow> c = d"
  by (simp add: ord_of_def)

lemma isdigit_not_isspace: "isdigit c \<Longrightarrow> \<not> isspace c"
  by (auto simp: isdigit_def isspace_def)

section \<open>C strings\<close>

text \<open>The C string that starts a buffer: everything before the first NUL.\<close>

definition cstr :: "char list \<Rightarrow> string" where
  "cstr cs = takeWhile (\<lambda>c. c \<noteq> NUL) cs"

lemma cstr_no_nul: "NUL \<notin> set (cstr cs)"
  using set_takeWhileD [of NUL "\<lambda>c. c \<noteq> NUL" cs] by (auto simp: cstr_def)

lemma cstr_id: "NUL \<notin> set cs \<Longrightarrow> cstr cs = cs"
  by (auto simp: cstr_def)

definition rstrip :: "string \<Rightarrow> string" where
  "rstrip s = rev (dropWhile isspace (rev s))"

lemma rstrip_snoc [simp]: "rstrip (s @ [c]) = (if isspace c then rstrip s else s @ [c])"
  by (simp add: rstrip_def)

lemma rstrip_Nil [simp]: "rstrip [] = []"
  by (simp add: rstrip_def)

lemma set_rstrip: "set (rstrip s) \<subseteq> set s"
  by (auto simp: rstrip_def dest: set_dropWhileD)

lemma length_rstrip: "length (rstrip s) \<le> length s"
  by (simp add: rstrip_def) (metis length_dropWhile_le length_rev)

lemma rstrip_id: "s = [] \<or> \<not> isspace (last s) \<Longrightarrow> rstrip s = s"
  by (cases s rule: rev_cases) auto

lemma rstrip_last: "rstrip s \<noteq> [] \<Longrightarrow> \<not> isspace (last (rstrip s))"
  by (induction s rule: rev_induct) auto

lemma rstrip_prefix: "\<exists>t. s = rstrip s @ t"
  by (induction s rule: rev_induct) (auto, metis append.assoc)

text \<open>\<^verbatim>\<open>strchr\<close>: the text before the first \<open>c\<close> and the text after it.\<close>

definition split_at :: "char \<Rightarrow> string \<Rightarrow> (string \<times> string) option" where
  "split_at c s = (if c \<in> set s
     then Some (takeWhile (\<lambda>d. d \<noteq> c) s, tl (dropWhile (\<lambda>d. d \<noteq> c) s)) else None)"

lemma takeWhile_stop: "c \<notin> set a \<Longrightarrow> takeWhile (\<lambda>d. d \<noteq> c) (a @ c # b) = a"
  by (induction a) auto

lemma dropWhile_stop: "c \<notin> set a \<Longrightarrow> dropWhile (\<lambda>d. d \<noteq> c) (a @ c # b) = c # b"
  by (induction a) auto

lemma split_at_append:
  "c \<notin> set a \<Longrightarrow> split_at c (a @ c # b) = Some (a, b)"
  by (simp add: split_at_def takeWhile_stop dropWhile_stop)

section \<open>Decimal output\<close>

definition digit :: "nat \<Rightarrow> char" where
  "digit n = char_of (48 + n mod 10)"

fun dec :: "nat \<Rightarrow> string" where
  "dec n = (if n < 10 then [digit n] else dec (n div 10) @ [digit (n mod 10)])"

declare dec.simps [simp del]

text \<open>\<^verbatim>\<open>%d\<close> and \<^verbatim>\<open>%ld\<close>.\<close>

definition dec_int :: "int \<Rightarrow> string" where
  "dec_int i = (if i < 0 then CHR ''-'' # dec (nat (- i)) else dec (nat i))"

definition digit_val :: "char \<Rightarrow> nat" where
  "digit_val c = ord_of c - 48"

definition dec_value :: "string \<Rightarrow> nat" where
  "dec_value s = foldl (\<lambda>n c. 10 * n + digit_val c) 0 s"

lemma ord_of_digit: "ord_of (digit n) = 48 + n mod 10"
  by (simp add: digit_def ord_of_char_of)

lemma isdigit_digit [simp]: "isdigit (digit n)"
  by (simp add: isdigit_def ord_of_digit)

lemma digit_val_digit [simp]: "digit_val (digit n) = n mod 10"
  by (simp add: digit_val_def ord_of_digit)

lemma digit_val_le: "isdigit c \<Longrightarrow> digit_val c \<le> 9"
  by (auto simp: isdigit_def digit_val_def)

lemma dec_value_Nil [simp]: "dec_value [] = 0"
  by (simp add: dec_value_def)

lemma dec_value_snoc [simp]: "dec_value (s @ [c]) = 10 * dec_value s + digit_val c"
  by (simp add: dec_value_def)

lemma dec_not_Nil [simp]: "dec n \<noteq> []"
  by (subst dec.simps) simp

lemma dec_isdigit: "\<forall>c\<in>set (dec n). isdigit c"
proof (induction n rule: dec.induct)
  case (1 n)
  then show ?case by (subst dec.simps) auto
qed

lemma hd_dec: "isdigit (hd (dec n))"
  using dec_isdigit [of n] list.set_sel(1) [OF dec_not_Nil] by blast

lemma dec_value_dec [simp]: "dec_value (dec n) = n"
proof (induction n rule: dec.induct)
  case (1 n)
  then show ?case
    by (cases "n < 10") (simp_all add: dec.simps [of n] dec_value_def)
qed

lemma length_dec: "n < 10 ^ k \<Longrightarrow> 0 < k \<Longrightarrow> length (dec n) \<le> k"
proof (induction n arbitrary: k rule: dec.induct)
  case (1 n)
  show ?case
  proof (cases "n < 10")
    case True
    then show ?thesis using "1.prems" by (simp add: dec.simps [of n])
  next
    case False
    then obtain m where m: "k = Suc m" "0 < m"
      using "1.prems" by (cases k; cases "k - 1") auto
    have "n div 10 < 10 ^ m" using "1.prems" m by auto
    then have "length (dec (n div 10)) \<le> m" using "1.IH" False m by simp
    with False m show ?thesis by (simp add: dec.simps [of n])
  qed
qed

lemma dec_hd: "0 < n \<Longrightarrow> hd (dec n) \<noteq> CHR ''0''"
proof (induction n rule: dec.induct)
  case (1 n)
  show ?case
  proof (cases "n < 10")
    case True
    then have "ord_of (digit n) \<noteq> ord_of (CHR ''0'')"
      using "1.prems" by (simp add: ord_of_digit) (simp add: ord_of_def)
    with True show ?thesis by (auto simp: dec.simps [of n])
  next
    case False
    with "1.IH" show ?thesis by (simp add: dec.simps [of n])
  qed
qed

lemma dec_no_nul: "NUL \<notin> set (dec n)"
  using dec_isdigit [of n] by (auto simp: isdigit_def ord_of_def)

section \<open>\<^verbatim>\<open>strtol\<close> and \<^verbatim>\<open>strtoul\<close>\<close>

text \<open>
  The digits of a base, upper and lower case.  Both functions skip white space, take an
  optional sign, and return the number, the text they stopped at (the whole text when there
  was no digit) and whether the number was out of range (\<^verbatim>\<open>errno = ERANGE\<close>, the value
  saturated).  \<^verbatim>\<open>long\<close> has 64 bits.  Base 0 reads \<^verbatim>\<open>0x\<close> as base 16 when a hexadecimal digit
  follows, a leading \<^verbatim>\<open>0\<close> as base 8 and anything else as base 10.
\<close>

definition digit_of :: "nat \<Rightarrow> char \<Rightarrow> nat option" where
  "digit_of base c =
     (let n = ord_of c;
          d = (if 48 \<le> n \<and> n \<le> 57 then n - 48
               else if 65 \<le> n \<and> n \<le> 90 then n - 55
               else if 97 \<le> n \<and> n \<le> 122 then n - 87 else 99)
      in if d < base then Some d else None)"

definition number_of :: "nat \<Rightarrow> string \<Rightarrow> nat" where
  "number_of base s = foldl (\<lambda>n c. base * n + the (digit_of base c)) 0 s"

definition strip_sign :: "string \<Rightarrow> bool \<times> string" where
  "strip_sign s = (case s of
     [] \<Rightarrow> (False, s)
   | c # r \<Rightarrow> if c = CHR ''-'' then (True, r) else if c = CHR ''+'' then (False, r) else (False, s))"

definition strip_base :: "nat \<Rightarrow> string \<Rightarrow> nat \<times> string" where
  "strip_base base s =
     (if base \<noteq> 0 then (base, s)
      else if s = [] \<or> hd s \<noteq> CHR ''0'' then (10, s)
      else if 3 \<le> length s \<and> (s ! 1 = CHR ''x'' \<or> s ! 1 = CHR ''X'') \<and> digit_of 16 (s ! 2) \<noteq> None
        then (16, drop 2 s)
      else (8, s))"

definition strtoul :: "nat \<Rightarrow> string \<Rightarrow> nat \<times> string \<times> bool" where
  "strtoul base0 s =
     (let (neg, s1) = strip_sign (dropWhile isspace s);
          (base, s2) = strip_base base0 s1;
          ds = takeWhile (\<lambda>c. digit_of base c \<noteq> None) s2;
          rest = dropWhile (\<lambda>c. digit_of base c \<noteq> None) s2;
          v = number_of base ds
      in if ds = [] then (0, s, False)
         else if v > ULONG_MAX then (ULONG_MAX, rest, True)
         else (if neg then (2 ^ 64 - v) mod 2 ^ 64 else v, rest, False))"

definition strtol10 :: "string \<Rightarrow> int \<times> string \<times> bool" where
  "strtol10 s =
     (let (neg, s1) = strip_sign (dropWhile isspace s);
          ds = takeWhile isdigit s1;
          rest = dropWhile isdigit s1;
          v = (if neg then - int (dec_value ds) else int (dec_value ds))
      in if ds = [] then (0, s, False)
         else if v > LONG_MAX then (LONG_MAX, rest, True)
         else if v < - LONG_MAX - 1 then (- LONG_MAX - 1, rest, True)
         else (v, rest, False))"

lemma strip_sign_dec: "strip_sign (dec n) = (False, dec n)"
proof -
  have "isdigit (hd (dec n))" by (rule hd_dec)
  then show ?thesis
    by (cases "dec n") (auto simp: strip_sign_def ctype_simps)
qed

lemma dropWhile_isspace_dec: "dropWhile isspace (dec n) = dec n"
proof -
  have "\<not> isspace (hd (dec n))" using hd_dec isdigit_not_isspace by blast
  then show ?thesis by (cases "dec n") auto
qed

lemma strtol10_dec:
  "int n \<le> LONG_MAX \<Longrightarrow> strtol10 (dec n) = (int n, [], False)"
  using dec_isdigit [of n]
  by (simp add: strtol10_def dropWhile_isspace_dec strip_sign_dec takeWhile_eq_all_conv [THEN iffD2]
      dropWhile_eq_Nil_conv [THEN iffD2])

lemma digit_of_isdigit: "isdigit c \<Longrightarrow> digit_of 10 c = Some (digit_val c)"
  by (auto simp: digit_of_def isdigit_def digit_val_def Let_def)

lemma digit_of_10: "(\<lambda>c. digit_of 10 c \<noteq> None) = isdigit"
  by (auto simp: digit_of_def isdigit_def Let_def fun_eq_iff)

lemma number_of_10: "\<forall>c\<in>set s. isdigit c \<Longrightarrow> number_of 10 s = dec_value s"
proof (induction s rule: rev_induct)
  case (snoc c s)
  then show ?case by (simp add: number_of_def dec_value_def digit_of_isdigit)
qed (simp add: number_of_def)

lemma strtoul10_dec:
  "n \<le> ULONG_MAX \<Longrightarrow> strtoul 10 (dec n) = (n, [], False)"
  using dec_isdigit [of n]
  by (simp only: strtoul_def dropWhile_isspace_dec strip_sign_dec strip_base_def if_True if_False
      prod.case Let_def digit_of_10 zero_neq_numeral [symmetric] not_False_eq_True)
    (simp add: takeWhile_eq_all_conv [THEN iffD2] dropWhile_eq_Nil_conv [THEN iffD2] number_of_10)

lemma dec_0 [simp]: "dec 0 = ''0''"
  by code_simp

lemma strip_base0_dec: "0 < n \<Longrightarrow> strip_base 0 (dec n) = (10, dec n)"
  using dec_hd [of n] by (simp add: strip_base_def)

lemma strtoul0_dec:
  assumes "n \<le> ULONG_MAX"
  shows "strtoul 0 (dec n) = (n, [], False)"
proof (cases "n = 0")
  case True
  have "strtoul 0 ''0'' = (0, [], False)" by code_simp
  with True show ?thesis by simp
next
  case False
  then have "strip_base 0 (dec n) = strip_base 10 (dec n)"
    by (simp add: strip_base0_dec) (simp add: strip_base_def)
  then have "strtoul 0 (dec n) = strtoul 10 (dec n)"
    by (simp only: strtoul_def dropWhile_isspace_dec strip_sign_dec prod.case Let_def)
  with assms show ?thesis by (simp add: strtoul10_dec)
qed

section \<open>Interruptible system calls\<close>

text \<open>
  A system call is a function of the world \<open>'w\<close> that returns its result and the next world;
  nothing else is known of the world.  The loops
  \<^verbatim>\<open>while (call(...) < 0) { if (errno == EINTR) continue; return -1; }\<close> of the sources are
  \<open>retry\<close>: \<open>None\<close> when the call is interrupted for ever.
\<close>

partial_function (option) retry :: "('w \<Rightarrow> (int + 'a) \<times> 'w) \<Rightarrow> 'w \<Rightarrow> ((int + 'a) \<times> 'w) option" where
  "retry call w =
     (case call w of
        (Inl e, w') \<Rightarrow> if e = EINTR then retry call w' else Some (Inl e, w')
      | (Inr v, w') \<Rightarrow> Some (Inr v, w'))"

declare retry.simps [code]

text \<open>The call answers something else than \<^verbatim>\<open>EINTR\<close> at the latest at its \<open>n\<close>-th repetition.\<close>

fun settles :: "nat \<Rightarrow> ('w \<Rightarrow> (int + 'a) \<times> 'w) \<Rightarrow> 'w \<Rightarrow> bool" where
  "settles 0 call w \<longleftrightarrow> fst (call w) \<noteq> Inl EINTR"
| "settles (Suc n) call w \<longleftrightarrow> fst (call w) \<noteq> Inl EINTR \<or> settles n call (snd (call w))"

lemma retry_settles [retry_intros]:
  "settles n call w \<Longrightarrow> \<exists>r w'. retry call w = Some (r, w')"
proof (induction n arbitrary: w)
  case 0
  then show ?case
    by (subst retry.simps) (auto split: prod.splits sum.splits)
next
  case (Suc n)
  show ?case
  proof (cases "fst (call w) = Inl EINTR")
    case True
    with Suc show ?thesis by (subst retry.simps) (auto split: prod.splits sum.splits)
  next
    case False
    then show ?thesis by (subst retry.simps) (auto split: prod.splits sum.splits)
  qed
qed

lemma retry_not_EINTR:
  assumes ret: "retry call w = Some (r, w')"
  shows "r \<noteq> Inl EINTR"
proof -
  have "fst (r, w') \<noteq> Inl EINTR"
  proof (rule retry.raw_induct [where P = "\<lambda>call w x. fst x \<noteq> Inl EINTR", OF _ ret])
    fix f call w x
    assume IH: "\<And>call w x. f call w = Some x \<Longrightarrow> fst x \<noteq> Inl EINTR"
      and eq: "(case call w of (Inl e, w') \<Rightarrow> if e = EINTR then f call w' else Some (Inl e, w')
                | (Inr v, w') \<Rightarrow> Some (Inr v, w')) = Some x"
    obtain a w1 where call: "call w = (a, w1)" by (cases "call w")
    show "fst x \<noteq> Inl EINTR"
      using eq IH [of call w1] by (auto simp: call split: sum.splits if_splits)
  qed
  then show ?thesis by simp
qed

lemma retry_once: "call w = (r, w') \<Longrightarrow> r \<noteq> Inl EINTR \<Longrightarrow> retry call w = Some (r, w')"
  by (subst retry.simps) (auto split: sum.splits)

text \<open>
  A loop over a list whose body acts on the world and rewrites the element.  \<open>mapW\<close> keeps the
  order of the effects; \<open>None\<close> when one of them does not return.
\<close>

fun mapW :: "('a \<Rightarrow> 'w \<Rightarrow> ('b \<times> 'w) option) \<Rightarrow> 'a list \<Rightarrow> 'w \<Rightarrow> ('b list \<times> 'w) option" where
  "mapW f [] w = Some ([], w)"
| "mapW f (x # xs) w = do {
     (y, w1) \<leftarrow> f x w;
     (ys, w2) \<leftarrow> mapW f xs w1;
     Some (y # ys, w2) }"

lemma mapW_list_all2:
  assumes "mapW f xs w = Some (ys, w')"
    and "\<And>x y w w'. x \<in> set xs \<Longrightarrow> f x w = Some (y, w') \<Longrightarrow> P x y"
  shows "list_all2 P xs ys"
  using assms
proof (induction xs arbitrary: w ys)
  case (Cons x xs)
  from Cons.prems(1) obtain y w1 ys' where y: "f x w = Some (y, w1)"
      "mapW f xs w1 = Some (ys', w')" "ys = y # ys'"
    by (auto split: Option.bind_splits)
  have "list_all2 P xs ys'" using y(2) by (rule Cons.IH) (use Cons.prems(2) in auto)
  with y Cons.prems(2) show ?case by auto
qed simp

lemma mapW_returns:
  assumes "\<And>x w. x \<in> set xs \<Longrightarrow> \<exists>y w'. f x w = Some (y, w')"
  shows "\<exists>ys w'. mapW f xs w = Some (ys, w')"
  using assms
proof (induction xs arbitrary: w)
  case (Cons x xs)
  obtain y w1 where y: "f x w = Some (y, w1)" using Cons.prems by fastforce
  obtain ys w2 where "mapW f xs w1 = Some (ys, w2)" using Cons.IH Cons.prems by fastforce
  with y show ?case by simp
qed simp

lemma mapW_total:
  assumes "\<And>x w. \<exists>y w'. f x w = Some (y, w')"
  obtains ys w' where "mapW f xs w = Some (ys, w')"
  using mapW_returns [of xs f w] assms by blast

lemma mapW_length: "mapW f xs w = Some (ys, w') \<Longrightarrow> length ys = length xs"
  using mapW_list_all2 [of f xs w ys w' "\<lambda>_ _. True"] list_all2_lengthD by fastforce

text \<open>A loop over a list that stops at the first error.\<close>

fun foldE :: "('a \<Rightarrow> 's \<Rightarrow> 'e + 's) \<Rightarrow> 'a list \<Rightarrow> 's \<Rightarrow> 'e + 's" where
  "foldE f [] s = Inr s"
| "foldE f (x # xs) s = (case f x s of Inl e \<Rightarrow> Inl e | Inr s' \<Rightarrow> foldE f xs s')"

lemma foldE_append:
  "foldE f (xs @ ys) s = (case foldE f xs s of Inl e \<Rightarrow> Inl e | Inr s' \<Rightarrow> foldE f ys s')"
  by (induction xs arbitrary: s) (auto split: sum.splits)

end
