(* ===== verification/Common.thy ===== *)
theory Common
  imports Prelude
begin

text \<open>
  The shared helpers under \<^verbatim>\<open>src/common\<close>: the result codes of \<^verbatim>\<open>error.h\<close> with their
  texts (\<^verbatim>\<open>error.c\<close>), the log filter (\<^verbatim>\<open>log.c\<close>) and \<^verbatim>\<open>trim_line\<close> (\<^verbatim>\<open>utils.c\<close>).
  Result codes stay integers, because the shell mixes them with exit statuses: a command
  returns a status \<open>\<ge> 0\<close> or one of these negative codes.
\<close>

section \<open>Result codes (\<^verbatim>\<open>common/error.h\<close>, \<^verbatim>\<open>common/error.c\<close>)\<close>

abbreviation (input) MiniShell_OK :: int where "MiniShell_OK \<equiv> 0"
abbreviation (input) MiniShell_ERR_UNKNOWN :: int where "MiniShell_ERR_UNKNOWN \<equiv> - 1"
abbreviation (input) MiniShell_ERR_MEMORY :: int where "MiniShell_ERR_MEMORY \<equiv> - 2"
abbreviation (input) MiniShell_ERR_FORK :: int where "MiniShell_ERR_FORK \<equiv> - 3"
abbreviation (input) MiniShell_ERR_PIPE :: int where "MiniShell_ERR_PIPE \<equiv> - 4"
abbreviation (input) MiniShell_ERR_EXEC :: int where "MiniShell_ERR_EXEC \<equiv> - 5"
abbreviation (input) MiniShell_ERR_OPEN :: int where "MiniShell_ERR_OPEN \<equiv> - 6"
abbreviation (input) MiniShell_ERR_PARSE :: int where "MiniShell_ERR_PARSE \<equiv> - 7"
abbreviation (input) MiniShell_ERR_JOB :: int where "MiniShell_ERR_JOB \<equiv> - 8"
abbreviation (input) MiniShell_ERR_DUP2 :: int where "MiniShell_ERR_DUP2 \<equiv> - 9"

definition minishell_error_string :: "int \<Rightarrow> string" where
  "minishell_error_string error =
     (if error = MiniShell_OK then ''success''
      else if error = MiniShell_ERR_UNKNOWN then ''unknown error''
      else if error = MiniShell_ERR_MEMORY then ''memory allocation failed''
      else if error = MiniShell_ERR_FORK then ''fork failed''
      else if error = MiniShell_ERR_PIPE then ''pipe operation failed''
      else if error = MiniShell_ERR_EXEC then ''command execution failed''
      else if error = MiniShell_ERR_OPEN then ''file open failed''
      else if error = MiniShell_ERR_PARSE then ''parse failed''
      else if error = MiniShell_ERR_JOB then ''job operation failed''
      else if error = MiniShell_ERR_DUP2 then ''dup2 failed''
      else ''unidentified error'')"

section \<open>Log levels (\<^verbatim>\<open>common/log.h\<close>, \<^verbatim>\<open>common/log.c\<close>)\<close>

datatype Loglevel = LOG_DEBUG | LOG_INFO | LOG_ERR

primrec level_number :: "Loglevel \<Rightarrow> nat" where
  "level_number LOG_DEBUG = 0"
| "level_number LOG_INFO = 1"
| "level_number LOG_ERR = 2"

lemma level_number_inject: "level_number a = level_number b \<longleftrightarrow> a = b"
  by (cases a; cases b) simp_all

instantiation Loglevel :: linorder
begin

definition less_eq_Loglevel :: "Loglevel \<Rightarrow> Loglevel \<Rightarrow> bool" where
  "less_eq_Loglevel a b \<longleftrightarrow> level_number a \<le> level_number b"

definition less_Loglevel :: "Loglevel \<Rightarrow> Loglevel \<Rightarrow> bool" where
  "less_Loglevel a b \<longleftrightarrow> level_number a < level_number b"

instance
  by standard (auto simp: less_eq_Loglevel_def less_Loglevel_def level_number_inject)

end

text \<open>
  The filter's state is the current level.  \<open>log_write\<close> gives the line written to standard
  error, if any; \<open>message\<close> is the formatted text.
\<close>

definition log_init :: Loglevel where
  "log_init = LOG_DEBUG"

definition log_setlevel :: "Loglevel \<Rightarrow> Loglevel \<Rightarrow> Loglevel" where
  "log_setlevel level current_level = level"

definition log_write :: "Loglevel \<Rightarrow> Loglevel \<Rightarrow> string \<Rightarrow> string option" where
  "log_write current_level level message =
     (if level < current_level then None
      else Some ((case level of LOG_DEBUG \<Rightarrow> ''[DEBUG] '' | LOG_INFO \<Rightarrow> ''[INFO] '' | LOG_ERR \<Rightarrow> ''[ERROR] '')
                 @ message @ [NL]))"

definition log_debug :: "Loglevel \<Rightarrow> string \<Rightarrow> string option" where
  "log_debug current_level message = log_write current_level LOG_DEBUG message"

definition log_error :: "Loglevel \<Rightarrow> string \<Rightarrow> string option" where
  "log_error current_level message = log_write current_level LOG_ERR message"

definition log_info :: "Loglevel \<Rightarrow> string \<Rightarrow> string option" where
  "log_info current_level message = log_write current_level LOG_INFO message"

lemma log_error_never_filtered: "\<exists>line. log_error cur m = Some line"
  by (cases cur) (simp_all add: log_error_def log_write_def less_Loglevel_def)

lemma log_write_monotone:
  "log_write cur a m \<noteq> None \<Longrightarrow> a \<le> b \<Longrightarrow> log_write cur b m' \<noteq> None"
  by (auto simp: log_write_def split: if_splits)

section \<open>\<^verbatim>\<open>common/utils.c\<close>\<close>

definition trim_line :: "string \<Rightarrow> string" where
  "trim_line buff = (if 0 < length buff \<and> last buff = NL then butlast buff else buff)"

end
