(* ===== verification/Command.thy ===== *)
theory Command
  imports Common
begin

text \<open>
  The command record of \<^verbatim>\<open>include/command.h\<close>.  \<^verbatim>\<open>argv\<close> is the list of the arguments before
  the terminating NULL, so \<^verbatim>\<open>argc\<close> is its length; the chain of a pipeline through \<^verbatim>\<open>next\<close> is
  a list of commands.  An absent file name (a NULL pointer) is \<open>None\<close>.
\<close>

abbreviation (input) MAX_ARGS :: nat where "MAX_ARGS \<equiv> 64"

record redirection =
  input_file :: "string option"
  output_file :: "string option"
  append :: bool

record command =
  argv :: "string list"
  background :: bool
  redirect :: redirection

definition argc :: "command \<Rightarrow> nat" where
  "argc cmd = length (argv cmd)"

definition command_init :: command where
  "command_init = \<lparr>argv = [], background = False,
     redirect = \<lparr>input_file = None, output_file = None, append = False\<rparr>\<rparr>"

lemma argc_command_init [simp]: "argc command_init = 0"
  by (simp add: argc_def command_init_def)

lemma background_command_init [simp]: "\<not> background command_init"
  by (simp add: command_init_def)

end
