(* ===== verification/Parser.thy ===== *)
theory Parser
  imports Command
begin

text \<open>
  The command-line parser, \<^verbatim>\<open>src/parser.c\<close>: the tokenizer, the builder of the command
  chain, and \<^verbatim>\<open>parse_line\<close>.  A \<^verbatim>\<open>TokenList\<close> is the list of its first \<^verbatim>\<open>count\<close> tokens.  The
  only part of the shell context the parser touches is \<^verbatim>\<open>last_exit_status\<close>, so a context is
  the option of that number (\<open>None\<close> for a NULL context).  Whether the \<open>k\<close>-th allocation
  request (\<^verbatim>\<open>malloc\<close>, \<^verbatim>\<open>strdup\<close>) of a call succeeds is a parameter \<open>mem\<close>.
\<close>

abbreviation (input) MAX_TOKEN :: nat where "MAX_TOKEN \<equiv> 128"
abbreviation (input) TOKEN_SIZE :: nat where "TOKEN_SIZE \<equiv> 256"

datatype TokenType = TOKEN_WORD | TOKEN_REDIRECT_OUT | TOKEN_REDIRECT_APPEND | TOKEN_REDIRECT_IN
  | TOKEN_PIPE | TOKEN_BACKGROUND

record token =
  tok_text :: string
  tok_type :: TokenType

datatype tokenize_error = TOKENIZE_TOO_MANY | TOKENIZE_TOO_LONG

section \<open>The tokenizer\<close>

definition token_push :: "token list \<Rightarrow> TokenType \<Rightarrow> string \<Rightarrow> nat \<Rightarrow> tokenize_error + token list" where
  "token_push list type text len =
     (if length list \<ge> MAX_TOKEN then Inl TOKENIZE_TOO_MANY
      else if len \<ge> TOKEN_SIZE then Inl TOKENIZE_TOO_LONG
      else Inr (list @ [\<lparr>tok_text = take len text, tok_type = type\<rparr>]))"

definition is_special :: "char \<Rightarrow> bool" where
  "is_special c \<longleftrightarrow> c = CHR ''>'' \<or> c = CHR ''<'' \<or> c = CHR ''|'' \<or> c = CHR ''&''"

abbreviation word_char :: "char \<Rightarrow> bool" where
  "word_char c \<equiv> \<not> isspace c \<and> \<not> is_special c"

text \<open>The token at \<open>p\<close>, which does not start with white space: its type and its length.\<close>

definition token_at :: "string \<Rightarrow> TokenType \<times> nat" where
  "token_at p =
     (if hd p = CHR ''>'' then
        (if tl p \<noteq> [] \<and> hd (tl p) = CHR ''>'' then (TOKEN_REDIRECT_APPEND, 2)
         else (TOKEN_REDIRECT_OUT, 1))
      else if hd p = CHR ''<'' then (TOKEN_REDIRECT_IN, 1)
      else if hd p = CHR ''|'' then (TOKEN_PIPE, 1)
      else if hd p = CHR ''&'' then (TOKEN_BACKGROUND, 1)
      else (TOKEN_WORD, length (takeWhile word_char p)))"

lemma token_at_pos:
  assumes "p \<noteq> []" and "\<not> isspace (hd p)"
  shows "0 < snd (token_at p)"
proof -
  from assms(1) obtain c r where "p = c # r" by (cases p) auto
  with assms(2) show ?thesis by (auto simp: token_at_def is_special_def)
qed

lemma dropWhile_not_Nil_hd: "dropWhile P xs \<noteq> [] \<Longrightarrow> \<not> P (hd (dropWhile P xs))"
  by (rule hd_dropWhile)

function tokenize_loop :: "string \<Rightarrow> token list \<Rightarrow> tokenize_error + token list" where
  "tokenize_loop p0 list =
     (let p = dropWhile isspace p0
      in if p = [] then Inr list
         else let (type, len) = token_at p
              in case token_push list type p len of
                   Inl e \<Rightarrow> Inl e
                 | Inr list' \<Rightarrow> tokenize_loop (drop len p) list')"
  by pat_completeness auto
termination
proof (relation "measure (\<lambda>(p, list). length p)")
  fix p0 list p x type len list'
  assume p: "p = dropWhile isspace p0" and ne: "p \<noteq> []" and x: "x = token_at p" "(type, len) = x"
  have "0 < len" using token_at_pos [OF ne] dropWhile_not_Nil_hd [of isspace p0] ne p x
    by (metis snd_conv)
  moreover have "length p \<le> length p0" unfolding p by (rule length_dropWhile_le)
  ultimately have "length (drop len p) < length p0" using ne by (cases p) auto
  then show "((drop len p, list'), (p0, list)) \<in> measure (\<lambda>(p, list). length p)" by simp
qed simp

declare tokenize_loop.simps [simp del]

definition tokenize :: "string option \<Rightarrow> tokenize_error + token list" where
  "tokenize line = (case line of None \<Rightarrow> Inl TOKENIZE_TOO_MANY | Some p \<Rightarrow> tokenize_loop p [])"

section \<open>The command builder\<close>

text \<open>
  A parse ends with a pointer to the command chain or NULL, the context's exit status and the
  line written to standard error.
\<close>

type_synonym parse_result = "command list option \<times> int option \<times> string"

definition tokenize_fail :: "int option \<Rightarrow> tokenize_error \<Rightarrow> parse_result" where
  "tokenize_fail ctx result =
     (None, map_option (\<lambda>_. 2) ctx,
      (if result = TOKENIZE_TOO_LONG then ''minishell: syntax error: token is too long''
       else ''minishell: syntax error: too many tokens'') @ [NL])"

definition syntax_fail :: "int option \<Rightarrow> string \<Rightarrow> parse_result" where
  "syntax_fail ctx message =
     (None, map_option (\<lambda>_. 2) ctx, ''minishell: syntax error: '' @ message @ [NL])"

definition memory_fail :: "int option \<Rightarrow> parse_result" where
  "memory_fail ctx = (None, map_option (\<lambda>_. 1) ctx, ''minishell: memory allocation failed'' @ [NL])"

definition quoted :: "string \<Rightarrow> string" where
  "quoted s = CHR 0x27 # s @ [CHR 0x27]"

datatype build_error = Syntax string | Memory

text \<open>
  The chain under construction is a non-empty list: its head is \<^verbatim>\<open>head\<close>, its last element
  \<^verbatim>\<open>current\<close>.  \<open>k\<close> counts the allocation requests made so far.
\<close>

definition upd_current :: "(command \<Rightarrow> command) \<Rightarrow> command list \<Rightarrow> command list" where
  "upd_current f cmds = butlast cmds @ [f (last cmds)]"

definition upd_head :: "(command \<Rightarrow> command) \<Rightarrow> command list \<Rightarrow> command list" where
  "upd_head f cmds = f (hd cmds) # tl cmds"

definition next_is_word :: "token list \<Rightarrow> bool" where
  "next_is_word ts \<longleftrightarrow> ts \<noteq> [] \<and> tok_type (hd ts) = TOKEN_WORD"

definition expand_word :: "int option \<Rightarrow> string \<Rightarrow> string" where
  "expand_word ctx text =
     (if text = ''$?'' then dec_int (case ctx of None \<Rightarrow> 0 | Some status \<Rightarrow> status) else text)"

fun build_loop :: "(nat \<Rightarrow> bool) \<Rightarrow> int option \<Rightarrow> token list \<Rightarrow> nat \<Rightarrow> command list \<Rightarrow> build_error + command list"
where
  "build_loop mem ctx [] k cmds = Inr cmds"
| "build_loop mem ctx (t # ts) k cmds =
     (let current = last cmds in
      case tok_type t of
        TOKEN_WORD \<Rightarrow>
          if argc current \<ge> MAX_ARGS - 1 then Inl (Syntax ''too many arguments'')
          else if \<not> mem k then Inl Memory
          else build_loop mem ctx ts (Suc k)
                 (upd_current (\<lambda>c. c\<lparr>argv := argv c @ [expand_word ctx (tok_text t)]\<rparr>) cmds)
      | TOKEN_REDIRECT_IN \<Rightarrow>
          if \<not> next_is_word ts then Inl (Syntax (''expected filename after '' @ quoted ''<''))
          else if input_file (redirect current) \<noteq> None then Inl (Syntax ''duplicate input redirection'')
          else if \<not> mem k then Inl Memory
          else build_loop mem ctx (tl ts) (Suc k)
                 (upd_current (\<lambda>c. c\<lparr>redirect := (redirect c)\<lparr>input_file := Some (tok_text (hd ts))\<rparr>\<rparr>) cmds)
      | TOKEN_REDIRECT_OUT \<Rightarrow>
          if \<not> next_is_word ts then Inl (Syntax (''expected filename after '' @ quoted ''>''))
          else if output_file (redirect current) \<noteq> None then Inl (Syntax ''duplicate output redirection'')
          else if \<not> mem k then Inl Memory
          else build_loop mem ctx (tl ts) (Suc k)
                 (upd_current (\<lambda>c. c\<lparr>redirect := (redirect c)\<lparr>output_file := Some (tok_text (hd ts)),
                                                               append := False\<rparr>\<rparr>) cmds)
      | TOKEN_REDIRECT_APPEND \<Rightarrow>
          if \<not> next_is_word ts then Inl (Syntax (''expected filename after '' @ quoted ''>>''))
          else if output_file (redirect current) \<noteq> None then Inl (Syntax ''duplicate output redirection'')
          else if \<not> mem k then Inl Memory
          else build_loop mem ctx (tl ts) (Suc k)
                 (upd_current (\<lambda>c. c\<lparr>redirect := (redirect c)\<lparr>output_file := Some (tok_text (hd ts)),
                                                               append := True\<rparr>\<rparr>) cmds)
      | TOKEN_BACKGROUND \<Rightarrow>
          if ts \<noteq> [] then Inl (Syntax (quoted ''&'' @ '' must be the last token''))
          else if background (hd cmds) then Inl (Syntax ''duplicate background operator'')
          else build_loop mem ctx ts k (upd_head (\<lambda>c. c\<lparr>background := True\<rparr>) cmds)
      | TOKEN_PIPE \<Rightarrow>
          if argc current = 0 then Inl (Syntax (''missing command near '' @ quoted ''|''))
          else if \<not> next_is_word ts then Inl (Syntax (''expected command after '' @ quoted ''|''))
          else if \<not> mem k then Inl Memory
          else build_loop mem ctx ts (Suc k) (cmds @ [command_init]))"

definition build_command :: "(nat \<Rightarrow> bool) \<Rightarrow> token list \<Rightarrow> int option \<Rightarrow> parse_result" where
  "build_command mem list ctx =
     (if \<not> mem 0 then memory_fail ctx
      else case build_loop mem ctx list 1 [command_init] of
        Inl Memory \<Rightarrow> memory_fail ctx
      | Inl (Syntax message) \<Rightarrow> syntax_fail ctx message
      | Inr cmds \<Rightarrow>
          if list_ex (\<lambda>c. argc c = 0) cmds then syntax_fail ctx (''missing command near '' @ quoted ''|'')
          else (Some cmds, ctx, []))"

definition parse_line :: "(nat \<Rightarrow> bool) \<Rightarrow> string option \<Rightarrow> int option \<Rightarrow> parse_result" where
  "parse_line mem line ctx =
     (if line = None then (None, ctx, [])
      else case tokenize line of
        Inl result \<Rightarrow> tokenize_fail ctx result
      | Inr list \<Rightarrow> if list = [] then (None, ctx, []) else build_command mem list ctx)"

section \<open>Specification of the tokenizer\<close>

text \<open>
  The lexer without the two capacity limits, and what a token of each type looks like.
\<close>

function lex :: "string \<Rightarrow> token list" where
  "lex p0 =
     (let p = dropWhile isspace p0
      in if p = [] then []
         else let (type, len) = token_at p
              in \<lparr>tok_text = take len p, tok_type = type\<rparr> # lex (drop len p))"
  by pat_completeness auto
termination
proof (relation "measure length")
  fix p0 p x type len
  assume p: "p = dropWhile isspace p0" and ne: "p \<noteq> []" and x: "x = token_at p" "(type, len) = x"
  have "0 < len" using token_at_pos [OF ne] dropWhile_not_Nil_hd [of isspace p0] ne p x
    by (metis snd_conv)
  moreover have "length p \<le> length p0" unfolding p by (rule length_dropWhile_le)
  ultimately have "length (drop len p) < length p0" using ne by (cases p) auto
  then show "(drop len p, p0) \<in> measure length" by simp
qed simp

declare lex.simps [simp del]

definition token_ok :: "token \<Rightarrow> bool" where
  "token_ok t \<longleftrightarrow> (case tok_type t of
     TOKEN_WORD \<Rightarrow> tok_text t \<noteq> [] \<and> list_all word_char (tok_text t)
   | TOKEN_REDIRECT_OUT \<Rightarrow> tok_text t = ''>''
   | TOKEN_REDIRECT_APPEND \<Rightarrow> tok_text t = ''>>''
   | TOKEN_REDIRECT_IN \<Rightarrow> tok_text t = ''<''
   | TOKEN_PIPE \<Rightarrow> tok_text t = ''|''
   | TOKEN_BACKGROUND \<Rightarrow> tok_text t = ''&'')"

definition token_long :: "token \<Rightarrow> bool" where
  "token_long t \<longleftrightarrow> TOKEN_SIZE \<le> length (tok_text t)"

lemma token_at_le: "p \<noteq> [] \<Longrightarrow> snd (token_at p) \<le> length p"
  by (cases p; cases "tl p") (auto simp: token_at_def length_takeWhile_le)

lemma token_at_ok:
  assumes "p \<noteq> []" and "\<not> isspace (hd p)" and "token_at p = (type, len)"
  shows "token_ok \<lparr>tok_text = take len p, tok_type = type\<rparr>"
proof -
  obtain c r where p: "p = c # r" using assms(1) by (cases p) auto
  have "list_all word_char (takeWhile word_char p)"
    by (auto simp: list_all_iff dest: set_takeWhileD)
  moreover have "take (length (takeWhile word_char p)) p = takeWhile word_char p"
    by (simp add: takeWhile_eq_take [symmetric])
  ultimately show ?thesis
    using assms(2,3) unfolding p
    by (cases r) (auto simp: token_ok_def token_at_def is_special_def split: if_splits)
qed

lemma token_at_nonspace:
  assumes "p \<noteq> []" and "\<not> isspace (hd p)" and "token_at p = (type, len)"
  shows "filter (\<lambda>c. \<not> isspace c) (take len p) = take len p"
proof -
  have "token_ok \<lparr>tok_text = take len p, tok_type = type\<rparr>" using assms by (rule token_at_ok)
  then show ?thesis
    by (cases type) (auto simp: token_ok_def list_all_iff filter_id_conv isspace_def ord_of_def)
qed

lemma filter_dropWhile_isspace:
  "filter (\<lambda>c. \<not> isspace c) (dropWhile isspace s) = filter (\<lambda>c. \<not> isspace c) s"
  by (induction s) auto

lemma lex_texts: "concat (map tok_text (lex s)) = filter (\<lambda>c. \<not> isspace c) s"
proof (induction s rule: lex.induct)
  case (1 p0)
  define p where "p = dropWhile isspace p0"
  show ?case
  proof (cases "p = []")
    case True
    then show ?thesis
      using filter_dropWhile_isspace [of p0] by (simp add: lex.simps [of p0] p_def)
  next
    case False
    obtain type len where t: "token_at p = (type, len)" by (cases "token_at p")
    have sp: "\<not> isspace (hd p)" using False dropWhile_not_Nil_hd p_def by blast
    have "concat (map tok_text (lex p0)) = take len p @ concat (map tok_text (lex (drop len p)))"
      using False t by (simp add: lex.simps [of p0] p_def Let_def del: dropWhile_eq_Nil_conv)
    also have "concat (map tok_text (lex (drop len p))) = filter (\<lambda>c. \<not> isspace c) (drop len p)"
      using "1.IH" p_def False t by simp
    also have "take len p @ \<dots> = filter (\<lambda>c. \<not> isspace c) (take len p @ drop len p)"
      by (simp only: filter_append token_at_nonspace [OF False sp t])
    also have "\<dots> = filter (\<lambda>c. \<not> isspace c) p0"
      by (simp only: append_take_drop_id p_def filter_dropWhile_isspace)
    finally show ?thesis .
  qed
qed

lemma lex_ok: "\<forall>t\<in>set (lex s). token_ok t"
proof (induction s rule: lex.induct)
  case (1 p0)
  define p where "p = dropWhile isspace p0"
  show ?case
  proof (cases "p = []")
    case True
    then show ?thesis by (simp add: lex.simps [of p0] p_def)
  next
    case False
    obtain type len where t: "token_at p = (type, len)" by (cases "token_at p")
    have sp: "\<not> isspace (hd p)" using False dropWhile_not_Nil_hd p_def by blast
    show ?thesis
      using token_at_ok [OF False sp t] "1.IH" [OF p_def False refl t [symmetric]] False t
      by (simp add: lex.simps [of p0] p_def Let_def del: dropWhile_eq_Nil_conv)
  qed
qed

text \<open>The tokenizer is the lexer cut off at its first token that does not fit.\<close>

definition capacity :: "nat \<Rightarrow> token list \<Rightarrow> tokenize_error + token list" where
  "capacity n ts =
     (if list_ex token_long (take n ts) then Inl TOKENIZE_TOO_LONG
      else if n < length ts then Inl TOKENIZE_TOO_MANY
      else Inr ts)"

lemma capacity_simps:
  "capacity n [] = Inr []"
  "capacity 0 (t # ts) = Inl TOKENIZE_TOO_MANY"
  "capacity (Suc n) (t # ts) =
     (if token_long t then Inl TOKENIZE_TOO_LONG else map_sum id ((#) t) (capacity n ts))"
  by (simp_all add: capacity_def)

lemma tokenize_loop_capacity:
  "length list \<le> MAX_TOKEN \<Longrightarrow>
   tokenize_loop s list = map_sum id (\<lambda>ts. list @ ts) (capacity (MAX_TOKEN - length list) (lex s))"
proof (induction s list rule: tokenize_loop.induct)
  case (1 p0 list)
  define p where "p = dropWhile isspace p0"
  show ?case
  proof (cases "p = []")
    case True
    then show ?thesis
      by (simp add: tokenize_loop.simps [of p0] lex.simps [of p0] p_def capacity_simps)
  next
    case False
    obtain type len where t: "token_at p = (type, len)" by (cases "token_at p")
    have le: "len \<le> length p" using token_at_le [OF False] t by simp
    let ?t = "\<lparr>tok_text = take len p, tok_type = type\<rparr>"
    have lex: "lex p0 = ?t # lex (drop len p)"
      using False t by (simp add: lex.simps [of p0] p_def Let_def del: dropWhile_eq_Nil_conv)
    have loop: "tokenize_loop p0 list =
        (case token_push list type p len of Inl e \<Rightarrow> Inl e
         | Inr list' \<Rightarrow> tokenize_loop (drop len p) list')"
      using False t by (simp add: tokenize_loop.simps [of p0] p_def [symmetric] Let_def del: dropWhile_eq_Nil_conv)
    show ?thesis
    proof (cases "length list = MAX_TOKEN")
      case True
      then show ?thesis by (simp add: loop lex token_push_def capacity_simps)
    next
      case ne: False
      then obtain n where n: "MAX_TOKEN - length list = Suc n"
        using "1.prems" by (cases "MAX_TOKEN - length list") auto
      show ?thesis
      proof (cases "TOKEN_SIZE \<le> len")
        case True
        then show ?thesis
          using ne "1.prems" le by (simp add: loop lex token_push_def n capacity_simps token_long_def)
      next
        case short: False
        then have push: "token_push list type p len = Inr (list @ [?t])"
          using ne "1.prems" by (simp add: token_push_def)
        have n': "127 - length list = n" using n by simp
        have "tokenize_loop (drop len p) (list @ [?t]) =
            map_sum id (\<lambda>ts. (list @ [?t]) @ ts) (capacity n (lex (drop len p)))"
          using "1.IH" [OF p_def False refl t [symmetric] push] n n' ne "1.prems"
          by (simp add: id_def)
        then show ?thesis
          using short le
          by (simp add: loop lex push n capacity_simps token_long_def)
            (cases "capacity n (lex (drop len p))", simp_all)
      qed
    qed
  qed
qed

lemma tokenize_capacity: "tokenize (Some line) = capacity MAX_TOKEN (lex line)"
  by (cases "capacity MAX_TOKEN (lex line)") (simp_all add: tokenize_def tokenize_loop_capacity)

section \<open>The command builder: well-formed chains\<close>

text \<open>
  What a successful parse promises the executor: the chain is not empty, every command has
  between one and \<^verbatim>\<open>MAX_ARGS - 1\<close> arguments, and only the head can carry the background flag.
\<close>

definition chain_ok :: "command list \<Rightarrow> bool" where
  "chain_ok cmds \<longleftrightarrow> cmds \<noteq> [] \<and> (\<forall>c\<in>set cmds. 1 \<le> argc c \<and> argc c \<le> MAX_ARGS - 1)
     \<and> (\<forall>c\<in>set (tl cmds). \<not> background c)"

text \<open>The part of it that holds while the chain is under construction.\<close>

definition chain_inv :: "command list \<Rightarrow> bool" where
  "chain_inv cmds \<longleftrightarrow> cmds \<noteq> [] \<and> (\<forall>c\<in>set cmds. argc c \<le> MAX_ARGS - 1)
     \<and> (\<forall>c\<in>set (tl cmds). \<not> background c)"

lemma upd_current_snoc [simp]: "upd_current f (cs @ [c]) = cs @ [f c]"
  by (simp add: upd_current_def)

lemma length_upd_current [simp]: "cmds \<noteq> [] \<Longrightarrow> length (upd_current f cmds) = length cmds"
  by (cases cmds rule: rev_cases) auto

lemma last_upd_current [simp]: "last (upd_current f cmds) = f (last cmds)"
  by (simp add: upd_current_def)

lemma upd_current_not_Nil [simp]: "upd_current f cmds \<noteq> []"
  by (simp add: upd_current_def)

lemma length_upd_head [simp]: "cmds \<noteq> [] \<Longrightarrow> length (upd_head f cmds) = length cmds"
  by (cases cmds) (auto simp: upd_head_def)

lemma upd_head_not_Nil [simp]: "upd_head f cmds \<noteq> []"
  by (simp add: upd_head_def)

lemma chain_inv_init: "chain_inv [command_init]"
  by (simp add: chain_inv_def)

lemma chain_inv_pipe: "chain_inv cmds \<Longrightarrow> chain_inv (cmds @ [command_init])"
  by (auto simp: chain_inv_def)

lemma chain_inv_upd_current:
  assumes "chain_inv cmds" and "argc (f (last cmds)) \<le> MAX_ARGS - 1"
    and "background (f (last cmds)) = background (last cmds)"
  shows "chain_inv (upd_current f cmds)"
proof -
  obtain cs c where c: "cmds = cs @ [c]"
    using assms(1) by (cases cmds rule: rev_cases) (auto simp: chain_inv_def)
  show ?thesis using assms unfolding c by (cases cs) (auto simp: chain_inv_def upd_current_def)
qed

lemma chain_inv_redirect: "chain_inv cmds \<Longrightarrow> chain_inv (upd_current (\<lambda>c. c\<lparr>redirect := r c\<rparr>) cmds)"
  by (rule chain_inv_upd_current) (auto simp: chain_inv_def argc_def)

lemma chain_inv_upd_head:
  assumes "chain_inv cmds" and "argc (f (hd cmds)) \<le> MAX_ARGS - 1"
  shows "chain_inv (upd_head f cmds)"
  using assms by (cases cmds) (auto simp: chain_inv_def upd_head_def)

text \<open>
  Twice the length of the chain plus the arguments of its last command grows by at most one
  per token: a pipe adds a command only after an argument.
\<close>

definition chain_size :: "command list \<Rightarrow> nat" where
  "chain_size cmds = 2 * length cmds + argc (last cmds)"

lemma chain_size_upd_head:
  assumes "cmds \<noteq> []" and "argc (f (hd cmds)) = argc (hd cmds)"
  shows "chain_size (upd_head f cmds) = chain_size cmds"
  using assms by (cases cmds) (auto simp: chain_size_def upd_head_def)

lemma build_loop_inv:
  assumes "build_loop mem ctx ts k cmds = Inr res" and "chain_inv cmds"
  shows "chain_inv res \<and> chain_size res \<le> chain_size cmds + length ts"
  using assms
proof (induction mem ctx ts k cmds rule: build_loop.induct)
  case (1 mem ctx k cmds)
  then show ?case by simp
next
  case (2 mem ctx t ts k cmds)
  have ne: "cmds \<noteq> []" using "2.prems"(2) by (simp add: chain_inv_def)
  have len: "length (tl ts) \<le> length ts" by simp
  show ?case
  proof (cases "tok_type t")
    case TOKEN_WORD
    have "chain_inv (upd_current (\<lambda>c. c\<lparr>argv := argv c @ [expand_word ctx (tok_text t)]\<rparr>) cmds)"
      if "\<not> 63 \<le> argc (last cmds)"
      using that "2.prems"(2) by (intro chain_inv_upd_current) (auto simp: argc_def)
    with 2 TOKEN_WORD ne show ?thesis
      by (fastforce simp: chain_size_def argc_def split: if_splits)
  next
    case TOKEN_REDIRECT_IN
    with 2 ne len show ?thesis
      by (fastforce simp: chain_size_def argc_def intro: chain_inv_redirect split: if_splits)
  next
    case TOKEN_REDIRECT_OUT
    with 2 ne len show ?thesis
      by (fastforce simp: chain_size_def argc_def intro: chain_inv_redirect split: if_splits)
  next
    case TOKEN_REDIRECT_APPEND
    with 2 ne len show ?thesis
      by (fastforce simp: chain_size_def argc_def intro: chain_inv_redirect split: if_splits)
  next
    case TOKEN_PIPE
    with 2 ne show ?thesis
      by (fastforce simp: chain_size_def intro: chain_inv_pipe split: if_splits)
  next
    case TOKEN_BACKGROUND
    let ?f = "\<lambda>c. c\<lparr>background := True\<rparr>"
    have "argc (?f (hd cmds)) \<le> 63" "chain_size (upd_head ?f cmds) = chain_size cmds"
      using "2.prems"(2) ne by (auto simp: chain_inv_def argc_def intro!: chain_size_upd_head)
    with 2 TOKEN_BACKGROUND show ?thesis
      by (fastforce intro: chain_inv_upd_head split: if_splits)
  qed
qed

lemma build_command_Some:
  assumes "build_command mem ts ctx = (Some cmds, st, msg)"
  shows "chain_ok cmds \<and> 2 * length cmds \<le> length ts + 1 \<and> st = ctx \<and> msg = []"
proof -
  from assms have loop: "build_loop mem ctx ts 1 [command_init] = Inr cmds"
    and argc: "\<forall>c\<in>set cmds. argc c \<noteq> 0" and eq: "st = ctx" "msg = []"
    by (auto simp: build_command_def memory_fail_def syntax_fail_def list_ex_iff
        split: if_splits sum.splits build_error.splits)
  from build_loop_inv [OF loop chain_inv_init]
  have inv: "chain_inv cmds" "chain_size cmds \<le> 2 + length ts"
    by (auto simp: chain_size_def)
  then have "1 \<le> argc (last cmds)" using argc by (simp add: chain_inv_def Suc_le_eq)
  with inv(2) have "2 * length cmds \<le> length ts + 1" by (simp add: chain_size_def)
  with inv argc eq show ?thesis by (auto simp: chain_inv_def chain_ok_def Suc_le_eq)
qed

lemma build_command_None:
  assumes "build_command mem ts ctx = (None, st, msg)"
  shows "msg \<noteq> [] \<and> (st = map_option (\<lambda>_. 2) ctx \<or> st = map_option (\<lambda>_. 1) ctx \<and> (\<exists>k. \<not> mem k))"
proof -
  have "build_loop mem ctx ts k cmds = Inl Memory \<Longrightarrow> \<exists>k. \<not> mem k" for k cmds
    by (induction mem ctx ts k cmds rule: build_loop.induct)
      (auto split: if_splits TokenType.splits simp: Let_def)
  with assms show ?thesis
    by (auto simp: build_command_def memory_fail_def syntax_fail_def
        split: if_splits sum.splits build_error.splits)
qed

section \<open>Printing a chain and parsing it back\<close>

definition render :: "token list \<Rightarrow> string" where
  "render ts = concat (map (\<lambda>t. tok_text t @ '' '') ts)"

abbreviation tok_word :: "string \<Rightarrow> token" where
  "tok_word s \<equiv> \<lparr>tok_text = s, tok_type = TOKEN_WORD\<rparr>"

definition cmd_tokens :: "command \<Rightarrow> token list" where
  "cmd_tokens c = map tok_word (argv c)
     @ (case input_file (redirect c) of None \<Rightarrow> []
        | Some f \<Rightarrow> [\<lparr>tok_text = ''<'', tok_type = TOKEN_REDIRECT_IN\<rparr>, tok_word f])
     @ (case output_file (redirect c) of None \<Rightarrow> []
        | Some f \<Rightarrow> [if append (redirect c) then \<lparr>tok_text = ''>>'', tok_type = TOKEN_REDIRECT_APPEND\<rparr>
                     else \<lparr>tok_text = ''>'', tok_type = TOKEN_REDIRECT_OUT\<rparr>, tok_word f])"

fun pipe_tokens :: "command list \<Rightarrow> token list" where
  "pipe_tokens [] = []"
| "pipe_tokens [c] = cmd_tokens c"
| "pipe_tokens (c # cs) = cmd_tokens c @ \<lparr>tok_text = ''|'', tok_type = TOKEN_PIPE\<rparr> # pipe_tokens cs"

definition chain_tokens :: "command list \<Rightarrow> token list" where
  "chain_tokens cmds = pipe_tokens cmds
     @ (if background (hd cmds) then [\<lparr>tok_text = ''&'', tok_type = TOKEN_BACKGROUND\<rparr>] else [])"

definition word_ok :: "string \<Rightarrow> bool" where
  "word_ok w \<longleftrightarrow> w \<noteq> [] \<and> list_all word_char w \<and> length w < TOKEN_SIZE"

definition printable :: "command \<Rightarrow> bool" where
  "printable c \<longleftrightarrow> argv c \<noteq> [] \<and> argc c \<le> MAX_ARGS - 1
     \<and> list_all (\<lambda>w. word_ok w \<and> w \<noteq> ''$?'') (argv c)
     \<and> (case input_file (redirect c) of None \<Rightarrow> True | Some f \<Rightarrow> word_ok f)
     \<and> (case output_file (redirect c) of None \<Rightarrow> True | Some f \<Rightarrow> word_ok f)
     \<and> (append (redirect c) \<longrightarrow> output_file (redirect c) \<noteq> None)"

lemma lex_space [simp]: "lex (CHR '' '' # s) = lex s"
  by (simp add: lex.simps [of "CHR '' '' # s"] lex.simps [of s] isspace_def ord_of_def)

lemma takeWhile_word:
  "list_all word_char w \<Longrightarrow> takeWhile word_char (w @ CHR '' '' # s) = w"
  by (induction w) (auto simp: isspace_def ord_of_def)

lemma token_at_render:
  assumes "token_ok t"
  shows "token_at (tok_text t @ CHR '' '' # s) = (tok_type t, length (tok_text t))"
proof (cases "tok_type t = TOKEN_WORD")
  case True
  with assms have w: "tok_text t \<noteq> []" "list_all word_char (tok_text t)"
    by (simp_all add: token_ok_def)
  then obtain c r where "tok_text t = c # r" "\<not> is_special c" by (cases "tok_text t") auto
  then have "token_at (tok_text t @ CHR '' '' # s) =
      (TOKEN_WORD, length (takeWhile word_char (tok_text t @ CHR '' '' # s)))"
    by (simp add: token_at_def is_special_def)
  with w True show ?thesis by (simp only: takeWhile_word)
next
  case False
  with assms show ?thesis
    by (cases "tok_type t") (auto simp: token_ok_def token_at_def)
qed

lemma token_ok_hd: "token_ok t \<Longrightarrow> tok_text t \<noteq> [] \<and> \<not> isspace (hd (tok_text t))"
  by (cases "tok_type t"; cases "tok_text t") (auto simp: token_ok_def isspace_def ord_of_def)

lemma lex_render: "\<forall>t\<in>set ts. token_ok t \<Longrightarrow> lex (render ts) = ts"
proof (induction ts)
  case Nil
  then show ?case by (simp add: render_def lex.simps)
next
  case (Cons t ts)
  let ?s = "tok_text t @ CHR '' '' # render ts"
  have t: "token_ok t" and r: "render (t # ts) = ?s" using Cons.prems by (simp_all add: render_def)
  then have "dropWhile isspace ?s = ?s"
    using token_ok_hd [OF t] by (cases "tok_text t") auto
  then have "lex ?s = t # lex (CHR '' '' # render ts)"
    using token_at_render [OF t, of "render ts"] by (simp add: lex.simps [of ?s] del: lex_space)
  with Cons r show ?case by simp
qed

lemma build_loop_words:
  assumes "list_all (\<lambda>w. w \<noteq> ''$?'') ws" and "argc c + length ws \<le> MAX_ARGS - 1"
  shows "build_loop (\<lambda>_. True) ctx (map tok_word ws @ ts) k (cs @ [c]) =
    build_loop (\<lambda>_. True) ctx ts (k + length ws) (cs @ [c\<lparr>argv := argv c @ ws\<rparr>])"
  using assms
proof (induction ws arbitrary: c k)
  case (Cons w ws)
  then show ?case by (simp add: argc_def expand_word_def)
qed simp

lemma build_loop_cmd:
  assumes "printable c"
  shows "\<exists>k'. build_loop (\<lambda>_. True) ctx (cmd_tokens c @ ts) k (cs @ [command_init]) =
    build_loop (\<lambda>_. True) ctx ts k' (cs @ [c\<lparr>background := False\<rparr>])"
proof -
  obtain as bg i out ap where c: "c = \<lparr>argv = as, background = bg,
      redirect = \<lparr>input_file = i, output_file = out, append = ap\<rparr>\<rparr>"
    by (metis command.cases redirection.cases)
  have ws: "list_all (\<lambda>w. w \<noteq> ''$?'') as" "argc command_init + length as \<le> MAX_ARGS - 1"
    using assms by (auto simp: c printable_def argc_def list_all_iff command_init_def)
  have words: "build_loop (\<lambda>_. True) ctx (map tok_word as @ R) k (cs @ [command_init]) =
      build_loop (\<lambda>_. True) ctx R (k + length as) (cs @ [\<lparr>argv = as, background = False,
        redirect = \<lparr>input_file = None, output_file = None, append = False\<rparr>\<rparr>])" for R
    by (simp add: build_loop_words [OF ws]) (simp add: command_init_def)
  show ?thesis
    using assms
    by (cases i; cases out; cases ap)
      (auto simp: c cmd_tokens_def printable_def words next_is_word_def)
qed

lemma build_loop_pipe:
  assumes "cmds \<noteq> []" and "\<forall>c\<in>set cmds. printable c"
  shows "\<exists>k'. build_loop (\<lambda>_. True) ctx (pipe_tokens cmds @ ts) k (cs @ [command_init]) =
    build_loop (\<lambda>_. True) ctx ts k' (cs @ map (\<lambda>c. c\<lparr>background := False\<rparr>) cmds)"
  using assms
proof (induction cmds arbitrary: k cs rule: pipe_tokens.induct)
  case (2 c)
  then show ?case using build_loop_cmd [of c] by simp
next
  case (3 c c' cs')
  have pr: "printable c" "printable c'" using "3.prems" by auto
  let ?strip = "\<lambda>c. c\<lparr>background := False\<rparr>"
  let ?rest = "pipe_tokens (c' # cs') @ ts"
  obtain k1 where k1: "build_loop (\<lambda>_. True) ctx (cmd_tokens c @ \<lparr>tok_text = ''|'', tok_type = TOKEN_PIPE\<rparr> # ?rest) k
      (cs @ [command_init]) =
      build_loop (\<lambda>_. True) ctx (\<lparr>tok_text = ''|'', tok_type = TOKEN_PIPE\<rparr> # ?rest) k1 (cs @ [?strip c])"
    using build_loop_cmd [OF pr(1)] by blast
  have "next_is_word ?rest"
    using pr(2) by (cases "argv c'"; cases cs') (auto simp: printable_def cmd_tokens_def next_is_word_def)
  moreover have "argc (?strip c) \<noteq> 0" using pr(1) by (simp add: printable_def argc_def)
  ultimately have "build_loop (\<lambda>_. True) ctx (\<lparr>tok_text = ''|'', tok_type = TOKEN_PIPE\<rparr> # ?rest) k1 (cs @ [?strip c]) =
      build_loop (\<lambda>_. True) ctx ?rest (Suc k1) ((cs @ [?strip c]) @ [command_init])"
    by simp
  moreover obtain k2 where "build_loop (\<lambda>_. True) ctx ?rest (Suc k1) ((cs @ [?strip c]) @ [command_init]) =
      build_loop (\<lambda>_. True) ctx ts k2 ((cs @ [?strip c]) @ map ?strip (c' # cs'))"
    using "3.IH" "3.prems" by (metis list.discI list.set_intros(2))
  ultimately show ?case using k1 by auto
qed simp

lemma token_ok_simps [simp]:
  "token_ok \<lparr>tok_text = w, tok_type = TOKEN_WORD\<rparr> \<longleftrightarrow> w \<noteq> [] \<and> list_all word_char w"
  "token_ok \<lparr>tok_text = w, tok_type = TOKEN_REDIRECT_OUT\<rparr> \<longleftrightarrow> w = ''>''"
  "token_ok \<lparr>tok_text = w, tok_type = TOKEN_REDIRECT_APPEND\<rparr> \<longleftrightarrow> w = ''>>''"
  "token_ok \<lparr>tok_text = w, tok_type = TOKEN_REDIRECT_IN\<rparr> \<longleftrightarrow> w = ''<''"
  "token_ok \<lparr>tok_text = w, tok_type = TOKEN_PIPE\<rparr> \<longleftrightarrow> w = ''|''"
  "token_ok \<lparr>tok_text = w, tok_type = TOKEN_BACKGROUND\<rparr> \<longleftrightarrow> w = ''&''"
  by (simp_all add: token_ok_def)

definition fits :: "token \<Rightarrow> bool" where
  "fits t \<longleftrightarrow> token_ok t \<and> \<not> token_long t"

lemma fits_word: "word_ok w \<Longrightarrow> fits (tok_word w)"
  by (simp add: word_ok_def fits_def token_long_def)

lemma fits_symbols [simp]:
  "fits \<lparr>tok_text = ''>'', tok_type = TOKEN_REDIRECT_OUT\<rparr>"
  "fits \<lparr>tok_text = ''>>'', tok_type = TOKEN_REDIRECT_APPEND\<rparr>"
  "fits \<lparr>tok_text = ''<'', tok_type = TOKEN_REDIRECT_IN\<rparr>"
  "fits \<lparr>tok_text = ''|'', tok_type = TOKEN_PIPE\<rparr>"
  "fits \<lparr>tok_text = ''&'', tok_type = TOKEN_BACKGROUND\<rparr>"
  by (simp_all add: fits_def token_long_def)

lemma cmd_tokens_fit: "printable c \<Longrightarrow> list_all fits (cmd_tokens c)"
  by (cases "input_file (redirect c)"; cases "output_file (redirect c)")
    (simp_all add: printable_def cmd_tokens_def list_all_iff fits_word)

lemma pipe_tokens_Cons:
  "cs \<noteq> [] \<Longrightarrow> pipe_tokens (c # cs) = cmd_tokens c @ \<lparr>tok_text = ''|'', tok_type = TOKEN_PIPE\<rparr> # pipe_tokens cs"
  by (cases cs) simp_all

lemma pipe_tokens_fit: "\<forall>c\<in>set cmds. printable c \<Longrightarrow> list_all fits (pipe_tokens cmds)"
proof (induction cmds)
  case (Cons c cs)
  then show ?case by (cases "cs = []") (simp_all add: pipe_tokens_Cons cmd_tokens_fit)
qed simp

lemma chain_tokens_fit: "\<forall>c\<in>set cmds. printable c \<Longrightarrow> list_all fits (chain_tokens cmds)"
  by (simp add: chain_tokens_def pipe_tokens_fit)

lemma build_command_chain:
  assumes "cmds \<noteq> []" and pr: "\<forall>c\<in>set cmds. printable c" and bg: "\<forall>c\<in>set (tl cmds). \<not> background c"
  shows "build_command (\<lambda>_. True) (chain_tokens cmds) ctx = (Some cmds, ctx, [])"
proof -
  obtain c cs where c: "cmds = c # cs" using assms(1) by (cases cmds) auto
  let ?strip = "\<lambda>c :: command. c\<lparr>background := False\<rparr>"
  have cs: "map ?strip cs = cs" using bg by (auto simp: c intro!: map_idI)
  have "build_loop (\<lambda>_. True) ctx (chain_tokens cmds) 1 [command_init] = Inr cmds"
  proof (cases "background c")
    case True
    with build_loop_pipe [OF assms(1) pr, of ctx "[\<lparr>tok_text = ''&'', tok_type = TOKEN_BACKGROUND\<rparr>]" 1 "[]"]
    show ?thesis by (auto simp: chain_tokens_def c upd_head_def cs)
  next
    case False
    with build_loop_pipe [OF assms(1) pr, of ctx "[]" 1 "[]"]
    show ?thesis by (auto simp: chain_tokens_def c cs)
  qed
  moreover have "\<not> list_ex (\<lambda>c. argc c = 0) cmds"
    using pr by (auto simp: list_ex_iff printable_def argc_def)
  ultimately show ?thesis by (simp add: build_command_def)
qed

lemma parse_render:
  assumes "cmds \<noteq> []" and "\<forall>c\<in>set cmds. printable c" and "\<forall>c\<in>set (tl cmds). \<not> background c"
    and "length (chain_tokens cmds) \<le> MAX_TOKEN"
  shows "parse_line (\<lambda>_. True) (Some (render (chain_tokens cmds))) ctx = (Some cmds, ctx, [])"
proof -
  have fit: "list_all fits (chain_tokens cmds)" using assms(2) by (rule chain_tokens_fit)
  then have "lex (render (chain_tokens cmds)) = chain_tokens cmds"
    by (intro lex_render) (simp add: list_all_iff fits_def)
  moreover have "\<not> list_ex token_long (take MAX_TOKEN (chain_tokens cmds))"
    using fit by (auto simp: list_ex_iff list_all_iff fits_def dest: in_set_takeD)
  ultimately have "tokenize (Some (render (chain_tokens cmds))) = Inr (chain_tokens cmds)"
    using assms(4) by (simp add: tokenize_capacity capacity_def)
  moreover have "chain_tokens cmds \<noteq> []"
    using assms(1,2) by (cases cmds; cases "tl cmds") (auto simp: chain_tokens_def cmd_tokens_def printable_def)
  ultimately show ?thesis
    using build_command_chain [OF assms(1-3)] by (simp add: parse_line_def)
qed

section \<open>Properties\<close>

text \<open>
  C30. The tokenizer is exactly the lexer with its two limits: it fails with
  \<^verbatim>\<open>TOKENIZE_TOO_LONG\<close> when one of the first 128 tokens has 256 characters or more, else with
  \<^verbatim>\<open>TOKENIZE_TOO_MANY\<close> when there are more than 128 tokens, and otherwise returns all of them.
\<close>

theorem tokenize_refines_lex:
  "tokenize (Some line) =
     (if \<exists>t\<in>set (take MAX_TOKEN (lex line)). TOKEN_SIZE \<le> length (tok_text t) then Inl TOKENIZE_TOO_LONG
      else if MAX_TOKEN < length (lex line) then Inl TOKENIZE_TOO_MANY
      else Inr (lex line))"
  by (simp add: tokenize_capacity capacity_def list_ex_iff token_long_def)

text \<open>
  A successful tokenization loses and invents nothing: the token texts in order are the
  line without its white space, every operator token spells its operator, every word is a
  non-empty run of characters that are neither white space nor operators, and the token array
  and every text buffer are within bounds.
\<close>

theorem tokenize_sound:
  assumes "tokenize (Some line) = Inr ts"
  shows "concat (map tok_text ts) = filter (\<lambda>c. \<not> isspace c) line
    \<and> (\<forall>t\<in>set ts. token_ok t \<and> length (tok_text t) < TOKEN_SIZE) \<and> length ts \<le> MAX_TOKEN"
proof -
  from assms have ts: "ts = lex line" "length ts \<le> MAX_TOKEN" "\<not> list_ex token_long ts"
    by (auto simp: tokenize_capacity capacity_def split: if_splits)
  then show ?thesis
    using lex_texts [of line] lex_ok [of line]
    by (auto simp: list_ex_iff token_long_def not_le)
qed

theorem tokenize_sound_witness:
  "tokenize (Some ''ls -l>out'') =
      Inr [tok_word ''ls'', tok_word ''-l'', \<lparr>tok_text = ''>'', tok_type = TOKEN_REDIRECT_OUT\<rparr>, tok_word ''out'']
   \<and> concat (map tok_text [tok_word ''ls'', tok_word ''-l'',
        \<lparr>tok_text = ''>'', tok_type = TOKEN_REDIRECT_OUT\<rparr>, tok_word ''out'']) = filter (\<lambda>c. \<not> isspace c) ''ls -l>out''"
proof -
  have t: "tokenize (Some ''ls -l>out'') =
      Inr [tok_word ''ls'', tok_word ''-l'', \<lparr>tok_text = ''>'', tok_type = TOKEN_REDIRECT_OUT\<rparr>, tok_word ''out'']"
    by code_simp
  show ?thesis using t tokenize_sound [OF t] by blast
qed

text \<open>
  C22. A parse that returns a command chain returns one the executor can run: not empty, every
  command with 1 to 63 arguments, the background flag on the head only, and at most 64 commands
  (the executor's \<^verbatim>\<open>MAX_PIPELINE\<close>).  It leaves the exit status alone and prints nothing.
\<close>

theorem parse_line_chain_ok:
  assumes "parse_line mem (Some line) ctx = (Some cmds, st, msg)"
  shows "chain_ok cmds \<and> length cmds \<le> 64 \<and> st = ctx \<and> msg = []"
proof -
  from assms obtain ts where ts: "tokenize (Some line) = Inr ts" "build_command mem ts ctx = (Some cmds, st, msg)"
    by (auto simp: parse_line_def tokenize_fail_def split: sum.splits if_splits)
  have "length ts \<le> MAX_TOKEN"
    using ts(1) by (auto simp: tokenize_capacity capacity_def split: if_splits)
  with build_command_Some [OF ts(2)] show ?thesis by auto
qed

definition ls_wc :: "command list" where
  "ls_wc = [\<lparr>argv = [''ls''], background = True,
              redirect = \<lparr>input_file = None, output_file = None, append = False\<rparr>\<rparr>,
            \<lparr>argv = [''wc'', ''-l''], background = False,
              redirect = \<lparr>input_file = None, output_file = Some ''n'', append = True\<rparr>\<rparr>]"

theorem parse_line_chain_ok_witness:
  "parse_line (\<lambda>_. True) (Some ''ls|wc -l >>n &'') (Some 3) = (Some ls_wc, Some 3, []) \<and> chain_ok ls_wc"
proof -
  have p: "parse_line (\<lambda>_. True) (Some ''ls|wc -l >>n &'') (Some 3) = (Some ls_wc, Some 3, [])"
    by code_simp
  show ?thesis using p parse_line_chain_ok [OF p] by blast
qed

text \<open>
  C32. A parse that returns no chain either met a blank line (status and standard error
  untouched) or failed: then it printed a message and set the status to 2, or to 1 when an
  allocation failed.
\<close>

theorem parse_line_failure:
  assumes "parse_line mem (Some line) ctx = (None, st, msg)"
  shows "(lex line = [] \<and> st = ctx \<and> msg = [])
    \<or> (msg \<noteq> [] \<and> (st = map_option (\<lambda>_. 2) ctx \<or> st = map_option (\<lambda>_. 1) ctx \<and> (\<exists>k. \<not> mem k)))"
proof (cases "tokenize (Some line)")
  case (Inl e)
  with assms show ?thesis by (auto simp: parse_line_def tokenize_fail_def)
next
  case (Inr ts)
  then have "ts = lex line" by (auto simp: tokenize_capacity capacity_def split: if_splits)
  with Inr assms show ?thesis
    by (auto simp: parse_line_def split: if_splits dest: build_command_None)
qed

theorem parse_line_failure_witness:
  "parse_line (\<lambda>_. True) (Some ''ls | '') (Some 0) =
      (None, Some 2, ''minishell: syntax error: expected command after '' @ quoted ''|'' @ [NL])
   \<and> (lex ''ls | '' = [] \<or> (Some 2 :: int option) = map_option (\<lambda>_. 2) (Some (0 :: int)))"
proof -
  have p: "parse_line (\<lambda>_. True) (Some ''ls | '') (Some 0) =
      (None, Some 2, ''minishell: syntax error: expected command after '' @ quoted ''|'' @ [NL])"
    by code_simp
  show ?thesis using p parse_line_failure [OF p] by auto
qed

text \<open>
  C3. Parsing inverts printing: a chain of commands whose words need no quoting, printed as a
  line, parses back to the same chain, with every redirection, pipe and background flag in
  place.
\<close>

theorem parse_line_roundtrip:
  assumes "cmds \<noteq> []" and "\<forall>c\<in>set cmds. printable c" and "\<forall>c\<in>set (tl cmds). \<not> background c"
    and "length (chain_tokens cmds) \<le> MAX_TOKEN"
  shows "parse_line (\<lambda>_. True) (Some (render (chain_tokens cmds))) ctx = (Some cmds, ctx, [])"
  using assms by (rule parse_render)

theorem parse_line_roundtrip_witness:
  "ls_wc \<noteq> [] \<and> parse_line (\<lambda>_. True) (Some (render (chain_tokens ls_wc))) (Some 0) = (Some ls_wc, Some 0, [])"
proof -
  have h: "ls_wc \<noteq> []" "\<forall>c\<in>set ls_wc. printable c" "\<forall>c\<in>set (tl ls_wc). \<not> background c"
    "length (chain_tokens ls_wc) \<le> MAX_TOKEN"
    by code_simp+
  show ?thesis using h(1) parse_line_roundtrip [OF h] by blast
qed

end
