(* ===== verification/Config.thy ===== *)
theory Config
  imports Common
begin

text \<open>
  The shell configuration, \<^verbatim>\<open>src/config/config.c\<close>.  The file the configuration is read from
  is what \<^verbatim>\<open>fopen\<close> answers: an error, or the bytes delivered together with whether the
  stream ends in a read error and whether \<^verbatim>\<open>fclose\<close> fails.
\<close>

record MiniShellConfig =
  prompts :: string
  max_job :: int
  debug :: int

datatype file_outcome = Fopen_fails int | File (file_bytes: "char list") (read_error: bool) (close_error: bool)

section \<open>\<^verbatim>\<open>fgets\<close>\<close>

text \<open>
  One call of \<^verbatim>\<open>fgets\<close> with a buffer of \<open>n\<close> bytes on a stream that still holds \<open>s\<close>: the
  bytes stored and the bytes left.  The end of the file was seen (\<^verbatim>\<open>feof\<close>) exactly when the
  stored bytes neither end in a newline nor fill the buffer.
\<close>

definition fgets :: "nat \<Rightarrow> char list \<Rightarrow> char list \<times> char list" where
  "fgets n s =
     (let l = takeWhile (\<lambda>c. c \<noteq> NL) (take (n - 1) s);
          k = (if length l < min (n - 1) (length s) then Suc (length l) else length l)
      in (take k s, drop k s))"

definition fgets_eof :: "nat \<Rightarrow> char list \<Rightarrow> bool" where
  "fgets_eof n line \<longleftrightarrow> length line < n - 1 \<and> (line = [] \<or> last line \<noteq> NL)"

section \<open>Operations\<close>

definition trim_space :: "string \<Rightarrow> string" where
  "trim_space s = rstrip (dropWhile isspace s)"

definition config_init :: MiniShellConfig where
  "config_init = \<lparr>prompts = ''MiniShell'', max_job = 64, debug = 0\<rparr>"

definition config_parse_line :: "string \<Rightarrow> MiniShellConfig \<Rightarrow> int + MiniShellConfig" where
  "config_parse_line line configs =
     (let text = trim_space line in
      if text = [] \<or> hd text = CHR ''#'' then Inr configs
      else case split_at (CHR ''='') text of
        None \<Rightarrow> Inl MiniShell_ERR_PARSE
      | Some (k, v) \<Rightarrow>
          (let key = trim_space k; value = trim_space v in
           if key = [] then Inl MiniShell_ERR_PARSE
           else if key = ''prompts'' then
             (if value = [] \<or> length value \<ge> 64 then Inl MiniShell_ERR_PARSE
              else Inr (configs\<lparr>prompts := value\<rparr>))
           else if key = ''max_job'' then
             (case strtol10 value of (number, end_text, erange) \<Rightarrow>
                if erange \<or> end_text = value \<or> end_text \<noteq> [] \<or> number \<le> 0 \<or> number > INT_MAX
                then Inl MiniShell_ERR_PARSE else Inr (configs\<lparr>max_job := number\<rparr>))
           else if key = ''debug'' then
             (if value = ''0'' then Inr (configs\<lparr>debug := 0\<rparr>)
              else if value = ''1'' then Inr (configs\<lparr>debug := 1\<rparr>)
              else Inl MiniShell_ERR_PARSE)
           else Inl MiniShell_ERR_PARSE))"

lemma fgets_shrinks: "s \<noteq> [] \<Longrightarrow> 1 < n \<Longrightarrow> length (snd (fgets n s)) < length s"
  by (cases s; cases "n - 1") (auto simp: fgets_def Let_def)

text \<open>The read loop of \<^verbatim>\<open>config_load\<close>; \<open>err\<close> is whether the stream ends in a read error.\<close>

function config_lines :: "bool \<Rightarrow> char list \<Rightarrow> MiniShellConfig \<Rightarrow> int + MiniShellConfig" where
  "config_lines err s configs =
     (if s = [] then Inr configs
      else let line = fst (fgets 256 s); rest = snd (fgets 256 s);
               eof = fgets_eof 256 line; text = cstr line
           in if eof \<and> err then Inr configs
              else if 0 < length text \<and> last text \<noteq> NL \<and> \<not> eof then Inl MiniShell_ERR_PARSE
              else case config_parse_line text configs of
                     Inl result \<Rightarrow> Inl result
                   | Inr configs' \<Rightarrow> config_lines err rest configs')"
  by pat_completeness auto
termination
  by (relation "measure (\<lambda>(err, s, configs). length s)") (auto intro: fgets_shrinks)

declare config_lines.simps [simp del]

definition config_load :: "MiniShellConfig \<Rightarrow> file_outcome \<Rightarrow> int \<times> MiniShellConfig" where
  "config_load configs file = (case file of
     Fopen_fails e \<Rightarrow> (MiniShell_ERR_OPEN, configs)
   | File s err close_fails \<Rightarrow>
       (case config_lines err s config_init of
          Inl result \<Rightarrow> (result, configs)
        | Inr temporary \<Rightarrow>
            if err then (MiniShell_ERR_OPEN, configs)
            else if close_fails then (MiniShell_ERR_OPEN, configs)
            else (MiniShell_OK, temporary)))"

section \<open>Every configuration in use is valid\<close>

definition config_ok :: "MiniShellConfig \<Rightarrow> bool" where
  "config_ok c \<longleftrightarrow> prompts c \<noteq> [] \<and> length (prompts c) < 64 \<and> 1 \<le> max_job c \<and> max_job c \<le> INT_MAX
     \<and> (debug c = 0 \<or> debug c = 1)"

lemma config_init_ok [simp]: "config_ok config_init"
  by (simp add: config_ok_def config_init_def)

lemma config_parse_line_ok:
  "config_parse_line line c = Inr c' \<Longrightarrow> config_ok c \<Longrightarrow> config_ok c'"
  by (auto simp: config_parse_line_def config_ok_def Let_def split: if_splits option.splits prod.splits)

lemma config_parse_line_error:
  "config_parse_line line c = Inl e \<Longrightarrow> e = MiniShell_ERR_PARSE"
  by (auto simp: config_parse_line_def Let_def split: if_splits option.splits prod.splits)

lemma config_lines_ok: "config_lines err s c = Inr c' \<Longrightarrow> config_ok c \<Longrightarrow> config_ok c'"
proof (induction err s c rule: config_lines.induct)
  case (1 err s c)
  then show ?case
    by (auto simp: config_lines.simps [of err s c] Let_def split: if_splits sum.splits
        dest: config_parse_line_ok)
qed

lemma config_lines_error: "config_lines err s c = Inl e \<Longrightarrow> e = MiniShell_ERR_PARSE"
proof (induction err s c rule: config_lines.induct)
  case (1 err s c)
  then show ?case
    by (auto simp: config_lines.simps [of err s c] Let_def split: if_splits sum.splits
        dest: config_parse_line_error)
qed

section \<open>Writing a configuration file and loading it back\<close>

definition config_text :: "MiniShellConfig \<Rightarrow> string" where
  "config_text c = ''prompts='' @ prompts c @ [NL] @ ''max_job='' @ dec_int (max_job c) @ [NL]
     @ ''debug='' @ dec_int (debug c) @ [NL]"

text \<open>A prompt that fits on a line: no newline, no NUL, no white space at either end.\<close>

definition prompt_ok :: "string \<Rightarrow> bool" where
  "prompt_ok p \<longleftrightarrow> NL \<notin> set p \<and> NUL \<notin> set p \<and> trim_space p = p"

lemma isspace_NL [simp]: "isspace NL"
  by (simp add: isspace_def ord_of_def)

lemma trim_space_id: "s \<noteq> [] \<Longrightarrow> \<not> isspace (hd s) \<Longrightarrow> \<not> isspace (last s) \<Longrightarrow> trim_space s = s"
  by (cases s) (auto simp: trim_space_def intro!: rstrip_id)

lemma trim_space_line:
  assumes "s \<noteq> []" and "\<not> isspace (hd s)" and "\<not> isspace (last s)"
  shows "trim_space (s @ [NL]) = s"
proof -
  have "dropWhile isspace (s @ [NL]) = s @ [NL]" using assms(1,2) by (cases s) auto
  then show ?thesis using assms(3) by (simp add: trim_space_def rstrip_id)
qed

lemma trim_space_fixed:
  "trim_space p = p \<Longrightarrow> p \<noteq> [] \<Longrightarrow> \<not> isspace (hd p) \<and> \<not> isspace (last p)"
proof -
  assume p: "trim_space p = p" "p \<noteq> []"
  have "length p \<le> length (dropWhile isspace p)"
    using p(1) length_rstrip [of "dropWhile isspace p"] by (simp add: trim_space_def)
  moreover have "length (takeWhile isspace p) + length (dropWhile isspace p) = length p"
    by (simp flip: length_append)
  ultimately have "length (takeWhile isspace p) = 0" by linarith
  then have "\<not> isspace (hd p)" using p(2) by (cases p) (auto split: if_splits)
  moreover have "\<not> isspace (last p)"
    using p rstrip_last [of "dropWhile isspace p"] by (simp add: trim_space_def)
  ultimately show ?thesis by blast
qed

lemma fgets_line:
  assumes "NL \<notin> set l" and "length l < 255"
  shows "fgets 256 (l @ NL # s) = (l @ [NL], s)" and "\<not> fgets_eof 256 (l @ [NL])"
proof -
  have "take 255 (l @ NL # s) = l @ NL # take (254 - length l) s"
    using assms(2) by (simp add: take_Cons')
  then have "takeWhile (\<lambda>c. c \<noteq> NL) (take 255 (l @ NL # s)) = l"
    using assms(1) by (simp add: takeWhile_stop)
  then show "fgets 256 (l @ NL # s) = (l @ [NL], s)"
    using assms(2) by (simp add: fgets_def)
qed (simp add: fgets_eof_def)

lemma config_lines_step:
  assumes "NL \<notin> set l" and "NUL \<notin> set l" and "length l < 255"
    and "config_parse_line (l @ [NL]) c = Inr c'"
  shows "config_lines err (l @ NL # s) c = config_lines err s c'"
  using assms
  by (simp add: config_lines.simps [of err "l @ NL # s"] fgets_line cstr_id)

lemma config_parse_assign:
  assumes "k \<noteq> []" and "list_all (\<lambda>c. \<not> isspace c \<and> c \<noteq> CHR ''='' \<and> c \<noteq> CHR ''#'') k"
    and "v \<noteq> []" and "trim_space v = v"
  shows "config_parse_line (k @ CHR ''='' # v @ [NL]) c =
    (if k = ''prompts'' then
       (if length v \<ge> 64 then Inl MiniShell_ERR_PARSE else Inr (c\<lparr>prompts := v\<rparr>))
     else if k = ''max_job'' then
       (case strtol10 v of (number, end_text, erange) \<Rightarrow>
          if erange \<or> end_text = v \<or> end_text \<noteq> [] \<or> number \<le> 0 \<or> number > INT_MAX
          then Inl MiniShell_ERR_PARSE else Inr (c\<lparr>max_job := number\<rparr>))
     else if k = ''debug'' then
       (if v = ''0'' then Inr (c\<lparr>debug := 0\<rparr>) else if v = ''1'' then Inr (c\<lparr>debug := 1\<rparr>)
        else Inl MiniShell_ERR_PARSE)
     else Inl MiniShell_ERR_PARSE)"
proof -
  have k: "\<not> isspace (hd k)" "\<not> isspace (last k)" "hd k \<noteq> CHR ''#''" "CHR ''='' \<notin> set k"
    using assms(1,2) by (auto simp: list_all_iff)
  have v: "\<not> isspace (last v)" using trim_space_fixed assms(3,4) by blast
  have "trim_space (k @ CHR ''='' # v @ [NL]) = k @ CHR ''='' # v"
    using trim_space_line [of "k @ CHR ''='' # v"] k v assms(1,3) by simp
  moreover have "trim_space k = k" using k assms(1) by (intro trim_space_id)
  moreover have "split_at (CHR ''='') (k @ CHR ''='' # v) = Some (k, v)"
    using k(4) by (rule split_at_append)
  ultimately show ?thesis
    using assms(1,3,4) k(3) by (simp add: config_parse_line_def)
qed

lemma trim_space_dec: "trim_space (dec n) = dec n"
proof -
  have "hd (dec n) \<in> set (dec n)" "last (dec n) \<in> set (dec n)" by simp_all
  then have "\<not> isspace (hd (dec n))" "\<not> isspace (last (dec n))"
    using dec_isdigit [of n] isdigit_not_isspace by blast+
  then show ?thesis by (intro trim_space_id) simp_all
qed

lemma NL_notin_dec: "NL \<notin> set (dec n)"
  using dec_isdigit [of n] isdigit_not_isspace isspace_NL by blast

lemma config_load_text:
  assumes ok: "config_ok c" and pr: "prompt_ok (prompts c)"
  shows "config_load old (File (config_text c) False False) = (MiniShell_OK, c)"
proof -
  let ?c1 = "config_init\<lparr>prompts := prompts c\<rparr>" and ?j = "nat (max_job c)"
  let ?rest2 = "''debug='' @ dec_int (debug c) @ [NL]"
  let ?rest1 = "''max_job='' @ dec ?j @ NL # ?rest2"
  have j: "0 < ?j" "int ?j \<le> INT_MAX" "max_job c = int ?j" using ok by (simp_all add: config_ok_def)
  have "?j \<le> 2147483647" using j(2) by linarith
  then have "?j < 10 ^ 10" by (rule order_le_less_trans) simp
  then have lenj: "length (dec ?j) \<le> 10" by (rule length_dec) simp
  have ctext: "config_text c = (''prompts='' @ prompts c) @ NL # ?rest1"
    using j by (simp add: config_text_def dec_int_def)
  have l1: "config_parse_line (''prompts'' @ CHR ''='' # prompts c @ [NL]) config_init = Inr ?c1"
    using ok pr by (subst config_parse_assign) (simp_all add: config_ok_def prompt_ok_def isspace_def ord_of_def)
  have "config_lines False (config_text c) config_init = config_lines False ?rest1 ?c1"
    unfolding ctext using l1 ok pr
    by (intro config_lines_step) (simp_all add: config_ok_def prompt_ok_def)
  moreover have l2: "config_parse_line (''max_job'' @ CHR ''='' # dec ?j @ [NL]) ?c1 = Inr (?c1\<lparr>max_job := max_job c\<rparr>)"
    using j dec_not_Nil [symmetric] by (subst config_parse_assign) (simp_all add: trim_space_dec strtol10_dec isspace_def ord_of_def)
  then have "config_lines False ((''max_job='' @ dec ?j) @ NL # ?rest2) ?c1 =
      config_lines False ?rest2 (?c1\<lparr>max_job := max_job c\<rparr>)"
    using lenj by (intro config_lines_step) (simp_all add: NL_notin_dec dec_no_nul)
  moreover have "config_lines False ?rest2 (?c1\<lparr>max_job := max_job c\<rparr>) = Inr c"
  proof -
    consider "debug c = 0" | "debug c = 1" using ok by (auto simp: config_ok_def)
    then show ?thesis
    proof cases
      case 1
      have "config_parse_line (''debug'' @ CHR ''='' # ''0'' @ [NL]) (?c1\<lparr>max_job := max_job c\<rparr>) = Inr c"
        using 1 by (subst config_parse_assign) (simp_all add: config_init_def isspace_def ord_of_def trim_space_id)
      then show ?thesis
        using 1 config_lines_step [of "''debug=0''" "?c1\<lparr>max_job := max_job c\<rparr>" c False "[]"]
        by (simp add: dec_int_def config_lines.simps [of False "[]"])
    next
      case 2
      have "dec 1 = ''1''" by code_simp
      moreover have "config_parse_line (''debug'' @ CHR ''='' # ''1'' @ [NL]) (?c1\<lparr>max_job := max_job c\<rparr>) = Inr c"
        using 2 by (subst config_parse_assign) (simp_all add: config_init_def isspace_def ord_of_def trim_space_id)
      ultimately show ?thesis
        using 2 config_lines_step [of "''debug=1''" "?c1\<lparr>max_job := max_job c\<rparr>" c False "[]"]
        by (simp add: dec_int_def config_lines.simps [of False "[]"])
    qed
  qed
  ultimately show ?thesis by (simp add: config_load_def)
qed

section \<open>Properties\<close>

text \<open>
  C15. Loading a configuration is all or nothing and never yields an invalid one: on any file,
  with any read or close error, either the call reports success and the new configuration is
  valid (a prompt of 1 to 63 characters, a job limit between 1 and \<^verbatim>\<open>INT_MAX\<close>, debug 0 or 1)
  and independent of the old one, or it reports a parse or open error and the configuration is
  the old one.
\<close>

theorem config_load_all_or_nothing:
  "(\<exists>new. \<forall>configs. config_load configs outcome = (MiniShell_OK, new) \<and> config_ok new)
   \<or> (\<exists>e\<in>{MiniShell_ERR_PARSE, MiniShell_ERR_OPEN}. \<forall>configs. config_load configs outcome = (e, configs))"
proof (cases outcome)
  case (Fopen_fails e)
  then show ?thesis by (auto simp: config_load_def)
next
  case (File s err cl)
  show ?thesis
  proof (cases "config_lines err s config_init")
    case (Inl e)
    with File show ?thesis by (auto simp: config_load_def dest: config_lines_error)
  next
    case (Inr c)
    with File config_lines_ok [OF Inr] show ?thesis by (cases err; cases cl) (auto simp: config_load_def)
  qed
qed

text \<open>
  Writing a valid configuration as a file and loading that file gives the configuration
  back, whatever was configured before.
\<close>

theorem config_load_roundtrip:
  assumes "config_ok c" and "prompt_ok (prompts c)"
  shows "config_load old (File (config_text c) False False) = (MiniShell_OK, c)"
  using assms by (rule config_load_text)

theorem config_load_roundtrip_witness:
  "config_load config_init (File (''prompts=dev board'' @ [NL] @ ''max_job=12'' @ [NL] @ ''debug=1'' @ [NL]) False False)
     = (MiniShell_OK, \<lparr>prompts = ''dev board'', max_job = 12, debug = 1\<rparr>)"
proof -
  let ?c = "\<lparr>prompts = ''dev board'', max_job = 12, debug = 1\<rparr>"
  have h: "config_ok ?c" "prompt_ok (prompts ?c)" by code_simp+
  have t: "config_text ?c = ''prompts=dev board'' @ [NL] @ ''max_job=12'' @ [NL] @ ''debug=1'' @ [NL]"
    by code_simp
  show ?thesis using config_load_roundtrip [OF h, of config_init] by (simp only: t)
qed

end
