(* ===== verification/Sysio.thy ===== *)
theory Sysio
  imports Prelude
begin

text \<open>
  The operating system as the device code sees it.  The fields of \<open>sysio\<close> are the system calls the
  sources make, functions of the world \<open>'w\<close>; \<open>Inl e\<close> is a call that fails with \<^verbatim>\<open>errno = e\<close>.  A
  successful \<^verbatim>\<open>read\<close> gives the bytes, \<^verbatim>\<open>poll\<close> on one descriptor \<open>None\<close> for its timeout and the
  returned events otherwise, \<^verbatim>\<open>clock_gettime\<close> seconds and nanoseconds.
\<close>

section \<open>Bytes and characters\<close>

definition byte_char :: "byte \<Rightarrow> char" where
  "byte_char b = char_of (unat b)"

definition char_byte :: "char \<Rightarrow> byte" where
  "char_byte c = of_nat (ord_of c)"

lemma unat_byte_less: "unat (b :: byte) < 256"
  using unsigned_less [of b, where 'a = nat] by simp

lemma byte_char_byte [simp]: "byte_char (char_byte c) = c"
  using ord_of_less [of c] by (simp add: byte_char_def char_byte_def unat_of_nat)

lemma char_byte_char [simp]: "char_byte (byte_char b) = b"
  using unat_byte_less [of b] by (simp add: byte_char_def char_byte_def ord_of_char_of)

lemma map_byte_char_byte [simp]: "map byte_char (map char_byte s) = s"
  by (simp add: comp_def)

lemma map_char_byte_char [simp]: "map char_byte (map byte_char bs) = bs"
  by (simp add: comp_def)

section \<open>System calls\<close>

text \<open>\<^verbatim>\<open>struct termios\<close> of the C library.\<close>

record termios =
  c_iflag :: uint32
  c_oflag :: uint32
  c_cflag :: uint32
  c_lflag :: uint32
  c_cc :: "byte list"
  c_ispeed :: uint32
  c_ospeed :: uint32

definition termios_zero :: termios where
  "termios_zero = \<lparr>c_iflag = 0, c_oflag = 0, c_cflag = 0, c_lflag = 0, c_cc = replicate 32 0,
     c_ispeed = 0, c_ospeed = 0\<rparr>"

record gpiohandle_request =
  lineoffset :: uint32
  flags_of :: uint32
  default_value :: byte
  consumer_label :: string

record 'w sysio =
  sys_open :: "string \<Rightarrow> uint32 \<Rightarrow> 'w \<Rightarrow> (int + int) \<times> 'w"
  sys_close :: "int \<Rightarrow> 'w \<Rightarrow> (int + unit) \<times> 'w"
  sys_read :: "int \<Rightarrow> nat \<Rightarrow> 'w \<Rightarrow> (int + byte list) \<times> 'w"
  sys_write :: "int \<Rightarrow> byte list \<Rightarrow> 'w \<Rightarrow> (int + nat) \<times> 'w"
  sys_poll :: "int \<Rightarrow> uint32 \<Rightarrow> int \<Rightarrow> 'w \<Rightarrow> (int + uint32 option) \<times> 'w"
  sys_clock_gettime :: "'w \<Rightarrow> (int + nat \<times> nat) \<times> 'w"
  sys_tcgetattr :: "int \<Rightarrow> 'w \<Rightarrow> (int + termios) \<times> 'w"
  sys_tcsetattr :: "int \<Rightarrow> int \<Rightarrow> termios \<Rightarrow> 'w \<Rightarrow> (int + unit) \<times> 'w"
  sys_tcflush :: "int \<Rightarrow> int \<Rightarrow> 'w \<Rightarrow> (int + unit) \<times> 'w"
  ioctl_i2c_slave :: "int \<Rightarrow> byte \<Rightarrow> 'w \<Rightarrow> (int + unit) \<times> 'w"
  ioctl_i2c_quick :: "int \<Rightarrow> 'w \<Rightarrow> (int + unit) \<times> 'w"
  ioctl_gpio_linehandle :: "int \<Rightarrow> gpiohandle_request \<Rightarrow> 'w \<Rightarrow> (int + int) \<times> 'w"
  ioctl_gpio_get :: "int \<Rightarrow> 'w \<Rightarrow> (int + byte) \<times> 'w"
  ioctl_gpio_set :: "int \<Rightarrow> byte \<Rightarrow> 'w \<Rightarrow> (int + unit) \<times> 'w"

abbreviation (input) O_RDONLY :: uint32 where "O_RDONLY \<equiv> 0"
abbreviation (input) O_WRONLY :: uint32 where "O_WRONLY \<equiv> 1"
abbreviation (input) O_RDWR :: uint32 where "O_RDWR \<equiv> 2"
abbreviation (input) O_NOCTTY :: uint32 where "O_NOCTTY \<equiv> 0x100"
abbreviation (input) O_NONBLOCK :: uint32 where "O_NONBLOCK \<equiv> 0x800"
abbreviation (input) O_CLOEXEC :: uint32 where "O_CLOEXEC \<equiv> 0x80000"
abbreviation (input) POLLIN :: uint32 where "POLLIN \<equiv> 1"
abbreviation (input) POLLOUT :: uint32 where "POLLOUT \<equiv> 4"
abbreviation (input) POLLERR :: uint32 where "POLLERR \<equiv> 8"
abbreviation (input) POLLHUP :: uint32 where "POLLHUP \<equiv> 16"
abbreviation (input) POLLNVAL :: uint32 where "POLLNVAL \<equiv> 32"

text \<open>What POSIX says of descriptors and counts: \<^verbatim>\<open>open\<close> gives a non-negative descriptor, \<^verbatim>\<open>read\<close> and
  \<^verbatim>\<open>write\<close> transfer at most what they are asked for.\<close>

definition posix :: "('w, 'x) sysio_scheme \<Rightarrow> bool" where
  "posix K \<longleftrightarrow> (\<forall>p f w fd w'. sys_open K p f w = (Inr fd, w') \<longrightarrow> 0 \<le> fd)
     \<and> (\<forall>fd n w bs w'. sys_read K fd n w = (Inr bs, w') \<longrightarrow> length bs \<le> n)
     \<and> (\<forall>fd bs w n w'. sys_write K fd bs w = (Inr n, w') \<longrightarrow> n \<le> length bs)
     \<and> (\<forall>fd r w h w'. ioctl_gpio_linehandle K fd r w = (Inr h, w') \<longrightarrow> 0 \<le> h)"

text \<open>No interruptible call is interrupted for ever.\<close>

definition sys_settling :: "('w, 'x) sysio_scheme \<Rightarrow> bool" where
  "sys_settling K \<longleftrightarrow> (\<forall>fd n w. \<exists>k. settles k (sys_read K fd n) w)
     \<and> (\<forall>fd bs w. \<exists>k. settles k (sys_write K fd bs) w)
     \<and> (\<forall>fd q w. \<exists>k. settles k (sys_tcflush K fd q) w)"

lemma sys_settling_retry:
  assumes "sys_settling K"
  shows "\<exists>r w'. retry (sys_read K fd n) w = Some (r, w')" "\<exists>r w'. retry (sys_write K fd bs) w = Some (r, w')"
    "\<exists>r w'. retry (sys_tcflush K fd q) w = Some (r, w')"
  using assms unfolding sys_settling_def by (meson retry_settles)+

text \<open>A retried call is, in the end, one call made in a world that the interruptions lead to.\<close>

lemma retry_reaches:
  assumes "retry call w = Some (r, w')" and "\<And>w w'. call w = (Inl EINTR, w') \<Longrightarrow> P w \<Longrightarrow> P w'" and "P w"
  shows "\<exists>w1. P w1 \<and> call w1 = (r, w')"
proof -
  let ?Q = "\<lambda>c w x. c = call \<longrightarrow> P w \<longrightarrow> (\<exists>w1. P w1 \<and> call w1 = x)"
  have "?Q call w (r, w')"
  proof (rule retry.raw_induct [where P = ?Q, OF _ assms(1)])
    fix f c w x
    assume IH: "\<And>c w x. f c w = Some x \<Longrightarrow> ?Q c w x"
      and eq: "(case c w of (Inl e, w') \<Rightarrow> if e = EINTR then f c w' else Some (Inl e, w')
                | (Inr v, w') \<Rightarrow> Some (Inr v, w')) = Some x"
    obtain a w1 where c: "c w = (a, w1)" by (cases "c w")
    have "x = (a, w1) \<or> a = Inl EINTR \<and> f c w1 = Some x"
      using eq by (auto simp: c split: sum.splits if_splits)
    moreover have "x = (a, w1) \<Longrightarrow> ?Q c w x" using c by auto
    moreover have "a = Inl EINTR \<Longrightarrow> f c w1 = Some x \<Longrightarrow> ?Q c w x" using IH [of c w1 x] c assms(2) by blast
    ultimately show "?Q c w x" by blast
  qed
  with assms(3) show ?thesis by auto
qed

section \<open>Open descriptors\<close>

text \<open>\<open>fds\<close> is the set of the process's open descriptors: \<^verbatim>\<open>open\<close> and the GPIO line request add a fresh
  one, \<^verbatim>\<open>close\<close> removes its argument even when it reports an error (as Linux documents), and the other
  calls open and close nothing.\<close>

definition fd_table :: "('w, 'x) sysio_scheme \<Rightarrow> ('w \<Rightarrow> int set) \<Rightarrow> bool" where
  "fd_table K fds \<longleftrightarrow>
     (\<forall>p f w r w'. sys_open K p f w = (r, w') \<longrightarrow>
        (case r of Inr fd \<Rightarrow> 0 \<le> fd \<and> fd \<notin> fds w \<and> fds w' = insert fd (fds w) | Inl _ \<Rightarrow> fds w' = fds w))
     \<and> (\<forall>fd w r w'. sys_close K fd w = (r, w') \<longrightarrow> fds w' = fds w - {fd})
     \<and> (\<forall>fd n w r w'. sys_read K fd n w = (r, w') \<longrightarrow> fds w' = fds w)
     \<and> (\<forall>fd bs w r w'. sys_write K fd bs w = (r, w') \<longrightarrow> fds w' = fds w)
     \<and> (\<forall>fd w r w'. sys_tcgetattr K fd w = (r, w') \<longrightarrow> fds w' = fds w)
     \<and> (\<forall>fd a t w r w'. sys_tcsetattr K fd a t w = (r, w') \<longrightarrow> fds w' = fds w)
     \<and> (\<forall>fd q w r w'. sys_tcflush K fd q w = (r, w') \<longrightarrow> fds w' = fds w)
     \<and> (\<forall>fd a w r w'. ioctl_i2c_slave K fd a w = (r, w') \<longrightarrow> fds w' = fds w)
     \<and> (\<forall>fd q w r w'. ioctl_gpio_linehandle K fd q w = (r, w') \<longrightarrow>
        (case r of Inr h \<Rightarrow> 0 \<le> h \<and> h \<notin> fds w \<and> fds w' = insert h (fds w) | Inl _ \<Rightarrow> fds w' = fds w))
     \<and> (\<forall>fd ev t w r w'. sys_poll K fd ev t w = (r, w') \<longrightarrow> fds w' = fds w)
     \<and> (\<forall>w r w'. sys_clock_gettime K w = (r, w') \<longrightarrow> fds w' = fds w)
     \<and> (\<forall>fd w r w'. ioctl_i2c_quick K fd w = (r, w') \<longrightarrow> fds w' = fds w)
     \<and> (\<forall>fd w r w'. ioctl_gpio_get K fd w = (r, w') \<longrightarrow> fds w' = fds w)
     \<and> (\<forall>fd b w r w'. ioctl_gpio_set K fd b w = (r, w') \<longrightarrow> fds w' = fds w)"

lemma fd_table_open:
  "fd_table K fds \<Longrightarrow> sys_open K p f w = (Inr fd, w') \<Longrightarrow> 0 \<le> fd \<and> fd \<notin> fds w \<and> fds w' = insert fd (fds w)"
  "fd_table K fds \<Longrightarrow> sys_open K p f w = (Inl e, w') \<Longrightarrow> fds w' = fds w"
  unfolding fd_table_def by fastforce+

lemma fd_table_line:
  "fd_table K fds \<Longrightarrow> ioctl_gpio_linehandle K fd q w = (Inr h, w') \<Longrightarrow> 0 \<le> h \<and> h \<notin> fds w \<and> fds w' = insert h (fds w)"
  "fd_table K fds \<Longrightarrow> ioctl_gpio_linehandle K fd q w = (Inl e, w') \<Longrightarrow> fds w' = fds w"
  unfolding fd_table_def by fastforce+

lemma fd_table_close: "fd_table K fds \<Longrightarrow> fds (snd (sys_close K fd w)) = fds w - {fd}"
  unfolding fd_table_def by (metis prod.collapse)

lemma fd_table_keep:
  "fd_table K fds \<Longrightarrow> sys_read K fd n w = (r1, w') \<Longrightarrow> fds w' = fds w"
  "fd_table K fds \<Longrightarrow> sys_write K fd bs w = (r2, w') \<Longrightarrow> fds w' = fds w"
  "fd_table K fds \<Longrightarrow> sys_tcgetattr K fd w = (r3, w') \<Longrightarrow> fds w' = fds w"
  "fd_table K fds \<Longrightarrow> sys_tcsetattr K fd a t w = (r4, w') \<Longrightarrow> fds w' = fds w"
  "fd_table K fds \<Longrightarrow> sys_tcflush K fd q w = (r5, w') \<Longrightarrow> fds w' = fds w"
  "fd_table K fds \<Longrightarrow> ioctl_i2c_slave K fd i w = (r6, w') \<Longrightarrow> fds w' = fds w"
  "fd_table K fds \<Longrightarrow> sys_poll K fd ev ms w = (r7, w') \<Longrightarrow> fds w' = fds w"
  "fd_table K fds \<Longrightarrow> sys_clock_gettime K w = (r8, w') \<Longrightarrow> fds w' = fds w"
  "fd_table K fds \<Longrightarrow> ioctl_gpio_get K fd w = (r9, w') \<Longrightarrow> fds w' = fds w"
  "fd_table K fds \<Longrightarrow> ioctl_gpio_set K fd v w = (r10, w') \<Longrightarrow> fds w' = fds w"
  unfolding fd_table_def by fastforce+

lemma retry_keeps:
  assumes "retry call w = Some (r, w')" and "\<And>w r w'. call w = (r, w') \<Longrightarrow> fds w' = fds w"
  shows "fds w' = fds w"
  using retry_reaches [OF assms(1), where P = "\<lambda>w1. fds w1 = fds w"] assms(2) by fastforce

lemma fd_table_retry:
  assumes "fd_table K fds"
  shows "retry (sys_read K fd n) w = Some (r1, w') \<Longrightarrow> fds w' = fds w"
    "retry (sys_write K fd bs) w = Some (r2, w') \<Longrightarrow> fds w' = fds w"
    "retry (sys_tcflush K fd q) w = Some (r3, w') \<Longrightarrow> fds w' = fds w"
  using fd_table_keep [OF assms] by (auto dest: retry_keeps [where fds = fds])

end
