(* ===== verification/Job.thy ===== *)
theory Job
  imports Common Sysio "HOL-Library.Sublist"
begin

text \<open>
  The job table, \<^verbatim>\<open>src/job.c\<close>.  The manager's list of jobs and a job's list of processes are
  the lists reached through \<^verbatim>\<open>head\<close>/\<^verbatim>\<open>next\<close>.  The system calls are the fields of a record
  \<open>kernel\<close> over an unknown world \<open>'w\<close>: \<^verbatim>\<open>waitpid\<close> on one child (\<open>Inr None\<close> is its answer
  \<^verbatim>\<open>0\<close>, \<open>Inr (Some s)\<close> the child's own number with status \<open>s\<close>) and on a process group,
  \<^verbatim>\<open>kill\<close>, \<^verbatim>\<open>nanosleep\<close> (\<open>Inl (e, rest)\<close> when interrupted) and writing to standard output.
  Log lines are left out: they change no state.
\<close>

section \<open>Data (\<^verbatim>\<open>include/job.h\<close>)\<close>

datatype JobStatus = JOB_RUNNING | JOB_STOPPED | JOB_DONE

datatype ProcessStatus = PROCESS_RUNNING | PROCESS_STOPPED | PROCESS_DONE

record process =
  pid :: int
  pstatus :: ProcessStatus
  wait_status :: uint32
  wait_status_valid :: bool

record job =
  id_of :: int
  pgid :: int
  status :: JobStatus
  cmdline :: string
  processes :: "process list"
  terminal_modes :: termios
  terminal_modes_valid :: bool

record job_manager =
  jobs_head :: "job list"
  nextid :: int

record 'w kernel =
  waitpid_one :: "int \<Rightarrow> int \<Rightarrow> 'w \<Rightarrow> (int + uint32 option) \<times> 'w"
  waitpid_group :: "int \<Rightarrow> int \<Rightarrow> 'w \<Rightarrow> (int + int \<times> uint32) \<times> 'w"
  kill :: "int \<Rightarrow> int \<Rightarrow> 'w \<Rightarrow> (int + unit) \<times> 'w"
  nanosleep :: "nat \<Rightarrow> 'w \<Rightarrow> (int \<times> nat + unit) \<times> 'w"
  stdout :: "string \<Rightarrow> 'w \<Rightarrow> 'w"

abbreviation (input) WNOHANG :: int where "WNOHANG \<equiv> 1"
abbreviation (input) WUNTRACED :: int where "WUNTRACED \<equiv> 2"
abbreviation (input) WCONTINUED :: int where "WCONTINUED \<equiv> 8"
abbreviation (input) SIGKILL :: int where "SIGKILL \<equiv> 9"
abbreviation (input) SIGTERM :: int where "SIGTERM \<equiv> 15"
abbreviation (input) SIGCONT :: int where "SIGCONT \<equiv> 18"
abbreviation (input) JOB_SHUTDOWN_RETRY_COUNT :: nat where "JOB_SHUTDOWN_RETRY_COUNT \<equiv> 50"
abbreviation (input) JOB_SHUTDOWN_WAIT_NS :: nat where "JOB_SHUTDOWN_WAIT_NS \<equiv> 10000000"

section \<open>Wait statuses (\<^verbatim>\<open>sys/wait.h\<close>)\<close>

definition WTERMSIG :: "uint32 \<Rightarrow> int" where "WTERMSIG s = uint (s AND 0x7F)"
definition WEXITSTATUS :: "uint32 \<Rightarrow> int" where "WEXITSTATUS s = uint (drop_bit 8 (s AND 0xFF00))"
definition WSTOPSIG :: "uint32 \<Rightarrow> int" where "WSTOPSIG s = WEXITSTATUS s"
definition WIFEXITED :: "uint32 \<Rightarrow> bool" where "WIFEXITED s \<longleftrightarrow> s AND 0x7F = 0"
definition WIFSIGNALED :: "uint32 \<Rightarrow> bool" where "WIFSIGNALED s \<longleftrightarrow> s AND 0x7F \<noteq> 0 \<and> s AND 0x7F \<noteq> 0x7F"
definition WIFSTOPPED :: "uint32 \<Rightarrow> bool" where "WIFSTOPPED s \<longleftrightarrow> s AND 0xFF = 0x7F"
definition WIFCONTINUED :: "uint32 \<Rightarrow> bool" where "WIFCONTINUED s \<longleftrightarrow> s = 0xFFFF"

section \<open>Processes and jobs\<close>

definition process_find :: "job \<Rightarrow> int \<Rightarrow> process option" where
  "process_find j n = (if n \<le> 0 then None else find (\<lambda>p. pid p = n) (processes j))"

definition job_update_status :: "job \<Rightarrow> job" where
  "job_update_status j =
     (if processes j = [] then j
      else let has_running = list_ex (\<lambda>p. pstatus p = PROCESS_RUNNING) (processes j);
               has_stopped = list_ex (\<lambda>p. pstatus p = PROCESS_STOPPED) (processes j)
           in if has_running then j\<lparr>status := JOB_RUNNING\<rparr>
              else if has_stopped then j\<lparr>status := JOB_STOPPED\<rparr>
              else j\<lparr>status := JOB_DONE\<rparr>)"

definition process_apply_wait_status :: "process \<Rightarrow> uint32 \<Rightarrow> process" where
  "process_apply_wait_status p s =
     (let p' = p\<lparr>wait_status := s, wait_status_valid := True\<rparr>
      in if WIFEXITED s \<or> WIFSIGNALED s then p'\<lparr>pstatus := PROCESS_DONE\<rparr>
         else if WIFSTOPPED s then p'\<lparr>pstatus := PROCESS_STOPPED\<rparr>
         else if WIFCONTINUED s then p'\<lparr>pstatus := PROCESS_RUNNING\<rparr>
         else p')"

definition job_last_process :: "job \<Rightarrow> process option" where
  "job_last_process j = (if processes j = [] then None else Some (last (processes j)))"

text \<open>\<^verbatim>\<open>shutdown_sleep\<close>: sleep for what is left until the sleep is not interrupted.\<close>

partial_function (option) shutdown_sleep_for :: "('w, 'x) kernel_scheme \<Rightarrow> nat \<Rightarrow> 'w \<Rightarrow> 'w option" where
  "shutdown_sleep_for K ns w =
     (case nanosleep K ns w of
        (Inr _, w') \<Rightarrow> Some w'
      | (Inl (e, rest), w') \<Rightarrow> if e \<noteq> EINTR then Some w' else shutdown_sleep_for K rest w')"

declare shutdown_sleep_for.simps [code]

definition shutdown_sleep :: "('w, 'x) kernel_scheme \<Rightarrow> 'w \<Rightarrow> 'w option" where
  "shutdown_sleep K w = shutdown_sleep_for K JOB_SHUTDOWN_WAIT_NS w"

definition process_try_reap :: "('w, 'x) kernel_scheme \<Rightarrow> process \<Rightarrow> 'w \<Rightarrow> ((bool \<times> process) \<times> 'w) option" where
  "process_try_reap K p w =
     (if pstatus p = PROCESS_DONE then Some ((True, p), w)
      else do {
        (ret, w') \<leftarrow> retry (waitpid_one K (pid p) WNOHANG) w;
        case ret of
          Inr (Some s) \<Rightarrow> Some ((True, process_apply_wait_status p s), w')
        | Inr None \<Rightarrow> Some ((False, p), w')
        | Inl e \<Rightarrow> if e = ECHILD then Some ((True, p\<lparr>pstatus := PROCESS_DONE\<rparr>), w')
                   else Some ((False, p), w') })"

definition process_force_reap :: "('w, 'x) kernel_scheme \<Rightarrow> process \<Rightarrow> 'w \<Rightarrow> (process \<times> 'w) option" where
  "process_force_reap K p w =
     (if pstatus p = PROCESS_DONE then Some (p, w)
      else do {
        (ret, w') \<leftarrow> retry (waitpid_one K (pid p) 0) w;
        case ret of
          Inr (Some s) \<Rightarrow> Some (process_apply_wait_status p s, w')
        | Inr None \<Rightarrow> Some (p, w')
        | Inl e \<Rightarrow> if e = ECHILD then Some (p\<lparr>pstatus := PROCESS_DONE\<rparr>, w') else Some (p, w') })"

definition job_try_reap :: "('w, 'x) kernel_scheme \<Rightarrow> job \<Rightarrow> 'w \<Rightarrow> ((bool \<times> job) \<times> 'w) option" where
  "job_try_reap K j w = do {
     (rs, w') \<leftarrow> mapW (process_try_reap K) (processes j) w;
     Some ((list_all fst rs, job_update_status (j\<lparr>processes := map snd rs\<rparr>)), w') }"

definition jobmanager_try_reap_all ::
  "('w, 'x) kernel_scheme \<Rightarrow> job_manager \<Rightarrow> 'w \<Rightarrow> ((bool \<times> job_manager) \<times> 'w) option" where
  "jobmanager_try_reap_all K m w = do {
     (rs, w') \<leftarrow> mapW (job_try_reap K) (jobs_head m) w;
     Some ((list_all fst rs, m\<lparr>jobs_head := map snd rs\<rparr>), w') }"

definition resume_processes :: "job \<Rightarrow> job" where
  "resume_processes j = j\<lparr>processes := map (\<lambda>p. if pstatus p = PROCESS_STOPPED
     then p\<lparr>pstatus := PROCESS_RUNNING\<rparr> else p) (processes j)\<rparr>"

definition continue_stopped_job :: "('w, 'x) kernel_scheme \<Rightarrow> job \<Rightarrow> 'w \<Rightarrow> job \<times> 'w" where
  "continue_stopped_job K j w =
     (let w' = (if pgid j > 0 then snd (kill K (- pgid j) SIGCONT w) else w)
      in (job_update_status (resume_processes j), w'))"

definition job_init :: job where
  "job_init = \<lparr>id_of = 0, pgid = 0, status = JOB_RUNNING, cmdline = [], processes = [],
     terminal_modes = termios_zero, terminal_modes_valid = False\<rparr>"

definition jobmanager_init :: job_manager where
  "jobmanager_init = \<lparr>jobs_head = [], nextid = 1\<rparr>"

text \<open>
  \<^verbatim>\<open>job_add\<close> and \<^verbatim>\<open>process_add\<close> take whether their allocation succeeds.  \<open>None\<close> is the NULL
  result (or \<^verbatim>\<open>-1\<close>); otherwise the new job is the head of the new table.
\<close>

definition job_add :: "bool \<Rightarrow> job_manager \<Rightarrow> int \<Rightarrow> string \<Rightarrow> job_manager option" where
  "job_add malloc_ok m grp text =
     (if grp \<le> 0 then None
      else if \<not> malloc_ok then None
      else Some (m\<lparr>jobs_head := job_init\<lparr>id_of := nextid m, pgid := grp, cmdline := take 127 text\<rparr> # jobs_head m,
                   nextid := nextid m + 1\<rparr>))"

definition job_find :: "job_manager \<Rightarrow> int \<Rightarrow> job option" where
  "job_find m grp = (if grp \<le> 0 then None else find (\<lambda>j. pgid j = grp) (jobs_head m))"

definition process_add :: "bool \<Rightarrow> job \<Rightarrow> int \<Rightarrow> job option" where
  "process_add malloc_ok j n =
     (if n \<le> 0 then None
      else if \<not> malloc_ok then None
      else Some (j\<lparr>processes := processes j @ [\<lparr>pid = n, pstatus = PROCESS_RUNNING, wait_status = 0,
                                                wait_status_valid = False\<rparr>]\<rparr>))"

definition job_list_line :: "job \<Rightarrow> string" where
  "job_list_line j = ''['' @ dec_int (id_of j) @ ''] '' @ cmdline j @ [NL]
     @ (case status j of JOB_RUNNING \<Rightarrow> ''now it is running'' | JOB_STOPPED \<Rightarrow> ''now it is stopped''
        | JOB_DONE \<Rightarrow> ''now it is done'') @ [NL]"

definition job_list :: "job_manager \<Rightarrow> string" where
  "job_list m = concat (map job_list_line (jobs_head m))"

definition job_count_active :: "job_manager \<Rightarrow> int" where
  "job_count_active m = int (length (filter (\<lambda>j. status j = JOB_RUNNING \<or> status j = JOB_STOPPED) (jobs_head m)))"

definition job_continue :: "('w, 'x) kernel_scheme \<Rightarrow> job \<Rightarrow> 'w \<Rightarrow> ((int \<times> job) \<times> 'w) option" where
  "job_continue K j w =
     (if pgid j \<le> 0 then Some ((- 1, j), w)
      else if status j \<noteq> JOB_STOPPED then Some ((- 1, j), w)
      else do {
        (ret, w') \<leftarrow> retry (kill K (- pgid j) SIGCONT) w;
        case ret of
          Inl e \<Rightarrow> Some ((- 1, j), w')
        | Inr _ \<Rightarrow> Some ((0, job_update_status (resume_processes j)), w') })"

text \<open>The first process with the number \<open>n\<close>, rewritten in place.\<close>

fun upd_process :: "int \<Rightarrow> (process \<Rightarrow> process) \<Rightarrow> process list \<Rightarrow> process list" where
  "upd_process n f [] = []"
| "upd_process n f (p # ps) = (if pid p = n then f p # ps else p # upd_process n f ps)"

partial_function (option) wait_foreground_loop ::
  "('w, 'x) kernel_scheme \<Rightarrow> job \<Rightarrow> 'w \<Rightarrow> ((int \<times> job) \<times> 'w) option" where
  "wait_foreground_loop K j w =
     (if status j \<noteq> JOB_RUNNING then Some ((0, j), w)
      else case waitpid_group K (pgid j) WUNTRACED w of
        (Inl e, w') \<Rightarrow> if e = EINTR then wait_foreground_loop K j w' else Some ((- 1, j), w')
      | (Inr (n, s), w') \<Rightarrow>
          if process_find j n = None then Some ((- 1, j), w')
          else wait_foreground_loop K
                 (job_update_status (j\<lparr>processes := upd_process n (\<lambda>p. process_apply_wait_status p s) (processes j)\<rparr>)) w')"

declare wait_foreground_loop.simps [code]

definition job_wait_foreground :: "('w, 'x) kernel_scheme \<Rightarrow> job \<Rightarrow> 'w \<Rightarrow> ((int \<times> job) \<times> 'w) option" where
  "job_wait_foreground K j w = (if pgid j \<le> 0 then Some ((- 1, j), w) else wait_foreground_loop K j w)"

definition job_exit_status :: "job \<Rightarrow> int" where
  "job_exit_status j = (case job_last_process j of
     None \<Rightarrow> - 1
   | Some p \<Rightarrow>
       if \<not> wait_status_valid p then - 1
       else if WIFEXITED (wait_status p) then WEXITSTATUS (wait_status p)
       else if WIFSIGNALED (wait_status p) then 128 + WTERMSIG (wait_status p)
       else - 1)"

section \<open>The table\<close>

definition reap_message :: "job \<Rightarrow> process \<Rightarrow> uint32 \<Rightarrow> string" where
  "reap_message j p s =
     (let say = (\<lambda>verb n. NL # ''['' @ dec_int (id_of j) @ ''] process '' @ dec_int (pid p) @ verb @ dec_int n @ [NL])
      in if WIFEXITED s then say '' exit '' (WEXITSTATUS s)
         else if WIFSIGNALED s then say '' killed by '' (WTERMSIG s)
         else if WIFSTOPPED s then say '' stopped by '' (WSTOPSIG s)
         else [])"

definition reap_process :: "('w, 'x) kernel_scheme \<Rightarrow> job \<Rightarrow> process \<Rightarrow> 'w \<Rightarrow> (process \<times> 'w) option" where
  "reap_process K j p w =
     (if pstatus p = PROCESS_DONE then Some (p, w)
      else case waitpid_one K (pid p) (WNOHANG + WUNTRACED + WCONTINUED) w of
        (Inl e, w') \<Rightarrow> if e = ECHILD then Some (p\<lparr>pstatus := PROCESS_DONE\<rparr>, w') else Some (p, w')
      | (Inr (Some s), w') \<Rightarrow> Some (process_apply_wait_status p s,
                                 (if reap_message j p s = [] then w' else stdout K (reap_message j p s) w'))
      | (Inr None, w') \<Rightarrow> Some (p, w'))"

definition reap_job :: "('w, 'x) kernel_scheme \<Rightarrow> job \<Rightarrow> 'w \<Rightarrow> (job \<times> 'w) option" where
  "reap_job K j w = do {
     (ps, w') \<leftarrow> mapW (reap_process K j) (processes j) w;
     Some (job_update_status (j\<lparr>processes := ps\<rparr>), w') }"

definition job_reap :: "('w, 'x) kernel_scheme \<Rightarrow> job_manager \<Rightarrow> 'w \<Rightarrow> (job_manager \<times> 'w) option" where
  "job_reap K m w = do {
     (js, w') \<leftarrow> mapW (reap_job K) (jobs_head m) w;
     Some (m\<lparr>jobs_head := js\<rparr>, w') }"

text \<open>The unlinking loop of \<^verbatim>\<open>job_cleanup_done\<close>: \<open>prev\<close> holds the jobs already passed, in order.\<close>

fun cleanup_loop :: "job list \<Rightarrow> job list \<Rightarrow> job list" where
  "cleanup_loop prev [] = prev"
| "cleanup_loop prev (current # rest) =
     (if status current = JOB_DONE then cleanup_loop prev rest else cleanup_loop (prev @ [current]) rest)"

definition job_cleanup_done :: "job_manager \<Rightarrow> job_manager" where
  "job_cleanup_done m = m\<lparr>jobs_head := cleanup_loop [] (jobs_head m)\<rparr>"

fun remove_loop :: "int \<Rightarrow> job list \<Rightarrow> job list \<Rightarrow> job list" where
  "remove_loop grp prev [] = prev"
| "remove_loop grp prev (current # rest) =
     (if pgid current = grp then prev @ rest else remove_loop grp (prev @ [current]) rest)"

definition job_remove :: "job_manager \<Rightarrow> int \<Rightarrow> job_manager" where
  "job_remove m grp = (if grp \<le> 0 then m else m\<lparr>jobs_head := remove_loop grp [] (jobs_head m)\<rparr>)"

definition job_destroy :: "job_manager \<Rightarrow> job_manager" where
  "job_destroy m = m\<lparr>jobs_head := [], nextid := 1\<rparr>"

section \<open>Shutdown\<close>

definition shutdown_continue :: "('w, 'x) kernel_scheme \<Rightarrow> job \<Rightarrow> 'w \<Rightarrow> (job \<times> 'w) option" where
  "shutdown_continue K j w = Some (if status j = JOB_STOPPED then continue_stopped_job K j w else (j, w))"

definition shutdown_terminate :: "('w, 'x) kernel_scheme \<Rightarrow> job \<Rightarrow> 'w \<Rightarrow> (job \<times> 'w) option" where
  "shutdown_terminate K j w =
     Some (j, if status j \<noteq> JOB_DONE \<and> pgid j > 0 then snd (kill K (- pgid j) SIGTERM w) else w)"

definition shutdown_kill :: "('w, 'x) kernel_scheme \<Rightarrow> job \<Rightarrow> 'w \<Rightarrow> (job \<times> 'w) option" where
  "shutdown_kill K j w = Some (j, if pgid j > 0 then snd (kill K (- pgid j) SIGKILL w) else w)"

definition shutdown_force :: "('w, 'x) kernel_scheme \<Rightarrow> job \<Rightarrow> 'w \<Rightarrow> (job \<times> 'w) option" where
  "shutdown_force K j w = do {
     (ps, w') \<leftarrow> mapW (process_force_reap K) (processes j) w;
     Some (job_update_status (j\<lparr>processes := ps\<rparr>), w') }"

fun shutdown_retry :: "('w, 'x) kernel_scheme \<Rightarrow> nat \<Rightarrow> job_manager \<Rightarrow> 'w \<Rightarrow> (job_manager \<times> 'w) option" where
  "shutdown_retry K 0 m w = Some (m, w)"
| "shutdown_retry K (Suc n) m w = do {
     ((all_done, m'), w1) \<leftarrow> jobmanager_try_reap_all K m w;
     if all_done then Some (m', w1)
     else do { w2 \<leftarrow> shutdown_sleep K w1; shutdown_retry K n m' w2 } }"

definition job_shutdown :: "('w, 'x) kernel_scheme \<Rightarrow> job_manager \<Rightarrow> 'w \<Rightarrow> (job_manager \<times> 'w) option" where
  "job_shutdown K m w =
     (if jobs_head m = [] then Some (m\<lparr>nextid := 1\<rparr>, w)
      else do {
        (js1, w1) \<leftarrow> mapW (shutdown_continue K) (jobs_head m) w;
        (js2, w2) \<leftarrow> mapW (shutdown_terminate K) js1 w1;
        (m3, w3) \<leftarrow> shutdown_retry K JOB_SHUTDOWN_RETRY_COUNT (m\<lparr>jobs_head := js2\<rparr>) w2;
        (js4, w4) \<leftarrow> mapW (shutdown_kill K) (jobs_head m3) w3;
        (js5, w5) \<leftarrow> mapW (shutdown_force K) js4 w4;
        Some (job_destroy (m3\<lparr>jobs_head := js5\<rparr>), w5) })"

section \<open>Wait statuses are classified once\<close>

lemma WEXITSTATUS_range: "0 \<le> WEXITSTATUS s \<and> WEXITSTATUS s \<le> 255"
proof -
  have "drop_bit 8 (s AND 0xFF00) = drop_bit 8 s AND 0xFF"
    by (rule bit_eqI) (auto simp: bit_simps)
  also have "\<dots> \<le> 0xFF" by (rule word_and_le1)
  finally have "uint (drop_bit 8 (s AND 0xFF00)) \<le> uint (0xFF :: uint32)"
    by (simp only: word_le_def)
  then show ?thesis by (simp add: WEXITSTATUS_def)
qed

lemma WTERMSIG_range:
  assumes "WIFSIGNALED s"
  shows "1 \<le> WTERMSIG s \<and> WTERMSIG s \<le> 126"
proof -
  have "s AND 0x7F \<le> 0x7F" by (rule word_and_le1)
  then have "uint (s AND 0x7F) \<le> 127" by (simp add: word_le_def)
  moreover have "uint (s AND 0x7F) \<noteq> 0" "uint (s AND 0x7F) \<noteq> 127"
    using assms by (auto simp: WIFSIGNALED_def word_uint_eq_iff)
  moreover have "0 \<le> uint (s AND 0x7F)" by (rule uint_ge_0)
  ultimately show ?thesis unfolding WTERMSIG_def by linarith
qed

lemma stopped_low_bits:
  assumes "s AND 0xFF = (0x7F :: uint32)"
  shows "s AND 0x7F = 0x7F"
proof -
  have "s AND 0x7F = (s AND 0xFF) AND 0x7F"
    by (simp add: and.assoc)
  with assms show ?thesis by simp
qed

lemma wait_status_exclusive:
  "\<not> (WIFEXITED s \<and> WIFSIGNALED s)" "\<not> (WIFEXITED s \<and> WIFSTOPPED s)"
  "\<not> (WIFSIGNALED s \<and> WIFSTOPPED s)" "\<not> (WIFEXITED s \<and> WIFCONTINUED s)"
  "\<not> (WIFSIGNALED s \<and> WIFCONTINUED s)" "\<not> (WIFSTOPPED s \<and> WIFCONTINUED s)"
  using stopped_low_bits [of s]
  by (auto simp: WIFEXITED_def WIFSIGNALED_def WIFSTOPPED_def WIFCONTINUED_def)

section \<open>The job's status summarises its processes\<close>

definition status_of :: "ProcessStatus list \<Rightarrow> JobStatus" where
  "status_of ss = (if PROCESS_RUNNING \<in> set ss then JOB_RUNNING
     else if PROCESS_STOPPED \<in> set ss then JOB_STOPPED else JOB_DONE)"

definition in_sync :: "job \<Rightarrow> bool" where
  "in_sync j \<longleftrightarrow> (processes j = [] \<or> status j = status_of (map pstatus (processes j)))"

lemma job_update_status_status:
  "status (job_update_status j) =
     (if processes j = [] then status j else status_of (map pstatus (processes j)))"
  by (auto simp: job_update_status_def status_of_def list_ex_iff Let_def image_iff)

lemma job_update_status_sel [simp]:
  "processes (job_update_status j) = processes j" "id_of (job_update_status j) = id_of j"
  "pgid (job_update_status j) = pgid j" "cmdline (job_update_status j) = cmdline j"
  "terminal_modes (job_update_status j) = terminal_modes j"
  "terminal_modes_valid (job_update_status j) = terminal_modes_valid j"
  by (simp_all add: job_update_status_def Let_def)

lemma job_update_status_in_sync [simp]: "in_sync (job_update_status j)"
  by (simp add: in_sync_def job_update_status_status)

lemma status_of_done: "status_of ss = JOB_DONE \<longleftrightarrow> set ss \<subseteq> {PROCESS_DONE}"
  by (auto simp: status_of_def) (metis ProcessStatus.exhaust)

lemma in_sync_status:
  assumes "in_sync j" "processes j \<noteq> []"
  shows "status j = JOB_RUNNING \<longleftrightarrow> (\<exists>p\<in>set (processes j). pstatus p = PROCESS_RUNNING)"
    and "status j = JOB_DONE \<longleftrightarrow> (\<forall>p\<in>set (processes j). pstatus p = PROCESS_DONE)"
proof -
  have st: "status j = status_of (map pstatus (processes j))" using assms by (simp add: in_sync_def)
  show "status j = JOB_RUNNING \<longleftrightarrow> (\<exists>p\<in>set (processes j). pstatus p = PROCESS_RUNNING)"
    unfolding st by (force simp: status_of_def)
  show "status j = JOB_DONE \<longleftrightarrow> (\<forall>p\<in>set (processes j). pstatus p = PROCESS_DONE)"
    unfolding st status_of_done by auto
qed

lemma process_apply_wait_status_pid [simp]: "pid (process_apply_wait_status p s) = pid p"
  by (simp add: process_apply_wait_status_def Let_def)

lemma upd_process_pids [simp]:
  "(\<And>p. pid (f p) = pid p) \<Longrightarrow> map pid (upd_process n f ps) = map pid ps"
  by (induction ps) auto

lemma set_upd_process: "set (upd_process n f ps) \<subseteq> set ps \<union> f ` set ps"
  by (induction ps) auto

lemma upd_process_Nil [simp]: "upd_process n f ps = [] \<longleftrightarrow> ps = []"
  by (cases ps) auto

section \<open>The table's contract\<close>

text \<open>
  What the clients of the table rely on, stated on an abstract store: a new entry is found
  under its group, other groups are found as before, and removing the newest entry of a group
  undoes its insertion.
\<close>

locale job_store =
  fixes add :: "'m \<Rightarrow> int \<Rightarrow> string \<Rightarrow> 'm option"
    and lookup :: "'m \<Rightarrow> int \<Rightarrow> 'j option"
    and remove :: "'m \<Rightarrow> int \<Rightarrow> 'm"
    and entries :: "'m \<Rightarrow> 'j list"
    and key :: "'j \<Rightarrow> int"
  assumes add_some: "0 < g \<Longrightarrow> \<exists>m' j. add m g t = Some m' \<and> entries m' = j # entries m \<and> key j = g"
    and add_none: "g \<le> 0 \<Longrightarrow> add m g t = None"
    and lookup_first: "0 < g \<Longrightarrow> lookup m g = List.find (\<lambda>j. key j = g) (entries m)"
    and remove_first: "0 < g \<Longrightarrow> entries (remove m g) = remove1 (the (lookup m g)) (entries m) \<or> lookup m g = None"
    and remove_none: "lookup m g = None \<Longrightarrow> entries (remove m g) = entries m"
begin

lemma add_positive: "add m g t = Some m' \<Longrightarrow> 0 < g"
  using add_none [of g m t] by force

lemma lookup_add_same:
  assumes "add m g t = Some m'"
  shows "\<exists>j. lookup m' g = Some j \<and> key j = g \<and> entries m' = j # entries m"
proof -
  obtain j where "entries m' = j # entries m" "key j = g"
    using add_some [OF add_positive [OF assms], of m t] assms by auto
  then show ?thesis by (simp add: lookup_first [OF add_positive [OF assms]])
qed

lemma lookup_add_other:
  assumes "add m g t = Some m'" "0 < h" "h \<noteq> g"
  shows "lookup m' h = lookup m h"
  using lookup_add_same [OF assms(1)] assms(2,3) by (auto simp: lookup_first)

lemma remove_undoes_add:
  assumes "add m g t = Some m'"
  shows "entries (remove m' g) = entries m"
proof -
  obtain j where "lookup m' g = Some j" "entries m' = j # entries m"
    using lookup_add_same [OF assms] by auto
  with remove_first [OF add_positive [OF assms], of m'] show ?thesis by simp
qed

lemma lookup_remove:
  assumes "distinct (map key (entries m))" "0 < g"
  shows "lookup (remove m g) g = None"
proof (cases "lookup m g")
  case None
  with remove_none [OF None] assms(2) show ?thesis by (simp add: lookup_first)
next
  case (Some j)
  then have "List.find (\<lambda>j. key j = g) (entries m) = Some j" using assms(2) by (simp add: lookup_first)
  then have "j \<in> set (entries m)" "key j = g" by (auto simp: find_Some_iff)
  moreover have "entries (remove m g) = remove1 j (entries m)"
    using remove_first [OF assms(2), of m] Some by simp
  ultimately show ?thesis using assms
    by (auto simp: lookup_first find_None_iff distinct_map inj_on_def)
qed

end

lemma remove_loop_prev: "remove_loop g prev js = prev @ remove_loop g [] js"
proof (induction js arbitrary: prev)
  case (Cons a js)
  show ?case by (simp) (metis Cons.IH append.assoc append_Cons append_Nil)
qed simp

lemma remove_loop_first:
  "remove_loop g [] js = (case find (\<lambda>j. pgid j = g) js of None \<Rightarrow> js | Some j \<Rightarrow> remove1 j js)"
proof (induction js)
  case (Cons a js)
  show ?case
  proof (cases "pgid a = g")
    case False
    then have "remove_loop g [] (a # js) = a # remove_loop g [] js"
      using remove_loop_prev [of g "[a]" js] by simp
    moreover have "find (\<lambda>j. pgid j = g) js = Some j \<Longrightarrow> j \<noteq> a" for j
      using False by (auto simp: find_Some_iff)
    ultimately show ?thesis using False Cons.IH by (auto split: option.splits)
  qed simp
qed simp

interpretation jt: job_store "job_add True" job_find job_remove jobs_head pgid
proof
  show "\<exists>m' j. job_add True m g t = Some m' \<and> jobs_head m' = j # jobs_head m \<and> pgid j = g"
    if "0 < g" for g m t using that by (auto simp: job_add_def)
  show "job_add True m g t = None" if "g \<le> 0" for g m t using that by (simp add: job_add_def)
  show "job_find m g = find (\<lambda>j. pgid j = g) (jobs_head m)" if "0 < g" for g m
    using that by (simp add: job_find_def)
  show "jobs_head (job_remove m g) = remove1 (the (job_find m g)) (jobs_head m) \<or> job_find m g = None"
    if "0 < g" for g m
    using that by (auto simp: job_remove_def job_find_def remove_loop_first split: option.splits)
  show "jobs_head (job_remove m g) = jobs_head m" if "job_find m g = None" for m g
    using that by (auto simp: job_remove_def job_find_def remove_loop_first split: if_splits)
qed

section \<open>The table's invariant\<close>

definition process_ok :: "process \<Rightarrow> bool" where
  "process_ok p \<longleftrightarrow> 0 < pid p"

definition job_ok :: "job \<Rightarrow> bool" where
  "job_ok j \<longleftrightarrow> 0 < pgid j \<and> length (cmdline j) \<le> 127 \<and> in_sync j \<and> list_all process_ok (processes j)"

text \<open>The newest job is the head; job numbers decrease along the list and stay below the next one.\<close>

definition jm_inv :: "job_manager \<Rightarrow> bool" where
  "jm_inv m \<longleftrightarrow> list_all job_ok (jobs_head m) \<and> 0 < nextid m
     \<and> sorted_wrt (>) (nextid m # map id_of (jobs_head m))
     \<and> list_all (\<lambda>j. 0 < id_of j) (jobs_head m)"

text \<open>What no operation on an existing job changes.\<close>

definition same_job :: "job \<Rightarrow> job \<Rightarrow> bool" where
  "same_job j j' \<longleftrightarrow> id_of j' = id_of j \<and> pgid j' = pgid j \<and> cmdline j' = cmdline j
     \<and> map pid (processes j') = map pid (processes j)"

lemma same_job_refl [simp]: "same_job j j"
  by (simp add: same_job_def)

lemma same_job_trans: "same_job a b \<Longrightarrow> same_job b c \<Longrightarrow> same_job a c"
  by (simp add: same_job_def)

lemma process_ok_pids: "list_all process_ok ps \<longleftrightarrow> list_all (\<lambda>n. 0 < n) (map pid ps)"
  by (simp add: list_all_iff process_ok_def)

lemma job_ok_same: "job_ok j \<Longrightarrow> same_job j j' \<Longrightarrow> in_sync j' \<Longrightarrow> job_ok j'"
  by (simp add: job_ok_def same_job_def process_ok_pids)

lemma jm_inv_pointwise:
  assumes inv: "jm_inv m"
    and same: "list_all2 (\<lambda>j j'. same_job j j' \<and> (job_ok j \<longrightarrow> in_sync j')) (jobs_head m) js"
  shows "jm_inv (m\<lparr>jobs_head := js\<rparr>)"
proof -
  have ids: "map id_of js = map id_of (jobs_head m)"
    using same by (auto simp: list_all2_conv_all_nth same_job_def intro!: nth_equalityI)
  have "list_all job_ok js"
    using same inv
    by (auto simp: list_all2_conv_all_nth list_all_length jm_inv_def intro: job_ok_same)
  moreover have "list_all (\<lambda>j. 0 < id_of j) js = list_all (\<lambda>n. 0 < n) (map id_of js)"
    by (simp add: list_all_iff)
  ultimately show ?thesis
    using inv by (simp add: jm_inv_def ids) (simp add: list_all_iff)
qed

lemma sorted_wrt_subseq: "subseq xs ys \<Longrightarrow> sorted_wrt P ys \<Longrightarrow> sorted_wrt P xs"
proof (induction rule: list_emb.induct)
  case (list_emb_Cons2 x y xs ys)
  then show ?case by (auto dest: list_emb_set)
qed auto

lemma jm_inv_sub:
  assumes "jm_inv m" "subseq js (jobs_head m)"
  shows "jm_inv (m\<lparr>jobs_head := js\<rparr>)"
proof -
  have "subseq (map id_of js) (map id_of (jobs_head m))"
    using assms(2) by (rule subseq_map)
  then have "sorted_wrt (>) (map id_of js)"
    using assms(1) sorted_wrt_subseq by (fastforce simp: jm_inv_def)
  moreover have "set js \<subseteq> set (jobs_head m)" using assms(2) by (auto dest: list_emb_set)
  ultimately show ?thesis using assms(1) by (auto simp: jm_inv_def list_all_iff)
qed

section \<open>Every operation keeps the invariant\<close>

lemma job_init_sel [simp]: "processes job_init = []" "in_sync job_init"
  by (simp_all add: job_init_def in_sync_def)

lemma jobmanager_init_inv: "jm_inv jobmanager_init"
  by (simp add: jobmanager_init_def jm_inv_def)

lemma job_add_inv: "jm_inv m \<Longrightarrow> job_add ok m g t = Some m' \<Longrightarrow> jm_inv m'"
  by (auto 4 4 simp: job_add_def jm_inv_def job_ok_def in_sync_def job_init_def
      split: if_splits dest: bspec)

lemma process_add_in_sync:
  "in_sync j \<Longrightarrow> status j = JOB_RUNNING \<Longrightarrow> process_add ok j n = Some j' \<Longrightarrow> in_sync j'"
  by (auto simp: process_add_def in_sync_def status_of_def split: if_splits)

lemma process_add_ok:
  assumes "job_ok j" "status j = JOB_RUNNING" "process_add ok j n = Some j'"
  shows "job_ok j' \<and> id_of j' = id_of j \<and> pgid j' = pgid j \<and> status j' = JOB_RUNNING"
  using process_add_in_sync [OF _ assms(2,3)] assms
  by (auto simp: job_ok_def process_add_def process_ok_def split: if_splits)

lemma cleanup_loop_filter: "cleanup_loop prev js = prev @ filter (\<lambda>j. status j \<noteq> JOB_DONE) js"
  by (induction prev js rule: cleanup_loop.induct) auto

lemma job_cleanup_done_filter:
  "job_cleanup_done m = m\<lparr>jobs_head := filter (\<lambda>j. status j \<noteq> JOB_DONE) (jobs_head m)\<rparr>"
  by (simp add: job_cleanup_done_def cleanup_loop_filter)

lemma job_cleanup_done_inv: "jm_inv m \<Longrightarrow> jm_inv (job_cleanup_done m)"
  by (simp add: job_cleanup_done_filter jm_inv_sub)

lemma subseq_remove1: "subseq (remove1 x xs) xs"
  by (induction xs) auto

lemma job_remove_inv: "jm_inv m \<Longrightarrow> jm_inv (job_remove m g)"
  by (auto simp: job_remove_def remove_loop_first subseq_remove1 intro!: jm_inv_sub split: option.splits)

lemma resume_processes_sel [simp]:
  "id_of (resume_processes j) = id_of j" "pgid (resume_processes j) = pgid j"
  "cmdline (resume_processes j) = cmdline j"
  "map pid (processes (resume_processes j)) = map pid (processes j)"
  by (simp_all add: resume_processes_def)

lemma job_update_status_same:
  "id_of j' = id_of j \<Longrightarrow> pgid j' = pgid j \<Longrightarrow> cmdline j' = cmdline j
   \<Longrightarrow> map pid (processes j') = map pid (processes j) \<Longrightarrow> same_job j (job_update_status j')"
  by (simp add: same_job_def)

lemma job_continue_same:
  assumes "job_continue K j w = Some ((r, j'), w')"
  shows "same_job j j'" "in_sync j \<Longrightarrow> in_sync j'"
  using assms
  by (auto simp: job_continue_def intro!: job_update_status_same
      split: if_splits Option.bind_splits sum.splits)

lemma list_all2_map_pid: "list_all2 (\<lambda>p p'. pid p' = pid p) ps ps' \<Longrightarrow> map pid ps' = map pid ps"
  by (auto simp: list_all2_conv_all_nth intro!: nth_equalityI)

lemma reap_process_pid: "reap_process K j p w = Some (p', w') \<Longrightarrow> pid p' = pid p"
  by (auto simp: reap_process_def split: if_splits sum.splits prod.splits option.splits)

lemma process_try_reap_pid: "process_try_reap K p w = Some ((b, p'), w') \<Longrightarrow> pid p' = pid p"
  by (auto simp: process_try_reap_def split: if_splits sum.splits prod.splits option.splits Option.bind_splits)

lemma process_force_reap_pid: "process_force_reap K p w = Some (p', w') \<Longrightarrow> pid p' = pid p"
  by (auto simp: process_force_reap_def split: if_splits sum.splits prod.splits option.splits Option.bind_splits)

lemma reap_job_same:
  assumes "reap_job K j w = Some (j', w')"
  shows "same_job j j' \<and> in_sync j'"
proof -
  obtain ps where ps: "mapW (reap_process K j) (processes j) w = Some (ps, w')"
    "j' = job_update_status (j\<lparr>processes := ps\<rparr>)"
    using assms by (auto simp: reap_job_def split: Option.bind_splits)
  have "list_all2 (\<lambda>p p'. pid p' = pid p) (processes j) ps"
    by (rule mapW_list_all2 [OF ps(1)]) (rule reap_process_pid)
  from list_all2_map_pid [OF this] ps(2) show ?thesis by (auto intro!: job_update_status_same)
qed

lemma job_reap_inv:
  assumes "jm_inv m" "job_reap K m w = Some (m', w')"
  shows "jm_inv m'"
proof -
  obtain js where js: "mapW (reap_job K) (jobs_head m) w = Some (js, w')" "m' = m\<lparr>jobs_head := js\<rparr>"
    using assms(2) by (auto simp: job_reap_def split: Option.bind_splits)
  have "list_all2 (\<lambda>j j'. same_job j j' \<and> (job_ok j \<longrightarrow> in_sync j')) (jobs_head m) js"
    by (rule mapW_list_all2 [OF js(1)]) (auto dest: reap_job_same)
  with assms(1) js(2) show ?thesis by (simp add: jm_inv_pointwise)
qed

text \<open>
  The loop of \<^verbatim>\<open>job_wait_foreground\<close>: an induction principle over its iterations.  \<open>P\<close> is a
  property of jobs that every applied wait status keeps; \<open>C\<close> is what is known of a status that
  the kernel returns.
\<close>

definition apply_to_job :: "int \<Rightarrow> uint32 \<Rightarrow> job \<Rightarrow> job" where
  "apply_to_job n s j =
     job_update_status (j\<lparr>processes := upd_process n (\<lambda>p. process_apply_wait_status p s) (processes j)\<rparr>)"

lemma wait_foreground_loop_induct:
  assumes ret: "wait_foreground_loop K j w = Some x"
    and kernel: "\<And>g w n s w'. waitpid_group K g WUNTRACED w = (Inr (n, s), w') \<Longrightarrow> C s"
    and step: "\<And>j n s. P j \<Longrightarrow> C s \<Longrightarrow> P (apply_to_job n s j)"
    and init: "P j"
  shows "P (snd (fst x)) \<and> (fst (fst x) = 0 \<longrightarrow> status (snd (fst x)) \<noteq> JOB_RUNNING)"
proof -
  let ?R = "\<lambda>x :: (int \<times> job) \<times> 'a. P (snd (fst x)) \<and> (fst (fst x) = 0 \<longrightarrow> status (snd (fst x)) \<noteq> JOB_RUNNING)"
  let ?Q = "\<lambda>K' j w x. K' = K \<longrightarrow> P j \<longrightarrow> ?R x"
  have "?Q K j w x"
  proof (rule wait_foreground_loop.raw_induct [where P = ?Q, OF _ ret])
    fix loop and K' :: "('a, 'b) kernel_scheme" and j and w :: 'a and x
    assume IH: "\<And>K j w x. loop K j w = Some x \<Longrightarrow> ?Q K j w x"
      and eq: "(if status j \<noteq> JOB_RUNNING then Some ((0, j), w)
        else case waitpid_group K' (pgid j) WUNTRACED w of
          (Inl e, w') \<Rightarrow> if e = EINTR then loop K' j w' else Some ((- 1, j), w')
        | (Inr (n, s), w') \<Rightarrow>
            if process_find j n = None then Some ((- 1, j), w')
            else loop K' (job_update_status (j\<lparr>processes :=
              upd_process n (\<lambda>p. process_apply_wait_status p s) (processes j)\<rparr>)) w') = Some x"
    show "?Q K' j w x"
    proof (intro impI)
      assume K': "K' = K" and P: "P j"
      obtain r w1 where call: "waitpid_group K (pgid j) WUNTRACED w = (r, w1)" by (meson surj_pair)
      have next_ok: "r = Inr (n, s) \<Longrightarrow> P (apply_to_job n s j)" for n s
        using kernel call P step by blast
      show "?R x"
        using eq call P next_ok IH [of K _ w1 x] unfolding K'
        by (fastforce simp: apply_to_job_def split: if_splits sum.splits)
    qed
  qed
  with init show ?thesis by simp
qed

lemma apply_to_job_same: "same_job j (apply_to_job n s j) \<and> in_sync (apply_to_job n s j)"
  by (auto simp: apply_to_job_def intro!: job_update_status_same)

lemma job_wait_foreground_same:
  assumes "job_wait_foreground K j w = Some ((r, j'), w')"
  shows "same_job j j' \<and> (in_sync j \<longrightarrow> in_sync j') \<and> (r = 0 \<longrightarrow> status j' \<noteq> JOB_RUNNING)"
proof (cases "pgid j \<le> 0")
  case False
  then have "wait_foreground_loop K j w = Some ((r, j'), w')"
    using assms by (simp add: job_wait_foreground_def)
  from wait_foreground_loop_induct [OF this,
      where P = "\<lambda>j'. same_job j j' \<and> (in_sync j \<longrightarrow> in_sync j')" and C = "\<lambda>_. True"]
  show ?thesis using apply_to_job_same by (fastforce intro: same_job_trans)
qed (use assms in \<open>auto simp: job_wait_foreground_def\<close>)

section \<open>Exit statuses\<close>

text \<open>A finished process has reported how it ended.\<close>

definition reported :: "process \<Rightarrow> bool" where
  "reported p \<longleftrightarrow> (pstatus p = PROCESS_DONE \<longrightarrow>
     wait_status_valid p \<and> (WIFEXITED (wait_status p) \<or> WIFSIGNALED (wait_status p)))"

definition classified :: "uint32 \<Rightarrow> bool" where
  "classified s \<longleftrightarrow> WIFEXITED s \<or> WIFSIGNALED s \<or> WIFSTOPPED s \<or> WIFCONTINUED s"

lemma reported_apply: "classified s \<Longrightarrow> reported (process_apply_wait_status p s)"
  by (auto simp: reported_def classified_def process_apply_wait_status_def Let_def)

lemma job_exit_status_cases:
  "job_exit_status j = - 1 \<or> (0 \<le> job_exit_status j \<and> job_exit_status j \<le> 255)"
  using WEXITSTATUS_range WTERMSIG_range
  by (fastforce simp: job_exit_status_def split: option.splits)

lemma job_exit_status_reported:
  assumes "processes j \<noteq> []" "list_all reported (processes j)" "in_sync j" "status j = JOB_DONE"
  shows "0 \<le> job_exit_status j \<and> job_exit_status j \<le> 255"
proof -
  let ?p = "last (processes j)"
  have mem: "?p \<in> set (processes j)" using assms(1) by simp
  have "set (map pstatus (processes j)) \<subseteq> {PROCESS_DONE}"
    using assms(1,3,4) status_of_done by (metis in_sync_def)
  with mem have "pstatus ?p = PROCESS_DONE" by auto
  with mem assms(2) have "wait_status_valid ?p" "WIFEXITED (wait_status ?p) \<or> WIFSIGNALED (wait_status ?p)"
    by (auto simp: list_all_iff reported_def)
  with assms(1) WEXITSTATUS_range [of "wait_status ?p"] WTERMSIG_range [of "wait_status ?p"] show ?thesis
    by (auto simp: job_exit_status_def job_last_process_def)
qed

lemma apply_to_job_reported:
  "list_all reported (processes j) \<Longrightarrow> classified s \<Longrightarrow> list_all reported (processes (apply_to_job n s j))"
  using set_upd_process [of n "\<lambda>p. process_apply_wait_status p s" "processes j"] reported_apply
  by (fastforce simp: apply_to_job_def list_all_iff)

lemma wait_foreground_reported:
  assumes "job_wait_foreground K j w = Some ((r, j'), w')"
    and "\<And>g w n s w'. waitpid_group K g WUNTRACED w = (Inr (n, s), w') \<Longrightarrow> classified s"
    and "list_all reported (processes j)"
  shows "list_all reported (processes j')"
proof (cases "pgid j \<le> 0")
  case False
  then have "wait_foreground_loop K j w = Some ((r, j'), w')"
    using assms(1) by (simp add: job_wait_foreground_def)
  from wait_foreground_loop_induct [OF this, where P = "\<lambda>j. list_all reported (processes j)" and C = classified]
  show ?thesis using apply_to_job_reported assms(2,3) by fastforce
qed (use assms in \<open>auto simp: job_wait_foreground_def\<close>)

lemma wait_foreground_loop_returns:
  fixes \<mu> :: "'w \<Rightarrow> nat"
  assumes finite_events: "\<And>g w r w'. waitpid_group K g WUNTRACED w = (r, w') \<Longrightarrow>
      r = Inl EINTR \<or> (\<exists>ns. r = Inr ns) \<Longrightarrow> \<mu> w' < \<mu> w"
  shows "\<exists>x. wait_foreground_loop K j w = Some x"
proof (induction "\<mu> w" arbitrary: j w rule: less_induct)
  case less
  obtain r w' where call: "waitpid_group K (pgid j) WUNTRACED w = (r, w')" by (meson surj_pair)
  have IH: "r = Inl EINTR \<or> (\<exists>ns. r = Inr ns) \<Longrightarrow> \<exists>x. wait_foreground_loop K j' w' = Some x" for j'
    using less finite_events [OF call] by blast
  show ?case
    using IH by (subst wait_foreground_loop.simps) (auto simp: call split: sum.splits)
qed

section \<open>Shutdown always ends\<close>

fun sleep_settles :: "nat \<Rightarrow> ('w, 'x) kernel_scheme \<Rightarrow> nat \<Rightarrow> 'w \<Rightarrow> bool" where
  "sleep_settles 0 K ns w \<longleftrightarrow> (case fst (nanosleep K ns w) of Inr _ \<Rightarrow> True | Inl (e, _) \<Rightarrow> e \<noteq> EINTR)"
| "sleep_settles (Suc k) K ns w \<longleftrightarrow> (case nanosleep K ns w of (Inr _, _) \<Rightarrow> True
     | (Inl (e, rest), w') \<Rightarrow> e \<noteq> EINTR \<or> sleep_settles k K rest w')"

text \<open>No call of the kernel is interrupted for ever.\<close>

definition settling :: "('w, 'x) kernel_scheme \<Rightarrow> bool" where
  "settling K \<longleftrightarrow> (\<forall>p f w. \<exists>n. settles n (waitpid_one K p f) w) \<and> (\<forall>ns w. \<exists>n. sleep_settles n K ns w)"

lemma shutdown_sleep_for_returns: "sleep_settles n K ns w \<Longrightarrow> \<exists>w'. shutdown_sleep_for K ns w = Some w'"
proof (induction n arbitrary: ns w)
  case 0
  then show ?case by (subst shutdown_sleep_for.simps) (auto split: prod.splits sum.splits)
next
  case (Suc n)
  obtain r w' where call: "nanosleep K ns w = (r, w')" by (meson surj_pair)
  show ?case
    using Suc by (subst shutdown_sleep_for.simps) (auto simp: call split: prod.splits sum.splits)
qed

lemma shutdown_sleep_returns: "settling K \<Longrightarrow> \<exists>w'. shutdown_sleep K w = Some w'"
  unfolding shutdown_sleep_def settling_def by (meson shutdown_sleep_for_returns)

lemma settling_waitpid:
  "settling K \<Longrightarrow> \<exists>r w'. retry (waitpid_one K p f) w = Some (r, w')"
  unfolding settling_def by (meson retry_settles)

lemma process_try_reap_returns: "settling K \<Longrightarrow> \<exists>y w'. process_try_reap K p w = Some (y, w')"
  using settling_waitpid [of K "pid p" WNOHANG w]
  by (auto simp: process_try_reap_def split: sum.splits option.splits)

lemma process_force_reap_returns: "settling K \<Longrightarrow> \<exists>y w'. process_force_reap K p w = Some (y, w')"
  using settling_waitpid [of K "pid p" 0 w]
  by (auto simp: process_force_reap_def split: sum.splits option.splits)

lemma job_try_reap_returns:
  assumes "settling K"
  shows "\<exists>y w'. job_try_reap K j w = Some (y, w')"
proof -
  obtain rs w' where "mapW (process_try_reap K) (processes j) w = Some (rs, w')"
    by (rule mapW_total [OF process_try_reap_returns [OF assms]])
  then show ?thesis by (simp add: job_try_reap_def)
qed

lemma try_reap_all_returns:
  assumes "settling K"
  shows "\<exists>b m' w'. jobmanager_try_reap_all K m w = Some ((b, m'), w')"
proof -
  obtain rs w' where "mapW (job_try_reap K) (jobs_head m) w = Some (rs, w')"
    by (rule mapW_total [OF job_try_reap_returns [OF assms]])
  then show ?thesis by (simp add: jobmanager_try_reap_all_def)
qed

lemma shutdown_force_returns:
  assumes "settling K"
  shows "\<exists>y w'. shutdown_force K j w = Some (y, w')"
proof -
  obtain ps w' where "mapW (process_force_reap K) (processes j) w = Some (ps, w')"
    by (rule mapW_total [OF process_force_reap_returns [OF assms]])
  then show ?thesis by (simp add: shutdown_force_def)
qed

lemma shutdown_retry_returns: "settling K \<Longrightarrow> \<exists>m' w'. shutdown_retry K n m w = Some (m', w')"
proof (induction n arbitrary: m w)
  case (Suc n)
  obtain b m1 w1 where 1: "jobmanager_try_reap_all K m w = Some ((b, m1), w1)"
    using try_reap_all_returns [OF Suc.prems] by blast
  obtain w2 where 2: "shutdown_sleep K w1 = Some w2" using shutdown_sleep_returns [OF Suc.prems] by blast
  show ?case using Suc by (simp add: 1 2)
qed simp

lemma job_shutdown_returns:
  assumes "settling K"
  shows "\<exists>w'. job_shutdown K m w = Some (m\<lparr>jobs_head := [], nextid := 1\<rparr>, w')"
proof (cases "jobs_head m = []")
  case False
  obtain js1 w1 where 1: "mapW (shutdown_continue K) (jobs_head m) w = Some (js1, w1)"
    using mapW_returns [of "jobs_head m" "shutdown_continue K" w] by (auto simp: shutdown_continue_def)
  obtain js2 w2 where 2: "mapW (shutdown_terminate K) js1 w1 = Some (js2, w2)"
    using mapW_returns [of js1 "shutdown_terminate K" w1] by (auto simp: shutdown_terminate_def)
  obtain m3 w3 where 3: "shutdown_retry K JOB_SHUTDOWN_RETRY_COUNT (m\<lparr>jobs_head := js2\<rparr>) w2 = Some (m3, w3)"
    using shutdown_retry_returns [OF assms] by blast
  obtain js4 w4 where 4: "mapW (shutdown_kill K) (jobs_head m3) w3 = Some (js4, w4)"
    using mapW_returns [of "jobs_head m3" "shutdown_kill K" w3] by (auto simp: shutdown_kill_def)
  obtain js5 w5 where 5: "mapW (shutdown_force K) js4 w4 = Some (js5, w5)"
    by (rule mapW_total [OF shutdown_force_returns [OF assms]])
  show ?thesis using False by (simp add: job_shutdown_def 1 2 3 4 5 job_destroy_def)
qed (simp add: job_shutdown_def)

section \<open>Histories of a table\<close>

text \<open>
  The calls the shell makes, one step each.  A job reached through a pointer is the \<open>i\<close>-th of
  the list.  Processes are added to a job that is still running; the saved terminal modes may
  change at any moment.
\<close>

definition set_job :: "job_manager \<Rightarrow> nat \<Rightarrow> job \<Rightarrow> job_manager" where
  "set_job m i j = m\<lparr>jobs_head := (jobs_head m)[i := j]\<rparr>"

inductive job_step :: "('w, 'x) kernel_scheme \<Rightarrow> job_manager \<times> 'w \<Rightarrow> job_manager \<times> 'w \<Rightarrow> bool"
  for K where
  step_add: "job_add ok m g t = Some m' \<Longrightarrow> job_step K (m, w) (m', w)"
| step_process: "i < length (jobs_head m) \<Longrightarrow> status (jobs_head m ! i) = JOB_RUNNING
    \<Longrightarrow> process_add ok (jobs_head m ! i) n = Some j \<Longrightarrow> job_step K (m, w) (set_job m i j, w)"
| step_modes: "i < length (jobs_head m)
    \<Longrightarrow> job_step K (m, w) (set_job m i ((jobs_head m ! i)\<lparr>terminal_modes := t, terminal_modes_valid := v\<rparr>), w)"
| step_continue: "i < length (jobs_head m) \<Longrightarrow> job_continue K (jobs_head m ! i) w = Some ((r, j), w')
    \<Longrightarrow> job_step K (m, w) (set_job m i j, w')"
| step_wait: "i < length (jobs_head m) \<Longrightarrow> job_wait_foreground K (jobs_head m ! i) w = Some ((r, j), w')
    \<Longrightarrow> job_step K (m, w) (set_job m i j, w')"
| step_reap: "job_reap K m w = Some (m', w') \<Longrightarrow> job_step K (m, w) (m', w')"
| step_cleanup: "job_step K (m, w) (job_cleanup_done m, w)"
| step_remove: "job_step K (m, w) (job_remove m g, w)"
| step_shutdown: "job_shutdown K m w = Some (m', w') \<Longrightarrow> job_step K (m, w) (m', w')"
| step_world: "job_step K (m, w) (m, w')"

inductive_cases job_stepE: "job_step K (m, w) (m', w')"

inductive job_reachable :: "('w, 'x) kernel_scheme \<Rightarrow> job_manager \<times> 'w \<Rightarrow> bool" for K where
  start: "job_reachable K (jobmanager_init, w)"
| step: "job_reachable K s \<Longrightarrow> job_step K s s' \<Longrightarrow> job_reachable K s'"

lemma sorted_gt_distinct: "sorted_wrt (>) (xs :: int list) \<Longrightarrow> distinct xs"
  by (induction xs) auto

lemma set_job_inv:
  assumes "jm_inv m" "i < length (jobs_head m)" "job_ok j" "id_of j = id_of (jobs_head m ! i)"
  shows "jm_inv (set_job m i j)"
proof -
  have "map id_of ((jobs_head m)[i := j]) = map id_of (jobs_head m)"
    using assms(2,4) by (simp add: map_update list_update_same_conv)
  moreover have "0 < id_of j" using assms by (simp add: jm_inv_def list_all_length)
  ultimately show ?thesis
    using assms(1,3) unfolding jm_inv_def set_job_def
    by (auto simp: list_all_iff dest!: set_update_subset_insert [THEN subsetD])
qed

lemma job_shutdown_empty: "job_shutdown K m w = Some (m', w') \<Longrightarrow> jobs_head m' = [] \<and> nextid m' = 1"
  by (auto simp: job_shutdown_def job_destroy_def split: if_splits Option.bind_splits)

lemma job_step_inv: "job_step K s s' \<Longrightarrow> jm_inv (fst s) \<Longrightarrow> jm_inv (fst s')"
proof (induction rule: job_step.induct)
  case (step_process i m ok n j w)
  then have "job_ok (jobs_head m ! i)" by (simp add: jm_inv_def list_all_length)
  from process_add_ok [OF this step_process(2,3)] step_process show ?case by (simp add: set_job_inv)
next
  case (step_modes i m w t v)
  then have "job_ok (jobs_head m ! i)" by (simp add: jm_inv_def list_all_length)
  then show ?case using step_modes by (auto intro!: set_job_inv simp: job_ok_def in_sync_def)
next
  case (step_continue i m w r j w')
  then have "job_ok (jobs_head m ! i)" by (simp add: jm_inv_def list_all_length)
  with job_continue_same [OF step_continue(2)] have "job_ok j" "id_of j = id_of (jobs_head m ! i)"
    by (auto simp: job_ok_def same_job_def process_ok_pids)
  with step_continue show ?case by (simp add: set_job_inv)
next
  case (step_wait i m w r j w')
  then have "job_ok (jobs_head m ! i)" by (simp add: jm_inv_def list_all_length)
  with job_wait_foreground_same [OF step_wait(2)] have "job_ok j" "id_of j = id_of (jobs_head m ! i)"
    by (auto simp: job_ok_def same_job_def process_ok_pids)
  with step_wait show ?case by (simp add: set_job_inv)
next
  case (step_shutdown m w m' w')
  with job_shutdown_empty [OF step_shutdown(1)] show ?case by (simp add: jm_inv_def)
qed (auto intro: job_add_inv job_reap_inv job_cleanup_done_inv job_remove_inv)

lemma job_reachable_jm_inv: "job_reachable K s \<Longrightarrow> jm_inv (fst s)"
  by (induction rule: job_reachable.induct) (auto simp: jobmanager_init_inv job_step_inv)

section \<open>Properties of the job table\<close>

text \<open>A kernel whose world is the list of wait events still to come.\<close>

definition script_kernel :: "(int \<times> uint32) list kernel" where
  "script_kernel = \<lparr>
     waitpid_one = (\<lambda>p f w. case w of [] \<Rightarrow> (Inl ECHILD, []) | (n, s) # r \<Rightarrow> if n = p then (Inr (Some s), r) else (Inr None, r)),
     waitpid_group = (\<lambda>g f w. case w of [] \<Rightarrow> (Inl ECHILD, []) | e # r \<Rightarrow> (Inr e, r)),
     kill = (\<lambda>g s w. (Inr (), w)), nanosleep = (\<lambda>ns w. (Inr (), w)), stdout = (\<lambda>s w. w)\<rparr>"

text \<open>C8. In every state the job table can reach through its operations, job numbers are
  pairwise different, positive and below the next number, every job has a positive process group
  and a command of at most 127 characters, and the status of a job with processes is: running if
  one of them runs, stopped if none runs and one is stopped, done if all are done.\<close>
theorem job_table_invariant:
  assumes "job_reachable K (m, w)"
  shows "distinct (map id_of (jobs_head m))
    \<and> (\<forall>j\<in>set (jobs_head m). 0 < id_of j \<and> id_of j < nextid m \<and> 0 < pgid j \<and> length (cmdline j) \<le> 127
        \<and> (processes j \<noteq> [] \<longrightarrow>
            (status j = JOB_RUNNING \<longleftrightarrow> (\<exists>p\<in>set (processes j). pstatus p = PROCESS_RUNNING))
          \<and> (status j = JOB_DONE \<longleftrightarrow> (\<forall>p\<in>set (processes j). pstatus p = PROCESS_DONE))))"
proof -
  have inv: "jm_inv m" using job_reachable_jm_inv [OF assms] by simp
  then have "distinct (map id_of (jobs_head m))"
    by (simp add: jm_inv_def sorted_gt_distinct)
  moreover have "job_ok j \<and> 0 < id_of j \<and> id_of j < nextid m" if "j \<in> set (jobs_head m)" for j
    using inv that by (simp add: jm_inv_def list_all_iff)
  ultimately show ?thesis
    using in_sync_status by (simp add: job_ok_def)
qed


definition demo_table :: job_manager where
  "demo_table = the (job_add True (the (job_add True jobmanager_init 100 ''sleep 9'')) 200 ''make'')"

lemma demo_table_reachable: "job_reachable script_kernel (demo_table, [])"
proof -
  let ?m1 = "the (job_add True jobmanager_init 100 ''sleep 9'')"
  have "job_step script_kernel (jobmanager_init, []) (?m1, [])"
    by (rule step_add [of True _ 100 "''sleep 9''"]) (simp add: job_add_def)
  moreover have "job_step script_kernel (?m1, []) (demo_table, [])"
    by (rule step_add [of True _ 200 "''make''"]) (simp add: job_add_def demo_table_def)
  ultimately show ?thesis by (meson job_reachable.intros)
qed

theorem job_table_invariant_witness:
  "distinct (map id_of (jobs_head demo_table)) \<and> map id_of (jobs_head demo_table) = [2, 1]"
proof -
  have "map id_of (jobs_head demo_table) = [2, 1]" by code_simp
  with job_table_invariant [OF demo_table_reachable] show ?thesis by simp
qed

text \<open>A job added for a process group is found under that group, as the newest job of the
  table with the next number, status running and the first 127 characters of the command; every
  other group is found as before; and removing the group afterwards gives the list of jobs from
  before the insertion.\<close>
theorem job_add_find_remove:
  assumes "job_add True m g t = Some m'"
  shows "(\<exists>j. job_find m' g = Some j \<and> jobs_head m' = j # jobs_head m \<and> id_of j = nextid m
      \<and> status j = JOB_RUNNING \<and> cmdline j = take 127 t \<and> processes j = [])
    \<and> (\<forall>h. h \<noteq> g \<longrightarrow> job_find m' h = job_find m h)
    \<and> jobs_head (job_remove m' g) = jobs_head m \<and> nextid m' = nextid m + 1"
proof -
  have "job_find m' h = job_find m h" if "h \<noteq> g" for h
    using jt.lookup_add_other [OF assms _ that] by (cases "0 < h") (simp_all add: job_find_def)
  moreover have "\<exists>j. job_find m' g = Some j \<and> jobs_head m' = j # jobs_head m \<and> id_of j = nextid m
      \<and> status j = JOB_RUNNING \<and> cmdline j = take 127 t \<and> processes j = []"
    using assms by (auto simp: job_add_def job_init_def job_find_def split: if_splits)
  moreover have "nextid m' = nextid m + 1" using assms by (auto simp: job_add_def split: if_splits)
  ultimately show ?thesis using jt.remove_undoes_add [OF assms] by blast
qed

theorem job_add_find_remove_witness:
  "\<exists>j. job_find (the (job_add True demo_table 300 ''ls -l'')) 300 = Some j \<and> id_of j = 3 \<and> cmdline j = ''ls -l''"
proof -
  have n: "nextid demo_table = 3" by code_simp
  have "job_add True demo_table 300 ''ls -l'' = Some (the (job_add True demo_table 300 ''ls -l''))"
    by (simp add: job_add_def)
  from job_add_find_remove [OF this] n show ?thesis by auto
qed

text \<open>C17. Waiting for a foreground job returns when the kernel has only finitely many events
  to report: a measure decreases with every interrupted or successful wait.  When it returns 0,
  the job is stopped or done; and if every process reported its end through a wait status, a job
  that is done has an exit status between 0 and 255.\<close>
theorem job_wait_foreground_correct:
  fixes \<mu> :: "'w \<Rightarrow> nat"
  assumes finite_events: "\<And>g w r w'. waitpid_group K g WUNTRACED w = (r, w') \<Longrightarrow>
      r = Inl EINTR \<or> (\<exists>ns. r = Inr ns) \<Longrightarrow> \<mu> w' < \<mu> w"
    and kernel_status: "\<And>g w n s w'. waitpid_group K g WUNTRACED w = (Inr (n, s), w') \<Longrightarrow> classified s"
    and job: "in_sync j" "processes j \<noteq> []" "list_all reported (processes j)"
  shows "\<exists>r j' w'. job_wait_foreground K j w = Some ((r, j'), w') \<and> same_job j j'
    \<and> (r = 0 \<longrightarrow> status j' = JOB_STOPPED \<or> status j' = JOB_DONE)
    \<and> (status j' = JOB_DONE \<longrightarrow> 0 \<le> job_exit_status j' \<and> job_exit_status j' \<le> 255)"
proof -
  obtain x where "job_wait_foreground K j w = Some x"
    using wait_foreground_loop_returns [of K \<mu> j w] finite_events
    by (cases "pgid j \<le> 0") (auto simp: job_wait_foreground_def)
  then obtain r j' w' where ret: "job_wait_foreground K j w = Some ((r, j'), w')" by (metis surj_pair)
  note facts = job_wait_foreground_same [OF ret]
  have "processes j' \<noteq> []" using facts job(2) by (auto simp: same_job_def)
  moreover have "list_all reported (processes j')"
    by (rule wait_foreground_reported [OF ret _ job(3)]) (rule kernel_status)
  ultimately have "status j' = JOB_DONE \<longrightarrow> 0 \<le> job_exit_status j' \<and> job_exit_status j' \<le> 255"
    using facts job(1) job_exit_status_reported [of j'] by blast
  moreover have "r = 0 \<longrightarrow> status j' = JOB_STOPPED \<or> status j' = JOB_DONE"
    using facts by (meson JobStatus.exhaust)
  ultimately show ?thesis using ret facts by blast
qed

text \<open>Two processes of group 100: the first is killed by signal 9, the second exits with 3.\<close>

definition demo_job :: job where
  "demo_job = the (process_add True (the (process_add True (hd (jobs_head
     (the (job_add True jobmanager_init 100 ''a | b'')))) 100)) 101)"

definition demo_kernel :: "(int \<times> uint32) list kernel" where
  "demo_kernel = script_kernel\<lparr>waitpid_group := (\<lambda>g f w. case w of [] \<Rightarrow> (Inl ECHILD, [])
     | (n, s) # r \<Rightarrow> if classified s then (Inr (n, s), r) else (Inl ECHILD, r))\<rparr>"

theorem job_wait_foreground_correct_witness:
  "\<exists>r j' w'. job_wait_foreground demo_kernel demo_job [(100, 9), (101, 0x300)] = Some ((r, j'), w')
     \<and> same_job demo_job j' \<and> r = 0 \<and> status j' = JOB_DONE \<and> job_exit_status j' = 3"
proof -
  have "length w' < length w" if "waitpid_group demo_kernel g WUNTRACED w = (r, w')"
    "r = Inl EINTR \<or> (\<exists>ns. r = Inr ns)" for g w r w'
    using that by (auto simp: demo_kernel_def split: list.splits if_splits)
  moreover have "classified s" if "waitpid_group demo_kernel g WUNTRACED w = (Inr (n, s), w')" for g w n s w'
    using that by (auto simp: demo_kernel_def split: list.splits if_splits)
  moreover have "in_sync demo_job" "processes demo_job \<noteq> []" "list_all reported (processes demo_job)"
    by code_simp+
  ultimately have "\<exists>r j' w'. job_wait_foreground demo_kernel demo_job [(100, 9), (101, 0x300)] = Some ((r, j'), w')
      \<and> same_job demo_job j'"
    using job_wait_foreground_correct [of demo_kernel length demo_job "[(100, 9), (101, 0x300)]"] by blast
  moreover have "map_option (\<lambda>((r, j'), w'). (r, status j', job_exit_status j'))
      (job_wait_foreground demo_kernel demo_job [(100, 9), (101, 0x300)]) = Some (0, JOB_DONE, 3)"
    by code_simp
  ultimately show ?thesis by auto
qed

text \<open>Shutting the job table down ends, whatever jobs it holds, when no call of the kernel
  is interrupted for ever; the table is then empty and its numbering starts again at 1.\<close>
theorem job_shutdown_ends_empty:
  assumes "settling K"
  shows "\<exists>m' w'. job_shutdown K m w = Some (m', w') \<and> jobs_head m' = [] \<and> nextid m' = 1"
  using job_shutdown_returns [OF assms, of m w] by auto

lemma settling_script_kernel: "settling script_kernel"
proof -
  have "settles 0 (waitpid_one script_kernel p f) w" for p f and w :: "(int \<times> uint32) list"
    by (auto simp: script_kernel_def split: list.splits)
  moreover have "sleep_settles 0 script_kernel ns w" for ns and w :: "(int \<times> uint32) list"
    by (simp add: script_kernel_def)
  ultimately show ?thesis unfolding settling_def by blast
qed

theorem job_shutdown_ends_empty_witness:
  "\<exists>m' w'. job_shutdown script_kernel demo_table [] = Some (m', w') \<and> jobs_head m' = [] \<and> nextid m' = 1"
  using job_shutdown_ends_empty [OF settling_script_kernel] by blast

text \<open>\<^verbatim>\<open>job_cleanup_done\<close> unlinks exactly the finished jobs and keeps the others in order, so
  that \<^verbatim>\<open>job_count_active\<close>, unchanged by it, is the length of the list that is left.\<close>
theorem job_cleanup_done_keeps_active:
  "jobs_head (job_cleanup_done m) = filter (\<lambda>j. status j \<noteq> JOB_DONE) (jobs_head m)
   \<and> job_count_active (job_cleanup_done m) = job_count_active m
   \<and> job_count_active m = int (length (jobs_head (job_cleanup_done m)))"
proof -
  have active: "(status j = JOB_RUNNING \<or> status j = JOB_STOPPED) = (status j \<noteq> JOB_DONE)" for j
    by (cases "status j") auto
  show ?thesis by (simp add: job_cleanup_done_filter job_count_active_def active)
qed

end
