(* ===== verification/Device.thy ===== *)
theory Device
  imports Common
begin

text \<open>
  The device layer, \<^verbatim>\<open>src/device.c\<close>: a device is a configuration, a table of operations of its
  backend, the backend's private data and a state.  The backend's private data has the type
  \<open>'c\<close> (\<open>None\<close> is the NULL pointer), the world the type \<open>'w\<close>.  A backend operation takes the
  device's configuration and private data and gives \<open>None\<close> when it does not return (an endless
  loop, or a null or foreign pointer that is followed), and otherwise its result, the new private
  data and the new world.  A result is \<open>Inl e\<close> for a negative value with \<^verbatim>\<open>errno = e\<close>.  The device
  pointer itself is never NULL here: the argument check for it has no counterpart.
\<close>

section \<open>Data (\<^verbatim>\<open>include/device.h\<close>)\<close>

abbreviation (input) DEVICE_NAME_SIZE :: nat where "DEVICE_NAME_SIZE \<equiv> 64"
abbreviation (input) DEVICE_PATH_SIZE :: nat where "DEVICE_PATH_SIZE \<equiv> 256"
abbreviation (input) DEVICE_MAX_COUNT :: nat where "DEVICE_MAX_COUNT \<equiv> 16"

datatype DeviceType = DEVICE_UART | DEVICE_I2C | DEVICE_OLED | DEVICE_GPIO | DEVICE_LED

datatype DeviceState = DEVICE_CLOSED | DEVICE_OPEN | DEVICE_ERROR | DEVICE_DISABLED

text \<open>A name of 64 characters or more is a buffer without its terminating NUL.\<close>

record DeviceConfig =
  name_of :: string
  type_of :: DeviceType
  path :: string
  enabled :: int
  baudrate :: int
  address :: uint32
  offset :: uint32
  gpio_output :: int
  initial_value :: int
  bias :: int
  led_name :: string

record DeviceWriteRequest =
  data :: "byte list option"
  timeout_ms :: int

record DeviceText =
  text_x :: int
  text_y :: int
  text_string :: "string option"

text \<open>A control request with the argument it is documented to take; \<open>None\<close> is a NULL argument.\<close>

datatype DeviceControl =
    DEVICE_CONTROL_UART_WAIT "int option"
  | DEVICE_CONTROL_UART_WRITE_ALL "DeviceWriteRequest option"
  | DEVICE_CONTROL_UART_FLUSH
  | DEVICE_CONTROL_OLED_CLEAR
  | DEVICE_CONTROL_OLED_TEXT "DeviceText option"
  | DEVICE_CONTROL_OLED_REFRESH
  | DEVICE_CONTROL_OLED_ON
  | DEVICE_CONTROL_OLED_OFF
  | DEVICE_CONTROL_LED_ON
  | DEVICE_CONTROL_LED_OFF
  | DEVICE_CONTROL_LED_TRIGGER "string option"

type_synonym ('c, 'w, 'r) dev_op = "DeviceConfig \<Rightarrow> 'c option \<Rightarrow> 'w \<Rightarrow> ((int + 'r) \<times> 'c option \<times> 'w) option"

record ('c, 'w) DeviceOps =
  op_open :: "('c, 'w, nat) dev_op option"
  op_read :: "(nat \<Rightarrow> ('c, 'w, byte list) dev_op) option"
  op_write :: "(byte list \<Rightarrow> ('c, 'w, nat) dev_op) option"
  op_control :: "(DeviceControl \<Rightarrow> ('c, 'w, nat) dev_op) option"
  op_close :: "('c, 'w, nat) dev_op option"
  op_destroy :: "(DeviceConfig \<Rightarrow> 'c option \<Rightarrow> 'w \<Rightarrow> ('c option \<times> 'w) option) option"

record ('c, 'w) Device =
  config :: DeviceConfig
  ops :: "('c, 'w) DeviceOps option"
  priv :: "'c option"
  dstate :: DeviceState
  opened :: bool
  last_errno :: int

section \<open>Operations\<close>

definition device_failure :: "('c, 'w) Device \<Rightarrow> int \<Rightarrow> (int + 'r) \<times> ('c, 'w) Device" where
  "device_failure d e = (Inl e, d\<lparr>last_errno := e\<rparr>)"

text \<open>The errors that do not break an open device.\<close>

definition soft_errno :: "int \<Rightarrow> bool" where
  "soft_errno e \<longleftrightarrow> e = EAGAIN \<or> e = EINTR \<or> e = ETIMEDOUT \<or> e = EINVAL \<or> e = ENOTSUP \<or> e = EPROTO
     \<or> e = EMSGSIZE \<or> e = EBUSY"

definition device_result :: "('c, 'w) Device \<Rightarrow> int + 'r \<Rightarrow> ('c, 'w) Device" where
  "device_result d r = (case r of
     Inr _ \<Rightarrow> d\<lparr>last_errno := 0, dstate := (if opened d then DEVICE_OPEN else DEVICE_CLOSED)\<rparr>
   | Inl e \<Rightarrow> (let d' = d\<lparr>last_errno := e\<rparr>
               in if \<not> soft_errno e then d'\<lparr>dstate := DEVICE_ERROR\<rparr> else d'))"

text \<open>\<open>Some e\<close> when the device is not ready: the caller fails with \<open>e\<close>.\<close>

definition device_ready :: "('c, 'w) Device \<Rightarrow> int option" where
  "device_ready d =
     (if ops d = None then Some EINVAL
      else if enabled (config d) = 0 then Some EACCES
      else if \<not> opened d then Some EBADF
      else if dstate d = DEVICE_ERROR then Some (if last_errno d \<noteq> 0 then last_errno d else EIO)
      else None)"

definition config_zero :: DeviceConfig where
  "config_zero = \<lparr>name_of = [], type_of = DEVICE_UART, path = [], enabled = 0, baudrate = 0, address = 0,
     offset = 0, gpio_output = 0, initial_value = 0, bias = 0, led_name = []\<rparr>"

definition device_zero :: "('c, 'w) Device" where
  "device_zero = \<lparr>config = config_zero, ops = None, priv = None, dstate = DEVICE_CLOSED, opened = False,
     last_errno = 0\<rparr>"

definition device_init :: "DeviceConfig \<Rightarrow> ('c, 'w) DeviceOps option \<Rightarrow> 'c option \<Rightarrow> ('c, 'w) Device" where
  "device_init cfg os c = device_zero\<lparr>config := cfg, ops := os, priv := c,
     dstate := (if enabled cfg \<noteq> 0 then DEVICE_CLOSED else DEVICE_DISABLED)\<rparr>"

definition device_open :: "('c, 'w) Device \<Rightarrow> 'w \<Rightarrow> (((int + nat) \<times> ('c, 'w) Device) \<times> 'w) option" where
  "device_open d w =
     (case Option.bind (ops d) op_open of
        None \<Rightarrow> Some (device_failure d EINVAL, w)
      | Some f \<Rightarrow>
          if enabled (config d) = 0 then Some (device_failure d EACCES, w)
          else if opened d then
            (if dstate d = DEVICE_ERROR then Some (device_failure d EBUSY, w)
             else Some ((Inr 0, d\<lparr>last_errno := 0\<rparr>), w))
          else do {
            (ret, c, w') \<leftarrow> f (config d) (priv d) w;
            let d1 = d\<lparr>priv := c, opened := (ret = Inr 0 \<or> opened d)\<rparr>;
            Some ((ret, device_result d1 ret), w') })"

definition device_read ::
  "('c, 'w) Device \<Rightarrow> bool \<Rightarrow> nat \<Rightarrow> 'w \<Rightarrow> (((int + byte list) \<times> ('c, 'w) Device) \<times> 'w) option" where
  "device_read d has_buffer n w =
     (case device_ready d of
        Some e \<Rightarrow> Some (device_failure d e, w)
      | None \<Rightarrow>
          if \<not> has_buffer \<or> n = 0 then Some (device_failure d EINVAL, w)
          else case Option.bind (ops d) op_read of
            None \<Rightarrow> Some (device_failure d ENOTSUP, w)
          | Some f \<Rightarrow> do {
              (ret, c, w') \<leftarrow> f n (config d) (priv d) w;
              Some ((ret, device_result (d\<lparr>priv := c\<rparr>) ret), w') })"

definition device_write ::
  "('c, 'w) Device \<Rightarrow> byte list option \<Rightarrow> 'w \<Rightarrow> (((int + nat) \<times> ('c, 'w) Device) \<times> 'w) option" where
  "device_write d buffer w =
     (case device_ready d of
        Some e \<Rightarrow> Some (device_failure d e, w)
      | None \<Rightarrow>
          (case buffer of
             None \<Rightarrow> Some (device_failure d EINVAL, w)
           | Some bs \<Rightarrow>
               if bs = [] then Some (device_failure d EINVAL, w)
               else case Option.bind (ops d) op_write of
                 None \<Rightarrow> Some (device_failure d ENOTSUP, w)
               | Some f \<Rightarrow> do {
                   (ret, c, w') \<leftarrow> f bs (config d) (priv d) w;
                   Some ((ret, device_result (d\<lparr>priv := c\<rparr>) ret), w') }))"

definition device_control ::
  "('c, 'w) Device \<Rightarrow> DeviceControl \<Rightarrow> 'w \<Rightarrow> (((int + nat) \<times> ('c, 'w) Device) \<times> 'w) option" where
  "device_control d request w =
     (case device_ready d of
        Some e \<Rightarrow> Some (device_failure d e, w)
      | None \<Rightarrow>
          (case Option.bind (ops d) op_control of
             None \<Rightarrow> Some (device_failure d ENOTSUP, w)
           | Some f \<Rightarrow> do {
               (ret, c, w') \<leftarrow> f request (config d) (priv d) w;
               Some ((ret, device_result (d\<lparr>priv := c\<rparr>) ret), w') }))"

definition device_close :: "('c, 'w) Device \<Rightarrow> 'w \<Rightarrow> (((int + nat) \<times> ('c, 'w) Device) \<times> 'w) option" where
  "device_close d w =
     (case ops d of
        None \<Rightarrow> Some (device_failure d EINVAL, w)
      | Some os \<Rightarrow>
          if \<not> opened d then
            Some ((Inr 0, d\<lparr>dstate := (if enabled (config d) \<noteq> 0 then DEVICE_CLOSED else DEVICE_DISABLED),
                            last_errno := 0\<rparr>), w)
          else case op_close os of
            None \<Rightarrow> Some (device_failure d ENOTSUP, w)
          | Some f \<Rightarrow> do {
              (ret, c, w') \<leftarrow> f (config d) (priv d) w;
              let d1 = d\<lparr>priv := c, opened := (ret \<noteq> Inr 0 \<and> opened d)\<rparr>;
              Some ((ret, device_result d1 ret), w') })"

definition device_destroy :: "('c, 'w) Device \<Rightarrow> 'w \<Rightarrow> (('c, 'w) Device \<times> 'w) option" where
  "device_destroy d w =
     (case ops d of
        None \<Rightarrow> Some (device_zero, w)
      | Some os \<Rightarrow> do {
          ((_, d1), w1) \<leftarrow> device_close d w;
          case op_destroy os of
            None \<Rightarrow> Some (device_zero, w1)
          | Some f \<Rightarrow> do { (_, w2) \<leftarrow> f (config d1) (priv d1) w1; Some (device_zero, w2) } })"

definition device_type_string :: "DeviceType \<Rightarrow> string" where
  "device_type_string t = (case t of DEVICE_UART \<Rightarrow> ''uart'' | DEVICE_I2C \<Rightarrow> ''i2c'' | DEVICE_OLED \<Rightarrow> ''oled''
     | DEVICE_GPIO \<Rightarrow> ''gpio'' | DEVICE_LED \<Rightarrow> ''led'')"

definition device_state_string :: "DeviceState \<Rightarrow> string" where
  "device_state_string s = (case s of DEVICE_CLOSED \<Rightarrow> ''closed'' | DEVICE_OPEN \<Rightarrow> ''open''
     | DEVICE_ERROR \<Rightarrow> ''error'' | DEVICE_DISABLED \<Rightarrow> ''disabled'')"

section \<open>The life cycle as a state machine\<close>

text \<open>
  What the caller can rely on: five phases, and for each operation the next phase from the
  current one and the kind of result it returned.
\<close>

datatype phase = Off | Closed | Failed | Ready | Broken

datatype outcome = Good | Soft | Hard

definition phase_of :: "('c, 'w) Device \<Rightarrow> phase" where
  "phase_of d = (if enabled (config d) = 0 then Off
     else if opened d then (if dstate d = DEVICE_ERROR then Broken else Ready)
     else (if dstate d = DEVICE_ERROR then Failed else Closed))"

definition outcome_of :: "int + 'r \<Rightarrow> outcome" where
  "outcome_of r = (case r of Inr _ \<Rightarrow> Good | Inl e \<Rightarrow> if soft_errno e then Soft else Hard)"

fun phase_open :: "phase \<Rightarrow> outcome \<Rightarrow> phase" where
  "phase_open Closed Good = Ready"
| "phase_open Failed Good = Ready"
| "phase_open Closed Hard = Failed"
| "phase_open p out = p"

fun phase_use :: "phase \<Rightarrow> outcome \<Rightarrow> phase" where
  "phase_use Ready Hard = Broken"
| "phase_use p out = p"

fun phase_close :: "phase \<Rightarrow> outcome \<Rightarrow> phase" where
  "phase_close Off out = Off"
| "phase_close Ready Soft = Ready"
| "phase_close Ready Hard = Broken"
| "phase_close Broken Soft = Broken"
| "phase_close Broken Hard = Broken"
| "phase_close p out = Closed"

text \<open>The states a device initialised with a backend can have.\<close>

definition device_ok :: "('c, 'w) Device \<Rightarrow> bool" where
  "device_ok d \<longleftrightarrow> ops d \<noteq> None
     \<and> (enabled (config d) = 0 \<longleftrightarrow> dstate d = DEVICE_DISABLED)
     \<and> (dstate d = DEVICE_DISABLED \<or> dstate d = DEVICE_CLOSED \<longrightarrow> \<not> opened d)
     \<and> (dstate d = DEVICE_OPEN \<longrightarrow> opened d)"

definition zero_result :: "('c, 'w, nat) dev_op \<Rightarrow> bool" where
  "zero_result f \<longleftrightarrow> (\<forall>cfg c w n c' w'. f cfg c w = Some (Inr n, c', w') \<longrightarrow> n = 0)"

text \<open>A backend opens and closes with the result 0, as the interface documents.\<close>

definition ops_ok :: "('c, 'w) DeviceOps \<Rightarrow> bool" where
  "ops_ok os \<longleftrightarrow> (case op_open os of None \<Rightarrow> False | Some f \<Rightarrow> zero_result f)
     \<and> (case op_close os of None \<Rightarrow> False | Some f \<Rightarrow> zero_result f)"

lemmas device_op_defs = device_open_def device_read_def device_write_def device_control_def device_close_def

lemma device_result_sel [simp]:
  "config (device_result d r) = config d" "ops (device_result d r) = ops d"
  "priv (device_result d r) = priv d" "opened (device_result d r) = opened d"
  by (auto simp: device_result_def Let_def split: sum.splits)

lemma device_failure_sel [simp]:
  "fst (device_failure d e) = Inl e" "snd (device_failure d e) = d\<lparr>last_errno := e\<rparr>"
  by (simp_all add: device_failure_def)

lemma device_result_dstate:
  "dstate (device_result d r) = (case outcome_of r of Good \<Rightarrow> (if opened d then DEVICE_OPEN else DEVICE_CLOSED)
     | Soft \<Rightarrow> dstate d | Hard \<Rightarrow> DEVICE_ERROR)"
  by (auto simp: device_result_def outcome_of_def Let_def split: sum.splits)

lemma device_init_ok: "device_ok (device_init cfg (Some os) c)"
  by (simp add: device_init_def device_ok_def device_zero_def)

lemma zero_result_good:
  assumes "zero_result f" "f cfg c w = Some (r, c', w')"
  shows "outcome_of r = Good \<longleftrightarrow> r = Inr 0"
proof (cases r)
  case (Inr n)
  then have "n = 0" using assms unfolding zero_result_def by blast
  with Inr show ?thesis by (simp add: outcome_of_def)
qed (simp add: outcome_of_def)

lemma device_open_step:
  assumes "device_open d w = Some ((r, d'), w')" "device_ok d" "ops d = Some os" "ops_ok os"
  shows "phase_of d' = phase_open (phase_of d) (outcome_of r) \<and> device_ok d' \<and> config d' = config d \<and> ops d' = ops d"
proof -
  obtain f where f: "op_open os = Some f" "zero_result f"
    using assms(4) by (auto simp: ops_ok_def split: option.splits)
  consider "enabled (config d) = 0" | "enabled (config d) \<noteq> 0" "opened d" | "enabled (config d) \<noteq> 0" "\<not> opened d"
    by blast
  then show ?thesis
  proof cases
    case 3
    with assms f obtain c where c: "f (config d) (priv d) w = Some (r, c, w')"
      "d' = device_result (d\<lparr>priv := c, opened := (r = Inr 0)\<rparr>) r"
      by (auto simp: device_open_def Let_def split: Option.bind_splits)
    have good: "outcome_of r = Good \<longleftrightarrow> r = Inr 0"
      using f(2) c(1) by (rule zero_result_good)
    show ?thesis
      using 3 assms(2) good
      by (cases "outcome_of r") (auto simp: c(2) phase_of_def device_result_dstate device_ok_def)
  qed (use assms f in \<open>auto simp: device_open_def device_failure_def phase_of_def device_ok_def outcome_of_def soft_errno_def
        split: if_splits\<close>)
qed

lemma device_used:
  assumes "device_ready d = None" "device_ok d"
  shows "phase_of (device_result (d\<lparr>priv := c\<rparr>) r) = phase_use (phase_of d) (outcome_of r)
    \<and> device_ok (device_result (d\<lparr>priv := c\<rparr>) r)"
  using assms
  by (cases "outcome_of r")
    (auto simp: device_ready_def phase_of_def device_result_dstate device_ok_def split: if_splits)

lemma device_unused:
  assumes "device_ok d"
  shows "phase_of (d\<lparr>last_errno := e\<rparr>) = phase_of d \<and> device_ok (d\<lparr>last_errno := e\<rparr>)"
  using assms by (simp add: phase_of_def device_ok_def)

lemma phase_use_not_ready:
  "device_ready d = Some e \<Longrightarrow> ops d \<noteq> None \<Longrightarrow> phase_use (phase_of d) out = phase_of d"
  by (cases out) (auto simp: device_ready_def phase_of_def split: if_splits)

lemma phase_use_soft: "soft_errno e \<Longrightarrow> phase_use p (outcome_of (Inl e)) = p"
  by (cases p) (auto simp: outcome_of_def)

lemma soft_errnos [simp]: "soft_errno EINVAL" "soft_errno ENOTSUP" "soft_errno EBUSY" "\<not> soft_errno EIO"
  by (simp_all add: soft_errno_def)

text \<open>The three operations that use an open device share their shape.\<close>

definition use_step :: "('c, 'w) Device \<Rightarrow> int + 'r \<Rightarrow> ('c, 'w) Device \<Rightarrow> bool" where
  "use_step d r d' \<longleftrightarrow> phase_of d' = phase_use (phase_of d) (outcome_of r) \<and> device_ok d'
     \<and> config d' = config d \<and> ops d' = ops d"

lemma use_step_result: "device_ready d = None \<Longrightarrow> device_ok d \<Longrightarrow> use_step d r (device_result (d\<lparr>priv := c\<rparr>) r)"
  using device_used [of d c r] by (simp add: use_step_def)

lemma use_step_soft: "device_ok d \<Longrightarrow> soft_errno e \<Longrightarrow> use_step d (Inl e) (d\<lparr>last_errno := e\<rparr>)"
  using device_unused [of d e] by (simp add: use_step_def phase_use_soft)

lemma use_step_not_ready:
  "device_ready d = Some e \<Longrightarrow> device_ok d \<Longrightarrow> use_step d (Inl e) (d\<lparr>last_errno := e\<rparr>)"
  using device_unused [of d e] phase_use_not_ready [of d e]
  by (auto simp: use_step_def device_ok_def)

lemmas use_steps = use_step_result use_step_soft use_step_not_ready

lemma device_read_step:
  "device_read d b n w = Some ((r, d'), w') \<Longrightarrow> device_ok d \<Longrightarrow> use_step d r d'"
  by (auto simp: device_read_def device_failure_def intro: use_steps
      split: option.splits if_splits Option.bind_splits)

lemma device_write_step:
  "device_write d bs w = Some ((r, d'), w') \<Longrightarrow> device_ok d \<Longrightarrow> use_step d r d'"
  by (auto simp: device_write_def device_failure_def intro: use_steps
      split: option.splits if_splits Option.bind_splits)

lemma device_control_step:
  "device_control d q w = Some ((r, d'), w') \<Longrightarrow> device_ok d \<Longrightarrow> use_step d r d'"
  by (auto simp: device_control_def device_failure_def intro: use_steps
      split: option.splits if_splits Option.bind_splits)

lemma device_close_step:
  assumes "device_close d w = Some ((r, d'), w')" "device_ok d" "ops d = Some os" "ops_ok os"
  shows "phase_of d' = phase_close (phase_of d) (outcome_of r) \<and> device_ok d' \<and> config d' = config d \<and> ops d' = ops d"
proof (cases "opened d")
  case True
  obtain f where f: "op_close os = Some f" "zero_result f"
    using assms(4) by (auto simp: ops_ok_def split: option.splits)
  with True assms obtain c where c: "f (config d) (priv d) w = Some (r, c, w')"
    "d' = device_result (d\<lparr>priv := c, opened := (r \<noteq> Inr 0)\<rparr>) r"
    by (auto simp: device_close_def Let_def split: Option.bind_splits)
  have good: "outcome_of r = Good \<longleftrightarrow> r = Inr 0"
    using f(2) c(1) by (rule zero_result_good)
  show ?thesis
    using True assms(2) good
    by (cases "outcome_of r") (auto simp: c(2) phase_of_def device_result_dstate device_ok_def)
qed (use assms in \<open>auto simp: device_close_def phase_of_def device_ok_def outcome_of_def\<close>)

text \<open>A history of calls on one device.\<close>

inductive device_history :: "('c, 'w) Device \<Rightarrow> ('c, 'w) Device \<Rightarrow> bool" where
  history_start: "device_history d d"
| history_open: "device_history d d1 \<Longrightarrow> device_open d1 w = Some ((r, d2), w') \<Longrightarrow> device_history d d2"
| history_read: "device_history d d1 \<Longrightarrow> device_read d1 b n w = Some ((r1, d2), w') \<Longrightarrow> device_history d d2"
| history_write: "device_history d d1 \<Longrightarrow> device_write d1 bs w = Some ((r, d2), w') \<Longrightarrow> device_history d d2"
| history_control: "device_history d d1 \<Longrightarrow> device_control d1 q w = Some ((r, d2), w') \<Longrightarrow> device_history d d2"
| history_close: "device_history d d1 \<Longrightarrow> device_close d1 w = Some ((r, d2), w') \<Longrightarrow> device_history d d2"

section \<open>What the device layer relies on in a backend\<close>

text \<open>
  \<open>fits\<close>: the private data is the one the backend allocated for this configuration.  \<open>held\<close>: it
  holds an open system resource.  A failed \<^verbatim>\<open>open\<close> leaves none behind, \<^verbatim>\<open>close\<close> succeeds and
  releases it, and using the device acquires none.
\<close>

locale backend =
  fixes os :: "('c, 'w) DeviceOps"
    and fits :: "DeviceConfig \<Rightarrow> 'c option \<Rightarrow> bool"
    and held :: "'c option \<Rightarrow> bool"
  assumes ops_ok: "ops_ok os"
    and on_open: "op_open os = Some f \<Longrightarrow> fits cfg c \<Longrightarrow> \<not> held c \<Longrightarrow> f cfg c w = Some (r, c', w')
      \<Longrightarrow> fits cfg c' \<and> (held c' \<longrightarrow> r = Inr 0)"
    and on_read: "op_read os = Some f1 \<Longrightarrow> fits cfg c \<Longrightarrow> f1 n cfg c w = Some (r1, c', w')
      \<Longrightarrow> fits cfg c' \<and> (held c' \<longrightarrow> held c)"
    and on_write: "op_write os = Some f2 \<Longrightarrow> fits cfg c \<Longrightarrow> f2 bs cfg c w = Some (r, c', w')
      \<Longrightarrow> fits cfg c' \<and> (held c' \<longrightarrow> held c)"
    and on_control: "op_control os = Some f3 \<Longrightarrow> fits cfg c \<Longrightarrow> f3 q cfg c w = Some (r, c', w')
      \<Longrightarrow> fits cfg c' \<and> (held c' \<longrightarrow> held c)"
    and on_close: "op_close os = Some f \<Longrightarrow> fits cfg c \<Longrightarrow> f cfg c w = Some (r, c', w')
      \<Longrightarrow> fits cfg c' \<and> r = Inr 0 \<and> \<not> held c'"
begin

definition safe :: "('c, 'w) Device \<Rightarrow> bool" where
  "safe d \<longleftrightarrow> device_ok d \<and> ops d = Some os \<and> fits (config d) (priv d) \<and> (held (priv d) \<longrightarrow> opened d)"

lemma safe_last_errno: "safe d \<Longrightarrow> safe (d\<lparr>last_errno := e\<rparr>)"
  using device_unused [of d e] by (simp add: safe_def)

lemma init_safe: "fits cfg c \<Longrightarrow> \<not> held c \<Longrightarrow> safe (device_init cfg (Some os) c)"
  using device_init_ok [of cfg os c] by (simp add: safe_def device_init_def)

lemma open_safe:
  assumes "device_open d w = Some ((r, d'), w')" "safe d"
  shows "safe d'"
proof -
  obtain f where f: "op_open os = Some f" using ops_ok by (auto simp: ops_ok_def split: option.splits)
  have step: "device_ok d' \<and> config d' = config d \<and> ops d' = ops d"
    using device_open_step [OF assms(1) _ _ ops_ok] assms(2) by (simp add: safe_def)
  have "fits (config d) (priv d') \<and> (held (priv d') \<longrightarrow> opened d')"
    using assms f on_open [OF f, of "config d" "priv d" w]
    by (auto simp: device_open_def device_failure_def Let_def safe_def split: if_splits Option.bind_splits)
  with step assms(2) show ?thesis by (simp add: safe_def)
qed

lemma use_safe:
  assumes "use_step d r d'" "safe d" "fits (config d) (priv d')" "held (priv d') \<longrightarrow> opened d'"
  shows "safe d'"
  using assms by (simp add: safe_def use_step_def)

lemma read_safe: "device_read d b n w = Some ((r, d'), w') \<Longrightarrow> safe d \<Longrightarrow> safe d'"
  by (rule use_safe [OF device_read_step])
    (auto simp: safe_def device_read_def device_failure_def dest: on_read
      split: option.splits if_splits Option.bind_splits)

lemma write_safe: "device_write d bs w = Some ((r, d'), w') \<Longrightarrow> safe d \<Longrightarrow> safe d'"
  by (rule use_safe [OF device_write_step])
    (auto simp: safe_def device_write_def device_failure_def dest: on_write
      split: option.splits if_splits Option.bind_splits)

lemma control_safe: "device_control d q w = Some ((r, d'), w') \<Longrightarrow> safe d \<Longrightarrow> safe d'"
  by (rule use_safe [OF device_control_step])
    (auto simp: safe_def device_control_def device_failure_def dest: on_control
      split: option.splits if_splits Option.bind_splits)

lemma close_safe:
  assumes "device_close d w = Some ((r, d'), w')" "safe d"
  shows "safe d' \<and> r = Inr 0 \<and> \<not> opened d' \<and> \<not> held (priv d')"
proof -
  obtain f where f: "op_close os = Some f" using ops_ok by (auto simp: ops_ok_def split: option.splits)
  have step: "device_ok d' \<and> config d' = config d \<and> ops d' = ops d"
    using device_close_step [OF assms(1) _ _ ops_ok] assms(2) by (simp add: safe_def)
  have "fits (config d) (priv d') \<and> r = Inr 0 \<and> \<not> opened d' \<and> \<not> held (priv d')"
    using assms f on_close [OF f, of "config d" "priv d" w]
    by (auto simp: device_close_def device_failure_def Let_def safe_def split: if_splits Option.bind_splits)
  with step assms(2) show ?thesis by (simp add: safe_def)
qed

lemma history_safe: "device_history d d' \<Longrightarrow> safe d \<Longrightarrow> safe d'"
  by (induction rule: device_history.induct)
    (auto dest: open_safe read_safe write_safe control_safe close_safe)

end

section \<open>Properties of the device layer\<close>

text \<open>C9. On a backend that opens and closes with 0, every operation of the device layer moves
  the device through the life cycle: opening takes a closed or failed device to ready or, on an
  error that is not temporary, to failed; using a ready device breaks it exactly on such an error;
  closing brings a ready or broken device back to closed when the backend closes it; a disabled
  device stays off.  The recorded state stays consistent with the enabled and opened flags, and
  configuration and operation table are never changed.\<close>
theorem device_life_cycle:
  assumes "device_ok d" and "ops d = Some os" and "ops_ok os"
  shows "(device_open d w = Some ((r, d'), w') \<longrightarrow>
        phase_of d' = phase_open (phase_of d) (outcome_of r) \<and> device_ok d' \<and> config d' = config d \<and> ops d' = ops d)
    \<and> (device_read d b n w = Some ((rb, d'), w') \<longrightarrow>
        phase_of d' = phase_use (phase_of d) (outcome_of rb) \<and> device_ok d' \<and> config d' = config d \<and> ops d' = ops d)
    \<and> (device_write d bs w = Some ((r, d'), w') \<longrightarrow>
        phase_of d' = phase_use (phase_of d) (outcome_of r) \<and> device_ok d' \<and> config d' = config d \<and> ops d' = ops d)
    \<and> (device_control d q w = Some ((r, d'), w') \<longrightarrow>
        phase_of d' = phase_use (phase_of d) (outcome_of r) \<and> device_ok d' \<and> config d' = config d \<and> ops d' = ops d)
    \<and> (device_close d w = Some ((r, d'), w') \<longrightarrow>
        phase_of d' = phase_close (phase_of d) (outcome_of r) \<and> device_ok d' \<and> config d' = config d \<and> ops d' = ops d)"
  using device_open_step [of d w r d' w' os] device_close_step [of d w r d' w' os]
    device_read_step [of d b n w rb d' w'] device_write_step [of d bs w r d' w']
    device_control_step [of d q w r d' w'] assms
  unfolding use_step_def by blast

text \<open>A backend without private data: reading fails with the error the world holds.\<close>

definition demo_ops :: "(unit, int) DeviceOps" where
  "demo_ops = \<lparr>op_open = Some (\<lambda>cfg c w. Some (Inr 0, c, w)), op_read = Some (\<lambda>n cfg c w. Some (Inl w, c, w)),
     op_write = None, op_control = None, op_close = Some (\<lambda>cfg c w. Some (Inr 0, c, w)), op_destroy = None\<rparr>"

definition demo_device :: "(unit, int) Device" where
  "demo_device = device_init (config_zero\<lparr>enabled := 1\<rparr>) (Some demo_ops) None"

definition demo_opened :: "(unit, int) Device" where
  "demo_opened = snd (fst (the (device_open demo_device 0)))"

theorem device_life_cycle_witness:
  "\<exists>d'. device_read demo_opened True 4 EIO = Some ((Inl EIO, d'), EIO) \<and> phase_of demo_opened = Ready
    \<and> phase_of d' = Broken \<and> device_ok d'"
proof -
  have dev: "device_ok demo_opened" "ops demo_opened = Some demo_ops" "ops_ok demo_ops"
    by (simp_all add: demo_opened_def demo_device_def device_init_def device_zero_def device_open_def demo_ops_def
        device_result_def device_ok_def config_zero_def ops_ok_def zero_result_def)
  have ready: "phase_of demo_opened = Ready" by code_simp
  obtain d' where read: "device_read demo_opened True 4 EIO = Some ((Inl EIO, d'), EIO)"
    by (simp add: demo_opened_def demo_device_def device_init_def device_zero_def device_open_def demo_ops_def
        device_result_def config_zero_def device_read_def device_ready_def)
  from device_life_cycle [OF dev, where w = EIO and rb = "Inl EIO" and d' = d' and w' = EIO and b = True and n = 4]
  show ?thesis using read ready by (auto simp: outcome_of_def)
qed

text \<open>C33. A broken device refuses every use with the error that broke it, and a new open with
  \<^verbatim>\<open>EBUSY\<close>, without calling its backend; a device that is not open refuses every use with
  \<^verbatim>\<open>EBADF\<close>, a disabled one with \<^verbatim>\<open>EACCES\<close>.\<close>
theorem device_refuses:
  assumes "device_ok d" and "phase_of d \<noteq> Ready" and "ops d = Some os" and "ops_ok os"
  shows "\<exists>e. (phase_of d = Broken \<and> e = (if last_errno d \<noteq> 0 then last_errno d else EIO)
        \<and> device_open d w = Some ((Inl EBUSY, d\<lparr>last_errno := EBUSY\<rparr>), w)
      \<or> phase_of d \<in> {Closed, Failed} \<and> e = EBADF
      \<or> phase_of d = Off \<and> e = EACCES \<and> device_open d w = Some ((Inl EACCES, d\<lparr>last_errno := EACCES\<rparr>), w))
    \<and> device_read d b n w = Some ((Inl e, d\<lparr>last_errno := e\<rparr>), w)
    \<and> device_write d bs w = Some ((Inl e, d\<lparr>last_errno := e\<rparr>), w)
    \<and> device_control d q w = Some ((Inl e, d\<lparr>last_errno := e\<rparr>), w)"
proof -
  obtain f where f: "op_open os = Some f" using assms(4) by (auto simp: ops_ok_def split: option.splits)
  obtain e where e: "device_ready d = Some e"
    using assms(2,3) by (auto simp: device_ready_def phase_of_def split: if_splits)
  have "device_read d b n w = Some ((Inl e, d\<lparr>last_errno := e\<rparr>), w)"
      "device_write d bs w = Some ((Inl e, d\<lparr>last_errno := e\<rparr>), w)"
      "device_control d q w = Some ((Inl e, d\<lparr>last_errno := e\<rparr>), w)"
    using e by (simp_all add: device_read_def device_write_def device_control_def device_failure_def)
  moreover have "phase_of d = Broken \<and> e = (if last_errno d \<noteq> 0 then last_errno d else EIO)
        \<and> device_open d w = Some ((Inl EBUSY, d\<lparr>last_errno := EBUSY\<rparr>), w)
      \<or> phase_of d \<in> {Closed, Failed} \<and> e = EBADF
      \<or> phase_of d = Off \<and> e = EACCES \<and> device_open d w = Some ((Inl EACCES, d\<lparr>last_errno := EACCES\<rparr>), w)"
    using e assms(3) f by (auto simp: device_ready_def phase_of_def device_open_def device_failure_def split: if_splits)
  ultimately show ?thesis by blast
qed

theorem device_refuses_witness:
  "device_ok demo_device \<and> phase_of demo_device = Closed
   \<and> device_read demo_device True 4 0 = Some ((Inl EBADF, demo_device\<lparr>last_errno := EBADF\<rparr>), 0)"
proof -
  have dev: "device_ok demo_device" "phase_of demo_device \<noteq> Ready" "ops demo_device = Some demo_ops" "ops_ok demo_ops"
    "phase_of demo_device = Closed"
    by (simp_all add: demo_device_def device_init_def device_zero_def demo_ops_def phase_of_def
        device_ok_def config_zero_def ops_ok_def zero_result_def)
  from device_refuses [OF dev(1-4), where w = 0 and b = True and n = 4] dev(1,5) show ?thesis by auto
qed

end
