(* ===== verification/Device_Config.thy ===== *)
theory Device_Config
  imports Device
begin

text \<open>
  The device file, \<^verbatim>\<open>src/device_config.c\<close>: sections \<^verbatim>\<open>[name]\<close> with \<^verbatim>\<open>key = value\<close> lines.  A file is
  its bytes, whether reading ends in an error, and the error of \<^verbatim>\<open>fclose\<close>, if any; the file system
  maps names to what \<^verbatim>\<open>fopen\<close> gives.  The bit set of fields seen is a 32-bit word as in the code.
\<close>

section \<open>Data\<close>

datatype config_source = No_file int
  | Config_file (config_bytes: "char list") (config_read_error: bool) (config_close_errno: "int option")

abbreviation (input) CONFIG_TYPE :: uint32 where "CONFIG_TYPE \<equiv> 1"
abbreviation (input) CONFIG_PATH :: uint32 where "CONFIG_PATH \<equiv> 2"
abbreviation (input) CONFIG_ENABLED :: uint32 where "CONFIG_ENABLED \<equiv> 4"
abbreviation (input) CONFIG_BAUDRATE :: uint32 where "CONFIG_BAUDRATE \<equiv> 8"
abbreviation (input) CONFIG_ADDRESS :: uint32 where "CONFIG_ADDRESS \<equiv> 16"
abbreviation (input) CONFIG_OFFSET :: uint32 where "CONFIG_OFFSET \<equiv> 32"
abbreviation (input) CONFIG_DIRECTION :: uint32 where "CONFIG_DIRECTION \<equiv> 64"
abbreviation (input) CONFIG_BIAS :: uint32 where "CONFIG_BIAS \<equiv> 128"
abbreviation (input) CONFIG_INITIAL :: uint32 where "CONFIG_INITIAL \<equiv> 256"
abbreviation (input) CONFIG_LED_NAME :: uint32 where "CONFIG_LED_NAME \<equiv> 512"
abbreviation (input) DEVICE_CONFIG_LINE_SIZE :: nat where "DEVICE_CONFIG_LINE_SIZE \<equiv> 512"

section \<open>Validation\<close>

definition config_invalid :: "int + 'a" where
  "config_invalid = Inl EINVAL"

definition config_name_valid :: "string \<Rightarrow> bool" where
  "config_name_valid s \<longleftrightarrow> s \<noteq> [] \<and> list_all (\<lambda>c. isalnum c \<or> c = CHR ''_'' \<or> c = CHR ''-'') s"

definition config_led_name_valid :: "string \<Rightarrow> bool" where
  "config_led_name_valid s \<longleftrightarrow> \<not> (s = [] \<or> s = ''.'' \<or> s = ''..'')
     \<and> list_all (\<lambda>c. \<not> (c = CHR ''/'' \<or> isspace c \<or> ord_of c < 0x20 \<or> ord_of c = 0x7F)) s"

definition device_config_init :: DeviceConfig where
  "device_config_init = config_zero\<lparr>type_of := DEVICE_UART, enabled := 1, baudrate := 115200\<rparr>"

definition device_config_validate :: "DeviceConfig \<Rightarrow> int + unit" where
  "device_config_validate c =
     (if DEVICE_NAME_SIZE \<le> length (name_of c) \<or> DEVICE_PATH_SIZE \<le> length (path c)
         \<or> DEVICE_NAME_SIZE \<le> length (led_name c) then config_invalid
      else if \<not> config_name_valid (name_of c) \<or> (enabled c \<noteq> 0 \<and> enabled c \<noteq> 1) then config_invalid
      else if type_of c = DEVICE_LED then
        (if config_led_name_valid (led_name c) then Inr () else config_invalid)
      else if path c = [] \<or> hd (path c) \<noteq> CHR ''/'' \<or> length (path c) = 1 then config_invalid
      else if type_of c = DEVICE_UART then
        (if baudrate c \<in> {9600, 19200, 38400, 57600, 115200, 230400} then Inr () else config_invalid)
      else if (type_of c = DEVICE_I2C \<or> type_of c = DEVICE_OLED) \<and> (address c < 0x03 \<or> address c > 0x77)
        then config_invalid
      else if type_of c = DEVICE_GPIO \<and>
          ((gpio_output c \<noteq> 0 \<and> gpio_output c \<noteq> 1) \<or> (initial_value c \<noteq> 0 \<and> initial_value c \<noteq> 1)
           \<or> bias c < 0 \<or> bias c > 3 \<or> (gpio_output c \<noteq> 0 \<and> bias c \<noteq> 0)) then config_invalid
      else Inr ())"

section \<open>Fields\<close>

definition config_trim :: "string \<Rightarrow> string" where
  "config_trim s = rstrip (dropWhile isspace s)"

definition config_copy :: "nat \<Rightarrow> string \<Rightarrow> int + string" where
  "config_copy n s = (if length s = 0 \<or> n \<le> length s then config_invalid else Inr s)"

definition config_unsigned :: "string \<Rightarrow> nat \<Rightarrow> int + nat" where
  "config_unsigned s maximum =
     (if s = [] \<or> hd s = CHR ''-'' \<or> hd s = CHR ''+'' \<or> isspace (hd s) then config_invalid
      else case strtoul 0 s of (parsed, rest, erange) \<Rightarrow>
        if erange \<or> rest \<noteq> [] \<or> parsed > maximum then config_invalid else Inr parsed)"

definition config_keys :: "string list" where
  "config_keys = [''type'', ''path'', ''enabled'', ''baudrate'', ''address'', ''offset'',
     ''direction'', ''bias'', ''initial_value'', ''led_name'']"

text \<open>The index of the first string equal to \<open>s\<close>, or the number of strings.\<close>

fun index_of :: "string \<Rightarrow> string list \<Rightarrow> nat" where
  "index_of s [] = 0"
| "index_of s (k # ks) = (if s = k then 0 else Suc (index_of s ks))"

definition device_types :: "DeviceType list" where
  "device_types = [DEVICE_UART, DEVICE_I2C, DEVICE_OLED, DEVICE_GPIO, DEVICE_LED]"

definition config_biases :: "string list" where
  "config_biases = [''default'', ''pull_up'', ''pull_down'', ''disabled'']"

definition config_field :: "DeviceConfig \<Rightarrow> uint32 \<Rightarrow> string \<Rightarrow> string \<Rightarrow> int + DeviceConfig \<times> uint32" where
  "config_field c seen key s =
     (let index = index_of key config_keys
      in if index = length config_keys \<or> seen AND push_bit index 1 \<noteq> 0 \<or> s = [] then config_invalid
         else let seen' = seen OR push_bit index 1;
                  field = push_bit index (1 :: uint32);
                  store = (\<lambda>r f. case r of Inl e \<Rightarrow> Inl e | Inr v \<Rightarrow> Inr (f v, seen'))
              in if field = CONFIG_TYPE then
                   (case find (\<lambda>t. s = device_type_string t) device_types of
                      Some t \<Rightarrow> Inr (c\<lparr>type_of := t\<rparr>, seen') | None \<Rightarrow> config_invalid)
                 else if field = CONFIG_PATH then store (config_copy DEVICE_PATH_SIZE s) (\<lambda>v. c\<lparr>path := v\<rparr>)
                 else if field = CONFIG_LED_NAME then store (config_copy DEVICE_NAME_SIZE s) (\<lambda>v. c\<lparr>led_name := v\<rparr>)
                 else if field = CONFIG_ENABLED \<or> field = CONFIG_INITIAL then
                   (case config_unsigned s 1 of Inl e \<Rightarrow> Inl e
                    | Inr v \<Rightarrow> Inr (if index = 2 then c\<lparr>enabled := int v\<rparr> else c\<lparr>initial_value := int v\<rparr>, seen'))
                 else if field = CONFIG_BAUDRATE then
                   (case config_unsigned s (nat INT_MAX) of Inl e \<Rightarrow> Inl e
                    | Inr v \<Rightarrow> Inr (c\<lparr>baudrate := int v\<rparr>, seen'))
                 else if field = CONFIG_ADDRESS \<or> field = CONFIG_OFFSET then
                   (case config_unsigned s UINT_MAX of Inl e \<Rightarrow> Inl e
                    | Inr v \<Rightarrow> Inr (if index = 4 then c\<lparr>address := of_nat v\<rparr> else c\<lparr>offset := of_nat v\<rparr>, seen'))
                 else if field = CONFIG_DIRECTION then
                   (if s \<noteq> ''input'' \<and> s \<noteq> ''output'' then config_invalid
                    else Inr (c\<lparr>gpio_output := (if s = ''output'' then 1 else 0)\<rparr>, seen'))
                 else if field = CONFIG_BIAS then
                   (let b = index_of s config_biases
                    in if b < length config_biases then Inr (c\<lparr>bias := int b\<rparr>, seen') else config_invalid)
                 else config_invalid)"

definition config_masks :: "DeviceConfig \<Rightarrow> uint32 \<times> uint32" where
  "config_masks c =
     (let required = CONFIG_TYPE; allowed = CONFIG_TYPE OR CONFIG_ENABLED
      in case type_of c of
           DEVICE_UART \<Rightarrow> (required OR CONFIG_PATH, allowed OR CONFIG_PATH OR CONFIG_BAUDRATE)
         | DEVICE_I2C \<Rightarrow> (required OR CONFIG_PATH OR CONFIG_ADDRESS, allowed OR CONFIG_PATH OR CONFIG_ADDRESS)
         | DEVICE_OLED \<Rightarrow> (required OR CONFIG_PATH OR CONFIG_ADDRESS, allowed OR CONFIG_PATH OR CONFIG_ADDRESS)
         | DEVICE_GPIO \<Rightarrow> (required OR CONFIG_PATH OR CONFIG_OFFSET,
             allowed OR CONFIG_PATH OR CONFIG_OFFSET OR CONFIG_DIRECTION
               OR (if gpio_output c \<noteq> 0 then CONFIG_INITIAL else CONFIG_BIAS))
         | DEVICE_LED \<Rightarrow> (required OR CONFIG_LED_NAME, allowed OR CONFIG_LED_NAME))"

definition config_section_validate :: "DeviceConfig \<Rightarrow> uint32 \<Rightarrow> int + unit" where
  "config_section_validate c seen =
     (case config_masks c of (required, allowed) \<Rightarrow>
        if seen AND required \<noteq> required \<or> seen AND NOT allowed \<noteq> 0 then config_invalid
        else device_config_validate c)"

section \<open>Reading the file\<close>

text \<open>
  \<open>Inr None\<close> is the end of the file, \<open>Inr (Some (line, rest))\<close> a line and the bytes after it;
  \<open>acc\<close> is the line read so far.
\<close>

fun config_read_line :: "bool \<Rightarrow> string \<Rightarrow> char list \<Rightarrow> int + (string \<times> char list) option" where
  "config_read_line err acc [] =
     (if err then Inl EIO else if acc = [] then Inr None else Inr (Some (acc, [])))"
| "config_read_line err acc (c # cs) =
     (if c = NL then Inr (Some (acc, cs))
      else if c = NUL \<or> length acc + 1 \<ge> DEVICE_CONFIG_LINE_SIZE then config_invalid
      else config_read_line err (acc @ [c]) cs)"

type_synonym config_state = "DeviceConfig list \<times> uint32"

definition config_section :: "string \<Rightarrow> config_state \<Rightarrow> int + config_state" where
  "config_section s = (\<lambda>(devs, seen).
     if length s < 3 \<or> last s \<noteq> CHR '']''
        \<or> (devs \<noteq> [] \<and> config_section_validate (last devs) seen \<noteq> Inr ()) then config_invalid
     else let name = butlast (tl s)
          in if \<not> config_name_valid name \<or> length name \<ge> DEVICE_NAME_SIZE then config_invalid
             else if list_ex (\<lambda>c. name_of c = name) devs then Inl EEXIST
             else if length devs = DEVICE_MAX_COUNT then Inl ENOSPC
             else Inr (devs @ [device_config_init\<lparr>name_of := name\<rparr>], 0))"

definition config_line :: "string \<Rightarrow> config_state \<Rightarrow> int + config_state" where
  "config_line line st =
     (let s = config_trim line
      in if s = [] \<or> hd s = CHR ''#'' \<or> hd s = CHR '';'' then Inr st
         else if hd s = CHR ''['' then config_section s st
         else case st of (devs, seen) \<Rightarrow>
           (case split_at (CHR ''='') s of
              None \<Rightarrow> config_invalid
            | Some (key, v) \<Rightarrow>
                if devs = [] then config_invalid
                else case config_field (last devs) seen (config_trim key) (config_trim v) of
                  Inl e \<Rightarrow> Inl e
                | Inr (c, seen') \<Rightarrow> Inr (butlast devs @ [c], seen')))"

lemma config_read_line_rest:
  "config_read_line err acc cs = Inr (Some (line, rest)) \<Longrightarrow> length rest < length cs \<or> (cs = [] \<and> rest = [] \<and> acc \<noteq> [])"
proof (induction err acc cs rule: config_read_line.induct)
  case (2 err acc c cs)
  then show ?case by (fastforce split: if_splits simp: config_invalid_def)
qed (auto split: if_splits)

function config_loop :: "bool \<Rightarrow> char list \<Rightarrow> config_state \<Rightarrow> int + config_state" where
  "config_loop err cs st =
     (case config_read_line err [] cs of
        Inl e \<Rightarrow> Inl e
      | Inr None \<Rightarrow> Inr st
      | Inr (Some (line, rest)) \<Rightarrow>
          (case config_line line st of Inl e \<Rightarrow> Inl e | Inr st' \<Rightarrow> config_loop err rest st'))"
  by pat_completeness auto
termination
  by (relation "measure (\<lambda>(err, cs, st). length cs)") (use config_read_line_rest in fastforce)+

declare config_loop.simps [simp del]

definition device_config_load :: "(string \<Rightarrow> config_source) \<Rightarrow> string option \<Rightarrow> int + DeviceConfig list" where
  "device_config_load files filename =
     (case filename of
        None \<Rightarrow> config_invalid
      | Some f \<Rightarrow>
          if f = [] then config_invalid
          else case files f of
            No_file e \<Rightarrow> Inl e
          | Config_file cs err close_errno \<Rightarrow>
              (case config_loop err cs ([], 0) of
                 Inl e \<Rightarrow> Inl e
               | Inr (devs, seen) \<Rightarrow>
                   if devs \<noteq> [] \<and> config_section_validate (last devs) seen \<noteq> Inr () then config_invalid
                   else case close_errno of Some e \<Rightarrow> Inl e | None \<Rightarrow> Inr devs))"

section \<open>What a loaded file guarantees\<close>

definition loading_ok :: "config_state \<Rightarrow> bool" where
  "loading_ok = (\<lambda>(devs, seen). list_all (\<lambda>c. device_config_validate c = Inr ()) (butlast devs)
     \<and> distinct (map name_of devs) \<and> length devs \<le> DEVICE_MAX_COUNT)"

lemma config_field_name: "config_field c seen k v = Inr (c', seen') \<Longrightarrow> name_of c' = name_of c"
  by (auto simp: config_field_def config_invalid_def Let_def split: if_splits sum.splits option.splits)

lemma config_section_validate_valid: "config_section_validate c seen = Inr () \<Longrightarrow> device_config_validate c = Inr ()"
  by (auto simp: config_section_validate_def config_invalid_def split: prod.splits if_splits)

lemma all_valid:
  assumes "list_all P (butlast xs)" "xs \<noteq> [] \<longrightarrow> P (last xs)"
  shows "list_all P xs"
  using assms by (cases xs rule: rev_cases) auto

lemma config_section_loading_ok:
  assumes "config_section s (devs, seen) = Inr st'" "loading_ok (devs, seen)"
  shows "loading_ok st'"
proof -
  have "st' = (devs @ [device_config_init\<lparr>name_of := butlast (tl s)\<rparr>], 0)"
      "devs \<noteq> [] \<longrightarrow> config_section_validate (last devs) seen = Inr ()"
      "\<not> list_ex (\<lambda>c. name_of c = butlast (tl s)) devs" "length devs \<noteq> DEVICE_MAX_COUNT"
    using assms(1) by (auto simp: config_section_def config_invalid_def Let_def split: if_splits)
  with assms(2) config_section_validate_valid show ?thesis
    by (auto simp: loading_ok_def list_ex_iff intro!: all_valid)
qed

lemma config_line_cases:
  assumes "config_line line (devs, seen) = Inr st'"
  obtains "st' = (devs, seen)"
  | "config_section (config_trim line) (devs, seen) = Inr st'"
  | k v c seen' where "devs \<noteq> []" "config_field (last devs) seen k v = Inr (c, seen')"
      "st' = (butlast devs @ [c], seen')"
proof -
  define s where "s = config_trim line"
  show thesis
  proof (cases "s = [] \<or> hd s = CHR ''#'' \<or> hd s = CHR '';''")
    case True
    then show thesis using assms that(1) by (simp add: config_line_def s_def [symmetric])
  next
    case other: False
    show thesis
    proof (cases "hd s = CHR ''[''")
      case True
      then show thesis using assms that(2) other by (simp add: config_line_def s_def [symmetric])
    next
      case False
      with other assms show thesis
        by (auto simp: config_line_def s_def [symmetric] config_invalid_def that(3)
            split: option.splits prod.splits if_splits sum.splits)
    qed
  qed
qed

lemma config_line_loading_ok:
  assumes "config_line line st = Inr st'" "loading_ok st"
  shows "loading_ok st'"
proof -
  obtain devs seen where st: "st = (devs, seen)" by (cases st)
  show ?thesis
  proof (cases rule: config_line_cases [OF assms(1) [unfolded st]])
    case (3 k v c seen')
    then have "map name_of (butlast devs @ [c]) = map name_of devs"
      using config_field_name [OF 3(2)] by (cases devs rule: rev_cases) auto
    then have "distinct (map name_of (butlast devs @ [c])) = distinct (map name_of devs)" by simp
    with 3 assms(2) show ?thesis by (simp add: loading_ok_def st)
  qed (use assms(2) config_section_loading_ok st in auto)
qed

lemma config_loop_loading_ok:
  "config_loop err cs st = Inr st' \<Longrightarrow> loading_ok st \<Longrightarrow> loading_ok st'"
proof (induction err cs st rule: config_loop.induct)
  case (1 err cs st)
  from "1.prems" show ?case
    using "1.IH" config_line_loading_ok
    by (subst (asm) config_loop.simps) (auto split: sum.splits option.splits prod.splits)
qed

lemma device_config_load_valid:
  assumes "device_config_load files f = Inr devs"
  shows "list_all (\<lambda>c. device_config_validate c = Inr ()) devs \<and> distinct (map name_of devs)
    \<and> length devs \<le> DEVICE_MAX_COUNT"
proof -
  obtain cs err seen where loop: "config_loop err cs ([], 0) = Inr (devs, seen)"
    and sec: "devs \<noteq> [] \<longrightarrow> config_section_validate (last devs) seen = Inr ()"
    using assms
    by (auto simp: device_config_load_def config_invalid_def split: option.splits if_splits config_source.splits sum.splits)
  have "loading_ok (devs, seen)"
    by (rule config_loop_loading_ok [OF loop]) (simp add: loading_ok_def)
  with sec config_section_validate_valid show ?thesis
    by (auto simp: loading_ok_def intro!: all_valid)
qed

lemma device_config_validate_iff:
  "device_config_validate c = Inr () \<longleftrightarrow>
     length (name_of c) < 64 \<and> length (path c) < 256 \<and> length (led_name c) < 64
   \<and> config_name_valid (name_of c) \<and> enabled c \<in> {0, 1}
   \<and> (case type_of c of
        DEVICE_LED \<Rightarrow> config_led_name_valid (led_name c)
      | DEVICE_UART \<Rightarrow> 1 < length (path c) \<and> hd (path c) = CHR ''/''
          \<and> baudrate c \<in> {9600, 19200, 38400, 57600, 115200, 230400}
      | DEVICE_GPIO \<Rightarrow> 1 < length (path c) \<and> hd (path c) = CHR ''/''
          \<and> gpio_output c \<in> {0, 1} \<and> initial_value c \<in> {0, 1} \<and> 0 \<le> bias c \<and> bias c \<le> 3
          \<and> (gpio_output c = 0 \<or> bias c = 0)
      | _ \<Rightarrow> 1 < length (path c) \<and> hd (path c) = CHR ''/'' \<and> 0x03 \<le> address c \<and> address c \<le> 0x77)"
proof -
  have path: "(path c = [] \<or> hd (path c) \<noteq> CHR ''/'' \<or> length (path c) = 1)
      = (\<not> (1 < length (path c) \<and> hd (path c) = CHR ''/''))"
    by (cases "path c") auto
  show ?thesis
    unfolding device_config_validate_def config_invalid_def path
    by (cases "type_of c") (simp_all add: linorder_not_le [symmetric] split: if_split)
qed

section \<open>Writing a device file\<close>

text \<open>One line per field, as the documentation of the format shows them.\<close>

definition section_lines :: "DeviceConfig \<Rightarrow> string list" where
  "section_lines c =
     [''['' @ name_of c @ '']'', ''type='' @ device_type_string (type_of c),
      ''enabled='' @ dec (nat (enabled c))]
     @ (case type_of c of
          DEVICE_UART \<Rightarrow> [''path='' @ path c, ''baudrate='' @ dec (nat (baudrate c))]
        | DEVICE_I2C \<Rightarrow> [''path='' @ path c, ''address='' @ dec (unat (address c))]
        | DEVICE_OLED \<Rightarrow> [''path='' @ path c, ''address='' @ dec (unat (address c))]
        | DEVICE_GPIO \<Rightarrow> [''path='' @ path c, ''offset='' @ dec (unat (offset c)),
            ''direction='' @ (if gpio_output c \<noteq> 0 then ''output'' else ''input''),
            (if gpio_output c \<noteq> 0 then ''initial_value='' @ dec (nat (initial_value c))
             else ''bias='' @ config_biases ! nat (bias c))]
        | DEVICE_LED \<Rightarrow> [''led_name='' @ led_name c])"

definition config_file_text :: "DeviceConfig list \<Rightarrow> string" where
  "config_file_text cs = concat (map (\<lambda>l. l @ [NL]) (concat (map section_lines cs)))"

text \<open>A configuration the format can express: valid, the fields its type does not use are the
  default ones, and the path is one line without white space at its end.\<close>

definition base_config :: "DeviceConfig \<Rightarrow> DeviceConfig" where
  "base_config c = device_config_init\<lparr>name_of := name_of c, type_of := type_of c, enabled := enabled c\<rparr>"

definition expressible :: "DeviceConfig \<Rightarrow> bool" where
  "expressible c \<longleftrightarrow> device_config_validate c = Inr ()
     \<and> NUL \<notin> set (path c) \<and> NL \<notin> set (path c) \<and> (path c = [] \<or> \<not> isspace (last (path c)))
     \<and> (let base = base_config c
        in c = (case type_of c of
          DEVICE_UART \<Rightarrow> base\<lparr>path := path c, baudrate := baudrate c\<rparr>
        | DEVICE_I2C \<Rightarrow> base\<lparr>path := path c, address := address c\<rparr>
        | DEVICE_OLED \<Rightarrow> base\<lparr>path := path c, address := address c\<rparr>
        | DEVICE_GPIO \<Rightarrow> (if gpio_output c \<noteq> 0
            then base\<lparr>path := path c, offset := offset c, gpio_output := gpio_output c, initial_value := initial_value c\<rparr>
            else base\<lparr>path := path c, offset := offset c, bias := bias c\<rparr>)
        | DEVICE_LED \<Rightarrow> base\<lparr>led_name := led_name c\<rparr>))"

definition solid :: "string \<Rightarrow> bool" where
  "solid s \<longleftrightarrow> s \<noteq> [] \<and> \<not> isspace (hd s) \<and> \<not> isspace (last s)"

lemma config_trim_solid: "solid s \<Longrightarrow> config_trim s = s"
  by (cases s) (auto simp: solid_def config_trim_def rstrip_id)

lemma solid_append: "solid a \<Longrightarrow> solid b \<Longrightarrow> solid (a @ c # b)"
  by (simp add: solid_def)

lemma solid_digits: "\<forall>c\<in>set s. isdigit c \<Longrightarrow> s \<noteq> [] \<Longrightarrow> solid s"
  using isdigit_not_isspace by (auto simp: solid_def)

lemma solid_dec: "solid (dec n)"
  by (rule solid_digits) (auto simp: dec_isdigit)

lemma config_keys_solid:
  "list_all (\<lambda>k. solid k \<and> CHR ''='' \<notin> set k \<and> hd k \<noteq> CHR ''#'' \<and> hd k \<noteq> CHR '';'' \<and> hd k \<noteq> CHR ''['') config_keys"
  by code_simp

lemma config_line_key:
  assumes "k \<in> set config_keys" "solid v"
  shows "config_line (k @ CHR ''='' # v) (devs @ [c], seen)
    = (case config_field c seen k v of Inl e \<Rightarrow> Inl e | Inr (c', seen') \<Rightarrow> Inr (devs @ [c'], seen'))"
proof -
  have k: "solid k" "CHR ''='' \<notin> set k" "hd k \<noteq> CHR ''#''" "hd k \<noteq> CHR '';''" "hd k \<noteq> CHR ''[''"
    using config_keys_solid assms(1) by (auto simp: list_all_iff)
  have "config_trim (k @ CHR ''='' # v) = k @ CHR ''='' # v"
    by (rule config_trim_solid) (rule solid_append [OF k(1) assms(2)])
  moreover have "k \<noteq> []" using k(1) by (simp add: solid_def)
  ultimately show ?thesis
    using k assms(2) by (simp add: config_line_def split_at_append config_trim_solid split: sum.split)
qed

lemma config_unsigned_dec:
  assumes "n \<le> maximum" "maximum \<le> ULONG_MAX"
  shows "config_unsigned (dec n) maximum = Inr n"
proof -
  have "isdigit (hd (dec n))" by (rule hd_dec)
  then have "hd (dec n) \<noteq> CHR ''-''" "hd (dec n) \<noteq> CHR ''+''" "\<not> isspace (hd (dec n))"
    by (auto simp: ctype_simps)
  with assms show ?thesis by (simp add: config_unsigned_def strtoul0_dec)
qed

lemma config_read_line_line:
  assumes "NL \<notin> set l" "NUL \<notin> set l" "length acc + length l < DEVICE_CONFIG_LINE_SIZE"
  shows "config_read_line err acc (l @ NL # rest) = Inr (Some (acc @ l, rest))"
  using assms by (induction l arbitrary: acc) auto

definition line_ok :: "string \<Rightarrow> bool" where
  "line_ok l \<longleftrightarrow> NL \<notin> set l \<and> NUL \<notin> set l \<and> length l < DEVICE_CONFIG_LINE_SIZE"

lemma config_loop_lines:
  "list_all line_ok ls \<Longrightarrow> config_loop False (concat (map (\<lambda>l. l @ [NL]) ls)) st = foldE config_line ls st"
proof (induction ls arbitrary: st)
  case Nil
  show ?case by (subst config_loop.simps) simp
next
  case (Cons l ls)
  then have "config_read_line False [] (l @ NL # concat (map (\<lambda>l. l @ [NL]) ls))
      = Inr (Some (l, concat (map (\<lambda>l. l @ [NL]) ls)))"
    using config_read_line_line [of l "[]"] by (simp add: line_ok_def)
  with Cons show ?case by (subst config_loop.simps) (auto split: sum.splits)
qed

text \<open>The effect of each line of a section.\<close>

lemma index_of_keys:
  "index_of ''type'' config_keys = 0" "index_of ''path'' config_keys = 1" "index_of ''enabled'' config_keys = 2"
  "index_of ''baudrate'' config_keys = 3" "index_of ''address'' config_keys = 4" "index_of ''offset'' config_keys = 5"
  "index_of ''direction'' config_keys = 6" "index_of ''bias'' config_keys = 7"
  "index_of ''initial_value'' config_keys = 8" "index_of ''led_name'' config_keys = 9"
  "length config_keys = 10"
  by code_simp+

lemma key_bits:
  "push_bit 0 (1 :: uint32) = 1" "push_bit 1 (1 :: uint32) = 2" "push_bit 2 (1 :: uint32) = 4"
  "push_bit 3 (1 :: uint32) = 8" "push_bit 4 (1 :: uint32) = 16" "push_bit 5 (1 :: uint32) = 32"
  "push_bit 6 (1 :: uint32) = 64" "push_bit 7 (1 :: uint32) = 128" "push_bit 8 (1 :: uint32) = 256"
  "push_bit 9 (1 :: uint32) = 512"
  by code_simp+

lemma find_type: "find (\<lambda>t'. device_type_string t = device_type_string t') device_types = Some t"
  by (cases t) (simp_all add: device_types_def device_type_string_def)

lemma field_type: "seen AND 1 = 0 \<Longrightarrow> config_field c seen ''type'' (device_type_string t) = Inr (c\<lparr>type_of := t\<rparr>, seen OR 1)"
  by (simp add: config_field_def index_of_keys key_bits find_type)
    (cases t; simp add: device_type_string_def)

lemma field_path: "seen AND 2 = 0 \<Longrightarrow> v \<noteq> [] \<Longrightarrow> length v < 256
  \<Longrightarrow> config_field c seen ''path'' v = Inr (c\<lparr>path := v\<rparr>, seen OR 2)"
  by (simp add: config_field_def index_of_keys key_bits config_copy_def)

lemma field_led_name: "seen AND 512 = 0 \<Longrightarrow> v \<noteq> [] \<Longrightarrow> length v < 64
  \<Longrightarrow> config_field c seen ''led_name'' v = Inr (c\<lparr>led_name := v\<rparr>, seen OR 512)"
  by (simp add: config_field_def index_of_keys key_bits config_copy_def)

lemma config_unsigned_flag: "i \<in> {0, 1} \<Longrightarrow> config_unsigned (dec (nat i)) 1 = Inr (nat i)"
  by (rule config_unsigned_dec) auto

lemma field_enabled: "seen AND 4 = 0 \<Longrightarrow> i \<in> {0, 1}
  \<Longrightarrow> config_field c seen ''enabled'' (dec (nat i)) = Inr (c\<lparr>enabled := i\<rparr>, seen OR 4)"
  using config_unsigned_flag [of i] by (simp add: config_field_def index_of_keys key_bits) auto

lemma field_initial: "seen AND 256 = 0 \<Longrightarrow> i \<in> {0, 1}
  \<Longrightarrow> config_field c seen ''initial_value'' (dec (nat i)) = Inr (c\<lparr>initial_value := i\<rparr>, seen OR 256)"
  using config_unsigned_flag [of i] by (simp add: config_field_def index_of_keys key_bits) auto

lemma field_baudrate: "seen AND 8 = 0 \<Longrightarrow> 0 \<le> i \<Longrightarrow> i \<le> INT_MAX
  \<Longrightarrow> config_field c seen ''baudrate'' (dec (nat i)) = Inr (c\<lparr>baudrate := i\<rparr>, seen OR 8)"
  by (simp add: config_field_def index_of_keys key_bits config_unsigned_dec)

lemma unat_UINT_MAX: "unat (a :: uint32) \<le> UINT_MAX"
  using unsigned_less [of a, where 'a = nat] by simp

lemma field_address: "seen AND 16 = 0
  \<Longrightarrow> config_field c seen ''address'' (dec (unat a)) = Inr (c\<lparr>address := a\<rparr>, seen OR 16)"
  using unat_UINT_MAX [of a] by (simp add: config_field_def index_of_keys key_bits config_unsigned_dec)

lemma field_offset: "seen AND 32 = 0
  \<Longrightarrow> config_field c seen ''offset'' (dec (unat a)) = Inr (c\<lparr>offset := a\<rparr>, seen OR 32)"
  using unat_UINT_MAX [of a] by (simp add: config_field_def index_of_keys key_bits config_unsigned_dec)

lemma field_direction: "seen AND 64 = 0
  \<Longrightarrow> config_field c seen ''direction'' (if b then ''output'' else ''input'')
      = Inr (c\<lparr>gpio_output := (if b then 1 else 0)\<rparr>, seen OR 64)"
  by (cases b) (simp_all add: config_field_def index_of_keys key_bits)

lemma bias_names:
  "list_all (\<lambda>n. index_of (config_biases ! n) config_biases = n \<and> solid (config_biases ! n)) [0..<4]"
  "length config_biases = 4"
  by code_simp+

lemma solid_bias: "0 \<le> i \<Longrightarrow> i \<le> 3 \<Longrightarrow> solid (config_biases ! nat i)"
  using bias_names(1) by (simp add: list_all_iff)

lemma field_bias:
  assumes "seen AND 128 = 0" "0 \<le> i" "i \<le> 3"
  shows "config_field c seen ''bias'' (config_biases ! nat i) = Inr (c\<lparr>bias := i\<rparr>, seen OR 128)"
proof -
  have "index_of (config_biases ! nat i) config_biases = nat i"
    using bias_names(1) assms by (simp add: list_all_iff)
  moreover have "config_biases ! nat i \<noteq> []" using solid_bias [OF assms(2,3)] by (simp add: solid_def)
  moreover have "nat i < 4" using assms by linarith
  ultimately show ?thesis using assms by (simp add: config_field_def index_of_keys key_bits bias_names(2) Let_def)
qed

lemmas section_fields = field_type field_path field_led_name field_enabled field_initial field_baudrate
  field_address field_offset field_direction field_bias

text \<open>A whole section: the bits it sets, and the device it appends.\<close>

definition section_bits :: "DeviceConfig \<Rightarrow> uint32" where
  "section_bits c = (case type_of c of DEVICE_UART \<Rightarrow> 15 | DEVICE_I2C \<Rightarrow> 23 | DEVICE_OLED \<Rightarrow> 23
     | DEVICE_GPIO \<Rightarrow> (if gpio_output c \<noteq> 0 then 359 else 231) | DEVICE_LED \<Rightarrow> 517)"

lemma section_bits_validate:
  "device_config_validate c = Inr () \<Longrightarrow> config_section_validate c (section_bits c) = Inr ()"
  by (cases "type_of c") (simp_all add: config_section_validate_def config_masks_def section_bits_def)

lemma solid_type: "solid (device_type_string t)"
  by (cases t) (simp_all add: device_type_string_def solid_def isspace_def ord_of_def)

lemma key_lines:
  "''type='' @ v = ''type'' @ CHR ''='' # v" "''enabled='' @ v = ''enabled'' @ CHR ''='' # v"
  "''path='' @ v = ''path'' @ CHR ''='' # v" "''baudrate='' @ v = ''baudrate'' @ CHR ''='' # v"
  "''address='' @ v = ''address'' @ CHR ''='' # v" "''offset='' @ v = ''offset'' @ CHR ''='' # v"
  "''direction='' @ v = ''direction'' @ CHR ''='' # v" "''bias='' @ v = ''bias'' @ CHR ''='' # v"
  "''initial_value='' @ v = ''initial_value'' @ CHR ''='' # v" "''led_name='' @ v = ''led_name'' @ CHR ''='' # v"
  by simp_all

lemma config_line_step:
  assumes "config_field c seen k v = Inr (c', seen')" "k \<in> set config_keys" "solid v"
  shows "foldE config_line ((k @ CHR ''='' # v) # ls) (devs @ [c], seen) = foldE config_line ls (devs @ [c'], seen')"
  using config_line_key [OF assms(2,3), of devs c seen] assms(1) by simp

lemma key_members:
  "''type'' \<in> set config_keys" "''enabled'' \<in> set config_keys" "''path'' \<in> set config_keys"
  "''baudrate'' \<in> set config_keys" "''address'' \<in> set config_keys" "''offset'' \<in> set config_keys"
  "''direction'' \<in> set config_keys" "''bias'' \<in> set config_keys" "''initial_value'' \<in> set config_keys"
  "''led_name'' \<in> set config_keys"
  by (simp_all add: config_keys_def)

lemma solid_direction: "solid (if b then ''output'' else ''input'')"
  by (simp add: solid_def isspace_def ord_of_def)

lemma solid_led_name:
  assumes "config_led_name_valid s"
  shows "solid s"
proof -
  have "s \<noteq> []" using assms by (simp add: config_led_name_valid_def)
  then have "hd s \<in> set s" "last s \<in> set s" by simp_all
  with assms show ?thesis by (auto simp: config_led_name_valid_def solid_def list_all_iff)
qed

lemma solid_path:
  assumes "1 < length p" "hd p = CHR ''/''" "p = [] \<or> \<not> isspace (last p)"
  shows "solid p"
proof -
  have "p \<noteq> []" using assms(1) by auto
  then show ?thesis using assms(2,3) by (simp add: solid_def isspace_def ord_of_def)
qed

lemma name_valid_solid:
  assumes "config_name_valid s"
  shows "solid s" "NL \<notin> set s" "NUL \<notin> set s"
proof -
  have no: "\<not> isspace c \<and> c \<noteq> NL \<and> c \<noteq> NUL" if "c \<in> set s" for c
    using assms that by (auto simp: config_name_valid_def list_all_iff ctype_simps)
  have "s \<noteq> []" using assms by (simp add: config_name_valid_def)
  then have "hd s \<in> set s" "last s \<in> set s" by simp_all
  with no \<open>s \<noteq> []\<close> show "solid s" by (auto simp: solid_def)
  show "NL \<notin> set s" "NUL \<notin> set s" using no by auto
qed

lemma config_line_section:
  assumes "config_name_valid n" "length n < 64" "n \<notin> name_of ` set devs" "length devs < 16"
    and "devs \<noteq> [] \<longrightarrow> config_section_validate (last devs) seen = Inr ()"
  shows "config_line (''['' @ n @ '']'') (devs, seen) = Inr (devs @ [device_config_init\<lparr>name_of := n\<rparr>], 0)"
proof -
  have trim: "config_trim (''['' @ n @ '']'') = CHR ''['' # n @ '']''"
    using config_trim_solid [of "''['' @ n @ '']''"]
    by (simp add: solid_def isspace_def ord_of_def)
  have "n \<noteq> []" using assms(1) by (simp add: config_name_valid_def)
  then have "3 \<le> length (CHR ''['' # n @ '']'')" by (cases n) auto
  moreover have "\<not> list_ex (\<lambda>c. name_of c = n) devs" using assms(3) by (auto simp: list_ex_iff)
  ultimately show ?thesis
    using assms unfolding config_line_def trim
    by (auto simp: config_section_def Let_def)
qed

lemma section_start:
  assumes "expressible c" "name_of c \<notin> name_of ` set devs" "length devs < 16"
    and "devs \<noteq> [] \<longrightarrow> config_section_validate (last devs) seen = Inr ()"
  shows "foldE config_line (section_lines c) (devs, seen)
    = foldE config_line (drop 3 (section_lines c))
        (devs @ [base_config c], 5)"
proof -
  have valid: "config_name_valid (name_of c)" "length (name_of c) < 64" "enabled c \<in> {0, 1}"
    using assms(1) by (auto simp: expressible_def device_config_validate_iff)
  define rest where "rest = drop 3 (section_lines c)"
  have sl: "section_lines c = (''['' @ name_of c @ '']'') # (''type'' @ CHR ''='' # device_type_string (type_of c))
      # (''enabled'' @ CHR ''='' # dec (nat (enabled c))) # rest"
    by (simp add: section_lines_def rest_def)
  have 1: "foldE config_line ((''['' @ name_of c @ '']'') # ls) (devs, seen)
      = foldE config_line ls (devs @ [device_config_init\<lparr>name_of := name_of c\<rparr>], 0)" for ls
    using config_line_section [OF valid(1,2) assms(2-4)] by simp
  have 2: "foldE config_line ((''type'' @ CHR ''='' # device_type_string (type_of c)) # ls) (devs @ [d], 0)
      = foldE config_line ls (devs @ [d\<lparr>type_of := type_of c\<rparr>], 1)" for ls d
    by (rule config_line_step [OF _ key_members(1) solid_type]) (simp add: field_type)
  have 3: "foldE config_line ((''enabled'' @ CHR ''='' # dec (nat (enabled c))) # ls) (devs @ [d], 1)
      = foldE config_line ls (devs @ [d\<lparr>enabled := enabled c\<rparr>], 5)" for ls d
    by (rule config_line_step [OF _ key_members(2) solid_dec]) (use field_enabled [of 1 "enabled c" d] valid(3) in simp)
  show ?thesis unfolding sl 1 2 3 by (simp add: base_config_def)
qed

lemma section_lines_tail:
  "drop 3 (section_lines c) = (case type_of c of
     DEVICE_UART \<Rightarrow> [''path'' @ CHR ''='' # path c, ''baudrate'' @ CHR ''='' # dec (nat (baudrate c))]
   | DEVICE_I2C \<Rightarrow> [''path'' @ CHR ''='' # path c, ''address'' @ CHR ''='' # dec (unat (address c))]
   | DEVICE_OLED \<Rightarrow> [''path'' @ CHR ''='' # path c, ''address'' @ CHR ''='' # dec (unat (address c))]
   | DEVICE_GPIO \<Rightarrow> [''path'' @ CHR ''='' # path c, ''offset'' @ CHR ''='' # dec (unat (offset c)),
       ''direction'' @ CHR ''='' # (if gpio_output c \<noteq> 0 then ''output'' else ''input''),
       (if gpio_output c \<noteq> 0 then ''initial_value'' @ CHR ''='' # dec (nat (initial_value c))
        else ''bias'' @ CHR ''='' # config_biases ! nat (bias c))]
   | DEVICE_LED \<Rightarrow> [''led_name'' @ CHR ''='' # led_name c])"
  by (simp add: section_lines_def split: DeviceType.split)

lemma path_line:
  assumes "seen AND 2 = 0" "solid p" "length p < 256"
  shows "config_line (''path'' @ CHR ''='' # p) (devs @ [d], seen) = Inr (devs @ [d\<lparr>path := p\<rparr>], seen OR 2)"
  using config_line_key [OF key_members(3) assms(2)] field_path [OF assms(1) _ assms(3)] assms(2)
  by (simp add: solid_def)

lemma rest_uart:
  assumes "solid p" "length p < 256" "0 \<le> b" "b \<le> INT_MAX"
  shows "foldE config_line [''path'' @ CHR ''='' # p, ''baudrate'' @ CHR ''='' # dec (nat b)] (devs @ [d], 5)
    = Inr (devs @ [d\<lparr>path := p, baudrate := b\<rparr>], 15)"
  using config_line_key [OF key_members(4) solid_dec] path_line [OF _ assms(1,2), of 5] assms(3,4)
  by (simp add: field_baudrate)

lemma rest_i2c:
  assumes "solid p" "length p < 256"
  shows "foldE config_line [''path'' @ CHR ''='' # p, ''address'' @ CHR ''='' # dec (unat a)] (devs @ [d], 5)
    = Inr (devs @ [d\<lparr>path := p, address := a\<rparr>], 23)"
  using config_line_key [OF key_members(5) solid_dec] path_line [OF _ assms, of 5]
  by (simp add: field_address)

lemma rest_led:
  assumes "solid l" "length l < 64"
  shows "foldE config_line [''led_name'' @ CHR ''='' # l] (devs @ [d], 5) = Inr (devs @ [d\<lparr>led_name := l\<rparr>], 517)"
  using config_line_key [OF key_members(10) assms(1)] assms
  by (simp add: field_led_name solid_def)

lemma rest_gpio:
  assumes "solid p" "length p < 256"
  shows "foldE config_line ((''path'' @ CHR ''='' # p) # (''offset'' @ CHR ''='' # dec (unat a))
      # (''direction'' @ CHR ''='' # (if b then ''output'' else ''input'')) # ls) (devs @ [d], 5)
    = foldE config_line ls (devs @ [d\<lparr>path := p, offset := a, gpio_output := (if b then 1 else 0)\<rparr>], 103)"
  using config_line_key [OF key_members(6) solid_dec] config_line_key [OF key_members(7) solid_direction]
    path_line [OF _ assms, of 5] field_direction [of 39 _ b]
  by (simp add: field_offset)

lemma rest_gpio_last:
  "i \<in> {0, 1} \<Longrightarrow> foldE config_line [''initial_value'' @ CHR ''='' # dec (nat i)] (devs @ [d], 103)
    = Inr (devs @ [d\<lparr>initial_value := i\<rparr>], 359)"
  "0 \<le> j \<Longrightarrow> j \<le> 3 \<Longrightarrow> foldE config_line [''bias'' @ CHR ''='' # config_biases ! nat j] (devs @ [d], 103)
    = Inr (devs @ [d\<lparr>bias := j\<rparr>], 231)"
  using config_line_key [OF key_members(9) solid_dec] config_line_key [OF key_members(8) solid_bias [of j]]
    field_initial [of 103 i d]
  by (simp_all add: field_bias)

lemma section_rest:
  assumes "expressible c"
  shows "foldE config_line (drop 3 (section_lines c)) (devs @ [base_config c], 5) = Inr (devs @ [c], section_bits c)"
proof -
  have v: "device_config_validate c = Inr ()" and e: "path c = [] \<or> \<not> isspace (last (path c))"
    using assms by (auto simp: expressible_def)
  note valid = v [unfolded device_config_validate_iff]
  have path: "solid (path c)" if "type_of c \<noteq> DEVICE_LED"
    using valid e that solid_path [of "path c"] by (auto split: DeviceType.splits)
  show ?thesis
  proof (cases "type_of c")
    case DEVICE_UART
    then have c: "base_config c\<lparr>path := path c, baudrate := baudrate c\<rparr> = c"
      using assms by (simp add: expressible_def Let_def)
    show ?thesis
      using rest_uart [OF path, of "baudrate c" devs "base_config c"] valid DEVICE_UART
      by (auto simp: section_lines_tail section_bits_def c)
  next
    case DEVICE_I2C
    then have c: "base_config c\<lparr>path := path c, address := address c\<rparr> = c"
      using assms by (simp add: expressible_def Let_def)
    show ?thesis
      using rest_i2c [OF path, of "address c" devs "base_config c"] valid DEVICE_I2C
      by (simp add: section_lines_tail section_bits_def c)
  next
    case DEVICE_OLED
    then have c: "base_config c\<lparr>path := path c, address := address c\<rparr> = c"
      using assms by (simp add: expressible_def Let_def)
    show ?thesis
      using rest_i2c [OF path, of "address c" devs "base_config c"] valid DEVICE_OLED
      by (simp add: section_lines_tail section_bits_def c)
  next
    case DEVICE_LED
    then have c: "base_config c\<lparr>led_name := led_name c\<rparr> = c"
      using assms by (simp add: expressible_def Let_def)
    show ?thesis
      using rest_led [of "led_name c" devs "base_config c"] valid DEVICE_LED solid_led_name
      by (simp add: section_lines_tail section_bits_def c)
  next
    case gpio: DEVICE_GPIO
    show ?thesis
    proof (cases "gpio_output c = 0")
      case False
      then have "gpio_output c = 1" using valid gpio by simp
      then have c: "base_config c\<lparr>path := path c, offset := offset c, gpio_output := 1, initial_value := initial_value c\<rparr> = c"
        using assms gpio by (simp add: expressible_def Let_def)
      show ?thesis
        using rest_gpio [OF path, of "offset c" True] rest_gpio_last(1) [of "initial_value c"] valid gpio False
        by (simp add: section_lines_tail section_bits_def c)
    next
      case True
      then have "base_config c\<lparr>path := path c, offset := offset c, bias := bias c\<rparr> = c"
        using assms gpio by (simp add: expressible_def Let_def)
      moreover have "gpio_output (base_config c) = 0" by (simp add: base_config_def device_config_init_def config_zero_def)
      ultimately have c: "base_config c\<lparr>path := path c, offset := offset c, gpio_output := 0, bias := bias c\<rparr> = c"
        by (cases "base_config c") auto
      show ?thesis
        using rest_gpio [OF path, of "offset c" False] rest_gpio_last(2) [of "bias c"] valid gpio True
        by (simp add: section_lines_tail section_bits_def c)
    qed
  qed
qed

lemma not_digits: "\<not> isdigit NL" "\<not> isdigit NUL"
  by code_simp+

lemma dec_line_ok: "NL \<notin> set (dec n)" "NUL \<notin> set (dec n)"
  using dec_isdigit [of n] not_digits by blast+

lemma length_dec_unat: "length (dec (unat (a :: uint32))) \<le> 10"
  using unat_UINT_MAX [of a] by (intro length_dec) auto

lemma length_dec_small: "n < 10 ^ 10 \<Longrightarrow> length (dec n) \<le> 10"
  by (intro length_dec) auto

lemma led_name_chars: "config_led_name_valid s \<Longrightarrow> NL \<notin> set s \<and> NUL \<notin> set s"
proof
  assume "config_led_name_valid s"
  then have "\<forall>c\<in>set s. \<not> isspace c \<and> \<not> ord_of c < 32"
    by (simp add: config_led_name_valid_def list_all_iff)
  moreover have "isspace NL" "ord_of NUL < 32" by code_simp+
  ultimately show "NL \<notin> set s" "NUL \<notin> set s" by blast+
qed

lemma line_ok_value:
  "line_ok k \<Longrightarrow> NL \<notin> set v \<Longrightarrow> NUL \<notin> set v \<Longrightarrow> length k + length v < 512 \<Longrightarrow> line_ok (k @ v)"
  by (simp add: line_ok_def)

lemma fixed_lines:
  "list_all line_ok [''type='', ''enabled='', ''path='', ''baudrate='', ''address='', ''offset='', ''direction='',
     ''initial_value='', ''bias='', ''led_name='', ''['']"
  "list_all (\<lambda>t. line_ok (''type='' @ device_type_string t)) device_types"
  "list_all (\<lambda>b. line_ok (''bias='' @ b)) config_biases"
  "line_ok ''direction=output''" "line_ok ''direction=input''"
  by code_simp+

lemma type_line_ok: "line_ok (''type='' @ device_type_string t)"
  using fixed_lines(2) by (cases t) (simp_all add: device_types_def)

lemma section_lines_ok:
  assumes "expressible c"
  shows "list_all line_ok (section_lines c)"
proof -
  have v: "device_config_validate c = Inr ()" and p: "NUL \<notin> set (path c)" "NL \<notin> set (path c)"
    using assms by (auto simp: expressible_def)
  note valid = v [unfolded device_config_validate_iff]
  note fixed = fixed_lines(1) [simplified list.pred_inject]
  have name: "line_ok (''['' @ name_of c @ '']'')"
    using name_valid_solid [of "name_of c"] valid by (auto simp: line_ok_def)
  have en: "line_ok (''enabled='' @ dec (nat (enabled c)))"
    using fixed valid length_dec_small [of "nat (enabled c)"] by (intro line_ok_value dec_line_ok) auto
  have path: "line_ok (''path='' @ path c)" using fixed valid p by (intro line_ok_value) auto
  have baud: "line_ok (''baudrate='' @ dec (nat (baudrate c)))" if "type_of c = DEVICE_UART"
    using fixed valid that length_dec_small [of "nat (baudrate c)"] by (intro line_ok_value dec_line_ok) auto
  have addr: "line_ok (''address='' @ dec (unat (address c)))" "line_ok (''offset='' @ dec (unat (offset c)))"
    using fixed length_dec_unat [of "address c"] length_dec_unat [of "offset c"]
    by (intro line_ok_value dec_line_ok; simp)+
  have init: "line_ok (''initial_value='' @ dec (nat (initial_value c)))" if "type_of c = DEVICE_GPIO"
    using fixed valid that length_dec_small [of "nat (initial_value c)"] by (intro line_ok_value dec_line_ok) auto
  have bias: "line_ok (''bias='' @ config_biases ! nat (bias c))" if "type_of c = DEVICE_GPIO"
    using fixed_lines(3) valid that by (auto simp: list_all_length bias_names(2))
  have led: "line_ok (''led_name='' @ led_name c)" if "type_of c = DEVICE_LED"
    using fixed valid that led_name_chars [of "led_name c"] by (intro line_ok_value) auto
  show ?thesis
    using name en path baud addr init bias led type_line_ok [of "type_of c"] fixed_lines(4,5)
    by (cases "type_of c") (simp_all add: section_lines_def)
qed

lemma sections_load:
  assumes "list_all expressible cs" "distinct (map name_of (devs @ cs))" "length (devs @ cs) \<le> DEVICE_MAX_COUNT"
    and "devs \<noteq> [] \<longrightarrow> config_section_validate (last devs) seen = Inr ()"
  shows "\<exists>seen'. foldE config_line (concat (map section_lines cs)) (devs, seen) = Inr (devs @ cs, seen')
    \<and> (devs @ cs \<noteq> [] \<longrightarrow> config_section_validate (last (devs @ cs)) seen' = Inr ())"
  using assms
proof (induction cs arbitrary: devs seen)
  case (Cons c cs)
  have c: "expressible c" "name_of c \<notin> name_of ` set devs" "length devs < 16" using Cons.prems by auto
  have "foldE config_line (section_lines c) (devs, seen) = Inr (devs @ [c], section_bits c)"
    using section_start [OF c Cons.prems(4)] section_rest [OF c(1)] by simp
  moreover have "config_section_validate c (section_bits c) = Inr ()"
    using c(1) section_bits_validate by (simp add: expressible_def)
  ultimately show ?case
    using Cons.IH [of "devs @ [c]" "section_bits c"] Cons.prems by (simp add: foldE_append)
qed auto

lemma device_config_load_text:
  assumes "list_all expressible cs" "distinct (map name_of cs)" "length cs \<le> DEVICE_MAX_COUNT"
    and "files f = Config_file (config_file_text cs) False None" "f \<noteq> []"
  shows "device_config_load files (Some f) = Inr cs"
proof -
  have "list_all line_ok (concat (map section_lines cs))"
    using assms(1) section_lines_ok by (auto simp: list_all_iff)
  then have loop: "config_loop False (config_file_text cs) ([], 0) = foldE config_line (concat (map section_lines cs)) ([], 0)"
    unfolding config_file_text_def by (rule config_loop_lines)
  obtain seen where "foldE config_line (concat (map section_lines cs)) ([], 0) = Inr (cs, seen)"
      "cs \<noteq> [] \<longrightarrow> config_section_validate (last cs) seen = Inr ()"
    using sections_load [OF assms(1), of "[]" 0] assms(2,3) by auto
  with loop assms(4,5) show ?thesis by (auto simp: device_config_load_def)
qed

section \<open>Properties of the device file\<close>

text \<open>What the documentation of the format demands of a device.\<close>

definition documented_device :: "DeviceConfig \<Rightarrow> bool" where
  "documented_device c \<longleftrightarrow> 0 < length (name_of c) \<and> length (name_of c) < 64
     \<and> (\<forall>x\<in>set (name_of c). isalnum x \<or> x = CHR ''_'' \<or> x = CHR ''-'') \<and> enabled c \<in> {0, 1}
     \<and> (type_of c \<noteq> DEVICE_LED \<longrightarrow> hd (path c) = CHR ''/'' \<and> 1 < length (path c) \<and> length (path c) < 256)
     \<and> (type_of c = DEVICE_LED \<longrightarrow> 0 < length (led_name c) \<and> length (led_name c) < 64 \<and> CHR ''/'' \<notin> set (led_name c))
     \<and> (type_of c = DEVICE_UART \<longrightarrow> baudrate c \<in> {9600, 19200, 38400, 57600, 115200, 230400})
     \<and> (type_of c = DEVICE_I2C \<or> type_of c = DEVICE_OLED \<longrightarrow> 3 \<le> address c \<and> address c \<le> 0x77)
     \<and> (type_of c = DEVICE_GPIO \<longrightarrow> gpio_output c \<in> {0, 1} \<and> initial_value c \<in> {0, 1} \<and> 0 \<le> bias c \<and> bias c \<le> 3
         \<and> (gpio_output c = 1 \<longrightarrow> bias c = 0))"

lemma documented_device_valid: "device_config_validate c = Inr () \<Longrightarrow> documented_device c"
  unfolding device_config_validate_iff documented_device_def config_name_valid_def config_led_name_valid_def
  by (cases "type_of c") (auto simp: list_all_iff)


text \<open>A file with a UART and an output line.\<close>

definition demo_configs :: "DeviceConfig list" where
  "demo_configs = [device_config_init\<lparr>name_of := ''console'', path := ''/dev/ttyS1'', baudrate := 9600\<rparr>,
     device_config_init\<lparr>name_of := ''relay'', type_of := DEVICE_GPIO, path := ''/dev/gpiochip0'', offset := 17,
       gpio_output := 1, initial_value := 1\<rparr>]"


text \<open>C10. A list of at most 16 expressible devices with different names, written as a device file
  (one section per device, one line per field), loads as exactly that list.\<close>
theorem device_config_roundtrip:
  assumes "list_all expressible cs" and "distinct (map name_of cs)" and "length cs \<le> 16"
    and "files f = Config_file (config_file_text cs) False None" and "f \<noteq> []"
  shows "device_config_load files (Some f) = Inr cs"
  using assms by (rule device_config_load_text)

theorem device_config_roundtrip_witness:
  "device_config_load (\<lambda>_. Config_file (config_file_text demo_configs) False None) (Some ''dev.conf'') = Inr demo_configs
   \<and> length demo_configs = 2"
proof -
  have "list_all expressible demo_configs" "distinct (map name_of demo_configs)" "length demo_configs \<le> 16"
    by code_simp+
  from device_config_roundtrip [OF this, of "\<lambda>_. Config_file (config_file_text demo_configs) False None" "''dev.conf''"]
  show ?thesis by (simp add: demo_configs_def)
qed

end
