(* ===== verification/Serial_Port.thy ===== *)
theory Serial_Port
  imports Sysio
begin

text \<open>
  The serial port, \<^verbatim>\<open>src/serial_port.c\<close>.  Operations with a retry or poll loop give \<open>None\<close> when the
  loop never ends.  Paths and buffers are not NULL here, except the data of \<^verbatim>\<open>serial_port_write_all\<close>,
  where \<open>None\<close> is a NULL pointer with a positive size.  The monotonic clock is not negative.
\<close>

record SerialPort =
  port_fd :: int

section \<open>Line settings\<close>

definition baud_to_speed :: "int \<Rightarrow> int + uint32" where
  "baud_to_speed b =
     (if b = 9600 then Inr 0xD else if b = 19200 then Inr 0xE else if b = 38400 then Inr 0xF
      else if b = 57600 then Inr 0x1001 else if b = 115200 then Inr 0x1002 else if b = 230400 then Inr 0x1003
      else Inl EINVAL)"

text \<open>\<^verbatim>\<open>cfsetispeed\<close> and \<^verbatim>\<open>cfsetospeed\<close> of the C library on these speeds: the speed is stored and
  coded in the \<^verbatim>\<open>CBAUD\<close> bits.\<close>

definition cfsetspeed :: "uint32 \<Rightarrow> termios \<Rightarrow> termios" where
  "cfsetspeed s t = t\<lparr>c_ispeed := s, c_ospeed := s, c_cflag := (c_cflag t AND NOT 0x100F) OR s\<rparr>"

text \<open>The bits: \<^verbatim>\<open>IGNBRK BRKINT PARMRK ISTRIP INLCR IGNCR ICRNL IXON IXOFF IXANY\<close>; \<^verbatim>\<open>OPOST\<close>;
  \<^verbatim>\<open>ECHO ECHONL ICANON ISIG IEXTEN\<close>; \<^verbatim>\<open>CSIZE PARENB CSTOPB\<close>; \<^verbatim>\<open>CS8 CREAD CLOCAL\<close>; \<^verbatim>\<open>CRTSCTS\<close>;
  \<^verbatim>\<open>VTIME\<close> is index 5 and \<^verbatim>\<open>VMIN\<close> index 6.\<close>

definition raw_termios :: "bool \<Rightarrow> uint32 \<Rightarrow> termios \<Rightarrow> termios" where
  "raw_termios nonblocking speed t =
     (let t1 = t\<lparr>c_iflag := c_iflag t AND NOT (0x1 OR 0x2 OR 0x8 OR 0x20 OR 0x40 OR 0x80 OR 0x100 OR 0x400 OR 0x1000 OR 0x800),
                 c_oflag := c_oflag t AND NOT 0x1,
                 c_lflag := c_lflag t AND NOT (0x8 OR 0x40 OR 0x2 OR 0x1 OR 0x8000),
                 c_cflag := ((c_cflag t AND NOT (0x30 OR 0x100 OR 0x40)) OR (0x30 OR 0x80 OR 0x800)) AND NOT 0x80000000\<rparr>;
          t2 = cfsetspeed speed t1
      in t2\<lparr>c_cc := (c_cc t2)[6 := (if nonblocking then 0 else 1), 5 := 0]\<rparr>)"

definition configure_serial :: "('w, 'x) sysio_scheme \<Rightarrow> int \<Rightarrow> int \<Rightarrow> bool \<Rightarrow> 'w \<Rightarrow> (int + unit) \<times> 'w" where
  "configure_serial K fd baud nonblocking w =
     (case baud_to_speed baud of
        Inl e \<Rightarrow> (Inl e, w)
      | Inr speed \<Rightarrow>
          (case sys_tcgetattr K fd w of
             (Inl e, w1) \<Rightarrow> (Inl e, w1)
           | (Inr tty, w1) \<Rightarrow>
               (case sys_tcsetattr K fd 0 (raw_termios nonblocking speed tty) w1 of
                  (Inl e, w2) \<Rightarrow> (Inl e, w2)
                | (Inr _, w2) \<Rightarrow> sys_tcflush K fd 2 w2)))"

section \<open>Waiting\<close>

definition monotonic_ms :: "('w, 'x) sysio_scheme \<Rightarrow> 'w \<Rightarrow> (int + int) \<times> 'w" where
  "monotonic_ms K w = (case sys_clock_gettime K w of
     (Inl e, w') \<Rightarrow> (Inl e, w')
   | (Inr (sec, nsec), w') \<Rightarrow> (Inr (int (sec * 1000 + nsec div 1000000)), w'))"

text \<open>The time for one \<^verbatim>\<open>poll\<close>: \<open>None\<close> when the deadline has passed.\<close>

definition poll_wait :: "('w, 'x) sysio_scheme \<Rightarrow> int \<Rightarrow> int \<Rightarrow> 'w \<Rightarrow> (int + int option) \<times> 'w" where
  "poll_wait K timeout deadline w =
     (if timeout > 0 then
        (case monotonic_ms K w of
           (Inl e, w') \<Rightarrow> (Inl e, w')
         | (Inr now, w') \<Rightarrow>
             (let remaining = deadline - now
              in if remaining \<le> 0 then (Inr None, w')
                 else if remaining > INT_MAX then (Inr (Some INT_MAX), w')
                 else (Inr (Some remaining), w')))
      else (Inr (Some 0), w))"

partial_function (option) poll_loop ::
  "('w, 'x) sysio_scheme \<Rightarrow> int \<Rightarrow> uint32 \<Rightarrow> int \<Rightarrow> int \<Rightarrow> 'w \<Rightarrow> ((int + nat) \<times> 'w) option" where
  "poll_loop K fd events timeout deadline w =
     (case poll_wait K timeout deadline w of
        (Inl e, w1) \<Rightarrow> Some (Inl e, w1)
      | (Inr None, w1) \<Rightarrow> Some (Inr 0, w1)
      | (Inr (Some wait_ms), w1) \<Rightarrow>
          (case sys_poll K fd events wait_ms w1 of
             (Inl e, w2) \<Rightarrow> if e \<noteq> EINTR then Some (Inl e, w2) else poll_loop K fd events timeout deadline w2
           | (Inr None, w2) \<Rightarrow> Some (Inr 0, w2)
           | (Inr (Some revents), w2) \<Rightarrow>
               if revents AND events \<noteq> 0 then Some (Inr 1, w2)
               else if revents AND POLLNVAL \<noteq> 0 then Some (Inl EBADF, w2)
               else if revents AND (POLLERR OR POLLHUP) \<noteq> 0 then Some (Inl EIO, w2)
               else poll_loop K fd events timeout deadline w2))"

declare poll_loop.simps [code]

definition poll_fd :: "('w, 'x) sysio_scheme \<Rightarrow> int \<Rightarrow> uint32 \<Rightarrow> int \<Rightarrow> 'w \<Rightarrow> ((int + nat) \<times> 'w) option" where
  "poll_fd K fd events timeout w =
     (if timeout < 0 then Some (Inl EINVAL, w)
      else if timeout > 0 then
        (case monotonic_ms K w of
           (Inl e, w') \<Rightarrow> Some (Inl e, w')
         | (Inr now, w') \<Rightarrow> poll_loop K fd events timeout (now + timeout) w')
      else poll_loop K fd events timeout 0 w)"

section \<open>The port\<close>

definition serial_port_init :: SerialPort where
  "serial_port_init = \<lparr>port_fd = -1\<rparr>"

definition serial_port_open ::
  "('w, 'x) sysio_scheme \<Rightarrow> SerialPort \<Rightarrow> string \<Rightarrow> int \<Rightarrow> bool \<Rightarrow> 'w \<Rightarrow> ((int + nat) \<times> SerialPort) \<times> 'w" where
  "serial_port_open K port device_path baud nonblocking w =
     (if device_path = [] then ((Inl EINVAL, port), w)
      else if port_fd port \<ge> 0 then ((Inl EBUSY, port), w)
      else case sys_open K device_path (O_RDWR OR O_NOCTTY OR O_CLOEXEC OR (if nonblocking then O_NONBLOCK else 0)) w of
        (Inl e, w1) \<Rightarrow> ((Inl e, port), w1)
      | (Inr fd, w1) \<Rightarrow>
          (case configure_serial K fd baud nonblocking w1 of
             (Inl e, w2) \<Rightarrow> ((Inl e, port), snd (sys_close K fd w2))
           | (Inr _, w2) \<Rightarrow> ((Inr 0, port\<lparr>port_fd := fd\<rparr>), w2)))"

definition serial_port_read ::
  "('w, 'x) sysio_scheme \<Rightarrow> SerialPort \<Rightarrow> nat \<Rightarrow> 'w \<Rightarrow> ((int + byte list) \<times> 'w) option" where
  "serial_port_read K port n w =
     (if port_fd port < 0 then Some (Inl EINVAL, w) else retry (sys_read K (port_fd port) n) w)"

definition serial_port_write ::
  "('w, 'x) sysio_scheme \<Rightarrow> SerialPort \<Rightarrow> byte list \<Rightarrow> 'w \<Rightarrow> ((int + nat) \<times> 'w) option" where
  "serial_port_write K port bs w =
     (if port_fd port < 0 then Some (Inl EINVAL, w) else retry (sys_write K (port_fd port) bs) w)"

text \<open>\<open>data\<close> is what is still to be written.\<close>

partial_function (option) write_all_loop ::
  "('w, 'x) sysio_scheme \<Rightarrow> SerialPort \<Rightarrow> int \<Rightarrow> byte list \<Rightarrow> 'w \<Rightarrow> ((int + nat) \<times> 'w) option" where
  "write_all_loop K port deadline data w =
     (if data = [] then Some (Inr 0, w)
      else case monotonic_ms K w of
        (Inl e, w1) \<Rightarrow> Some (Inl e, w1)
      | (Inr now, w1) \<Rightarrow>
          if deadline - now \<le> 0 then Some (Inl ETIMEDOUT, w1)
          else do {
            (ready, w2) \<leftarrow> poll_fd K (port_fd port) POLLOUT (min (deadline - now) INT_MAX) w1;
            case ready of
              Inl e \<Rightarrow> Some (Inl e, w2)
            | Inr n \<Rightarrow>
                if n = 0 then Some (Inl ETIMEDOUT, w2)
                else do {
                  (written, w3) \<leftarrow> serial_port_write K port data w2;
                  case written of
                    Inr k \<Rightarrow> write_all_loop K port deadline (drop k data) w3
                  | Inl e \<Rightarrow> if e = EAGAIN then write_all_loop K port deadline data w3 else Some (Inl e, w3) } })"

declare write_all_loop.simps [code]

definition serial_port_write_all ::
  "('w, 'x) sysio_scheme \<Rightarrow> SerialPort \<Rightarrow> byte list option \<Rightarrow> int \<Rightarrow> 'w \<Rightarrow> ((int + nat) \<times> 'w) option" where
  "serial_port_write_all K port buffer timeout w =
     (if port_fd port < 0 \<or> buffer = None \<or> timeout < 0 then Some (Inl EINVAL, w)
      else if buffer = Some [] then Some (Inr 0, w)
      else case monotonic_ms K w of
        (Inl e, w1) \<Rightarrow> Some (Inl e, w1)
      | (Inr now, w1) \<Rightarrow> write_all_loop K port (now + timeout) (the buffer) w1)"

definition serial_port_wait_readable ::
  "('w, 'x) sysio_scheme \<Rightarrow> SerialPort \<Rightarrow> int \<Rightarrow> 'w \<Rightarrow> ((int + nat) \<times> 'w) option" where
  "serial_port_wait_readable K port timeout w =
     (if port_fd port < 0 \<or> timeout < 0 then Some (Inl EINVAL, w) else poll_fd K (port_fd port) POLLIN timeout w)"

definition serial_port_flush_input ::
  "('w, 'x) sysio_scheme \<Rightarrow> SerialPort \<Rightarrow> 'w \<Rightarrow> ((int + nat) \<times> 'w) option" where
  "serial_port_flush_input K port w =
     (if port_fd port < 0 then Some (Inl EINVAL, w)
      else do {
        (r, w') \<leftarrow> retry (sys_tcflush K (port_fd port) 0) w;
        case r of Inl e \<Rightarrow> Some (Inl e, w') | Inr _ \<Rightarrow> Some (Inr 0, w') })"

definition serial_port_close :: "('w, 'x) sysio_scheme \<Rightarrow> SerialPort \<Rightarrow> 'w \<Rightarrow> SerialPort \<times> 'w" where
  "serial_port_close K port w =
     (port\<lparr>port_fd := -1\<rparr>, if port_fd port \<ge> 0 then snd (sys_close K (port_fd port) w) else w)"

section \<open>Polling\<close>

text \<open>\<open>P\<close> is kept by reading the clock and by \<^verbatim>\<open>poll\<close>.\<close>

definition quiet :: "('w, 'x) sysio_scheme \<Rightarrow> ('w \<Rightarrow> bool) \<Rightarrow> bool" where
  "quiet K P \<longleftrightarrow> (\<forall>w r w'. sys_clock_gettime K w = (r, w') \<longrightarrow> P w \<longrightarrow> P w')
     \<and> (\<forall>fd ev t w r w'. sys_poll K fd ev t w = (r, w') \<longrightarrow> P w \<longrightarrow> P w')"

lemma monotonic_ms_quiet: "quiet K P \<Longrightarrow> monotonic_ms K w = (r, w') \<Longrightarrow> P w \<Longrightarrow> P w'"
  unfolding quiet_def monotonic_ms_def by (auto split: prod.splits sum.splits)

lemma poll_wait_quiet: "quiet K P \<Longrightarrow> poll_wait K t dl w = (r, w') \<Longrightarrow> P w \<Longrightarrow> P w'"
  using monotonic_ms_quiet [of K P w]
  by (auto simp: poll_wait_def Let_def split: if_splits prod.splits sum.splits)

lemma poll_loop_quiet:
  assumes "poll_loop K fd ev t dl w = Some x" and q: "quiet K P" and "P w"
  shows "P (snd x)"
proof -
  let ?Q = "\<lambda>K' fd ev t dl w x. K' = K \<longrightarrow> P w \<longrightarrow> P (snd x)"
  have "?Q K fd ev t dl w x"
  proof (rule poll_loop.raw_induct [where P = ?Q, OF _ assms(1)])
    fix loop and K' :: "('a, 'b) sysio_scheme" and fd ev t dl w x
    assume IH: "\<And>K' fd ev t dl w x. loop K' fd ev t dl w = Some x \<Longrightarrow> ?Q K' fd ev t dl w x"
      and eq: "(case poll_wait K' t dl w of
          (Inl e, w1) \<Rightarrow> Some (Inl e, w1)
        | (Inr None, w1) \<Rightarrow> Some (Inr 0, w1)
        | (Inr (Some wait_ms), w1) \<Rightarrow>
            (case sys_poll K' fd ev wait_ms w1 of
               (Inl e, w2) \<Rightarrow> if e \<noteq> EINTR then Some (Inl e, w2) else loop K' fd ev t dl w2
             | (Inr None, w2) \<Rightarrow> Some (Inr 0, w2)
             | (Inr (Some revents), w2) \<Rightarrow>
                 if revents AND ev \<noteq> 0 then Some (Inr 1, w2)
                 else if revents AND POLLNVAL \<noteq> 0 then Some (Inl EBADF, w2)
                 else if revents AND (POLLERR OR POLLHUP) \<noteq> 0 then Some (Inl EIO, w2)
                 else loop K' fd ev t dl w2)) = Some x"
    show "?Q K' fd ev t dl w x"
    proof (intro impI)
      assume K': "K' = K" and "P w"
      obtain a w1 where a: "poll_wait K t dl w = (a, w1)" by (meson surj_pair)
      have P1: "P w1" using poll_wait_quiet [OF q a \<open>P w\<close>] .
      show "P (snd x)"
      proof (cases "\<exists>ms. a = Inr (Some ms)")
        case True
        then obtain ms where ms: "a = Inr (Some ms)" by blast
        obtain b w2 where b: "sys_poll K fd ev ms w1 = (b, w2)" by (meson surj_pair)
        have "P w2" using q b P1 unfolding quiet_def by blast
        then show ?thesis using eq IH [of K _ _ _ _ w2] unfolding K'
          by (auto simp: a b ms split: sum.splits option.splits if_splits)
      next
        case False
        then show ?thesis using eq P1 unfolding K' by (auto simp: a split: sum.splits option.splits)
      qed
    qed
  qed
  with assms(3) show ?thesis by simp
qed

lemma poll_fd_quiet: "poll_fd K fd ev t w = Some (r, w') \<Longrightarrow> quiet K P \<Longrightarrow> P w \<Longrightarrow> P w'"
  using poll_loop_quiet [of K fd ev t _ _ "(r, w')" P] monotonic_ms_quiet [of K P w]
  by (fastforce simp: poll_fd_def split: if_splits prod.splits sum.splits)

lemma write_all_loop_inv:
  assumes "write_all_loop K port dl data w = Some x" and q: "quiet K P"
    and wr: "\<And>bs w r w'. serial_port_write K port bs w = Some (r, w') \<Longrightarrow> P w \<Longrightarrow> P w'" and "P w"
  shows "P (snd x)"
proof -
  let ?Q = "\<lambda>K' p (dl :: int) (data :: byte list) w x. K' = K \<longrightarrow> p = port \<longrightarrow> P w \<longrightarrow> P (snd x)"
  have "?Q K port dl data w x"
  proof (rule write_all_loop.raw_induct [where P = ?Q, OF _ assms(1)], goal_cases)
    case (1 loop K' p dl data w x)
    note keep = monotonic_ms_quiet [OF q] poll_fd_quiet [OF _ q] wr
    show ?case
    proof (intro impI)
      assume K': "K' = K" "p = port" and "P w"
      obtain a w1 where a: "monotonic_ms K w = (a, w1)" by (meson surj_pair)
      note P1 = keep(1) [OF a \<open>P w\<close>]
      have step: "P (snd y)" if "loop K port dl bs v = Some y" "P v" for bs v y using 1(1) that by blast
      show "P (snd x)"
        using 1(2) \<open>P w\<close> P1 unfolding K'
        by (auto simp: a dest: step keep(2,3) split: if_split_asm prod.split_asm sum.split_asm Option.bind_split_asm)
    qed
  qed
  with assms(4) show ?thesis by simp
qed

lemma fd_table_quiet: "fd_table K fds \<Longrightarrow> quiet K (\<lambda>w'. fds w' = fds w)"
  unfolding quiet_def by (metis fd_table_keep(7,8))

lemma serial_port_fds:
  assumes K: "fd_table K fds"
  shows "serial_port_read K port n w = Some (r1, w') \<Longrightarrow> fds w' = fds w"
    and "serial_port_write K port bs w = Some (r2, w') \<Longrightarrow> fds w' = fds w"
    and "serial_port_wait_readable K port t w = Some (r2, w') \<Longrightarrow> fds w' = fds w"
    and "serial_port_flush_input K port w = Some (r2, w') \<Longrightarrow> fds w' = fds w"
    and "serial_port_write_all K port data t w = Some (r2, w') \<Longrightarrow> fds w' = fds w"
proof -
  note retries = fd_table_retry [OF K]
  show "fds w' = fds w" if "serial_port_read K port n w = Some (r1, w')"
    using that by (auto simp: serial_port_read_def dest!: retries split: if_split_asm)
  show wr: "fds w' = fds w" if "serial_port_write K port bs w = Some (r2, w')" for bs w r2 w'
    using that by (auto simp: serial_port_write_def dest!: retries split: if_split_asm)
  show "fds w' = fds w" if "serial_port_wait_readable K port t w = Some (r2, w')"
    using that poll_fd_quiet [OF _ fd_table_quiet [OF K, of w]]
    by (auto simp: serial_port_wait_readable_def split: if_split_asm)
  show "fds w' = fds w" if "serial_port_flush_input K port w = Some (r2, w')"
    using that by (auto simp: serial_port_flush_input_def dest!: retries
        split: if_split_asm Option.bind_split_asm prod.split_asm sum.split_asm)
  show "fds w' = fds w" if a: "serial_port_write_all K port data t w = Some (r2, w')"
  proof -
    note q = fd_table_quiet [OF K, of w]
    show ?thesis
      using a monotonic_ms_quiet [OF q] write_all_loop_inv [OF _ q, of port]
      by (fastforce simp: serial_port_write_all_def dest: wr split: if_split_asm prod.split_asm sum.split_asm)
  qed
qed

section \<open>Writing everything\<close>

text \<open>\<open>out\<close> is what the line has received on \<open>fd\<close>: a successful write of \<open>n\<close> bytes appends them.\<close>

definition delivers :: "('w, 'x) sysio_scheme \<Rightarrow> int \<Rightarrow> ('w \<Rightarrow> byte list) \<Rightarrow> bool" where
  "delivers K fd out \<longleftrightarrow>
     (\<forall>bs w r w'. sys_write K fd bs w = (r, w') \<longrightarrow> out w' = out w @ (case r of Inr n \<Rightarrow> take n bs | Inl _ \<Rightarrow> []))
     \<and> (\<forall>o0. quiet K (\<lambda>w. out w = o0))"

lemma delivers_write:
  assumes "delivers K (port_fd port) out" "serial_port_write K port bs w = Some (r, w')"
  shows "out w' = out w @ (case r of Inr n \<Rightarrow> take n bs | Inl _ \<Rightarrow> [])"
proof (cases "port_fd port < 0")
  case False
  then have "retry (sys_write K (port_fd port) bs) w = Some (r, w')"
    using assms(2) by (simp add: serial_port_write_def)
  then obtain w1 where "out w1 = out w" "sys_write K (port_fd port) bs w1 = (r, w')"
    using assms(1) retry_reaches [where P = "\<lambda>w1. out w1 = out w"] by (fastforce simp: delivers_def)
  with assms(1) show ?thesis by (simp add: delivers_def)
qed (use assms in \<open>auto simp: serial_port_write_def\<close>)

text \<open>The bytes \<open>w'\<close> has received beyond those of \<open>w\<close> are the beginning of \<open>data\<close>, all of it on success.\<close>

definition sent :: "('w \<Rightarrow> byte list) \<Rightarrow> byte list \<Rightarrow> 'w \<Rightarrow> (int + nat) \<times> 'w \<Rightarrow> bool" where
  "sent out data w x \<longleftrightarrow> (\<exists>k\<le>length data. out (snd x) = out w @ take k data \<and> (\<forall>n. fst x = Inr n \<longrightarrow> k = length data))"

lemma sent_none: "out w1 = out w \<Longrightarrow> sent out data w (Inl e, w1)"
  unfolding sent_def by (rule exI [of _ 0]) simp

lemma sent_step:
  assumes "out w1 = out w @ take k data" "sent out (drop k data) w1 x"
  shows "sent out data w x"
proof -
  obtain j where j: "j \<le> length (drop k data)" "out (snd x) = out w1 @ take j (drop k data)"
      "\<forall>n. fst x = Inr n \<longrightarrow> j = length (drop k data)"
    using assms(2) by (auto simp: sent_def)
  show ?thesis
  proof (cases "k \<le> length data")
    case True
    then show ?thesis using j assms(1) unfolding sent_def
      by (intro exI [of _ "k + j"]) (auto simp: take_add)
  next
    case False
    then show ?thesis using j assms(1) unfolding sent_def
      by (intro exI [of _ "length data"]) auto
  qed
qed

lemma write_all_loop_sent:
  assumes "write_all_loop K port dl data w = Some x" and d: "delivers K (port_fd port) out"
  shows "sent out data w x"
proof -
  let ?Q = "\<lambda>K' p dl data w x. K' = K \<longrightarrow> p = port \<longrightarrow> sent out data w x"
  have "?Q K port dl data w x"
  proof (rule write_all_loop.raw_induct [where P = ?Q, OF _ assms(1)])
    fix loop and K' :: "('a, 'b) sysio_scheme" and p dl data w x
    assume IH: "\<And>K' p dl data w x. loop K' p dl data w = Some x \<Longrightarrow> ?Q K' p dl data w x"
      and eq: "(if data = [] then Some (Inr 0, w)
        else case monotonic_ms K' w of
          (Inl e, w1) \<Rightarrow> Some (Inl e, w1)
        | (Inr now, w1) \<Rightarrow>
            if dl - now \<le> 0 then Some (Inl ETIMEDOUT, w1)
            else Option.bind (poll_fd K' (port_fd p) POLLOUT (min (dl - now) INT_MAX) w1) (\<lambda>(ready, w2).
              case ready of
                Inl e \<Rightarrow> Some (Inl e, w2)
              | Inr n \<Rightarrow>
                  if n = 0 then Some (Inl ETIMEDOUT, w2)
                  else Option.bind (serial_port_write K' p data w2) (\<lambda>(written, w3).
                    case written of
                      Inr k \<Rightarrow> loop K' p dl (drop k data) w3
                    | Inl e \<Rightarrow> if e = EAGAIN then loop K' p dl data w3 else Some (Inl e, w3)))) = Some x"
    show "?Q K' p dl data w x"
    proof (intro impI)
      assume K': "K' = K" "p = port"
      have quiet: "quiet K (\<lambda>w'. out w' = out w)" using d by (simp add: delivers_def)
      obtain a w1 where a: "monotonic_ms K w = (a, w1)" by (meson surj_pair)
      have o1: "out w1 = out w" by (rule monotonic_ms_quiet [OF quiet a]) simp
      show "sent out data w x"
      proof (cases "data = [] \<or> (\<exists>e. a = Inl e) \<or> (\<exists>now. a = Inr now \<and> dl - now \<le> 0)")
        case True
        then show ?thesis using eq o1 unfolding K' by (auto simp: a sent_none sent_def split: if_splits)
      next
        case False
        then obtain now where now: "a = Inr now" by (cases a) auto
        obtain b w2 where b: "poll_fd K (port_fd port) POLLOUT (min (dl - now) INT_MAX) w1 = Some (b, w2)"
          using eq False unfolding K' by (auto simp: a now split: Option.bind_splits)
        have o2: "out w2 = out w" using poll_fd_quiet [OF b quiet] o1 by simp
        show ?thesis
        proof (cases "\<exists>n. b = Inr n \<and> n \<noteq> 0")
          case True
          then obtain c w3 where c: "serial_port_write K port data w2 = Some (c, w3)"
            using eq False unfolding K' by (auto simp: a now b split: Option.bind_splits)
          have o3: "out w3 = out w @ (case c of Inr n \<Rightarrow> take n data | Inl _ \<Rightarrow> [])"
            using delivers_write [OF d c] o2 by simp
          have "(\<exists>k. c = Inr k \<and> loop K port dl (drop k data) w3 = Some x)
              \<or> (\<exists>e. c = Inl e \<and> (loop K port dl data w3 = Some x \<or> x = (Inl e, w3)))"
            using eq False True unfolding K' by (auto simp: a now b c split: sum.splits if_splits)
          then show ?thesis
            using IH [of K port dl _ w3 x] o3 sent_step [of out w3 w _ data x] sent_step [of out w3 w 0 data x] sent_none [of out w3 w data]
            by auto
        next
          case False
          then show ?thesis using eq \<open>\<not> (data = [] \<or> _)\<close> o2 unfolding K'
            by (cases b) (auto simp: a now b sent_none)
        qed
      qed
    qed
  qed
  then show ?thesis by simp
qed

section \<open>Deadlines end the loops\<close>

text \<open>The clock: reading it gives the time in milliseconds and takes at least one, and no call turns
  it back.\<close>

definition ticking :: "('w, 'x) sysio_scheme \<Rightarrow> ('w \<Rightarrow> nat) \<Rightarrow> bool" where
  "ticking K time \<longleftrightarrow>
     (\<forall>w r w'. sys_clock_gettime K w = (r, w') \<longrightarrow> time w < time w'
        \<and> (\<forall>sec nsec. r = Inr (sec, nsec) \<longrightarrow> sec * 1000 + nsec div 1000000 = time w))
     \<and> (\<forall>fd ev t w r w'. sys_poll K fd ev t w = (r, w') \<longrightarrow> time w \<le> time w')
     \<and> (\<forall>fd bs w r w'. sys_write K fd bs w = (r, w') \<longrightarrow> time w \<le> time w')"

lemma ticking_quiet: "ticking K time \<Longrightarrow> quiet K (\<lambda>w. t \<le> time w)"
  unfolding ticking_def quiet_def by (meson less_imp_le le_trans)

lemma ticking_monotonic:
  assumes "ticking K time" "monotonic_ms K w = (r, w')"
  shows "time w < time w' \<and> (\<forall>now. r = Inr now \<longrightarrow> now = int (time w))"
proof -
  obtain t where t: "sys_clock_gettime K w = (t, w')"
      "r = map_sum id (\<lambda>(sec, nsec). int (sec * 1000 + nsec div 1000000)) t"
    using assms(2) by (auto simp: monotonic_ms_def split: prod.splits sum.splits)
  have "time w < time w'" "\<And>sec nsec. t = Inr (sec, nsec) \<Longrightarrow> sec * 1000 + nsec div 1000000 = time w"
    using assms(1) t(1) unfolding ticking_def by blast+
  then show ?thesis using t(2) by (cases t) auto
qed

lemma poll_loop_returns:
  assumes "ticking K time" "0 < timeout"
  shows "\<exists>x. poll_loop K fd ev timeout dl w = Some x"
proof (induction "nat (dl - int (time w))" arbitrary: w rule: less_induct)
  case less
  obtain a w1 where a: "monotonic_ms K w = (a, w1)" by (meson surj_pair)
  note tick = ticking_monotonic [OF assms(1) a]
  show ?case
  proof (cases "\<exists>now. a = Inr now \<and> dl - now > 0")
    case False
    then show ?thesis using assms(2)
      by (subst poll_loop.simps) (auto simp: poll_wait_def a Let_def split: sum.splits)
  next
    case True
    then have dl: "a = Inr (int (time w))" "dl - int (time w) > 0" using tick by auto
    let ?ms = "min (dl - int (time w)) INT_MAX"
    obtain b w2 where b: "sys_poll K fd ev ?ms w1 = (b, w2)" by (meson surj_pair)
    have "time w1 \<le> time w2" using assms(1) b unfolding ticking_def by blast
    then have "nat (dl - int (time w2)) < nat (dl - int (time w))" using dl(2) tick by linarith
    then have IH: "\<exists>x. poll_loop K fd ev timeout dl w2 = Some x" using less by blast
    have "poll_wait K timeout dl w = (Inr (Some ?ms), w1)"
      using assms(2) dl by (auto simp: poll_wait_def a Let_def min_def)
    with b IH show ?thesis
      by (subst poll_loop.simps) (simp split: sum.split option.split)
  qed
qed

lemma poll_fd_returns:
  assumes "ticking K time" "timeout \<noteq> 0"
  shows "\<exists>r w'. poll_fd K fd ev timeout w = Some (r, w')"
  using poll_loop_returns [OF assms(1)] assms(2)
  by (auto simp: poll_fd_def split: prod.splits sum.splits)

lemma serial_port_write_returns:
  assumes "sys_settling K"
  shows "\<exists>r w'. serial_port_write K port bs w = Some (r, w')"
  using sys_settling_retry(2) [OF assms] by (simp add: serial_port_write_def)

lemma serial_port_write_time:
  assumes "ticking K time" "serial_port_write K port bs w = Some (r, w')"
  shows "time w \<le> time w'"
proof (cases "port_fd port < 0")
  case False
  have mono: "time w \<le> time w2" if "sys_write K (port_fd port) bs w1 = (x, w2)" "time w \<le> time w1" for w1 x w2
    using assms(1) that unfolding ticking_def by (meson le_trans)
  have "retry (sys_write K (port_fd port) bs) w = Some (r, w')"
    using assms(2) False by (simp add: serial_port_write_def)
  then obtain w1 where "time w \<le> time w1" "sys_write K (port_fd port) bs w1 = (r, w')"
    using retry_reaches [where P = "\<lambda>w1. time w \<le> time w1", of "sys_write K (port_fd port) bs" w r w'] mono by blast
  with assms(1) show ?thesis unfolding ticking_def by (meson le_trans)
qed (use assms in \<open>simp add: serial_port_write_def\<close>)

lemma write_all_loop_returns:
  assumes "ticking K time" "sys_settling K"
  shows "\<exists>x. write_all_loop K port dl data w = Some x"
proof (induction "nat (dl - int (time w))" arbitrary: w data rule: less_induct)
  case less
  obtain a w1 where a: "monotonic_ms K w = (a, w1)" by (meson surj_pair)
  note tick = ticking_monotonic [OF assms(1) a]
  show ?case
  proof (cases "data \<noteq> [] \<and> (\<exists>now. a = Inr now \<and> dl - now > 0)")
    case False
    then show ?thesis by (subst write_all_loop.simps) (auto simp: a split: sum.splits)
  next
    case True
    then have dl: "a = Inr (int (time w))" "dl - int (time w) > 0" using tick by auto
    obtain b w2 where b: "poll_fd K (port_fd port) POLLOUT (min (dl - int (time w)) INT_MAX) w1 = Some (b, w2)"
      using poll_fd_returns [OF assms(1), of "min (dl - int (time w)) INT_MAX"] dl(2) by (metis diff_gt_0_iff_gt min_less_iff_conj order_less_irrefl zero_less_numeral)
    obtain c w3 where c: "serial_port_write K port data w2 = Some (c, w3)"
      using serial_port_write_returns [OF assms(2)] by blast
    have "time w < time w1" "time w1 \<le> time w2" "time w2 \<le> time w3"
      using tick poll_fd_quiet [OF b ticking_quiet [OF assms(1)]] serial_port_write_time [OF assms(1) c] by auto
    then have "nat (dl - int (time w3)) < nat (dl - int (time w))" using dl(2) by linarith
    then have IH: "\<exists>x. write_all_loop K port dl d w3 = Some x" for d using less by blast
    show ?thesis
      using True dl(2) IH by (subst write_all_loop.simps) (auto simp: a dl(1) b c split: sum.splits)
  qed
qed

lemma write_all_returns:
  assumes "ticking K time" "sys_settling K"
  shows "\<exists>r w'. serial_port_write_all K port buffer timeout w = Some (r, w')"
  using write_all_loop_returns [OF assms]
  by (auto simp: serial_port_write_all_def split: prod.splits sum.splits)

section \<open>Opening leaves no descriptor behind\<close>

lemma configure_serial_fds:
  assumes "fd_table K fds" "configure_serial K fd b nb w = (r, w')"
  shows "fds w' = fds w"
  using assms(2) fd_table_keep [OF assms(1)]
  by (fastforce simp: configure_serial_def split: sum.splits prod.splits)

lemma serial_port_open_fds:
  assumes "fd_table K fds" "serial_port_open K port p b nb w = ((r, port'), w')" "port_fd port < 0"
  shows "(r = Inr 0 \<and> 0 \<le> port_fd port' \<and> port_fd port' \<notin> fds w \<and> fds w' = insert (port_fd port') (fds w))
    \<or> ((\<exists>e. r = Inl e) \<and> port' = port \<and> fds w' = fds w)"
proof -
  let ?flags = "O_RDWR OR O_NOCTTY OR O_CLOEXEC OR (if nb then O_NONBLOCK else 0)"
  obtain o1 w1 where o1: "sys_open K p ?flags w = (o1, w1)" by (meson surj_pair)
  show ?thesis
  proof (cases o1)
    case (Inl e)
    then show ?thesis using assms fd_table_open(2) [OF assms(1)] o1
      by (auto simp: serial_port_open_def split: if_splits)
  next
    case (Inr fd)
    note fd = fd_table_open(1) [OF assms(1) o1 [unfolded Inr]]
    obtain s w2 where s: "configure_serial K fd b nb w1 = (s, w2)" by (meson surj_pair)
    note keep = configure_serial_fds [OF assms(1) s] fd_table_close [OF assms(1), of fd w2]
    show ?thesis
      using assms(2,3) fd keep unfolding serial_port_open_def o1 Inr
      by (cases s) (auto simp: s split: if_splits)
  qed
qed

section \<open>Properties of the serial port\<close>


text \<open>A line that takes two bytes at a time; the world is the time and what the line received.\<close>

definition demo_line :: "(nat \<times> byte list) sysio" where
  "demo_line = \<lparr>sys_open = (\<lambda>p f w. (Inr 3, w)), sys_close = (\<lambda>fd w. (Inr (), w)), sys_read = (\<lambda>fd n w. (Inr [], w)),
     sys_write = (\<lambda>fd bs (t, out). (Inr (min 2 (length bs)), (t, out @ take 2 bs))),
     sys_poll = (\<lambda>fd ev ms w. (Inr (Some ev), w)),
     sys_clock_gettime = (\<lambda>(t, out). (Inr (t div 1000, t mod 1000 * 1000000), (t + 1, out))),
     sys_tcgetattr = (\<lambda>fd w. (Inr termios_zero, w)), sys_tcsetattr = (\<lambda>fd a t w. (Inr (), w)),
     sys_tcflush = (\<lambda>fd q w. (Inr (), w)), ioctl_i2c_slave = (\<lambda>fd a w. (Inr (), w)), ioctl_i2c_quick = (\<lambda>fd w. (Inr (), w)),
     ioctl_gpio_linehandle = (\<lambda>fd r w. (Inr 4, w)), ioctl_gpio_get = (\<lambda>fd w. (Inr 0, w)), ioctl_gpio_set = (\<lambda>fd b w. (Inr (), w))\<rparr>"

lemma demo_line_laws: "ticking demo_line fst" "sys_settling demo_line" "delivers demo_line fd snd"
proof -
  show "ticking demo_line fst" by (auto simp: ticking_def demo_line_def)
  have "settles 0 (sys_read demo_line fd n) w" "settles 0 (sys_write demo_line fd bs) w" "settles 0 (sys_tcflush demo_line fd q) w"
    for fd n bs q and w :: "nat \<times> byte list" by (simp_all add: demo_line_def split: prod.splits)
  then show "sys_settling demo_line" unfolding sys_settling_def by blast
  show "delivers demo_line fd snd"
    by (auto simp: delivers_def demo_line_def quiet_def min_def)
qed


text \<open>The control flags after clearing \<^verbatim>\<open>CSIZE PARENB CSTOPB\<close>, setting \<^verbatim>\<open>CS8 CREAD CLOCAL\<close>, clearing
  \<^verbatim>\<open>CRTSCTS\<close> and the speed bits, and setting the speed.\<close>

lemma control_bits:
  fixes c s :: uint32
  assumes "s AND NOT 0x100F = 0"
  shows "(((c AND NOT 0x170) OR 0x8B0) AND (NOT 0x80000000 AND NOT 0x100F) OR s) AND 0x800009F0 = 0x8B0"
proof -
  have "s AND 0x800009F0 = (s AND NOT 0x100F) AND 0x800009F0" by (simp add: and.assoc)
  then have s: "s AND 0x800009F0 = 0" using assms by simp
  have "(c AND 0x880) OR (0x880 OR 0x30) = 0x880 OR 0x30"
    by (simp only: or.assoc [symmetric] word_ao_absorbs)
  then have "(c AND 0x880) OR 0x8B0 = 0x8B0" by simp
  then have "((c AND NOT 0x170) OR 0x8B0) AND (NOT 0x80000000 AND NOT 0x100F) AND 0x800009F0 = 0x8B0"
    by (simp add: bit.conj_disj_distrib bit.conj_disj_distrib2 and.assoc)
  with s show ?thesis by (simp add: bit.conj_disj_distrib2 and.assoc)
qed

text \<open>Whatever settings the line had, the settings written for a port are raw: no line editing,
  echo, signals or character translation in either direction, eight data bits without parity, one
  stop bit, no flow control, the receiver on; and a non-blocking port reads without waiting.\<close>
theorem raw_termios_is_raw:
  assumes "baud_to_speed baud = Inr speed" and "length (c_cc t) = 32"
  shows "let t' = raw_termios nonblocking speed t in
      c_lflag t' AND (0x8 OR 0x40 OR 0x2 OR 0x1 OR 0x8000) = 0
    \<and> c_oflag t' AND 0x1 = 0
    \<and> c_iflag t' AND (0x100 OR 0x40 OR 0x80 OR 0x20 OR 0x400 OR 0x800 OR 0x1000) = 0
    \<and> c_cflag t' AND (0x30 OR 0x100 OR 0x40 OR 0x80000000 OR 0x80 OR 0x800) = 0x30 OR 0x80 OR 0x800
    \<and> c_ispeed t' = speed \<and> c_ospeed t' = speed
    \<and> c_cc t' ! 6 = (if nonblocking then 0 else 1) \<and> c_cc t' ! 5 = 0"
proof -
  have "speed AND NOT 0x100F = 0"
    using assms(1) by (auto simp: baud_to_speed_def split: if_splits)
  note cflag = control_bits [OF this, of "c_cflag t"]
  show ?thesis
    using assms(2) cflag by (simp add: raw_termios_def cfsetspeed_def Let_def and.assoc)
qed

theorem raw_termios_is_raw_witness:
  "c_lflag (raw_termios True 0xD (termios_zero\<lparr>c_lflag := 0x8A3B\<rparr>)) AND 0x2 = 0
   \<and> c_cflag (raw_termios True 0xD (termios_zero\<lparr>c_lflag := 0x8A3B\<rparr>)) AND 0x30 = 0x30"
proof -
  have h: "baud_to_speed 9600 = Inr 0xD" "length (c_cc (termios_zero\<lparr>c_lflag := 0x8A3B\<rparr>)) = 32"
    by (simp_all add: baud_to_speed_def termios_zero_def)
  have "c_lflag (raw_termios True 0xD (termios_zero\<lparr>c_lflag := 0x8A3B\<rparr>)) = 0xA30"
      "c_cflag (raw_termios True 0xD (termios_zero\<lparr>c_lflag := 0x8A3B\<rparr>)) = 0x8BD"
    by code_simp+
  with raw_termios_is_raw [OF h, of True] show ?thesis by simp
qed

end
