(* ===== verification/Gpio_Line.thy ===== *)
theory Gpio_Line
  imports Sysio
begin

text \<open>
  A GPIO line requested from its chip, \<^verbatim>\<open>src/gpio_line.c\<close>.  Line, path and value pointers are not NULL here.
\<close>

record GpioLine =
  line_fd :: int

abbreviation (input) GPIOHANDLE_REQUEST_INPUT :: uint32 where "GPIOHANDLE_REQUEST_INPUT \<equiv> 1"
abbreviation (input) GPIOHANDLE_REQUEST_OUTPUT :: uint32 where "GPIOHANDLE_REQUEST_OUTPUT \<equiv> 2"

definition gpio_bias_flags :: "int \<Rightarrow> int + uint32" where
  "gpio_bias_flags b =
     (if b = 0 then Inr 0 else if b = 1 then Inr (push_bit 5 1) else if b = 2 then Inr (push_bit 6 1)
      else if b = 3 then Inr (push_bit 7 1) else Inl EINVAL)"

definition gpio_line_request ::
  "('w, 'x) sysio_scheme \<Rightarrow> GpioLine \<Rightarrow> string \<Rightarrow> uint32 \<Rightarrow> uint32 \<Rightarrow> int \<Rightarrow> 'w \<Rightarrow> ((int + nat) \<times> GpioLine) \<times> 'w" where
  "gpio_line_request K line chip_path off flags dflt w =
     (if chip_path = [] then ((Inl EINVAL, line), w)
      else if line_fd line \<ge> 0 then ((Inl EBUSY, line), w)
      else case sys_open K chip_path (O_RDONLY OR O_CLOEXEC) w of
        (Inl e, w1) \<Rightarrow> ((Inl e, line), w1)
      | (Inr chip_fd, w1) \<Rightarrow>
          (case ioctl_gpio_linehandle K chip_fd
                  \<lparr>lineoffset = off, flags_of = flags, default_value = (if dflt \<noteq> 0 then 1 else 0),
                   consumer_label = ''embedded-runtime''\<rparr> w1 of
             (Inl e, w2) \<Rightarrow> ((Inl e, line), snd (sys_close K chip_fd w2))
           | (Inr handle, w2) \<Rightarrow>
               (case sys_close K chip_fd w2 of
                  (Inl e, w3) \<Rightarrow> ((Inl e, line), snd (sys_close K handle w3))
                | (Inr _, w3) \<Rightarrow> ((Inr 0, line\<lparr>line_fd := handle\<rparr>), w3))))"

definition gpio_line_init :: GpioLine where
  "gpio_line_init = \<lparr>line_fd = -1\<rparr>"

definition gpio_line_open_input ::
  "('w, 'x) sysio_scheme \<Rightarrow> GpioLine \<Rightarrow> string \<Rightarrow> uint32 \<Rightarrow> int \<Rightarrow> 'w \<Rightarrow> ((int + nat) \<times> GpioLine) \<times> 'w" where
  "gpio_line_open_input K line chip_path off b w =
     (case gpio_bias_flags b of
        Inl e \<Rightarrow> ((Inl e, line), w)
      | Inr flags \<Rightarrow> gpio_line_request K line chip_path off (GPIOHANDLE_REQUEST_INPUT OR flags) 0 w)"

definition gpio_line_open_output ::
  "('w, 'x) sysio_scheme \<Rightarrow> GpioLine \<Rightarrow> string \<Rightarrow> uint32 \<Rightarrow> int \<Rightarrow> 'w \<Rightarrow> ((int + nat) \<times> GpioLine) \<times> 'w" where
  "gpio_line_open_output K line chip_path off initial w =
     (if initial \<noteq> 0 \<and> initial \<noteq> 1 then ((Inl EINVAL, line), w)
      else gpio_line_request K line chip_path off GPIOHANDLE_REQUEST_OUTPUT initial w)"

definition gpio_line_get_value :: "('w, 'x) sysio_scheme \<Rightarrow> GpioLine \<Rightarrow> 'w \<Rightarrow> (int + int) \<times> 'w" where
  "gpio_line_get_value K line w =
     (if line_fd line < 0 then (Inl EINVAL, w)
      else case ioctl_gpio_get K (line_fd line) w of
        (Inl e, w') \<Rightarrow> (Inl e, w')
      | (Inr v, w') \<Rightarrow> (Inr (if v \<noteq> 0 then 1 else 0), w'))"

definition gpio_line_set_value :: "('w, 'x) sysio_scheme \<Rightarrow> GpioLine \<Rightarrow> int \<Rightarrow> 'w \<Rightarrow> (int + unit) \<times> 'w" where
  "gpio_line_set_value K line v w =
     (if line_fd line < 0 \<or> (v \<noteq> 0 \<and> v \<noteq> 1) then (Inl EINVAL, w)
      else ioctl_gpio_set K (line_fd line) (of_int v) w)"

definition gpio_line_close :: "('w, 'x) sysio_scheme \<Rightarrow> GpioLine \<Rightarrow> 'w \<Rightarrow> GpioLine \<times> 'w" where
  "gpio_line_close K line w =
     (if line_fd line \<ge> 0 then (line\<lparr>line_fd := -1\<rparr>, snd (sys_close K (line_fd line) w)) else (line, w))"

lemma gpio_line_request_fds:
  assumes "fd_table K fds" "gpio_line_request K line p off f d w = ((r, line'), w')" "line_fd line < 0"
  shows "(r = Inr 0 \<and> 0 \<le> line_fd line' \<and> line_fd line' \<notin> fds w \<and> fds w' = insert (line_fd line') (fds w))
    \<or> ((\<exists>e. r = Inl e) \<and> line' = line \<and> fds w' = fds w)"
proof -
  let ?q = "\<lparr>lineoffset = off, flags_of = f, default_value = (if d \<noteq> 0 then 1 else 0), consumer_label = ''embedded-runtime''\<rparr>"
  obtain o1 w1 where o1: "sys_open K p (O_RDONLY OR O_CLOEXEC) w = (o1, w1)" by (meson surj_pair)
  show ?thesis
  proof (cases o1)
    case (Inl e)
    then show ?thesis using assms fd_table_open(2) [OF assms(1)] o1
      by (auto simp: gpio_line_request_def split: if_splits)
  next
    case (Inr chip)
    note chip = fd_table_open(1) [OF assms(1) o1 [unfolded Inr]]
    obtain h w2 where h: "ioctl_gpio_linehandle K chip ?q w1 = (h, w2)" by (meson surj_pair)
    obtain c w3 where c: "sys_close K chip w2 = (c, w3)" by (meson surj_pair)
    have w3: "fds w3 = fds w2 - {chip}" using fd_table_close [OF assms(1), of chip w2] c by simp
    show ?thesis
    proof (cases h)
      case (Inl e)
      then show ?thesis
        using assms(2,3) chip fd_table_line(2) [OF assms(1) h [unfolded Inl]] w3 c
        unfolding gpio_line_request_def o1 Inr by (auto simp: h split: if_splits)
    next
      case (Inr handle)
      note line = fd_table_line(1) [OF assms(1) h [unfolded Inr]]
      have w4: "fds (snd (sys_close K handle w3)) = fds w3 - {handle}" by (rule fd_table_close [OF assms(1)])
      have "fds w3 = insert handle (fds w)" "fds (snd (sys_close K handle w3)) = fds w"
        using chip line w3 w4 by auto
      moreover have "handle \<notin> fds w" using chip line by simp
      ultimately show ?thesis
        using assms(2,3) line unfolding gpio_line_request_def o1 \<open>o1 = Inr chip\<close>
        by (cases c) (auto simp: h Inr c split: if_splits)
    qed
  qed
qed

lemma gpio_line_fds:
  assumes "fd_table K fds"
  shows "gpio_line_get_value K line w = (r1, w') \<Longrightarrow> fds w' = fds w"
    and "gpio_line_set_value K line v w = (r2, w') \<Longrightarrow> fds w' = fds w"
  by (auto simp: gpio_line_get_value_def gpio_line_set_value_def dest!: fd_table_keep(9,10) [OF assms]
      split: if_split_asm prod.split_asm sum.split_asm)

lemma gpio_line_open_fds:
  assumes "fd_table K fds" "line_fd line < 0"
    and "gpio_line_open_output K line p off v w = ((r, line'), w') \<or> gpio_line_open_input K line p off v w = ((r, line'), w')"
  shows "(r = Inr 0 \<and> 0 \<le> line_fd line' \<and> line_fd line' \<notin> fds w \<and> fds w' = insert (line_fd line') (fds w))
    \<or> ((\<exists>e. r = Inl e) \<and> line' = line \<and> fds w' = fds w)"
proof -
  have "(\<exists>f d. gpio_line_request K line p off f d w = ((r, line'), w')) \<or> (\<exists>e. r = Inl e) \<and> line' = line \<and> w' = w"
    using assms(3) by (auto simp: gpio_line_open_output_def gpio_line_open_input_def split: if_split_asm sum.split_asm)
  then show ?thesis using gpio_line_request_fds [OF assms(1) _ assms(2)] by blast
qed

end
