(* ===== verification/Sysfs_Io.thy ===== *)
theory Sysfs_Io
  imports Sysio
begin

text \<open>
  Reading and writing small text files, \<^verbatim>\<open>src/sysfs_io.c\<close>.  Pointers are not NULL here.  A text that is
  read is a C string: the bytes before the first NUL.
\<close>

section \<open>Operations\<close>

text \<open>The reading loop: \<open>limit\<close> is \<^verbatim>\<open>size - 1\<close>, \<open>acc\<close> what was read.  On an error the caller closes.\<close>

partial_function (option) text_loop ::
  "('w, 'x) sysio_scheme \<Rightarrow> int \<Rightarrow> nat \<Rightarrow> byte list \<Rightarrow> 'w \<Rightarrow> ((int + byte list) \<times> 'w) option" where
  "text_loop K fd limit acc w =
     (if length acc \<ge> limit then Some (Inr acc, w)
      else case sys_read K fd (limit - length acc) w of
        (Inl e, w') \<Rightarrow> if e = EINTR then text_loop K fd limit acc w' else Some (Inl e, w')
      | (Inr bs, w') \<Rightarrow> if bs = [] then Some (Inr acc, w') else text_loop K fd limit (acc @ bs) w')"

declare text_loop.simps [code]

definition strip_newlines :: "string \<Rightarrow> string" where
  "strip_newlines s = rev (dropWhile (\<lambda>c. c = NL \<or> c = CR) (rev s))"

definition sysfs_read_text ::
  "('w, 'x) sysio_scheme \<Rightarrow> string \<Rightarrow> nat \<Rightarrow> 'w \<Rightarrow> ((int + string) \<times> 'w) option" where
  "sysfs_read_text K p n w =
     (if n < 2 then Some (Inl EINVAL, w)
      else case sys_open K p (O_RDONLY OR O_CLOEXEC) w of
        (Inl e, w1) \<Rightarrow> Some (Inl e, w1)
      | (Inr fd, w1) \<Rightarrow> do {
          (r, w2) \<leftarrow> text_loop K fd (n - 1) [] w1;
          case r of
            Inl e \<Rightarrow> Some (Inl e, snd (sys_close K fd w2))
          | Inr bs \<Rightarrow>
              (case sys_close K fd w2 of
                 (Inl e, w3) \<Rightarrow> Some (Inl e, w3)
               | (Inr _, w3) \<Rightarrow> Some (Inr (cstr (strip_newlines (map byte_char bs))), w3)) })"

definition parse_long :: "string \<Rightarrow> int + int" where
  "parse_long s = (case strtol10 s of (v, rest, erange) \<Rightarrow>
     if erange \<or> rest = s \<or> rest \<noteq> [] then Inl EINVAL else Inr v)"

definition parse_ulong :: "string \<Rightarrow> int + nat" where
  "parse_ulong s =
     (if s \<noteq> [] \<and> hd s = CHR ''-'' then Inl EINVAL
      else case strtoul 10 s of (v, rest, erange) \<Rightarrow>
        if erange \<or> rest = s \<or> rest \<noteq> [] then Inl EINVAL else Inr v)"

definition sysfs_read_long :: "('w, 'x) sysio_scheme \<Rightarrow> string \<Rightarrow> 'w \<Rightarrow> ((int + int) \<times> 'w) option" where
  "sysfs_read_long K p w = do {
     (r, w') \<leftarrow> sysfs_read_text K p 64 w;
     case r of Inl e \<Rightarrow> Some (Inl e, w') | Inr s \<Rightarrow> Some (parse_long s, w') }"

definition sysfs_read_ulong :: "('w, 'x) sysio_scheme \<Rightarrow> string \<Rightarrow> 'w \<Rightarrow> ((int + nat) \<times> 'w) option" where
  "sysfs_read_ulong K p w = do {
     (r, w') \<leftarrow> sysfs_read_text K p 64 w;
     case r of Inl e \<Rightarrow> Some (Inl e, w') | Inr s \<Rightarrow> Some (parse_ulong s, w') }"

text \<open>\<^verbatim>\<open>unsigned long long\<close> has the same 64 bits, and \<^verbatim>\<open>strtoull\<close> the same behaviour.\<close>

definition sysfs_read_ull :: "('w, 'x) sysio_scheme \<Rightarrow> string \<Rightarrow> 'w \<Rightarrow> ((int + nat) \<times> 'w) option" where
  "sysfs_read_ull K p w = do {
     (r, w') \<leftarrow> sysfs_read_text K p 64 w;
     case r of Inl e \<Rightarrow> Some (Inl e, w') | Inr s \<Rightarrow> Some (parse_ulong s, w') }"

definition sysfs_write_text ::
  "('w, 'x) sysio_scheme \<Rightarrow> string \<Rightarrow> string \<Rightarrow> 'w \<Rightarrow> ((int + unit) \<times> 'w) option" where
  "sysfs_write_text K p v w =
     (if v = [] then Some (Inl EINVAL, w)
      else case sys_open K p (O_WRONLY OR O_CLOEXEC) w of
        (Inl e, w1) \<Rightarrow> Some (Inl e, w1)
      | (Inr fd, w1) \<Rightarrow> do {
          (r, w2) \<leftarrow> retry (sys_write K fd (map char_byte v)) w1;
          case r of
            Inl e \<Rightarrow> Some (Inl e, snd (sys_close K fd w2))
          | Inr n \<Rightarrow>
              if n \<noteq> length v then Some (Inl EIO, snd (sys_close K fd w2))
              else (case sys_close K fd w2 of
                (Inl e, w3) \<Rightarrow> Some (Inl e, w3)
              | (Inr _, w3) \<Rightarrow> Some (Inr (), w3)) })"

section \<open>Descriptors and bounds\<close>

text \<open>An invariant of the reading loop, over what was read and the world.\<close>

lemma text_loop_inv:
  assumes "text_loop K fd limit acc w = Some x"
    and step: "\<And>acc w r w'. sys_read K fd (limit - length acc) w = (r, w') \<Longrightarrow> length acc < limit \<Longrightarrow> I acc w
      \<Longrightarrow> I (case r of Inl _ \<Rightarrow> acc | Inr bs \<Rightarrow> acc @ bs) w'"
    and "I acc w"
  shows "\<exists>acc'. I acc' (snd x) \<and> (\<forall>bs. fst x = Inr bs \<longrightarrow> bs = acc')"
proof -
  let ?R = "\<lambda>x. \<exists>acc'. I acc' (snd x) \<and> (\<forall>bs. fst x = Inr bs \<longrightarrow> bs = acc')"
  let ?Q = "\<lambda>K' fd' lim acc w x. K' = K \<longrightarrow> fd' = fd \<longrightarrow> lim = limit \<longrightarrow> I acc w \<longrightarrow> ?R x"
  have "?Q K fd limit acc w x"
  proof (rule text_loop.raw_induct [where P = ?Q, OF _ assms(1)])
    fix loop and K' :: "('a, 'b) sysio_scheme" and fd' lim acc w x
    assume IH: "\<And>K' fd' lim acc w x. loop K' fd' lim acc w = Some x \<Longrightarrow> ?Q K' fd' lim acc w x"
      and eq: "(if length acc \<ge> lim then Some (Inr acc, w)
        else case sys_read K' fd' (lim - length acc) w of
          (Inl e, w') \<Rightarrow> if e = EINTR then loop K' fd' lim acc w' else Some (Inl e, w')
        | (Inr bs, w') \<Rightarrow> if bs = [] then Some (Inr acc, w') else loop K' fd' lim (acc @ bs) w') = Some x"
    show "?Q K' fd' lim acc w x"
    proof (intro impI)
      assume p: "K' = K" "fd' = fd" "lim = limit" "I acc w"
      obtain r w1 where r: "sys_read K fd (limit - length acc) w = (r, w1)" by (meson surj_pair)
      let ?acc = "case r of Inl _ \<Rightarrow> acc | Inr bs \<Rightarrow> acc @ bs"
      have I1: "length acc < limit \<Longrightarrow> I ?acc w1" using step [OF r] p(4) by blast
      have "x = (Inr acc, w) \<or> (length acc < limit \<and> (snd x = w1 \<and> (\<forall>bs. fst x = Inr bs \<longrightarrow> bs = ?acc) \<or> loop K fd limit ?acc w1 = Some x))"
        using eq unfolding p(1-3) by (auto simp: r split: if_splits sum.splits)
      then show "?R x" using I1 p(4) IH [of K fd limit ?acc w1 x] by auto
    qed
  qed
  with assms(3) show ?thesis by blast
qed

lemma text_loop_fds:
  assumes "fd_table K fds" "text_loop K fd limit acc w = Some (r, w')"
  shows "fds w' = fds w"
  using text_loop_inv [OF assms(2), where I = "\<lambda>_ w1. fds w1 = fds w"] fd_table_keep(1) [OF assms(1)] by fastforce

lemma text_loop_length:
  assumes "posix K" "text_loop K fd limit [] w = Some (Inr bs, w')"
  shows "length bs \<le> limit"
proof -
  have "length b \<le> n" if "sys_read K fd n w = (Inr b, w')" for n w b w'
    using assms(1) that unfolding posix_def by blast
  then show ?thesis
    using text_loop_inv [OF assms(2), where I = "\<lambda>acc _. length acc \<le> limit"] by (fastforce split: sum.splits)
qed

lemma open_close_fds:
  assumes "fd_table K fds" "sys_open K p f w = (Inr fd, w1)" "fds w2 = fds w1"
  shows "fds (snd (sys_close K fd w2)) = fds w"
  using fd_table_open(1) [OF assms(1,2)] fd_table_close [OF assms(1), of fd w2] assms(3) by auto

lemma sysfs_read_text_fds:
  assumes "fd_table K fds" "sysfs_read_text K p n w = Some (r, w')"
  shows "fds w' = fds w"
proof -
  obtain o1 w1 where o1: "sys_open K p (O_RDONLY OR O_CLOEXEC) w = (o1, w1)" by (meson surj_pair)
  show ?thesis
  proof (cases "n < 2 \<or> (\<exists>e. o1 = Inl e)")
    case True
    then show ?thesis using assms fd_table_open(2) [OF assms(1)] o1
      by (auto simp: sysfs_read_text_def split: if_splits sum.splits)
  next
    case False
    then obtain fd where fd: "o1 = Inr fd" by (cases o1) auto
    obtain b w2 where b: "text_loop K fd (n - 1) [] w1 = Some (b, w2)"
      using assms(2) False o1 fd by (auto simp: sysfs_read_text_def split: Option.bind_splits)
    note w2 = open_close_fds [OF assms(1) o1 [unfolded fd] text_loop_fds [OF assms(1) b]]
    have "w' = snd (sys_close K fd w2)"
      using assms(2) False o1 fd b by (auto simp: sysfs_read_text_def split: sum.splits prod.splits)
    with w2 show ?thesis by simp
  qed
qed

lemma sysfs_write_text_fds:
  assumes "fd_table K fds" "sysfs_write_text K p v w = Some (r, w')"
  shows "fds w' = fds w"
proof -
  obtain o1 w1 where o1: "sys_open K p (O_WRONLY OR O_CLOEXEC) w = (o1, w1)" by (meson surj_pair)
  show ?thesis
  proof (cases "v = [] \<or> (\<exists>e. o1 = Inl e)")
    case True
    then show ?thesis using assms fd_table_open(2) [OF assms(1)] o1
      by (auto simp: sysfs_write_text_def split: if_splits sum.splits)
  next
    case False
    then obtain fd where fd: "o1 = Inr fd" by (cases o1) auto
    obtain b w2 where b: "retry (sys_write K fd (map char_byte v)) w1 = Some (b, w2)"
      using assms(2) False o1 fd by (auto simp: sysfs_write_text_def split: Option.bind_splits)
    note w2 = open_close_fds [OF assms(1) o1 [unfolded fd] fd_table_retry(2) [OF assms(1) b]]
    have "w' = snd (sys_close K fd w2)"
      using assms(2) False o1 fd b by (auto simp: sysfs_write_text_def split: sum.splits prod.splits if_splits)
    with w2 show ?thesis by simp
  qed
qed

lemma sysfs_read_numbers_fds:
  assumes "fd_table K fds"
  shows "sysfs_read_long K p w = Some (r1, w') \<Longrightarrow> fds w' = fds w"
    "sysfs_read_ulong K p w = Some (r2, w') \<Longrightarrow> fds w' = fds w"
    "sysfs_read_ull K p w = Some (r3, w') \<Longrightarrow> fds w' = fds w"
  using sysfs_read_text_fds [OF assms]
  by (auto simp: sysfs_read_long_def sysfs_read_ulong_def sysfs_read_ull_def split: Option.bind_splits sum.splits)

lemma length_cstr: "length (cstr s) \<le> length s"
  by (simp add: cstr_def length_takeWhile_le)

lemma length_strip_newlines: "length (strip_newlines s) \<le> length s"
  by (simp add: strip_newlines_def) (metis length_dropWhile_le length_rev)

lemma sysfs_read_text_fits:
  assumes "posix K" "sysfs_read_text K p n w = Some (Inr s, w')"
  shows "length s < n \<and> NUL \<notin> set s"
proof -
  obtain fd w1 bs w2 where "text_loop K fd (n - 1) [] w1 = Some (Inr bs, w2)" "\<not> n < 2"
    "s = cstr (strip_newlines (map byte_char bs))"
    using assms(2) by (auto simp: sysfs_read_text_def split: if_splits sum.splits prod.splits Option.bind_splits)
  moreover have "length bs \<le> n - 1" using text_loop_length [OF assms(1)] calculation(1) by blast
  moreover have "length s \<le> length bs"
    using length_cstr [of "strip_newlines (map byte_char bs)"] length_strip_newlines [of "map byte_char bs"] calculation(3) by simp
  ultimately show ?thesis using cstr_no_nul by auto
qed

section \<open>Numbers\<close>

lemma strip_sign_dec_int: "strip_sign (dec_int i) = (i < 0, dec (nat \<bar>i\<bar>))"
  by (simp add: dec_int_def strip_sign_dec) (simp add: strip_sign_def)

lemma dropWhile_isspace_dec_int: "dropWhile isspace (dec_int i) = dec_int i"
  by (auto simp: dec_int_def dropWhile_isspace_dec isspace_def ord_of_def)

lemma parse_long_dec_int:
  assumes "- LONG_MAX - 1 \<le> i" "i \<le> LONG_MAX"
  shows "parse_long (dec_int i) = Inr i"
proof -
  have digits: "takeWhile isdigit (dec (nat \<bar>i\<bar>)) = dec (nat \<bar>i\<bar>)" "dropWhile isdigit (dec (nat \<bar>i\<bar>)) = []"
    using dec_isdigit by (simp_all add: takeWhile_eq_all_conv dropWhile_eq_Nil_conv)
  have "strtol10 (dec_int i) = (i, [], False)"
    using assms unfolding strtol10_def dropWhile_isspace_dec_int strip_sign_dec_int prod.case digits Let_def
    by auto
  moreover have "dec_int i \<noteq> []" by (simp add: dec_int_def)
  ultimately show ?thesis by (auto simp: parse_long_def)
qed

lemma parse_ulong_dec: "n \<le> ULONG_MAX \<Longrightarrow> parse_ulong (dec n) = Inr n"
proof -
  assume n: "n \<le> ULONG_MAX"
  have "\<not> isdigit (CHR ''-'')" by code_simp
  then have "hd (dec n) \<noteq> CHR ''-''" using hd_dec [of n] by metis
  moreover have "[] \<noteq> dec n" using dec_not_Nil [of n] by metis
  ultimately show ?thesis using strtoul10_dec [OF n] by (simp add: parse_ulong_def)
qed

section \<open>Properties\<close>

text \<open>A kernel with one file and one GPIO line: the world is the set of open descriptors and what is
  left to read.\<close>

definition demo_files :: "(int set \<times> byte list) sysio" where
  "demo_files = \<lparr>sys_open = (\<lambda>p f (s, t). if 3 \<in> s then (Inl 24, (s, t)) else (Inr 3, (insert 3 s, t))),
     sys_close = (\<lambda>fd (s, t). (Inr (), (s - {fd}, t))),
     sys_read = (\<lambda>fd n (s, t). (Inr (take n t), (s, drop n t))),
     sys_write = (\<lambda>fd bs w. (Inr (length bs), w)),
     sys_poll = (\<lambda>fd ev ms w. (Inr (Some ev), w)), sys_clock_gettime = (\<lambda>w. (Inr (0, 0), w)),
     sys_tcgetattr = (\<lambda>fd w. (Inr termios_zero, w)), sys_tcsetattr = (\<lambda>fd a t w. (Inr (), w)),
     sys_tcflush = (\<lambda>fd q w. (Inr (), w)), ioctl_i2c_slave = (\<lambda>fd a w. (Inr (), w)), ioctl_i2c_quick = (\<lambda>fd w. (Inr (), w)),
     ioctl_gpio_linehandle = (\<lambda>fd r (s, t). if 4 \<in> s then (Inl 24, (s, t)) else (Inr 4, (insert 4 s, t))),
     ioctl_gpio_get = (\<lambda>fd w. (Inr 0, w)), ioctl_gpio_set = (\<lambda>fd b w. (Inr (), w))\<rparr>"

lemma demo_files_laws: "fd_table demo_files fst" "posix demo_files"
  by (auto simp: fd_table_def posix_def demo_files_def split: if_splits)



text \<open>A file that holds a number as the kernel prints it is read back as that number, through the
  signed reader for every \<^verbatim>\<open>long\<close> and through the unsigned readers for every \<^verbatim>\<open>unsigned long\<close>.\<close>
theorem sysfs_numbers_roundtrip:
  "(sysfs_read_text K p 64 w = Some (Inr (dec_int i), w') \<and> - LONG_MAX - 1 \<le> i \<and> i \<le> LONG_MAX
      \<longrightarrow> sysfs_read_long K p w = Some (Inr i, w'))
   \<and> (sysfs_read_text K p 64 w = Some (Inr (dec n), w') \<and> n \<le> ULONG_MAX
      \<longrightarrow> sysfs_read_ulong K p w = Some (Inr n, w') \<and> sysfs_read_ull K p w = Some (Inr n, w'))"
  using parse_long_dec_int [of i] parse_ulong_dec [of n]
  by (auto simp: sysfs_read_long_def sysfs_read_ulong_def sysfs_read_ull_def)

theorem sysfs_numbers_roundtrip_witness:
  "\<exists>w'. sysfs_read_long demo_files ''/sys/x'' ({}, map char_byte (''-42'' @ [NL])) = Some (Inr (- 42), w')"
proof -
  have "map_option fst (sysfs_read_text demo_files ''/sys/x'' 64 ({}, map char_byte (''-42'' @ [NL]))) = Some (Inr (dec_int (- 42)))"
    by code_simp
  then obtain w' where "sysfs_read_text demo_files ''/sys/x'' 64 ({}, map char_byte (''-42'' @ [NL])) = Some (Inr (dec_int (- 42)), w')"
    by auto
  with sysfs_numbers_roundtrip [of demo_files "''/sys/x''" "({}, map char_byte (''-42'' @ [NL]))" "- 42" w']
  show ?thesis by auto
qed



end
