(* ===== verification/Led_Control.thy ===== *)
theory Led_Control
  imports Sysfs_Io Common
begin

text \<open>
  LEDs through \<^verbatim>\<open>/sys/class/leds\<close>, \<^verbatim>\<open>src/led_control.c\<close>.  A failed operation is \<open>Inl e\<close> with the value
  \<open>e\<close> of \<^verbatim>\<open>errno\<close> it leaves; the three exported functions return \<^verbatim>\<open>MiniShell_ERR_UNKNOWN\<close> for every
  \<open>Inl\<close>, and \<open>Inl 0\<close> stands for a rejected argument, which leaves \<^verbatim>\<open>errno\<close> alone.
\<close>

definition led_name_valid :: "string \<Rightarrow> bool" where
  "led_name_valid s \<longleftrightarrow> s \<noteq> [] \<and> s \<noteq> ''.'' \<and> s \<noteq> ''..''
     \<and> list_all (\<lambda>c. \<not> (c = CHR ''/'' \<or> ord_of c < 0x20 \<or> ord_of c = 0x7F)) s"

definition led_trigger_valid :: "string \<Rightarrow> bool" where
  "led_trigger_valid s \<longleftrightarrow> s \<noteq> []
     \<and> list_all (\<lambda>c. \<not> (c = CHR ''/'' \<or> isspace c \<or> ord_of c < 0x20 \<or> ord_of c = 0x7F)) s"

definition led_path :: "string \<Rightarrow> string \<Rightarrow> string" where
  "led_path name attribute = ''/sys/class/leds/'' @ name @ ''/'' @ attribute"

definition led_build_path :: "nat \<Rightarrow> string \<Rightarrow> string \<Rightarrow> int + string" where
  "led_build_path n name attribute =
     (if n = 0 \<or> \<not> led_name_valid name \<or> attribute = [] then Inl EINVAL
      else if length (led_path name attribute) \<ge> n then Inl ENAMETOOLONG
      else Inr (led_path name attribute))"

text \<open>The text between the first \<^verbatim>\<open>[\<close> and the first \<^verbatim>\<open>]\<close> after it.\<close>

definition active_trigger :: "string \<Rightarrow> nat \<Rightarrow> int + string" where
  "active_trigger s n =
     (case split_at (CHR ''['') s of
        None \<Rightarrow> Inl EIO
      | Some (_, rest) \<Rightarrow>
          (case split_at (CHR '']'') rest of
             None \<Rightarrow> Inl EIO
           | Some (t, _) \<Rightarrow> if t = [] then Inl EIO else if length t \<ge> n then Inl EOVERFLOW else Inr t))"

definition led_read_active_trigger ::
  "('w, 'x) sysio_scheme \<Rightarrow> string \<Rightarrow> nat \<Rightarrow> 'w \<Rightarrow> ((int + string) \<times> 'w) option" where
  "led_read_active_trigger K name n w =
     (if n = 0 then Some (Inl EINVAL, w)
      else case led_build_path 512 name ''trigger'' of
        Inl e \<Rightarrow> Some (Inl e, w)
      | Inr p \<Rightarrow> do {
          (r, w') \<leftarrow> sysfs_read_text K p 2048 w;
          case r of Inl e \<Rightarrow> Some (Inl e, w') | Inr s \<Rightarrow> Some (active_trigger s n, w') })"

definition led_write_trigger ::
  "('w, 'x) sysio_scheme \<Rightarrow> string \<Rightarrow> string \<Rightarrow> 'w \<Rightarrow> ((int + unit) \<times> 'w) option" where
  "led_write_trigger K name trigger w =
     (case led_build_path 512 name ''trigger'' of
        Inl e \<Rightarrow> Some (Inl e, w)
      | Inr p \<Rightarrow> do {
          (r, w1) \<leftarrow> sysfs_write_text K p trigger w;
          case r of
            Inl e \<Rightarrow> Some (Inl e, w1)
          | Inr _ \<Rightarrow> do {
              (a, w2) \<leftarrow> led_read_active_trigger K name 64 w1;
              case a of
                Inl e \<Rightarrow> Some (Inl e, w2)
              | Inr actual \<Rightarrow> Some (if actual \<noteq> trigger then Inl EIO else Inr (), w2) } })"

definition led_read_max_brightness ::
  "('w, 'x) sysio_scheme \<Rightarrow> string \<Rightarrow> 'w \<Rightarrow> ((int + int) \<times> 'w) option" where
  "led_read_max_brightness K name w =
     (case led_build_path 512 name ''max_brightness'' of
        Inl e \<Rightarrow> Some (Inl e, w)
      | Inr p \<Rightarrow> do {
          (r, w') \<leftarrow> sysfs_read_long K p w;
          case r of Inl e \<Rightarrow> Some (Inl e, w') | Inr v \<Rightarrow> Some (if v \<le> 0 then Inl EINVAL else Inr v, w') })"

definition led_write_brightness ::
  "('w, 'x) sysio_scheme \<Rightarrow> string \<Rightarrow> int \<Rightarrow> 'w \<Rightarrow> ((int + unit) \<times> 'w) option" where
  "led_write_brightness K name v w =
     (case led_build_path 512 name ''brightness'' of
        Inl e \<Rightarrow> Some (Inl e, w)
      | Inr p \<Rightarrow>
          if length (dec_int v) \<ge> 32 then Some (Inl EINVAL, w)
          else do {
            (r, w1) \<leftarrow> sysfs_write_text K p (dec_int v) w;
            case r of
              Inl e \<Rightarrow> Some (Inl e, w1)
            | Inr _ \<Rightarrow> do {
                (a, w2) \<leftarrow> sysfs_read_long K p w1;
                case a of
                  Inl e \<Rightarrow> Some (Inl e, w2)
                | Inr actual \<Rightarrow> Some (if actual \<noteq> v then Inl EIO else Inr (), w2) } })"

definition led_control_set_on :: "('w, 'x) sysio_scheme \<Rightarrow> string \<Rightarrow> 'w \<Rightarrow> ((int + unit) \<times> 'w) option" where
  "led_control_set_on K name w =
     (if \<not> led_name_valid name then Some (Inl 0, w)
      else do {
        (m, w1) \<leftarrow> led_read_max_brightness K name w;
        case m of
          Inl e \<Rightarrow> Some (Inl e, w1)
        | Inr max_brightness \<Rightarrow> do {
            (t, w2) \<leftarrow> led_write_trigger K name ''none'' w1;
            case t of
              Inl e \<Rightarrow> Some (Inl e, w2)
            | Inr _ \<Rightarrow> led_write_brightness K name max_brightness w2 } })"

definition led_control_set_off :: "('w, 'x) sysio_scheme \<Rightarrow> string \<Rightarrow> 'w \<Rightarrow> ((int + unit) \<times> 'w) option" where
  "led_control_set_off K name w =
     (if \<not> led_name_valid name then Some (Inl 0, w)
      else do {
        (t, w1) \<leftarrow> led_write_trigger K name ''none'' w;
        case t of
          Inl e \<Rightarrow> Some (Inl e, w1)
        | Inr _ \<Rightarrow> led_write_brightness K name 0 w1 })"

definition led_control_set_trigger ::
  "('w, 'x) sysio_scheme \<Rightarrow> string \<Rightarrow> string \<Rightarrow> 'w \<Rightarrow> ((int + unit) \<times> 'w) option" where
  "led_control_set_trigger K name trigger w =
     (if \<not> led_name_valid name \<or> \<not> led_trigger_valid trigger then Some (Inl 0, w)
      else led_write_trigger K name trigger w)"

section \<open>Success is read back\<close>

lemma led_write_brightness_ok:
  assumes "led_write_brightness K name v w = Some (Inr (), w')"
  shows "led_build_path 512 name ''brightness'' = Inr (led_path name ''brightness'')
    \<and> (\<exists>w1. sysfs_read_long K (led_path name ''brightness'') w1 = Some (Inr v, w'))"
  using assms
  by (auto simp: led_write_brightness_def led_build_path_def
      split: sum.splits if_splits Option.bind_splits prod.splits)

lemma led_write_trigger_ok:
  assumes "led_write_trigger K name t w = Some (Inr (), w')"
  shows "\<exists>w1. led_read_active_trigger K name 64 w1 = Some (Inr t, w')"
  using assms
  by (auto simp: led_write_trigger_def split: sum.splits if_splits Option.bind_splits prod.splits)

lemma led_read_max_brightness_ok:
  assumes "led_read_max_brightness K name w = Some (Inr v, w')"
  shows "0 < v \<and> sysfs_read_long K (led_path name ''max_brightness'') w = Some (Inr v, w')"
  using assms
  by (auto simp: led_read_max_brightness_def led_build_path_def
      split: sum.splits if_splits Option.bind_splits prod.splits)

section \<open>Descriptors\<close>

lemma led_fds:
  assumes K: "fd_table K fds"
  shows "led_read_active_trigger K name n w = Some (r1, w') \<Longrightarrow> fds w' = fds w"
    and "led_write_trigger K name t w = Some (r2, w') \<Longrightarrow> fds w' = fds w"
    and "led_read_max_brightness K name w = Some (r3, w') \<Longrightarrow> fds w' = fds w"
    and "led_write_brightness K name v w = Some (r4, w') \<Longrightarrow> fds w' = fds w"
proof -
  note io = sysfs_read_text_fds [OF K] sysfs_write_text_fds [OF K] sysfs_read_numbers_fds(1) [OF K]
  show active: "fds w' = fds w" if "led_read_active_trigger K name n w = Some (r1, w')" for n w r1 w'
    using that by (auto simp: led_read_active_trigger_def dest!: io split: sum.split_asm if_split_asm Option.bind_split_asm prod.split_asm)
  show "fds w' = fds w" if "led_write_trigger K name t w = Some (r2, w')"
    using that by (auto simp: led_write_trigger_def dest!: active io split: sum.split_asm if_split_asm Option.bind_split_asm prod.split_asm)
  show "fds w' = fds w" if "led_read_max_brightness K name w = Some (r3, w')"
    using that by (auto simp: led_read_max_brightness_def dest!: io split: sum.split_asm if_split_asm Option.bind_split_asm prod.split_asm)
  show "fds w' = fds w" if "led_write_brightness K name v w = Some (r4, w')"
    using that by (auto simp: led_write_brightness_def dest!: io split: sum.split_asm if_split_asm Option.bind_split_asm prod.split_asm)
qed

lemma led_control_fds:
  assumes K: "fd_table K fds"
  shows "led_control_set_on K name w = Some (r, w') \<Longrightarrow> fds w' = fds w"
    and "led_control_set_off K name w = Some (r, w') \<Longrightarrow> fds w' = fds w"
    and "led_control_set_trigger K name t w = Some (r, w') \<Longrightarrow> fds w' = fds w"
  by (auto simp: led_control_set_on_def led_control_set_off_def led_control_set_trigger_def dest!: led_fds [OF K]
      split: sum.split_asm if_split_asm Option.bind_split_asm prod.split_asm)

section \<open>Properties\<close>


text \<open>An LED whose brightness goes up to 7: the world is the open descriptors, the file being read or
  written, whether it was read, and the two attributes.\<close>

definition demo_led :: "(int set \<times> string \<times> bool \<times> string \<times> string) sysio" where
  "demo_led = \<lparr>sys_open = (\<lambda>p f (s, cur, eof, tr, br). if 3 \<in> s then (Inl 24, (s, cur, eof, tr, br)) else (Inr 3, (insert 3 s, p, False, tr, br))),
     sys_close = (\<lambda>fd (s, x). (Inr (), (s - {fd}, x))),
     sys_read = (\<lambda>fd n (s, cur, eof, tr, br). if eof then (Inr [], (s, cur, eof, tr, br))
       else (Inr (take n (map char_byte (if cur = led_path ''led0'' ''trigger'' then tr
          else if cur = led_path ''led0'' ''brightness'' then br else ''7''))), (s, cur, True, tr, br))),
     sys_write = (\<lambda>fd bs (s, cur, eof, tr, br). (Inr (length bs),
       (if cur = led_path ''led0'' ''trigger'' then (s, cur, eof, ''['' @ map byte_char bs @ ''] timer'', br)
        else (s, cur, eof, tr, map byte_char bs)))),
     sys_poll = (\<lambda>fd ev ms w. (Inr (Some ev), w)), sys_clock_gettime = (\<lambda>w. (Inr (0, 0), w)),
     sys_tcgetattr = (\<lambda>fd w. (Inr termios_zero, w)), sys_tcsetattr = (\<lambda>fd a t w. (Inr (), w)),
     sys_tcflush = (\<lambda>fd q w. (Inr (), w)), ioctl_i2c_slave = (\<lambda>fd a w. (Inr (), w)), ioctl_i2c_quick = (\<lambda>fd w. (Inr (), w)),
     ioctl_gpio_linehandle = (\<lambda>fd r w. (Inl 22, w)),
     ioctl_gpio_get = (\<lambda>fd w. (Inr 0, w)), ioctl_gpio_set = (\<lambda>fd b w. (Inr (), w))\<rparr>"

lemma demo_led_fds: "fd_table demo_led fst"
  by (auto simp: fd_table_def demo_led_def split: if_splits)


end
