(* ===== verification/I2c_Bus.thy ===== *)
theory I2c_Bus
  imports Sysio
begin

text \<open>
  A device on an I2C bus, \<^verbatim>\<open>src/i2c_bus.c\<close>.  Bus, path and data pointers are not NULL here.
\<close>

record I2cBus =
  bus_fd :: int
  bus_address :: byte

definition i2c_bus_init :: I2cBus where
  "i2c_bus_init = \<lparr>bus_fd = -1, bus_address = 0\<rparr>"

definition i2c_bus_open ::
  "('w, 'x) sysio_scheme \<Rightarrow> I2cBus \<Rightarrow> string \<Rightarrow> byte \<Rightarrow> 'w \<Rightarrow> ((int + nat) \<times> I2cBus) \<times> 'w" where
  "i2c_bus_open K bus device_path a w =
     (if device_path = [] \<or> a > 0x7F then ((Inl EINVAL, bus), w)
      else if bus_fd bus \<ge> 0 then ((Inl EBUSY, bus), w)
      else case sys_open K device_path (O_RDWR OR O_CLOEXEC) w of
        (Inl e, w1) \<Rightarrow> ((Inl e, bus), w1)
      | (Inr fd, w1) \<Rightarrow>
          (case ioctl_i2c_slave K fd a w1 of
             (Inl e, w2) \<Rightarrow> ((Inl e, bus), snd (sys_close K fd w2))
           | (Inr _, w2) \<Rightarrow> ((Inr 0, bus\<lparr>bus_fd := fd, bus_address := a\<rparr>), w2)))"

definition i2c_bus_probe :: "('w, 'x) sysio_scheme \<Rightarrow> I2cBus \<Rightarrow> 'w \<Rightarrow> (int + nat) \<times> 'w" where
  "i2c_bus_probe K bus w =
     (if bus_fd bus < 0 then (Inl EINVAL, w)
      else case ioctl_i2c_quick K (bus_fd bus) w of
        (Inl e, w') \<Rightarrow> (Inl e, w') | (Inr _, w') \<Rightarrow> (Inr 0, w'))"

definition i2c_bus_write :: "('w, 'x) sysio_scheme \<Rightarrow> I2cBus \<Rightarrow> byte list \<Rightarrow> 'w \<Rightarrow> ((int + nat) \<times> 'w) option" where
  "i2c_bus_write K bus bs w =
     (if bus_fd bus < 0 then Some (Inl EINVAL, w)
      else do {
        (r, w') \<leftarrow> retry (sys_write K (bus_fd bus) bs) w;
        case r of
          Inl e \<Rightarrow> Some (Inl e, w')
        | Inr n \<Rightarrow> if n \<noteq> length bs then Some (Inl EIO, w') else Some (Inr 0, w') })"

definition i2c_bus_read :: "('w, 'x) sysio_scheme \<Rightarrow> I2cBus \<Rightarrow> nat \<Rightarrow> 'w \<Rightarrow> ((int + byte list) \<times> 'w) option" where
  "i2c_bus_read K bus n w =
     (if bus_fd bus < 0 then Some (Inl EINVAL, w)
      else do {
        (r, w') \<leftarrow> retry (sys_read K (bus_fd bus) n) w;
        case r of
          Inl e \<Rightarrow> Some (Inl e, w')
        | Inr bs \<Rightarrow> if length bs \<noteq> n then Some (Inl EIO, w') else Some (Inr bs, w') })"

definition i2c_bus_close :: "('w, 'x) sysio_scheme \<Rightarrow> I2cBus \<Rightarrow> 'w \<Rightarrow> I2cBus \<times> 'w" where
  "i2c_bus_close K bus w =
     (bus\<lparr>bus_fd := -1, bus_address := 0\<rparr>,
      if bus_fd bus \<ge> 0 then snd (sys_close K (bus_fd bus) w) else w)"

lemma i2c_bus_open_fds:
  assumes "fd_table K fds" "i2c_bus_open K bus p a w = ((r, bus'), w')" "bus_fd bus < 0"
  shows "(r = Inr 0 \<and> 0 \<le> bus_fd bus' \<and> bus_fd bus' \<notin> fds w \<and> fds w' = insert (bus_fd bus') (fds w))
    \<or> ((\<exists>e. r = Inl e) \<and> bus' = bus \<and> fds w' = fds w)"
proof -
  obtain o1 w1 where o1: "sys_open K p (O_RDWR OR O_CLOEXEC) w = (o1, w1)" by (meson surj_pair)
  show ?thesis
  proof (cases o1)
    case (Inl e)
    then show ?thesis using assms fd_table_open(2) [OF assms(1)] o1
      by (auto simp: i2c_bus_open_def split: if_splits)
  next
    case (Inr fd)
    note fd = fd_table_open(1) [OF assms(1) o1 [unfolded Inr]]
    obtain s w2 where s: "ioctl_i2c_slave K fd a w1 = (s, w2)" by (meson surj_pair)
    note keep = fd_table_keep(6) [OF assms(1) s] fd_table_close [OF assms(1), of fd w2]
    show ?thesis
      using assms(2,3) fd keep unfolding i2c_bus_open_def o1 Inr
      by (auto simp: s split: if_splits sum.splits)
  qed
qed

lemma i2c_bus_fds:
  assumes "fd_table K fds"
  shows "i2c_bus_write K bus bs w = Some (r1, w') \<Longrightarrow> fds w' = fds w"
    and "i2c_bus_read K bus n w = Some (r2, w') \<Longrightarrow> fds w' = fds w"
  by (auto simp: i2c_bus_write_def i2c_bus_read_def dest!: fd_table_retry [OF assms]
      split: if_split_asm Option.bind_split_asm prod.split_asm sum.split_asm)

end
