(* ===== verification/Oled_Font.thy ===== *)
theory Oled_Font
  imports Prelude
begin

text \<open>
  The two fonts, \<^verbatim>\<open>src/oled_font.c\<close>: 95 printable ASCII glyphs of 16 rows of 8 pixels, and the Chinese
  glyphs, each a code point and 16 rows of 16 pixels.  The tables are those of the source, entry by entry.
\<close>

definition ascii8x16 :: "byte list list" where
  "ascii8x16 = [
    [0x00, 0x00, 0x00, 0x00, 0x00, 0x00, 0x00, 0x00, 0x00, 0x00, 0x00, 0x00, 0x00, 0x00, 0x00, 0x00],
    [0x00, 0x00, 0x00, 0x00, 0x08, 0x08, 0x08, 0x08, 0x08, 0x08, 0x08, 0x00, 0x08, 0x08, 0x00, 0x00],
    [0x00, 0x00, 0x22, 0x22, 0x22, 0x22, 0x00, 0x00, 0x00, 0x00, 0x00, 0x00, 0x00, 0x00, 0x00, 0x00],
    [0x00, 0x00, 0x00, 0x00, 0x12, 0x12, 0x12, 0x7E, 0x24, 0x24, 0x7E, 0x48, 0x48, 0x48, 0x00, 0x00],
    [0x00, 0x00, 0x00, 0x00, 0x08, 0x3E, 0x49, 0x48, 0x38, 0x0E, 0x09, 0x49, 0x3E, 0x08, 0x00, 0x00],
    [0x00, 0x00, 0x00, 0x00, 0x31, 0x4A, 0x4A, 0x34, 0x08, 0x08, 0x16, 0x29, 0x29, 0x46, 0x00, 0x00],
    [0x00, 0x00, 0x00, 0x00, 0x1C, 0x22, 0x22, 0x14, 0x18, 0x29, 0x45, 0x42, 0x46, 0x39, 0x00, 0x00],
    [0x00, 0x00, 0x08, 0x08, 0x08, 0x08, 0x00, 0x00, 0x00, 0x00, 0x00, 0x00, 0x00, 0x00, 0x00, 0x00],
    [0x00, 0x00, 0x00, 0x04, 0x08, 0x08, 0x10, 0x10, 0x10, 0x10, 0x10, 0x10, 0x08, 0x08, 0x04, 0x00],
    [0x00, 0x00, 0x00, 0x20, 0x10, 0x10, 0x08, 0x08, 0x08, 0x08, 0x08, 0x08, 0x10, 0x10, 0x20, 0x00],
    [0x00, 0x00, 0x00, 0x00, 0x00, 0x00, 0x08, 0x49, 0x2A, 0x1C, 0x2A, 0x49, 0x08, 0x00, 0x00, 0x00],
    [0x00, 0x00, 0x00, 0x00, 0x00, 0x00, 0x08, 0x08, 0x08, 0x7F, 0x08, 0x08, 0x08, 0x00, 0x00, 0x00],
    [0x00, 0x00, 0x00, 0x00, 0x00, 0x00, 0x00, 0x00, 0x00, 0x00, 0x00, 0x00, 0x18, 0x08, 0x08, 0x10],
    [0x00, 0x00, 0x00, 0x00, 0x00, 0x00, 0x00, 0x00, 0x00, 0x3C, 0x00, 0x00, 0x00, 0x00, 0x00, 0x00],
    [0x00, 0x00, 0x00, 0x00, 0x00, 0x00, 0x00, 0x00, 0x00, 0x00, 0x00, 0x00, 0x18, 0x18, 0x00, 0x00],
    [0x00, 0x00, 0x00, 0x00, 0x02, 0x02, 0x04, 0x08, 0x08, 0x10, 0x10, 0x20, 0x40, 0x40, 0x00, 0x00],
    [0x00, 0x00, 0x00, 0x00, 0x18, 0x24, 0x42, 0x46, 0x4A, 0x52, 0x62, 0x42, 0x24, 0x18, 0x00, 0x00],
    [0x00, 0x00, 0x00, 0x00, 0x08, 0x18, 0x28, 0x08, 0x08, 0x08, 0x08, 0x08, 0x08, 0x3E, 0x00, 0x00],
    [0x00, 0x00, 0x00, 0x00, 0x3C, 0x42, 0x42, 0x02, 0x0C, 0x10, 0x20, 0x40, 0x40, 0x7E, 0x00, 0x00],
    [0x00, 0x00, 0x00, 0x00, 0x3C, 0x42, 0x42, 0x02, 0x1C, 0x02, 0x02, 0x42, 0x42, 0x3C, 0x00, 0x00],
    [0x00, 0x00, 0x00, 0x00, 0x04, 0x0C, 0x14, 0x24, 0x44, 0x44, 0x7E, 0x04, 0x04, 0x04, 0x00, 0x00],
    [0x00, 0x00, 0x00, 0x00, 0x7E, 0x40, 0x40, 0x40, 0x7C, 0x02, 0x02, 0x02, 0x42, 0x3C, 0x00, 0x00],
    [0x00, 0x00, 0x00, 0x00, 0x1C, 0x20, 0x40, 0x40, 0x7C, 0x42, 0x42, 0x42, 0x42, 0x3C, 0x00, 0x00],
    [0x00, 0x00, 0x00, 0x00, 0x7E, 0x02, 0x02, 0x04, 0x04, 0x04, 0x08, 0x08, 0x08, 0x08, 0x00, 0x00],
    [0x00, 0x00, 0x00, 0x00, 0x3C, 0x42, 0x42, 0x42, 0x3C, 0x42, 0x42, 0x42, 0x42, 0x3C, 0x00, 0x00],
    [0x00, 0x00, 0x00, 0x00, 0x3C, 0x42, 0x42, 0x42, 0x3E, 0x02, 0x02, 0x02, 0x04, 0x38, 0x00, 0x00],
    [0x00, 0x00, 0x00, 0x00, 0x00, 0x00, 0x18, 0x18, 0x00, 0x00, 0x00, 0x18, 0x18, 0x00, 0x00, 0x00],
    [0x00, 0x00, 0x00, 0x00, 0x00, 0x00, 0x18, 0x18, 0x00, 0x00, 0x00, 0x18, 0x08, 0x08, 0x10, 0x00],
    [0x00, 0x00, 0x00, 0x00, 0x00, 0x02, 0x04, 0x08, 0x10, 0x20, 0x10, 0x08, 0x04, 0x02, 0x00, 0x00],
    [0x00, 0x00, 0x00, 0x00, 0x00, 0x00, 0x00, 0x7E, 0x00, 0x00, 0x00, 0x7E, 0x00, 0x00, 0x00, 0x00],
    [0x00, 0x00, 0x00, 0x00, 0x00, 0x40, 0x20, 0x10, 0x08, 0x04, 0x08, 0x10, 0x20, 0x40, 0x00, 0x00],
    [0x00, 0x00, 0x00, 0x00, 0x3C, 0x42, 0x42, 0x02, 0x04, 0x08, 0x08, 0x00, 0x08, 0x08, 0x00, 0x00],
    [0x00, 0x00, 0x00, 0x00, 0x1C, 0x22, 0x4A, 0x56, 0x52, 0x52, 0x52, 0x4E, 0x20, 0x1E, 0x00, 0x00],
    [0x00, 0x00, 0x00, 0x00, 0x18, 0x24, 0x24, 0x42, 0x42, 0x7E, 0x42, 0x42, 0x42, 0x42, 0x00, 0x00],
    [0x00, 0x00, 0x00, 0x00, 0x7C, 0x42, 0x42, 0x42, 0x7C, 0x42, 0x42, 0x42, 0x42, 0x7C, 0x00, 0x00],
    [0x00, 0x00, 0x00, 0x00, 0x3C, 0x42, 0x42, 0x40, 0x40, 0x40, 0x40, 0x42, 0x42, 0x3C, 0x00, 0x00],
    [0x00, 0x00, 0x00, 0x00, 0x78, 0x44, 0x42, 0x42, 0x42, 0x42, 0x42, 0x42, 0x44, 0x78, 0x00, 0x00],
    [0x00, 0x00, 0x00, 0x00, 0x7E, 0x40, 0x40, 0x40, 0x7C, 0x40, 0x40, 0x40, 0x40, 0x7E, 0x00, 0x00],
    [0x00, 0x00, 0x00, 0x00, 0x7E, 0x40, 0x40, 0x40, 0x7C, 0x40, 0x40, 0x40, 0x40, 0x40, 0x00, 0x00],
    [0x00, 0x00, 0x00, 0x00, 0x3C, 0x42, 0x42, 0x40, 0x40, 0x4E, 0x42, 0x42, 0x46, 0x3A, 0x00, 0x00],
    [0x00, 0x00, 0x00, 0x00, 0x42, 0x42, 0x42, 0x42, 0x7E, 0x42, 0x42, 0x42, 0x42, 0x42, 0x00, 0x00],
    [0x00, 0x00, 0x00, 0x00, 0x3E, 0x08, 0x08, 0x08, 0x08, 0x08, 0x08, 0x08, 0x08, 0x3E, 0x00, 0x00],
    [0x00, 0x00, 0x00, 0x00, 0x1F, 0x04, 0x04, 0x04, 0x04, 0x04, 0x04, 0x44, 0x44, 0x38, 0x00, 0x00],
    [0x00, 0x00, 0x00, 0x00, 0x42, 0x44, 0x48, 0x50, 0x60, 0x60, 0x50, 0x48, 0x44, 0x42, 0x00, 0x00],
    [0x00, 0x00, 0x00, 0x00, 0x40, 0x40, 0x40, 0x40, 0x40, 0x40, 0x40, 0x40, 0x40, 0x7E, 0x00, 0x00],
    [0x00, 0x00, 0x00, 0x00, 0x42, 0x42, 0x66, 0x66, 0x5A, 0x5A, 0x42, 0x42, 0x42, 0x42, 0x00, 0x00],
    [0x00, 0x00, 0x00, 0x00, 0x42, 0x62, 0x62, 0x52, 0x52, 0x4A, 0x4A, 0x46, 0x46, 0x42, 0x00, 0x00],
    [0x00, 0x00, 0x00, 0x00, 0x3C, 0x42, 0x42, 0x42, 0x42, 0x42, 0x42, 0x42, 0x42, 0x3C, 0x00, 0x00],
    [0x00, 0x00, 0x00, 0x00, 0x7C, 0x42, 0x42, 0x42, 0x7C, 0x40, 0x40, 0x40, 0x40, 0x40, 0x00, 0x00],
    [0x00, 0x00, 0x00, 0x00, 0x3C, 0x42, 0x42, 0x42, 0x42, 0x42, 0x42, 0x5A, 0x66, 0x3C, 0x03, 0x00],
    [0x00, 0x00, 0x00, 0x00, 0x7C, 0x42, 0x42, 0x42, 0x7C, 0x48, 0x44, 0x44, 0x42, 0x42, 0x00, 0x00],
    [0x00, 0x00, 0x00, 0x00, 0x3C, 0x42, 0x42, 0x40, 0x30, 0x0C, 0x02, 0x42, 0x42, 0x3C, 0x00, 0x00],
    [0x00, 0x00, 0x00, 0x00, 0x7F, 0x08, 0x08, 0x08, 0x08, 0x08, 0x08, 0x08, 0x08, 0x08, 0x00, 0x00],
    [0x00, 0x00, 0x00, 0x00, 0x42, 0x42, 0x42, 0x42, 0x42, 0x42, 0x42, 0x42, 0x42, 0x3C, 0x00, 0x00],
    [0x00, 0x00, 0x00, 0x00, 0x41, 0x41, 0x41, 0x22, 0x22, 0x22, 0x14, 0x14, 0x08, 0x08, 0x00, 0x00],
    [0x00, 0x00, 0x00, 0x00, 0x42, 0x42, 0x42, 0x42, 0x5A, 0x5A, 0x66, 0x66, 0x42, 0x42, 0x00, 0x00],
    [0x00, 0x00, 0x00, 0x00, 0x42, 0x42, 0x24, 0x24, 0x18, 0x18, 0x24, 0x24, 0x42, 0x42, 0x00, 0x00],
    [0x00, 0x00, 0x00, 0x00, 0x41, 0x41, 0x22, 0x22, 0x14, 0x08, 0x08, 0x08, 0x08, 0x08, 0x00, 0x00],
    [0x00, 0x00, 0x00, 0x00, 0x7E, 0x02, 0x02, 0x04, 0x08, 0x10, 0x20, 0x40, 0x40, 0x7E, 0x00, 0x00],
    [0x00, 0x00, 0x00, 0x0E, 0x08, 0x08, 0x08, 0x08, 0x08, 0x08, 0x08, 0x08, 0x08, 0x08, 0x0E, 0x00],
    [0x00, 0x00, 0x00, 0x00, 0x40, 0x40, 0x20, 0x10, 0x10, 0x08, 0x08, 0x04, 0x02, 0x02, 0x00, 0x00],
    [0x00, 0x00, 0x00, 0x70, 0x10, 0x10, 0x10, 0x10, 0x10, 0x10, 0x10, 0x10, 0x10, 0x10, 0x70, 0x00],
    [0x00, 0x00, 0x18, 0x24, 0x42, 0x00, 0x00, 0x00, 0x00, 0x00, 0x00, 0x00, 0x00, 0x00, 0x00, 0x00],
    [0x00, 0x00, 0x00, 0x00, 0x00, 0x00, 0x00, 0x00, 0x00, 0x00, 0x00, 0x00, 0x00, 0x00, 0x7F, 0x00],
    [0x00, 0x20, 0x10, 0x08, 0x00, 0x00, 0x00, 0x00, 0x00, 0x00, 0x00, 0x00, 0x00, 0x00, 0x00, 0x00],
    [0x00, 0x00, 0x00, 0x00, 0x00, 0x00, 0x3C, 0x42, 0x02, 0x3E, 0x42, 0x42, 0x46, 0x3A, 0x00, 0x00],
    [0x00, 0x00, 0x00, 0x40, 0x40, 0x40, 0x5C, 0x62, 0x42, 0x42, 0x42, 0x42, 0x62, 0x5C, 0x00, 0x00],
    [0x00, 0x00, 0x00, 0x00, 0x00, 0x00, 0x3C, 0x42, 0x40, 0x40, 0x40, 0x40, 0x42, 0x3C, 0x00, 0x00],
    [0x00, 0x00, 0x00, 0x02, 0x02, 0x02, 0x3A, 0x46, 0x42, 0x42, 0x42, 0x42, 0x46, 0x3A, 0x00, 0x00],
    [0x00, 0x00, 0x00, 0x00, 0x00, 0x00, 0x3C, 0x42, 0x42, 0x7E, 0x40, 0x40, 0x42, 0x3C, 0x00, 0x00],
    [0x00, 0x00, 0x00, 0x0C, 0x10, 0x10, 0x10, 0x7C, 0x10, 0x10, 0x10, 0x10, 0x10, 0x10, 0x00, 0x00],
    [0x00, 0x00, 0x00, 0x00, 0x00, 0x02, 0x3A, 0x44, 0x44, 0x44, 0x38, 0x20, 0x3C, 0x42, 0x42, 0x3C],
    [0x00, 0x00, 0x00, 0x40, 0x40, 0x40, 0x5C, 0x62, 0x42, 0x42, 0x42, 0x42, 0x42, 0x42, 0x00, 0x00],
    [0x00, 0x00, 0x00, 0x08, 0x08, 0x00, 0x18, 0x08, 0x08, 0x08, 0x08, 0x08, 0x08, 0x3E, 0x00, 0x00],
    [0x00, 0x00, 0x00, 0x04, 0x04, 0x00, 0x0C, 0x04, 0x04, 0x04, 0x04, 0x04, 0x04, 0x04, 0x48, 0x30],
    [0x00, 0x00, 0x00, 0x40, 0x40, 0x40, 0x44, 0x48, 0x50, 0x60, 0x50, 0x48, 0x44, 0x42, 0x00, 0x00],
    [0x00, 0x00, 0x00, 0x18, 0x08, 0x08, 0x08, 0x08, 0x08, 0x08, 0x08, 0x08, 0x08, 0x3E, 0x00, 0x00],
    [0x00, 0x00, 0x00, 0x00, 0x00, 0x00, 0x76, 0x49, 0x49, 0x49, 0x49, 0x49, 0x49, 0x49, 0x00, 0x00],
    [0x00, 0x00, 0x00, 0x00, 0x00, 0x00, 0x5C, 0x62, 0x42, 0x42, 0x42, 0x42, 0x42, 0x42, 0x00, 0x00],
    [0x00, 0x00, 0x00, 0x00, 0x00, 0x00, 0x3C, 0x42, 0x42, 0x42, 0x42, 0x42, 0x42, 0x3C, 0x00, 0x00],
    [0x00, 0x00, 0x00, 0x00, 0x00, 0x00, 0x5C, 0x62, 0x42, 0x42, 0x42, 0x42, 0x62, 0x5C, 0x40, 0x40],
    [0x00, 0x00, 0x00, 0x00, 0x00, 0x00, 0x3A, 0x46, 0x42, 0x42, 0x42, 0x42, 0x46, 0x3A, 0x02, 0x02],
    [0x00, 0x00, 0x00, 0x00, 0x00, 0x00, 0x5C, 0x62, 0x42, 0x40, 0x40, 0x40, 0x40, 0x40, 0x00, 0x00],
    [0x00, 0x00, 0x00, 0x00, 0x00, 0x00, 0x3C, 0x42, 0x40, 0x30, 0x0C, 0x02, 0x42, 0x3C, 0x00, 0x00],
    [0x00, 0x00, 0x00, 0x00, 0x10, 0x10, 0x10, 0x7C, 0x10, 0x10, 0x10, 0x10, 0x10, 0x0C, 0x00, 0x00],
    [0x00, 0x00, 0x00, 0x00, 0x00, 0x00, 0x42, 0x42, 0x42, 0x42, 0x42, 0x42, 0x46, 0x3A, 0x00, 0x00],
    [0x00, 0x00, 0x00, 0x00, 0x00, 0x00, 0x42, 0x42, 0x42, 0x24, 0x24, 0x24, 0x18, 0x18, 0x00, 0x00],
    [0x00, 0x00, 0x00, 0x00, 0x00, 0x00, 0x41, 0x49, 0x49, 0x49, 0x49, 0x49, 0x49, 0x36, 0x00, 0x00],
    [0x00, 0x00, 0x00, 0x00, 0x00, 0x00, 0x42, 0x42, 0x24, 0x18, 0x18, 0x24, 0x42, 0x42, 0x00, 0x00],
    [0x00, 0x00, 0x00, 0x00, 0x00, 0x00, 0x42, 0x42, 0x42, 0x42, 0x42, 0x26, 0x1A, 0x02, 0x02, 0x3C],
    [0x00, 0x00, 0x00, 0x00, 0x00, 0x00, 0x7E, 0x02, 0x04, 0x08, 0x10, 0x20, 0x40, 0x7E, 0x00, 0x00],
    [0x00, 0x00, 0x00, 0x0C, 0x10, 0x10, 0x08, 0x08, 0x10, 0x20, 0x10, 0x08, 0x08, 0x10, 0x10, 0x0C],
    [0x00, 0x00, 0x08, 0x08, 0x08, 0x08, 0x08, 0x08, 0x08, 0x08, 0x08, 0x08, 0x08, 0x08, 0x08, 0x08],
    [0x00, 0x00, 0x00, 0x30, 0x08, 0x08, 0x10, 0x10, 0x08, 0x04, 0x08, 0x10, 0x10, 0x08, 0x08, 0x30],
    [0x00, 0x00, 0x00, 0x31, 0x49, 0x46, 0x00, 0x00, 0x00, 0x00, 0x00, 0x00, 0x00, 0x00, 0x00, 0x00]]"

definition zh16 :: "(uint32 \<times> byte list) list" where
  "zh16 = [
    (0x9999, [0x00, 0x70, 0x1F, 0x80, 0x01, 0x00, 0x01, 0x00, 0xFF, 0xFE, 0x05, 0x40, 0x09, 0x20, 0x31, 0x18, 0xDF, 0xF6, 0x10, 0x10, 0x10, 0x10, 0x1F, 0xF0, 0x10, 0x10, 0x10, 0x10, 0x1F, 0xF0, 0x10, 0x10]),
    (0x6A59, [0x10, 0x20, 0x17, 0xA4, 0x10, 0xA8, 0x12, 0x92, 0xF9, 0x14, 0x12, 0x08, 0x35, 0xF4, 0x38, 0x02, 0x57, 0xF8, 0x52, 0x08, 0x92, 0x08, 0x13, 0xF8, 0x12, 0x08, 0x11, 0x10, 0x1F, 0xFE, 0x10, 0x00]),
    (0x6D3E, [0x00, 0x08, 0x20, 0x3C, 0x17, 0xC0, 0x14, 0x00, 0x84, 0x1C, 0x45, 0xE0, 0x45, 0x20, 0x15, 0x22, 0x15, 0x24, 0x25, 0x28, 0xE5, 0x10, 0x25, 0x10, 0x25, 0x08, 0x29, 0x44, 0x29, 0x82, 0x11, 0x00]),
    (0x7CFB, [0x00, 0xF8, 0x3F, 0x00, 0x04, 0x00, 0x08, 0x20, 0x10, 0x40, 0x3F, 0x80, 0x01, 0x00, 0x06, 0x10, 0x18, 0x08, 0x7F, 0xFC, 0x01, 0x04, 0x09, 0x20, 0x11, 0x10, 0x21, 0x08, 0x45, 0x04, 0x02, 0x00]),
    (0x7EDF, [0x10, 0x40, 0x10, 0x20, 0x20, 0x20, 0x23, 0xFE, 0x48, 0x40, 0xF8, 0x88, 0x11, 0x04, 0x23, 0xFE, 0x40, 0x92, 0xF8, 0x90, 0x40, 0x90, 0x00, 0x90, 0x19, 0x12, 0xE1, 0x12, 0x42, 0x0E, 0x04, 0x00]),
    (0x6B63, [0x00, 0x00, 0x7F, 0xFC, 0x01, 0x00, 0x01, 0x00, 0x01, 0x00, 0x01, 0x00, 0x11, 0x00, 0x11, 0xF8, 0x11, 0x00, 0x11, 0x00, 0x11, 0x00, 0x11, 0x00, 0x11, 0x00, 0x11, 0x00, 0xFF, 0xFE, 0x00, 0x00]),
    (0x5E38, [0x01, 0x00, 0x11, 0x10, 0x09, 0x20, 0x7F, 0xFE, 0x40, 0x02, 0x8F, 0xE4, 0x08, 0x20, 0x08, 0x20, 0x0F, 0xE0, 0x01, 0x00, 0x1F, 0xF0, 0x11, 0x10, 0x11, 0x10, 0x11, 0x50, 0x11, 0x20, 0x01, 0x00]),
    (0x8BBE, [0x00, 0x00, 0x21, 0xF0, 0x11, 0x10, 0x11, 0x10, 0x01, 0x10, 0x02, 0x0E, 0xF4, 0x00, 0x13, 0xF8, 0x11, 0x08, 0x11, 0x10, 0x10, 0x90, 0x14, 0xA0, 0x18, 0x40, 0x10, 0xA0, 0x03, 0x18, 0x0C, 0x06]),
    (0x5907, [0x04, 0x00, 0x04, 0x00, 0x0F, 0xF0, 0x18, 0x20, 0x64, 0x40, 0x03, 0x80, 0x1C, 0x70, 0xE0, 0x0E, 0x1F, 0xF0, 0x11, 0x10, 0x11, 0x10, 0x1F, 0xF0, 0x11, 0x10, 0x11, 0x10, 0x1F, 0xF0, 0x10, 0x10]),
    (0x6E29, [0x00, 0x00, 0x23, 0xF8, 0x12, 0x08, 0x12, 0x08, 0x83, 0xF8, 0x42, 0x08, 0x42, 0x08, 0x13, 0xF8, 0x10, 0x00, 0x27, 0xFC, 0xE4, 0xA4, 0x24, 0xA4, 0x24, 0xA4, 0x24, 0xA4, 0x2F, 0xFE, 0x00, 0x00]),
    (0x5EA6, [0x01, 0x00, 0x00, 0x80, 0x3F, 0xFE, 0x22, 0x20, 0x22, 0x20, 0x3F, 0xFC, 0x22, 0x20, 0x22, 0x20, 0x23, 0xE0, 0x20, 0x00, 0x2F, 0xF0, 0x24, 0x10, 0x42, 0x20, 0x41, 0xC0, 0x86, 0x30, 0x38, 0x0E]),
    (0x7F51, [0x00, 0x00, 0x7F, 0xFC, 0x40, 0x04, 0x40, 0x04, 0x42, 0x14, 0x52, 0x94, 0x4A, 0x54, 0x44, 0x24, 0x44, 0x24, 0x4A, 0x54, 0x4A, 0x54, 0x52, 0x94, 0x61, 0x04, 0x40, 0x04, 0x40, 0x14, 0x40, 0x08]),
    (0x7EDC, [0x10, 0x80, 0x10, 0x80, 0x20, 0xF8, 0x21, 0x08, 0x4B, 0x10, 0xFC, 0xA0, 0x10, 0x40, 0x20, 0xA0, 0x41, 0x18, 0xFA, 0x06, 0x45, 0xF8, 0x01, 0x08, 0x19, 0x08, 0xE1, 0x08, 0x41, 0xF8, 0x01, 0x08]),
    (0x8FD0, [0x00, 0x00, 0x23, 0xF8, 0x10, 0x00, 0x10, 0x00, 0x00, 0x00, 0x07, 0xFC, 0xF0, 0x40, 0x10, 0x80, 0x11, 0x10, 0x12, 0x08, 0x17, 0xFC, 0x12, 0x04, 0x10, 0x00, 0x28, 0x00, 0x47, 0xFE, 0x00, 0x00]),
    (0x884C, [0x08, 0x00, 0x09, 0xFC, 0x10, 0x00, 0x20, 0x00, 0x48, 0x00, 0x08, 0x00, 0x13, 0xFE, 0x30, 0x20, 0x50, 0x20, 0x90, 0x20, 0x10, 0x20, 0x10, 0x20, 0x10, 0x20, 0x10, 0x20, 0x10, 0xA0, 0x10, 0x40]),
    (0x8FDE, [0x00, 0x40, 0x20, 0x40, 0x17, 0xFE, 0x10, 0x80, 0x00, 0xA0, 0x01, 0x20, 0xF3, 0xFC, 0x10, 0x20, 0x10, 0x20, 0x10, 0x20, 0x17, 0xFE, 0x10, 0x20, 0x10, 0x20, 0x28, 0x20, 0x47, 0xFE, 0x00, 0x00]),
    (0x63A5, [0x10, 0x80, 0x10, 0x40, 0x13, 0xFC, 0x10, 0x00, 0xFD, 0x08, 0x10, 0x90, 0x17, 0xFE, 0x10, 0x40, 0x18, 0x40, 0x37, 0xFE, 0xD0, 0x88, 0x11, 0x08, 0x10, 0x90, 0x10, 0x60, 0x51, 0x98, 0x26, 0x04]),
    (0x6210, [0x00, 0x50, 0x00, 0x48, 0x00, 0x40, 0x3F, 0xFE, 0x20, 0x40, 0x20, 0x40, 0x20, 0x44, 0x3E, 0x44, 0x22, 0x44, 0x22, 0x28, 0x22, 0x28, 0x22, 0x12, 0x2A, 0x32, 0x44, 0x4A, 0x40, 0x86, 0x81, 0x02]),
    (0x529F, [0x00, 0x40, 0x00, 0x40, 0x00, 0x40, 0xFE, 0x40, 0x11, 0xFC, 0x10, 0x44, 0x10, 0x44, 0x10, 0x44, 0x10, 0x44, 0x10, 0x84, 0x10, 0x84, 0x1E, 0x84, 0xF1, 0x04, 0x41, 0x04, 0x02, 0x28, 0x04, 0x10]),
    (0x5931, [0x01, 0x00, 0x11, 0x00, 0x11, 0x00, 0x11, 0x00, 0x1F, 0xF8, 0x21, 0x00, 0x41, 0x00, 0x01, 0x00, 0xFF, 0xFE, 0x01, 0x00, 0x02, 0x80, 0x02, 0x80, 0x04, 0x40, 0x08, 0x20, 0x10, 0x10, 0x60, 0x0C]),
    (0x8D25, [0x00, 0x40, 0x7C, 0x40, 0x44, 0x40, 0x54, 0x80, 0x54, 0xFE, 0x55, 0x08, 0x56, 0x88, 0x54, 0x88, 0x54, 0x88, 0x54, 0x50, 0x54, 0x50, 0x10, 0x20, 0x28, 0x50, 0x24, 0x88, 0x45, 0x04, 0x82, 0x02]),
    (0x7535, [0x01, 0x00, 0x01, 0x00, 0x01, 0x00, 0x3F, 0xF8, 0x21, 0x08, 0x21, 0x08, 0x21, 0x08, 0x3F, 0xF8, 0x21, 0x08, 0x21, 0x08, 0x21, 0x08, 0x3F, 0xF8, 0x21, 0x0A, 0x01, 0x02, 0x01, 0x02, 0x00, 0xFE]),
    (0x538B, [0x00, 0x00, 0x3F, 0xFE, 0x20, 0x00, 0x20, 0x80, 0x20, 0x80, 0x20, 0x80, 0x20, 0x80, 0x2F, 0xFC, 0x20, 0x80, 0x20, 0x80, 0x20, 0x90, 0x20, 0x88, 0x20, 0x88, 0x40, 0x80, 0x5F, 0xFE, 0x80, 0x00]),
    (0x98CE, [0x00, 0x00, 0x3F, 0xF0, 0x20, 0x10, 0x20, 0x10, 0x28, 0x50, 0x24, 0x50, 0x22, 0x90, 0x22, 0x90, 0x21, 0x10, 0x21, 0x10, 0x22, 0x90, 0x22, 0x92, 0x24, 0x4A, 0x48, 0x4A, 0x40, 0x06, 0x80, 0x02]),
    (0x6247, [0x02, 0x00, 0x01, 0x00, 0x3F, 0xFC, 0x20, 0x04, 0x20, 0x04, 0x3F, 0xFC, 0x20, 0x00, 0x20, 0x00, 0x3F, 0x7C, 0x21, 0x04, 0x29, 0x24, 0x25, 0x14, 0x49, 0x24, 0x51, 0x44, 0x85, 0x14, 0x02, 0x08]),
    (0x79BB, [0x02, 0x00, 0x01, 0x00, 0xFF, 0xFE, 0x00, 0x00, 0x14, 0x50, 0x13, 0x90, 0x14, 0x50, 0x1F, 0xF0, 0x01, 0x00, 0x7F, 0xFC, 0x42, 0x04, 0x44, 0x44, 0x4F, 0xE4, 0x44, 0x24, 0x40, 0x14, 0x40, 0x08]),
    (0x7EBF, [0x10, 0x50, 0x10, 0x48, 0x20, 0x40, 0x24, 0x5C, 0x45, 0xE0, 0xF8, 0x40, 0x10, 0x5E, 0x23, 0xE0, 0x40, 0x44, 0xFC, 0x48, 0x40, 0x30, 0x00, 0x22, 0x1C, 0x52, 0xE0, 0x8A, 0x43, 0x06, 0x00, 0x02]),
    (0x5728, [0x02, 0x00, 0x02, 0x00, 0x04, 0x00, 0xFF, 0xFE, 0x08, 0x00, 0x08, 0x40, 0x10, 0x40, 0x30, 0x40, 0x57, 0xFC, 0x90, 0x40, 0x10, 0x40, 0x10, 0x40, 0x10, 0x40, 0x10, 0x40, 0x1F, 0xFE, 0x10, 0x00]),
    (0x6545, [0x10, 0x40, 0x10, 0x40, 0x10, 0x40, 0x10, 0x80, 0xFE, 0xFE, 0x11, 0x08, 0x12, 0x88, 0x10, 0x88, 0x7C, 0x88, 0x44, 0x50, 0x44, 0x50, 0x44, 0x20, 0x44, 0x50, 0x7C, 0x88, 0x45, 0x04, 0x02, 0x02]),
    (0x969C, [0x00, 0x20, 0x7D, 0xFC, 0x44, 0x88, 0x48, 0x50, 0x4B, 0xFE, 0x50, 0x00, 0x49, 0xFC, 0x49, 0x04, 0x45, 0xFC, 0x45, 0x04, 0x45, 0xFC, 0x68, 0x20, 0x53, 0xFE, 0x40, 0x20, 0x40, 0x20, 0x40, 0x20]),
    (0x542F, [0x01, 0x00, 0x00, 0x80, 0x1F, 0xFC, 0x10, 0x04, 0x10, 0x04, 0x10, 0x04, 0x1F, 0xFC, 0x10, 0x00, 0x10, 0x00, 0x10, 0x00, 0x17, 0xFC, 0x24, 0x04, 0x24, 0x04, 0x44, 0x04, 0x87, 0xFC, 0x04, 0x04]),
    (0x52A8, [0x00, 0x40, 0x00, 0x40, 0x7C, 0x40, 0x00, 0x40, 0x01, 0xFC, 0x00, 0x44, 0xFE, 0x44, 0x20, 0x44, 0x20, 0x44, 0x20, 0x84, 0x48, 0x84, 0x44, 0x84, 0xFD, 0x04, 0x45, 0x04, 0x02, 0x28, 0x04, 0x10]),
    (0x5173, [0x10, 0x10, 0x08, 0x10, 0x08, 0x20, 0x00, 0x00, 0x3F, 0xF8, 0x01, 0x00, 0x01, 0x00, 0x01, 0x00, 0xFF, 0xFE, 0x01, 0x00, 0x02, 0x80, 0x02, 0x80, 0x04, 0x40, 0x08, 0x20, 0x30, 0x18, 0xC0, 0x06]),
    (0x95ED, [0x20, 0x00, 0x17, 0xFC, 0x00, 0x04, 0x40, 0x84, 0x40, 0x84, 0x5F, 0xF4, 0x40, 0x84, 0x41, 0x84, 0x42, 0x84, 0x44, 0x84, 0x48, 0x84, 0x50, 0x84, 0x42, 0x84, 0x41, 0x04, 0x40, 0x14, 0x40, 0x08]),
    (0x4E32, [0x01, 0x00, 0x01, 0x00, 0x3F, 0xF8, 0x21, 0x08, 0x21, 0x08, 0x3F, 0xF8, 0x01, 0x00, 0x01, 0x00, 0x7F, 0xFC, 0x41, 0x04, 0x41, 0x04, 0x7F, 0xFC, 0x41, 0x04, 0x01, 0x00, 0x01, 0x00, 0x01, 0x00]),
    (0x53E3, [0x00, 0x00, 0x00, 0x00, 0x3F, 0xF8, 0x20, 0x08, 0x20, 0x08, 0x20, 0x08, 0x20, 0x08, 0x20, 0x08, 0x20, 0x08, 0x20, 0x08, 0x20, 0x08, 0x20, 0x08, 0x20, 0x08, 0x3F, 0xF8, 0x20, 0x08, 0x00, 0x00]),
    (0x4F20, [0x08, 0x40, 0x08, 0x40, 0x08, 0x40, 0x13, 0xF8, 0x10, 0x40, 0x30, 0x80, 0x37, 0xFE, 0x50, 0x80, 0x91, 0x00, 0x13, 0xF8, 0x10, 0x08, 0x11, 0x10, 0x10, 0xA0, 0x10, 0x40, 0x10, 0x20, 0x10, 0x20]),
    (0x611F, [0x00, 0x28, 0x00, 0x24, 0x3F, 0xFE, 0x20, 0x20, 0x2F, 0xA4, 0x20, 0x24, 0x2F, 0xA8, 0x28, 0x98, 0x28, 0x92, 0x4F, 0xAA, 0x40, 0x46, 0x80, 0x82, 0x01, 0x00, 0x48, 0x84, 0x48, 0x12, 0x87, 0xF2]),
    (0x5668, [0x00, 0x00, 0x3E, 0x7C, 0x22, 0x44, 0x22, 0x44, 0x3E, 0x7C, 0x01, 0x20, 0x01, 0x10, 0xFF, 0xFE, 0x02, 0x80, 0x0C, 0x60, 0x30, 0x18, 0xC0, 0x06, 0x3E, 0x7C, 0x22, 0x44, 0x22, 0x44, 0x3E, 0x7C])]"

definition oled_font_ascii8x16 :: "byte \<Rightarrow> byte list" where
  "oled_font_ascii8x16 ch =
     (let ch' = (if ch < 32 \<or> ch > 126 then 63 else ch) in ascii8x16 ! (unat ch' - 32))"

definition oled_font_zh16 :: "uint32 \<Rightarrow> byte list option" where
  "oled_font_zh16 codepoint = map_option snd (find (\<lambda>g. fst g = codepoint) zh16)"

lemma ascii8x16_shape: "length ascii8x16 = 95" "list_all (\<lambda>g. length g = 16) ascii8x16"
  by (simp_all add: ascii8x16_def)

lemma zh16_shape: "list_all (\<lambda>g. length (snd g) = 32 \<and> 0x80 \<le> fst g) zh16" "distinct (map fst zh16)"
  by (simp_all add: zh16_def)

lemma oled_font_ascii8x16_rows: "length (oled_font_ascii8x16 ch) = 16"
proof -
  define ch' where "ch' = (if ch < 32 \<or> ch > 126 then 63 else ch)"
  have "32 \<le> ch' \<and> ch' \<le> 126" by (auto simp: ch'_def)
  then have "32 \<le> unat ch' \<and> unat ch' \<le> 126" by (simp add: word_le_nat_alt)
  then have "unat ch' - 32 < 95" by linarith
  with ascii8x16_shape show ?thesis
    by (simp add: oled_font_ascii8x16_def ch'_def [symmetric] list_all_length)
qed

lemma oled_font_zh16_rows: "oled_font_zh16 cp = Some g \<Longrightarrow> length g = 32"
proof -
  assume "oled_font_zh16 cp = Some g"
  then obtain k where "find (\<lambda>g. fst g = cp) zh16 = Some (k, g)" by (auto simp: oled_font_zh16_def)
  then have "(k, g) \<in> set zh16" by (auto simp: find_Some_iff)
  with zh16_shape(1) show ?thesis by (auto simp: list_all_iff)
qed

end
