(* ===== verification/Oled.thy ===== *)
theory Oled
  imports I2c_Bus Oled_Font
begin

text \<open>
  The SSD1306 display, \<^verbatim>\<open>src/oled.c\<close>.  The display's pointer to its bus is \<open>attached\<close> (it is the bus of the
  same device context, passed as an argument) or NULL.  A text is the bytes of a C string, without NUL;
  \<open>at s i\<close> is \<^verbatim>\<open>s[i]\<close>, 0 at the terminating NUL.
\<close>

section \<open>Data\<close>

abbreviation (input) OLED_WIDTH :: int where "OLED_WIDTH \<equiv> 128"
abbreviation (input) OLED_HEIGHT :: int where "OLED_HEIGHT \<equiv> 64"
abbreviation (input) OLED_BUFFER_SIZE :: nat where "OLED_BUFFER_SIZE \<equiv> 1024"

record Oled =
  attached :: bool
  buffer :: "byte list"

section \<open>The bus\<close>

text \<open>The packet loop: a control byte and at most \<open>n\<close> bytes of what is left.\<close>

function oled_packets ::
  "('w, 'x) sysio_scheme \<Rightarrow> I2cBus \<Rightarrow> byte \<Rightarrow> nat \<Rightarrow> byte list \<Rightarrow> 'w \<Rightarrow> ((int + nat) \<times> 'w) option" where
  "oled_packets K bus ctl n bs w =
     (if bs = [] \<or> n = 0 then Some (Inr 0, w)
      else case i2c_bus_write K bus (ctl # take n bs) w of
        None \<Rightarrow> None
      | Some (Inl e, w') \<Rightarrow> Some (Inl e, w')
      | Some (Inr _, w') \<Rightarrow> oled_packets K bus ctl n (drop n bs) w')"
  by pat_completeness auto
termination
  by (relation "measure (\<lambda>(K, bus, ctl, n, bs, w). length bs)") auto

declare oled_packets.simps [simp del]

definition oled_write_commands ::
  "('w, 'x) sysio_scheme \<Rightarrow> I2cBus \<Rightarrow> Oled \<Rightarrow> byte list \<Rightarrow> 'w \<Rightarrow> ((int + nat) \<times> 'w) option" where
  "oled_write_commands K bus d commands w =
     (if \<not> attached d then Some (Inl EINVAL, w) else oled_packets K bus 0x00 32 commands w)"

definition oled_write_data ::
  "('w, 'x) sysio_scheme \<Rightarrow> I2cBus \<Rightarrow> Oled \<Rightarrow> byte list \<Rightarrow> 'w \<Rightarrow> ((int + nat) \<times> 'w) option" where
  "oled_write_data K bus d bs w =
     (if \<not> attached d then Some (Inl EINVAL, w) else oled_packets K bus 0x40 16 bs w)"

section \<open>Pixels\<close>

definition oled_clear :: "Oled \<Rightarrow> Oled" where
  "oled_clear d = d\<lparr>buffer := replicate OLED_BUFFER_SIZE 0\<rparr>"

definition oled_fill :: "Oled \<Rightarrow> byte \<Rightarrow> Oled" where
  "oled_fill d v = d\<lparr>buffer := replicate OLED_BUFFER_SIZE v\<rparr>"

definition oled_set_pixel :: "int \<Rightarrow> int \<Rightarrow> bool \<Rightarrow> Oled \<Rightarrow> Oled" where
  "oled_set_pixel x y on d =
     (if x < 0 \<or> x \<ge> OLED_WIDTH \<or> y < 0 \<or> y \<ge> OLED_HEIGHT then d
      else let index = nat x + nat y div 8 * 128;
               mask = push_bit (nat y mod 8) 1
           in d\<lparr>buffer := (buffer d)[index := (if on then buffer d ! index OR mask else buffer d ! index AND NOT mask)]\<rparr>)"

text \<open>The nested loops over the rows and columns of a glyph.\<close>

definition draw_cells :: "nat \<Rightarrow> int \<Rightarrow> int \<Rightarrow> (nat \<Rightarrow> nat \<Rightarrow> bool) \<Rightarrow> Oled \<Rightarrow> Oled" where
  "draw_cells width x y on d =
     fold (\<lambda>row. fold (\<lambda>col. oled_set_pixel (x + int col) (y + int row) (on row col)) [0..<width]) [0..<16] d"

definition oled_draw_missing_zh16 :: "int \<Rightarrow> int \<Rightarrow> Oled \<Rightarrow> Oled" where
  "oled_draw_missing_zh16 x y =
     draw_cells 16 x y (\<lambda>row col. (row = 0 \<or> row = 15 \<or> col = 0 \<or> col = 15) \<or> (row = col \<or> row + col = 15))"

definition oled_draw_ascii16 :: "int \<Rightarrow> int \<Rightarrow> byte \<Rightarrow> Oled \<Rightarrow> Oled" where
  "oled_draw_ascii16 x y ch =
     (let glyph = oled_font_ascii8x16 ch
      in draw_cells 8 x y (\<lambda>row col. glyph ! row AND drop_bit col 0x80 \<noteq> 0))"

definition oled_draw_zh16 :: "int \<Rightarrow> int \<Rightarrow> uint32 \<Rightarrow> Oled \<Rightarrow> Oled" where
  "oled_draw_zh16 x y codepoint =
     (case oled_font_zh16 codepoint of
        None \<Rightarrow> oled_draw_missing_zh16 x y
      | Some glyph \<Rightarrow> draw_cells 16 x y (\<lambda>row col.
          let bits = push_bit 8 (ucast (glyph ! (row * 2))) OR ucast (glyph ! (row * 2 + 1)) :: 16 word
          in bits AND drop_bit col 0x8000 \<noteq> 0))"

section \<open>UTF-8\<close>

definition at :: "byte list \<Rightarrow> nat \<Rightarrow> byte" where
  "at s i = (if i < length s then s ! i else 0)"

text \<open>\<open>Inr None\<close>: the end of the text; \<open>Inr (Some (cp, rest))\<close>: a code point and the text after it.\<close>

definition utf8_next :: "byte list \<Rightarrow> int + (uint32 \<times> byte list) option" where
  "utf8_next s =
     (if at s 0 = 0 then Inr None
      else if at s 0 < 0x80 then Inr (Some (ucast (at s 0), drop 1 s))
      else if at s 0 AND 0xE0 = 0xC0 then
        (if at s 1 = 0 \<or> at s 1 AND 0xC0 \<noteq> 0x80 then Inl EILSEQ
         else let cp = push_bit 6 (ucast (at s 0 AND 0x1F)) OR ucast (at s 1 AND 0x3F)
              in if cp < 0x80 then Inl EILSEQ else Inr (Some (cp, drop 2 s)))
      else if at s 0 AND 0xF0 = 0xE0 then
        (if at s 1 = 0 \<or> at s 2 = 0 \<or> at s 1 AND 0xC0 \<noteq> 0x80 \<or> at s 2 AND 0xC0 \<noteq> 0x80 then Inl EILSEQ
         else let cp = push_bit 12 (ucast (at s 0 AND 0x0F)) OR push_bit 6 (ucast (at s 1 AND 0x3F))
                         OR ucast (at s 2 AND 0x3F)
              in if cp < 0x800 \<or> (cp \<ge> 0xD800 \<and> cp \<le> 0xDFFF) then Inl EILSEQ else Inr (Some (cp, drop 3 s)))
      else if at s 0 AND 0xF8 = 0xF0 then
        (if at s 1 = 0 \<or> at s 2 = 0 \<or> at s 3 = 0 \<or> at s 1 AND 0xC0 \<noteq> 0x80 \<or> at s 2 AND 0xC0 \<noteq> 0x80
            \<or> at s 3 AND 0xC0 \<noteq> 0x80 then Inl EILSEQ
         else let cp = push_bit 18 (ucast (at s 0 AND 0x07)) OR push_bit 12 (ucast (at s 1 AND 0x3F))
                         OR push_bit 6 (ucast (at s 2 AND 0x3F)) OR ucast (at s 3 AND 0x3F)
              in if cp < 0x10000 \<or> cp > 0x10FFFF then Inl EILSEQ else Inr (Some (cp, drop 4 s)))
      else Inl EILSEQ)"

lemma utf8_next_shorter: "utf8_next s = Inr (Some (cp, rest)) \<Longrightarrow> length rest < length s"
  by (cases s) (auto simp: utf8_next_def at_def Let_def split: if_splits)

section \<open>Text and display\<close>

function text_cells :: "int \<Rightarrow> int \<Rightarrow> int \<Rightarrow> byte list \<Rightarrow> Oled \<Rightarrow> (int + nat) \<times> Oled" where
  "text_cells x cursor_x cursor_y s d =
     (case utf8_next s of
        Inl e \<Rightarrow> (Inl e, d)
      | Inr None \<Rightarrow> (Inr 0, d)
      | Inr (Some (codepoint, rest)) \<Rightarrow>
          if codepoint = 10 then text_cells x x (cursor_y + 16) rest d
          else let width = (if codepoint < 0x80 then 8 else 16 :: int);
                   (cx, cy) = (if cursor_x + width > OLED_WIDTH then (x, cursor_y + 16) else (cursor_x, cursor_y))
               in if cy + 16 > OLED_HEIGHT then (Inr 0, d)
                  else text_cells x (cx + width) cy rest
                         (if codepoint < 0x80 then oled_draw_ascii16 cx cy (ucast codepoint) d
                          else oled_draw_zh16 cx cy codepoint d))"
  by pat_completeness auto
termination
  by (relation "measure (\<lambda>(x, cx, cy, s, d). length s)") (auto dest: utf8_next_shorter)

declare text_cells.simps [simp del]

definition oled_draw_text_utf8 :: "int \<Rightarrow> int \<Rightarrow> byte list option \<Rightarrow> Oled \<Rightarrow> (int + nat) \<times> Oled" where
  "oled_draw_text_utf8 x y s d =
     (if s = None \<or> x < 0 \<or> x \<ge> OLED_WIDTH \<or> y < 0 \<or> y \<ge> OLED_HEIGHT then (Inl EINVAL, d)
      else text_cells x x y (the s) d)"

definition oled_refresh :: "('w, 'x) sysio_scheme \<Rightarrow> I2cBus \<Rightarrow> Oled \<Rightarrow> 'w \<Rightarrow> ((int + nat) \<times> 'w) option" where
  "oled_refresh K bus d w =
     (if \<not> attached d then Some (Inl EINVAL, w)
      else do {
        (r, w') \<leftarrow> oled_write_commands K bus d [0x21, 0x00, 0x7F, 0x22, 0x00, 0x07] w;
        case r of Inl e \<Rightarrow> Some (Inl e, w') | Inr _ \<Rightarrow> oled_write_data K bus d (buffer d) w' })"

definition oled_init_commands :: "byte list" where
  "oled_init_commands = [0xAE, 0xD5, 0x80, 0xA8, 0x3F, 0xD3, 0x00, 0x40, 0x8D, 0x14, 0x20, 0x00, 0xA1, 0xC8,
     0xDA, 0x12, 0x81, 0x7F, 0xD9, 0xF1, 0xDB, 0x40, 0xA4, 0xA6, 0x2E, 0xAF]"

definition oled_init :: "('w, 'x) sysio_scheme \<Rightarrow> I2cBus \<Rightarrow> Oled \<Rightarrow> 'w \<Rightarrow> (((int + nat) \<times> Oled) \<times> 'w) option" where
  "oled_init K bus d w =
     (if bus_fd bus < 0 then Some ((Inl EINVAL, d), w)
      else let d' = d\<lparr>attached := True, buffer := replicate OLED_BUFFER_SIZE 0\<rparr>
           in do {
             (r, w1) \<leftarrow> oled_write_commands K bus d' oled_init_commands w;
             case r of
               Inl e \<Rightarrow> Some ((Inl e, d'), w1)
             | Inr _ \<Rightarrow> do { (r2, w2) \<leftarrow> oled_refresh K bus d' w1; Some ((r2, d'), w2) } })"

definition oled_display_on :: "('w, 'x) sysio_scheme \<Rightarrow> I2cBus \<Rightarrow> Oled \<Rightarrow> 'w \<Rightarrow> ((int + nat) \<times> 'w) option" where
  "oled_display_on K bus d w = oled_write_commands K bus d [0xAF] w"

definition oled_display_off :: "('w, 'x) sysio_scheme \<Rightarrow> I2cBus \<Rightarrow> Oled \<Rightarrow> 'w \<Rightarrow> ((int + nat) \<times> 'w) option" where
  "oled_display_off K bus d w = oled_write_commands K bus d [0xAE] w"

section \<open>The buffer as a picture\<close>

definition pixel :: "Oled \<Rightarrow> int \<times> int \<Rightarrow> bool" where
  "pixel d = (\<lambda>(x, y). 0 \<le> x \<and> x < OLED_WIDTH \<and> 0 \<le> y \<and> y < OLED_HEIGHT
     \<and> bit (buffer d ! (nat x + nat y div 8 * 128)) (nat y mod 8))"

definition on_screen :: "int \<times> int \<Rightarrow> bool" where
  "on_screen = (\<lambda>(x, y). 0 \<le> x \<and> x < OLED_WIDTH \<and> 0 \<le> y \<and> y < OLED_HEIGHT)"

definition oled_ok :: "Oled \<Rightarrow> bool" where
  "oled_ok d \<longleftrightarrow> length (buffer d) = OLED_BUFFER_SIZE"

lemma oled_set_pixel_ok [simp]: "oled_ok (oled_set_pixel x y on d) = oled_ok d"
  by (simp add: oled_set_pixel_def oled_ok_def Let_def)

lemma oled_set_pixel_attached [simp]: "attached (oled_set_pixel x y on d) = attached d"
  by (simp add: oled_set_pixel_def Let_def)

lemma cell_index: "x < 128 \<Longrightarrow> y < 64 \<Longrightarrow> x + y div 8 * 128 < (1024 :: nat)"
  by (subgoal_tac "y div 8 < 8") auto

lemma cell_index_inject:
  assumes "x < 128" "x' < 128" "x + y div 8 * 128 = x' + y' div 8 * (128 :: nat)"
  shows "x = x' \<and> y div 8 = y' div 8"
proof -
  have "(x + y div 8 * 128) mod 128 = (x' + y' div 8 * 128) mod 128"
    and "(x + y div 8 * 128) div 128 = (x' + y' div 8 * 128) div 128" using assms(3) by simp_all
  then show ?thesis using assms(1,2) by simp
qed

lemma set_pixel_mask:
  fixes b :: byte
  assumes "k < 8" "j < 8"
  shows "bit (if on then b OR push_bit k 1 else b AND NOT (push_bit k 1)) j = (if j = k then on else bit b j)"
  using assms by (auto simp: bit_simps)

text \<open>Setting a pixel on the screen changes that pixel of the picture and no other.\<close>

lemma pixel_set:
  assumes "oled_ok d"
  shows "pixel (oled_set_pixel x y on d) = (if on_screen (x, y) then (pixel d)((x, y) := on) else pixel d)"
proof (cases "on_screen (x, y)")
  case True
  then have xy: "0 \<le> x" "x < 128" "0 \<le> y" "y < 64" by (auto simp: on_screen_def)
  let ?i = "nat x + nat y div 8 * 128"
  have i: "?i < length (buffer d)" using cell_index [of "nat x" "nat y"] xy assms by (simp add: oled_ok_def)
  have "pixel (oled_set_pixel x y on d) (a, b) = ((pixel d)((x, y) := on)) (a, b)" for a b
  proof (cases "on_screen (a, b)")
    case ab: True
    then have ab': "0 \<le> a" "a < 128" "0 \<le> b" "b < 64" by (auto simp: on_screen_def)
    have mask: "bit (if on then buffer d ! ?i OR push_bit (nat y mod 8) 1 else buffer d ! ?i AND NOT (push_bit (nat y mod 8) 1)) (nat b mod 8)
        = (if nat b mod 8 = nat y mod 8 then on else bit (buffer d ! ?i) (nat b mod 8))"
      by (rule set_pixel_mask) simp_all
    show ?thesis
    proof (cases "nat a + nat b div 8 * 128 = ?i")
      case True
      have "nat a < 128" "nat x < 128" using ab' xy by auto
      from cell_index_inject [OF this True] have "a = x" "nat b div 8 = nat y div 8" using ab' xy by auto
      moreover have "nat b mod 8 = nat y mod 8 \<longleftrightarrow> b = y"
        using \<open>nat b div 8 = nat y div 8\<close> ab' xy by (metis div_mult_mod_eq eq_nat_nat_iff)
      ultimately show ?thesis
        using True mask i xy ab' by (auto simp: pixel_def oled_set_pixel_def Let_def)
    next
      case False
      then have "(a, b) \<noteq> (x, y)" by auto
      with False show ?thesis using xy ab' by (auto simp: pixel_def oled_set_pixel_def Let_def)
    qed
  next
    case False
    then have "(a, b) \<noteq> (x, y)" using True by auto
    with False show ?thesis by (auto simp: pixel_def on_screen_def)
  qed
  with True show ?thesis by auto
next
  case False
  then show ?thesis by (auto simp: on_screen_def oled_set_pixel_def)
qed

text \<open>Drawing a cell paints its pixels, clipped to the screen.\<close>

lemma fold_ok: "(\<And>i d. oled_ok (f i d) = oled_ok d) \<Longrightarrow> oled_ok (fold f xs d) = oled_ok d"
  by (induction xs arbitrary: d) auto

lemma fold_attached: "(\<And>i d. attached (f i d) = attached d) \<Longrightarrow> attached (fold f xs d) = attached d"
  by (induction xs arbitrary: d) auto

lemma draw_cells_ok [simp]: "oled_ok (draw_cells n x y on d) = oled_ok d" "attached (draw_cells n x y on d) = attached d"
  by (simp_all add: draw_cells_def fold_ok fold_attached)

lemma draw_row:
  assumes "oled_ok d"
  shows "pixel (fold (\<lambda>col. oled_set_pixel (x + int col) yy (on col)) [0..<n] d) (a, b)
    = (if on_screen (a, b) \<and> b = yy \<and> x \<le> a \<and> a < x + int n then on (nat (a - x)) else pixel d (a, b))"
proof (induction n)
  case (Suc n)
  let ?d = "fold (\<lambda>col. oled_set_pixel (x + int col) yy (on col)) [0..<n] d"
  have ok: "oled_ok ?d" using assms by (simp add: fold_ok)
  show ?case
    using Suc pixel_set [OF ok, of "x + int n" yy "on n"] by auto
qed auto

lemma draw_rows:
  assumes "oled_ok d"
  shows "pixel (fold (\<lambda>row. fold (\<lambda>col. oled_set_pixel (x + int col) (y + int row) (on row col)) [0..<n]) [0..<m] d) (a, b)
    = (if on_screen (a, b) \<and> x \<le> a \<and> a < x + int n \<and> y \<le> b \<and> b < y + int m
       then on (nat (b - y)) (nat (a - x)) else pixel d (a, b))"
proof (induction m)
  case (Suc m)
  let ?d = "fold (\<lambda>row. fold (\<lambda>col. oled_set_pixel (x + int col) (y + int row) (on row col)) [0..<n]) [0..<m] d"
  have ok: "oled_ok ?d" using assms by (simp add: fold_ok)
  show ?case
    using Suc draw_row [OF ok, of x "y + int m" "on m" n a b] by auto
qed auto

lemma draw_cells_pixel:
  assumes "oled_ok d"
  shows "pixel (draw_cells n x y on d) (a, b)
    = (if on_screen (a, b) \<and> x \<le> a \<and> a < x + int n \<and> y \<le> b \<and> b < y + 16
       then on (nat (b - y)) (nat (a - x)) else pixel d (a, b))"
  using draw_rows [OF assms, of x y on n 16 a b] by (simp add: draw_cells_def)

section \<open>UTF-8 by arithmetic\<close>

lemma unat_take_bits: "unat (b AND mask k) = unat (b :: byte) mod 2 ^ k"
proof -
  have "unat (b AND mask k) = take_bit k (unat b)" by (simp only: take_bit_eq_mask [symmetric] unsigned_take_bit_eq)
  then show ?thesis by (simp only: take_bit_eq_mod)
qed

lemma unat_high_bits: "unat (b AND NOT (mask k)) = unat (b :: byte) div 2 ^ k * 2 ^ k"
proof -
  have "(b AND mask k) AND (b AND NOT (mask k)) = 0" by (rule bit_eqI) (auto simp: bit_simps)
  then have "(b AND mask k) + (b AND NOT (mask k)) = (b AND mask k) OR (b AND NOT (mask k))"
    by (rule disjunctive_add_eq_or)
  also have "\<dots> = b" by (rule bit_eqI) (auto simp: bit_simps)
  finally have "b - (b AND mask k) = b AND NOT (mask k)" by (simp add: diff_eq_eq add.commute)
  moreover have "b AND mask k \<le> b" by (rule word_and_le2)
  ultimately have "unat (b AND NOT (mask k)) = unat b - unat b mod 2 ^ k"
    by (metis unat_sub unat_take_bits)
  then show ?thesis by (simp add: minus_mod_eq_div_mult)
qed

lemma utf8_masks: "(0xE0 :: byte) = NOT (mask 5)" "(0xF0 :: byte) = NOT (mask 4)" "(0xF8 :: byte) = NOT (mask 3)"
  "(0xC0 :: byte) = NOT (mask 6)" "(0x1F :: byte) = mask 5" "(0x3F :: byte) = mask 6" "(0x0F :: byte) = mask 4"
  "(0x07 :: byte) = mask 3"
  by (simp_all add: mask_eq_exp_minus_1)

lemma utf8_payloads:
  fixes b :: byte
  shows "unat (b AND 0x1F) = unat b mod 32" "unat (b AND 0x3F) = unat b mod 64"
    "unat (b AND 0x0F) = unat b mod 16" "unat (b AND 0x07) = unat b mod 8"
  unfolding utf8_masks(5-8) unat_take_bits by simp_all

lemma block_iff:
  assumes "0 < (k :: nat)"
  shows "n div k * k = q * k \<longleftrightarrow> q * k \<le> n \<and> n < Suc q * k"
proof -
  have "n div k * k = q * k \<longleftrightarrow> q \<le> n div k \<and> n div k < Suc q" using assms by auto
  then show ?thesis using assms by (simp only: less_eq_div_iff_mult_less_eq div_less_iff_less_mult)
qed

lemma utf8_classes:
  fixes b :: byte
  shows "b AND 0xE0 = 0xC0 \<longleftrightarrow> 192 \<le> unat b \<and> unat b < 224" "b AND 0xF0 = 0xE0 \<longleftrightarrow> 224 \<le> unat b \<and> unat b < 240"
    "b AND 0xF8 = 0xF0 \<longleftrightarrow> 240 \<le> unat b \<and> unat b < 248" "b AND 0xC0 = 0x80 \<longleftrightarrow> 128 \<le> unat b \<and> unat b < 192"
proof -
  have blocks: "n div 32 * 32 = 192 \<longleftrightarrow> 192 \<le> n \<and> n < 224" "n div 16 * 16 = 224 \<longleftrightarrow> 224 \<le> n \<and> n < 240"
      "n div 8 * 8 = 240 \<longleftrightarrow> 240 \<le> n \<and> n < 248" "n div 64 * 64 = 128 \<longleftrightarrow> 128 \<le> n \<and> n < 192" for n :: nat
    using block_iff [of 32 n 6] block_iff [of 16 n 14] block_iff [of 8 n 30] block_iff [of 64 n 2] by simp_all
  have "unat (b AND 0xE0) = unat b div 32 * 32" "unat (b AND 0xF0) = unat b div 16 * 16"
      "unat (b AND 0xF8) = unat b div 8 * 8" "unat (b AND 0xC0) = unat b div 64 * 64"
    unfolding utf8_masks(1-4) unat_high_bits by simp_all
  then have "b AND 0xE0 = 0xC0 \<longleftrightarrow> unat b div 32 * 32 = 192" "b AND 0xF0 = 0xE0 \<longleftrightarrow> unat b div 16 * 16 = 224"
      "b AND 0xF8 = 0xF0 \<longleftrightarrow> unat b div 8 * 8 = 240" "b AND 0xC0 = 0x80 \<longleftrightarrow> unat b div 64 * 64 = 128"
    by (simp_all add: word_unat_eq_iff)
  then show "b AND 0xE0 = 0xC0 \<longleftrightarrow> 192 \<le> unat b \<and> unat b < 224" "b AND 0xF0 = 0xE0 \<longleftrightarrow> 224 \<le> unat b \<and> unat b < 240"
    "b AND 0xF8 = 0xF0 \<longleftrightarrow> 240 \<le> unat b \<and> unat b < 248" "b AND 0xC0 = 0x80 \<longleftrightarrow> 128 \<le> unat b \<and> unat b < 192"
    using blocks by blast+
qed

text \<open>Placing a value above \<open>k\<close> low bits is multiplication and addition.\<close>

lemma len32: "LENGTH(32) = 32"
  by simp

lemma place_bits:
  fixes a b :: uint32
  assumes "unat b < 2 ^ k" "unat a * 2 ^ k + unat b < 2 ^ 32"
  shows "unat (push_bit k a OR b) = unat a * 2 ^ k + unat b"
proof -
  have "\<not> bit b n" if "k \<le> n" for n
  proof -
    have "unat b < 2 ^ n" using assms(1) that by (meson less_le_trans one_le_numeral power_increasing)
    then have "\<not> bit (unat b) n" by (simp add: bit_iff_odd)
    then show ?thesis by (simp add: bit_unsigned_iff)
  qed
  then have "push_bit k a AND b = 0" by (intro bit_eqI) (auto simp: bit_simps)
  then have "push_bit k a OR b = push_bit k a + b" by (metis disjunctive_add_eq_or)
  moreover have "unat (push_bit k a) = unat a * 2 ^ k"
  proof -
    have "unat (push_bit k a) = take_bit 32 (push_bit k (unat a))" by (simp only: unsigned_push_bit_eq len32)
    also have "\<dots> = push_bit k (unat a)"
      using assms(2) by (intro take_bit_nat_eq_self) (simp add: push_bit_eq_mult)
    finally show ?thesis by (simp add: push_bit_eq_mult)
  qed
  ultimately show ?thesis using assms(2) by (simp add: unat_word_ariths)
qed

section \<open>UTF-8 decoding is exact\<close>

definition scalar :: "nat \<Rightarrow> bool" where
  "scalar n \<longleftrightarrow> 0 < n \<and> n \<le> 0x10FFFF \<and> \<not> (0xD800 \<le> n \<and> n \<le> 0xDFFF)"

definition utf8_encode :: "nat \<Rightarrow> byte list" where
  "utf8_encode n =
     (if n < 0x80 then [of_nat n]
      else if n < 0x800 then [of_nat (0xC0 + n div 64), of_nat (0x80 + n mod 64)]
      else if n < 0x10000 then [of_nat (0xE0 + n div 4096), of_nat (0x80 + n div 64 mod 64), of_nat (0x80 + n mod 64)]
      else [of_nat (0xF0 + n div 262144), of_nat (0x80 + n div 4096 mod 64), of_nat (0x80 + n div 64 mod 64),
            of_nat (0x80 + n mod 64)])"

lemma unat_ucast_byte: "unat (ucast (b :: byte) :: uint32) = unat b"
  using unat_byte_less [of b] by (simp add: unsigned_ucast_eq take_bit_nat_eq_self)

lemma unat_of_small: "n < 256 \<Longrightarrow> unat (of_nat n :: byte) = n"
  by (simp add: unat_of_nat)

lemma continuation_bits: "128 \<le> n \<Longrightarrow> n < 192 \<Longrightarrow> n mod 64 = n - (128 :: nat)"
  by (simp add: mod_if)

lemma lead_bits:
  "192 \<le> n \<Longrightarrow> n < 224 \<Longrightarrow> n mod 32 = n - (192 :: nat)"
  "224 \<le> n \<Longrightarrow> n < 240 \<Longrightarrow> n mod 16 = n - (224 :: nat)"
  "240 \<le> n \<Longrightarrow> n < 248 \<Longrightarrow> n mod 8 = n - (240 :: nat)"
  by (simp_all add: mod_if)

lemma place_values:
  fixes a b :: uint32
  assumes "unat a = p" "unat b = q" "q < 2 ^ k" "p < 2 ^ j" "j + k \<le> 32"
  shows "unat (push_bit k a OR b) = p * 2 ^ k + q"
proof -
  have "Suc p * 2 ^ k \<le> 2 ^ j * 2 ^ k" using assms(4) by (intro mult_le_mono1) simp
  then have "p * 2 ^ k + q < 2 ^ (j + k)" using assms(3) by (simp add: power_add)
  also have "\<dots> \<le> 2 ^ 32" using assms(5) by (rule power_increasing) simp
  finally show ?thesis using place_bits [of b k a] assms(1-3) by simp
qed

lemma payload_values:
  fixes b :: byte
  shows "unat (ucast (b AND 0x1F) :: uint32) = unat b mod 32" "unat (ucast (b AND 0x3F) :: uint32) = unat b mod 64"
    "unat (ucast (b AND 0x0F) :: uint32) = unat b mod 16" "unat (ucast (b AND 0x07) :: uint32) = unat b mod 8"
  by (simp_all only: unat_ucast_byte utf8_payloads)

lemma below_power: "p < 64 \<Longrightarrow> q < 2 ^ k \<Longrightarrow> p * 2 ^ k + q < (2 ^ (k + 6) :: nat)"
proof -
  assume "p < 64" "q < 2 ^ k"
  then have "Suc p * 2 ^ k \<le> 64 * (2 ^ k :: nat)" by (intro mult_le_mono1) simp
  then have "p * 2 ^ k + 2 ^ k \<le> 64 * (2 ^ k :: nat)" by (simp only: mult_Suc add.commute)
  moreover have "2 ^ (k + 6) = 64 * (2 ^ k :: nat)" by (simp add: power_add)
  ultimately show ?thesis using \<open>q < 2 ^ k\<close> by linarith
qed

lemma codepoint2:
  fixes b0 b1 :: byte
  shows "unat (push_bit 6 (ucast (b0 AND 0x1F)) OR ucast (b1 AND 0x3F) :: uint32) = unat b0 mod 32 * 64 + unat b1 mod 64"
  using place_values [OF payload_values(1,2), where k = 6 and j = 5] by simp

lemma codepoint3:
  fixes b0 b1 b2 :: byte
  shows "unat (push_bit 12 (ucast (b0 AND 0x0F)) OR push_bit 6 (ucast (b1 AND 0x3F)) OR ucast (b2 AND 0x3F) :: uint32)
    = unat b0 mod 16 * 4096 + (unat b1 mod 64 * 64 + unat b2 mod 64)"
proof -
  have low: "unat (push_bit 6 (ucast (b1 AND 0x3F)) OR ucast (b2 AND 0x3F) :: uint32) = unat b1 mod 64 * 2 ^ 6 + unat b2 mod 64"
    by (rule place_values [OF payload_values(2,2), where j = 6]) simp_all
  show ?thesis
    using place_values [OF payload_values(3) low, where k = 12 and j = 4]
      below_power [of "unat b1 mod 64" "unat b2 mod 64" 6] by simp
qed

lemma codepoint4:
  fixes b0 b1 b2 b3 :: byte
  shows "unat (push_bit 18 (ucast (b0 AND 0x07)) OR push_bit 12 (ucast (b1 AND 0x3F)) OR push_bit 6 (ucast (b2 AND 0x3F))
      OR ucast (b3 AND 0x3F) :: uint32)
    = unat b0 mod 8 * 262144 + (unat b1 mod 64 * 4096 + (unat b2 mod 64 * 64 + unat b3 mod 64))"
proof -
  let ?low = "unat b2 mod 64 * 2 ^ 6 + unat b3 mod 64"
  have low: "unat (push_bit 6 (ucast (b2 AND 0x3F)) OR ucast (b3 AND 0x3F) :: uint32) = ?low"
    by (rule place_values [OF payload_values(2,2), where j = 6]) simp_all
  have l: "?low < 2 ^ 12" using below_power [of "unat b2 mod 64" "unat b3 mod 64" 6] by simp
  have mid: "unat (push_bit 12 (ucast (b1 AND 0x3F)) OR push_bit 6 (ucast (b2 AND 0x3F)) OR ucast (b3 AND 0x3F) :: uint32)
      = unat b1 mod 64 * 2 ^ 12 + ?low"
    by (rule place_values [OF payload_values(2) low l, where j = 6]) simp_all
  show ?thesis
    using place_values [OF payload_values(4) mid, where k = 18 and j = 3]
      below_power [of "unat b1 mod 64" ?low 12] l by simp
qed

text \<open>The decoder on a sequence of each length, over the numbers of its bytes.\<close>

abbreviation (input) cont :: "byte \<Rightarrow> bool" where "cont b \<equiv> 128 \<le> unat b \<and> unat b < 192"

lemma word_nat:
  fixes x y :: "'a :: len word"
  shows "x < y \<longleftrightarrow> unat x < unat y" "x \<le> y \<longleftrightarrow> unat x \<le> unat y"
  by (simp_all add: word_less_nat_alt word_le_nat_alt)

lemma of_unat: "unat x = n \<Longrightarrow> x = of_nat n"
  by auto

lemma at_simps [simp]:
  "at (b # s) 0 = b" "at (b # s) (Suc i) = at s i" "at [] i = 0"
  "at (b # s) (numeral k) = at s (pred_numeral k)"
  by (auto simp: at_def numeral_eq_Suc)

lemma not_zero_byte: "0 < unat b \<Longrightarrow> b \<noteq> 0"
  by auto

lemma utf8_next1: "0 < unat b0 \<Longrightarrow> unat b0 < 128 \<Longrightarrow> utf8_next (b0 # r) = Inr (Some (of_nat (unat b0), r))"
  using of_unat [OF unat_ucast_byte, of b0] not_zero_byte [of b0] by (simp add: utf8_next_def word_nat)

lemma utf8_next2:
  assumes "192 \<le> unat b0" "unat b0 < 224" "cont b1"
    and n: "n = (unat b0 - 192) * 64 + (unat b1 - 128)"
  shows "utf8_next (b0 # b1 # r) = (if n < 0x80 then Inl EILSEQ else Inr (Some (of_nat n, r)))"
proof -
  have "unat (push_bit 6 (ucast (b0 AND 0x1F)) OR ucast (b1 AND 0x3F) :: uint32) = n"
    using codepoint2 [of b0 b1] lead_bits(1) continuation_bits assms by simp
  then show ?thesis
    using assms(1-3) not_zero_byte [of b0] not_zero_byte [of b1] of_unat
    by (auto simp: utf8_next_def utf8_classes word_nat Let_def)
qed

lemma utf8_next3:
  assumes "224 \<le> unat b0" "unat b0 < 240" "cont b1" "cont b2"
    and n: "n = (unat b0 - 224) * 4096 + ((unat b1 - 128) * 64 + (unat b2 - 128))"
  shows "utf8_next (b0 # b1 # b2 # r)
    = (if n < 0x800 \<or> (0xD800 \<le> n \<and> n \<le> 0xDFFF) then Inl EILSEQ else Inr (Some (of_nat n, r)))"
proof -
  have "unat (push_bit 12 (ucast (b0 AND 0x0F)) OR push_bit 6 (ucast (b1 AND 0x3F)) OR ucast (b2 AND 0x3F) :: uint32) = n"
    using codepoint3 [of b0 b1 b2] lead_bits(2) continuation_bits assms by simp
  then show ?thesis
    using assms(1-4) not_zero_byte [of b0] not_zero_byte [of b1] not_zero_byte [of b2] of_unat
    by (auto simp: utf8_next_def utf8_classes word_nat Let_def)
qed

lemma utf8_next4:
  assumes "240 \<le> unat b0" "unat b0 < 248" "cont b1" "cont b2" "cont b3"
    and n: "n = (unat b0 - 240) * 262144 + ((unat b1 - 128) * 4096 + ((unat b2 - 128) * 64 + (unat b3 - 128)))"
  shows "utf8_next (b0 # b1 # b2 # b3 # r)
    = (if n < 0x10000 \<or> 0x10FFFF < n then Inl EILSEQ else Inr (Some (of_nat n, r)))"
proof -
  have "unat (push_bit 18 (ucast (b0 AND 0x07)) OR push_bit 12 (ucast (b1 AND 0x3F)) OR push_bit 6 (ucast (b2 AND 0x3F))
      OR ucast (b3 AND 0x3F) :: uint32) = n"
    using codepoint4 [of b0 b1 b2 b3] lead_bits(3) continuation_bits assms by simp
  then show ?thesis
    using assms(1-5) not_zero_byte [of b0] not_zero_byte [of b1] not_zero_byte [of b2] not_zero_byte [of b3] of_unat
    by (auto simp: utf8_next_def utf8_classes word_nat Let_def)
qed

text \<open>What is accepted has one of the four shapes.\<close>

lemma utf8_next_shape:
  assumes "utf8_next s = Inr (Some (cp, rest))"
  obtains b0 where "s = b0 # rest" "0 < unat b0" "unat b0 < 128"
  | b0 b1 where "s = b0 # b1 # rest" "192 \<le> unat b0" "unat b0 < 224" "cont b1"
  | b0 b1 b2 where "s = b0 # b1 # b2 # rest" "224 \<le> unat b0" "unat b0 < 240" "cont b1" "cont b2"
  | b0 b1 b2 b3 where "s = b0 # b1 # b2 # b3 # rest" "240 \<le> unat b0" "unat b0 < 248" "cont b1" "cont b2" "cont b3"
proof -
  obtain b0 s1 where s: "s = b0 # s1" using assms by (cases s) (auto simp: utf8_next_def)
  consider "0 < unat b0" "unat b0 < 128" "rest = s1"
    | "192 \<le> unat b0" "unat b0 < 224" "at s1 0 \<noteq> 0" "cont (at s1 0)" "rest = drop 1 s1"
    | "224 \<le> unat b0" "unat b0 < 240" "at s1 0 \<noteq> 0" "at s1 1 \<noteq> 0" "cont (at s1 0)" "cont (at s1 1)" "rest = drop 2 s1"
    | "240 \<le> unat b0" "unat b0 < 248" "at s1 0 \<noteq> 0" "at s1 1 \<noteq> 0" "at s1 2 \<noteq> 0" "cont (at s1 0)" "cont (at s1 1)"
      "cont (at s1 2)" "rest = drop 3 s1"
    using assms unfolding s
    by (auto simp: utf8_next_def utf8_classes word_nat Let_def unat_gt_0 split: if_split_asm)
  then show thesis
  proof cases
    case 1
    then show thesis using that(1) s by blast
  next
    case 2
    then obtain b1 s2 where "s1 = b1 # s2" by (cases s1) auto
    with 2 show thesis using that(2) s by simp
  next
    case 3
    then obtain b1 b2 s3 where "s1 = b1 # b2 # s3" by (cases s1; cases "tl s1") auto
    with 3 show thesis using that(3) s by simp
  next
    case 4
    then obtain b1 b2 b3 s4 where "s1 = b1 # b2 # b3 # s4"
      by (cases s1; cases "tl s1"; cases "tl (tl s1)") auto
    with 4 show thesis using that(4) s by simp
  qed
qed

text \<open>The digits to the base 64.\<close>

lemma digits2: "b < 64 \<Longrightarrow> n = a * 64 + b \<Longrightarrow> n div 64 = a \<and> n mod 64 = (b :: nat)"
  by simp

lemma digits3:
  assumes "b < 64" "c < (64 :: nat)" "n = a * 4096 + (b * 64 + c)"
  shows "n div 4096 = a \<and> n div 64 mod 64 = b \<and> n mod 64 = c"
proof -
  have 1: "n div 64 = a * 64 + b \<and> n mod 64 = c" using assms by (intro digits2) simp_all
  then have "n div 64 div 64 = a \<and> n div 64 mod 64 = b" using digits2 [OF assms(1)] by blast
  moreover have "n div 64 div 64 = n div 4096" by (simp flip: div_mult2_eq)
  ultimately show ?thesis using 1 by simp
qed

lemma digits4:
  assumes "b < 64" "c < 64" "d < (64 :: nat)" "n = a * 262144 + (b * 4096 + (c * 64 + d))"
  shows "n div 262144 = a \<and> n div 4096 mod 64 = b \<and> n div 64 mod 64 = c \<and> n mod 64 = d"
proof -
  have 1: "n div 64 = a * 4096 + (b * 64 + c) \<and> n mod 64 = d" using assms by (intro digits2) simp_all
  then have "n div 64 div 4096 = a \<and> n div 64 div 64 mod 64 = b \<and> n div 64 mod 64 = c"
    using digits3 [OF assms(1,2)] by blast
  moreover have "n div 64 div 64 = n div 4096" "n div 64 div 4096 = n div 262144" by (simp_all flip: div_mult2_eq)
  ultimately show ?thesis using 1 by simp
qed

lemma of_nat_byte: "k \<le> unat b \<Longrightarrow> of_nat (k + (unat b - k)) = (b :: byte)"
  by simp

lemma utf8_next_sound:
  assumes ok: "utf8_next s = Inr (Some (cp, rest))"
  shows "scalar (unat cp) \<and> s = utf8_encode (unat cp) @ rest"
  using ok
proof (cases rule: utf8_next_shape)
  case (1 b0)
  then have "cp = of_nat (unat b0)" using ok by (simp add: utf8_next1)
  then have "unat cp = unat b0" using 1 by (simp add: unat_ucast_byte)
  with 1 show ?thesis by (simp add: scalar_def utf8_encode_def)
next
  case (2 b0 b1)
  define n where "n = (unat b0 - 192) * 64 + (unat b1 - 128)"
  have n: "cp = of_nat n" "0x80 \<le> n" "n < 0x800"
    using ok utf8_next2 [OF 2(2-4) n_def] 2 by (auto split: if_splits simp: n_def)
  have "n div 64 = unat b0 - 192 \<and> n mod 64 = unat b1 - 128" using 2 by (intro digits2 n_def) linarith
  then have "utf8_encode n = [b0, b1]"
    using n(2,3) of_nat_byte [of 192 b0] of_nat_byte [of 128 b1] 2 by (simp only: utf8_encode_def) simp
  moreover have "unat cp = n" using n(1,3) by (simp add: unat_of_nat)
  ultimately show ?thesis using n 2 by (simp add: scalar_def)
next
  case (3 b0 b1 b2)
  define n where "n = (unat b0 - 224) * 4096 + ((unat b1 - 128) * 64 + (unat b2 - 128))"
  have n: "cp = of_nat n" "0x800 \<le> n" "\<not> (0xD800 \<le> n \<and> n \<le> 0xDFFF)" "n < 0x10000"
    using ok utf8_next3 [OF 3(2-5) n_def] 3 by (auto split: if_splits simp: n_def)
  have "n div 4096 = unat b0 - 224 \<and> n div 64 mod 64 = unat b1 - 128 \<and> n mod 64 = unat b2 - 128"
    using 3 by (intro digits3 n_def) linarith+
  then have "utf8_encode n = [b0, b1, b2]"
    using n(2,4) of_nat_byte [of 224 b0] of_nat_byte [of 128 b1] of_nat_byte [of 128 b2] 3 by (simp only: utf8_encode_def) simp
  moreover have "unat cp = n" using n(1,4) by (simp add: unat_of_nat)
  ultimately show ?thesis using n 3 by (simp add: scalar_def)
next
  case (4 b0 b1 b2 b3)
  define n where "n = (unat b0 - 240) * 262144 + ((unat b1 - 128) * 4096 + ((unat b2 - 128) * 64 + (unat b3 - 128)))"
  have n: "cp = of_nat n" "0x10000 \<le> n" "n \<le> 0x10FFFF"
    using ok utf8_next4 [OF 4(2-6) n_def] 4(1) by (auto split: if_splits)
  have "n div 262144 = unat b0 - 240 \<and> n div 4096 mod 64 = unat b1 - 128 \<and> n div 64 mod 64 = unat b2 - 128
      \<and> n mod 64 = unat b3 - 128"
    using 4 by (intro digits4 n_def) linarith+
  then have "utf8_encode n = [b0, b1, b2, b3]"
    using n(2) of_nat_byte [of 240 b0] of_nat_byte [of 128 b1] of_nat_byte [of 128 b2] of_nat_byte [of 128 b3] 4
    by (simp only: utf8_encode_def) simp
  moreover have "unat cp = n" using n(1,3) by (simp add: unat_of_nat)
  ultimately show ?thesis using n 4 by (simp add: scalar_def)
qed

lemma utf8_next_complete:
  assumes "scalar n"
  shows "utf8_next (utf8_encode n @ rest) = Inr (Some (of_nat n, rest))"
proof -
  note sc = assms [unfolded scalar_def]
  have small: "unat (of_nat (128 + m mod 64) :: byte) = 128 + m mod 64" for m
    using mod_less_divisor [of 64 m] by (intro unat_of_small) linarith
  consider "n < 0x80" | "0x80 \<le> n" "n < 0x800" | "0x800 \<le> n" "n < 0x10000" | "0x10000 \<le> n" by linarith
  then show ?thesis
  proof cases
    case 1
    then have "unat (of_nat n :: byte) = n" by (intro unat_of_small) simp
    then show ?thesis using utf8_next1 [of "of_nat n" rest] 1 sc by (simp add: utf8_encode_def)
  next
    case 2
    let ?b0 = "of_nat (0xC0 + n div 64) :: byte" and ?b1 = "of_nat (0x80 + n mod 64) :: byte"
    have b0: "unat ?b0 = 192 + n div 64" using 2 by (intro unat_of_small) simp
    have "n = (unat ?b0 - 192) * 64 + (unat ?b1 - 128)" unfolding b0 small by simp
    from utf8_next2 [OF _ _ _ this, of rest] 2 show ?thesis
      unfolding b0 small utf8_encode_def by simp
  next
    case 3
    let ?b0 = "of_nat (0xE0 + n div 4096) :: byte" and ?b1 = "of_nat (0x80 + n div 64 mod 64) :: byte"
      and ?b2 = "of_nat (0x80 + n mod 64) :: byte"
    have b0: "unat ?b0 = 224 + n div 4096" using 3 by (intro unat_of_small) simp
    have "n div 64 div 64 = n div 4096" by (simp flip: div_mult2_eq)
    then have "n = n div 4096 * 4096 + (n div 64 mod 64 * 64 + n mod 64)"
      using div_mult_mod_eq [of n 64] div_mult_mod_eq [of "n div 64" 64] by linarith
    then have "n = (unat ?b0 - 224) * 4096 + ((unat ?b1 - 128) * 64 + (unat ?b2 - 128))" unfolding b0 small by simp
    from utf8_next3 [OF _ _ _ _ this, of rest] 3 sc show ?thesis
      unfolding b0 small utf8_encode_def by simp
  next
    case 4
    let ?b0 = "of_nat (0xF0 + n div 262144) :: byte" and ?b1 = "of_nat (0x80 + n div 4096 mod 64) :: byte"
      and ?b2 = "of_nat (0x80 + n div 64 mod 64) :: byte" and ?b3 = "of_nat (0x80 + n mod 64) :: byte"
    have "n div 262144 < 5" using sc by (simp add: div_less_iff_less_mult)
    then have b0: "unat ?b0 = 240 + n div 262144" by (intro unat_of_small) simp
    have "n div 64 div 64 = n div 4096" "n div 4096 div 64 = n div 262144" by (simp_all flip: div_mult2_eq)
    then have "n = n div 262144 * 262144 + (n div 4096 mod 64 * 4096 + (n div 64 mod 64 * 64 + n mod 64))"
      using div_mult_mod_eq [of n 64] div_mult_mod_eq [of "n div 64" 64] div_mult_mod_eq [of "n div 4096" 64] by linarith
    then have "n = (unat ?b0 - 240) * 262144 + ((unat ?b1 - 128) * 4096 + ((unat ?b2 - 128) * 64 + (unat ?b3 - 128)))"
      unfolding b0 small by simp
    from utf8_next4 [OF _ _ _ _ _ this, of rest] 4 sc show ?thesis
      unfolding b0 small utf8_encode_def by simp
  qed
qed

section \<open>Drawing keeps the buffer\<close>

lemma oled_draw_ascii16_ok [simp]:
  "oled_ok (oled_draw_ascii16 x y ch d) = oled_ok d" "attached (oled_draw_ascii16 x y ch d) = attached d"
  by (simp_all add: oled_draw_ascii16_def Let_def)

lemma oled_draw_zh16_ok [simp]:
  "oled_ok (oled_draw_zh16 x y cp d) = oled_ok d" "attached (oled_draw_zh16 x y cp d) = attached d"
  by (simp_all add: oled_draw_zh16_def oled_draw_missing_zh16_def split: option.split)

lemma text_cells_step:
  assumes "utf8_next s = Inr (Some (cp, rest))"
  obtains "text_cells x cx cy s d = (Inr 0, d)"
  | cx' cy' where "text_cells x cx cy s d = text_cells x cx' cy' rest d"
  | cx0 cx' cy' where "text_cells x cx cy s d = text_cells x cx' cy' rest (oled_draw_ascii16 cx0 cy' (ucast cp) d)"
  | cx0 cx' cy' where "text_cells x cx cy s d = text_cells x cx' cy' rest (oled_draw_zh16 cx0 cy' cp d)"
proof (cases "cp = 10")
  case True
  then have "text_cells x cx cy s d = text_cells x x (cy + 16) rest d"
    by (subst text_cells.simps) (simp add: assms)
  then show thesis by (rule that(2))
next
  case False
  define width where "width = (if cp < 0x80 then 8 else 16 :: int)"
  obtain cx0 cy0 where at: "(if cx + width > OLED_WIDTH then (x, cy + 16) else (cx, cy)) = (cx0, cy0)" by fastforce
  have eq: "text_cells x cx cy s d = (if cy0 + 16 > OLED_HEIGHT then (Inr 0, d)
      else text_cells x (cx0 + width) cy0 rest
        (if cp < 0x80 then oled_draw_ascii16 cx0 cy0 (ucast cp) d else oled_draw_zh16 cx0 cy0 cp d))"
    using False by (subst text_cells.simps) (simp only: assms sum.case option.case prod.case if_False Let_def width_def [symmetric] at)
  show thesis
    by (cases "cy0 + 16 > OLED_HEIGHT"; cases "cp < 0x80") (use eq that in simp_all)
qed

lemma text_cells_ok: "oled_ok d \<Longrightarrow> oled_ok (snd (text_cells x cx cy s d)) \<and> attached (snd (text_cells x cx cy s d)) = attached d"
proof (induction "length s" arbitrary: cx cy s d rule: less_induct)
  case less
  show ?case
  proof (cases "\<exists>cp rest. utf8_next s = Inr (Some (cp, rest))")
    case False
    with less.prems show ?thesis
      by (subst (1 2) text_cells.simps) (auto split: sum.split option.split)
  next
    case True
    then obtain cp rest where ok: "utf8_next s = Inr (Some (cp, rest))" by blast
    note IH = less.hyps [OF utf8_next_shorter [OF ok]]
    show ?thesis
      by (rule text_cells_step [OF ok, of x cx cy d]) (use IH less.prems in simp_all)
  qed
qed

lemma oled_draw_text_ok:
  "oled_ok d \<Longrightarrow> oled_ok (snd (oled_draw_text_utf8 x y s d)) \<and> attached (snd (oled_draw_text_utf8 x y s d)) = attached d"
  using text_cells_ok by (simp add: oled_draw_text_utf8_def)

lemma top_bit: "bit (0x80 :: byte) n \<longleftrightarrow> n = 7"
proof -
  have "(0x80 :: byte) = 2 ^ 7" by simp
  then show ?thesis by (simp only: bit_exp_iff) auto
qed

lemma ascii_column:
  assumes "col < 8"
  shows "(g :: byte) AND drop_bit col 0x80 \<noteq> 0 \<longleftrightarrow> bit g (7 - col)"
proof -
  have "bit (g AND drop_bit col 0x80) n \<longleftrightarrow> bit g (7 - col) \<and> n = 7 - col" for n
  proof -
    have "bit (g AND drop_bit col 0x80) n \<longleftrightarrow> bit g n \<and> bit (0x80 :: byte) (col + n)"
      by (simp only: bit_and_iff bit_drop_bit_eq comp_def)
    also have "\<dots> \<longleftrightarrow> bit g n \<and> col + n = 7" by (simp only: top_bit)
    also have "\<dots> \<longleftrightarrow> n = 7 - col \<and> bit g n" using assms by linarith
    finally show ?thesis by blast
  qed
  then have "bit g (7 - col) \<Longrightarrow> bit (g AND drop_bit col 0x80) (7 - col)" "\<not> bit g (7 - col) \<Longrightarrow> g AND drop_bit col 0x80 = 0"
    by (blast, intro bit_eqI) simp
  moreover have "\<not> bit (0 :: byte) (7 - col)" by simp
  ultimately show ?thesis by metis
qed

section \<open>What reaches the bus\<close>

text \<open>\<open>log\<close> is the sequence of messages the bus has transferred for \<open>fd\<close>.\<close>

definition transfers :: "('w, 'x) sysio_scheme \<Rightarrow> int \<Rightarrow> ('w \<Rightarrow> byte list list) \<Rightarrow> bool" where
  "transfers K fd log \<longleftrightarrow> (\<forall>bs w r w'. sys_write K fd bs w = (r, w') \<longrightarrow>
     log w' = log w @ (case r of Inr n \<Rightarrow> [take n bs] | Inl _ \<Rightarrow> []))"

lemma i2c_bus_write_log:
  assumes "transfers K (bus_fd bus) log" "i2c_bus_write K bus bs w = Some (Inr k, w')"
  shows "log w' = log w @ [bs]"
proof -
  have r: "retry (sys_write K (bus_fd bus) bs) w = Some (Inr (length bs), w')"
    using assms(2) by (auto simp: i2c_bus_write_def split: if_split_asm Option.bind_split_asm sum.split_asm)
  have eintr: "log w2 = log w1" if "sys_write K (bus_fd bus) bs w1 = (Inl EINTR, w2)" for w1 w2
    using assms(1) that by (auto simp: transfers_def)
  obtain w1 where "log w1 = log w" "sys_write K (bus_fd bus) bs w1 = (Inr (length bs), w')"
    using retry_reaches [OF r, where P = "\<lambda>w1. log w1 = log w"] eintr by auto
  with assms(1) show ?thesis unfolding transfers_def by fastforce
qed

function chunks :: "nat \<Rightarrow> 'a list \<Rightarrow> 'a list list" where
  "chunks n xs = (if xs = [] \<or> n = 0 then [] else take n xs # chunks n (drop n xs))"
  by pat_completeness auto
termination
  by (relation "measure (\<lambda>(n, xs). length xs)") auto

declare chunks.simps [simp del]

lemma concat_chunks: "0 < n \<Longrightarrow> concat (chunks n xs) = xs"
  by (induction n xs rule: chunks.induct) (subst chunks.simps, auto)

lemma chunks_length: "0 < n \<Longrightarrow> c \<in> set (chunks n xs) \<Longrightarrow> 0 < length c \<and> length c \<le> n"
proof (induction n xs rule: chunks.induct)
  case (1 n xs)
  then show ?case by (subst (asm) (2) chunks.simps) (auto split: if_splits)
qed

lemma oled_packets_log:
  assumes "transfers K (bus_fd bus) log"
  shows "oled_packets K bus ctl n bs w = Some (Inr k, w') \<Longrightarrow> 0 < n \<Longrightarrow> log w' = log w @ map ((#) ctl) (chunks n bs)"
proof (induction n bs arbitrary: w rule: chunks.induct)
  case (1 n bs)
  show ?case
  proof (cases "bs = []")
    case True
    with "1.prems" show ?thesis
      by (subst (asm) oled_packets.simps) (simp add: chunks.simps)
  next
    case False
    then obtain j w1 where w1: "i2c_bus_write K bus (ctl # take n bs) w = Some (Inr j, w1)"
        "oled_packets K bus ctl n (drop n bs) w1 = Some (Inr k, w')"
      using "1.prems" by (subst (asm) oled_packets.simps) (auto split: option.split_asm sum.split_asm)
    have "log w' = log w1 @ map ((#) ctl) (chunks n (drop n bs))" using "1.IH" False "1.prems"(2) w1(2) by simp
    moreover have "chunks n bs = take n bs # chunks n (drop n bs)"
      using False "1.prems"(2) by (subst chunks.simps) simp
    ultimately show ?thesis using i2c_bus_write_log [OF assms w1(1)] by simp
  qed
qed

lemma oled_packets_fds:
  assumes "fd_table K fds"
  shows "oled_packets K bus ctl n bs w = Some (r, w') \<Longrightarrow> fds w' = fds w"
proof (induction n bs arbitrary: w rule: chunks.induct)
  case (1 n bs)
  show ?case
  proof (cases "bs = [] \<or> n = 0")
    case False
    then obtain j w1 where w1: "i2c_bus_write K bus (ctl # take n bs) w = Some (j, w1)"
        "(\<exists>e. j = Inl e \<and> w' = w1) \<or> oled_packets K bus ctl n (drop n bs) w1 = Some (r, w')"
      using "1.prems" by (subst (asm) oled_packets.simps) (auto split: option.split_asm sum.split_asm)
    then show ?thesis using "1.IH" [of w1] False i2c_bus_fds(1) [OF assms w1(1)] by auto
  qed (use "1.prems" in \<open>subst (asm) oled_packets.simps, simp\<close>)
qed

lemma oled_fds:
  assumes "fd_table K fds"
  shows "oled_refresh K bus d w = Some (r, w') \<Longrightarrow> fds w' = fds w"
    and "oled_display_on K bus d w = Some (r, w') \<Longrightarrow> fds w' = fds w"
    and "oled_display_off K bus d w = Some (r, w') \<Longrightarrow> fds w' = fds w"
    and "oled_init K bus d w = Some ((r, d'), w') \<Longrightarrow> fds w' = fds w"
proof -
  have cmds: "fds w' = fds w" if "oled_write_commands K bus d bs w = Some (r, w')" for bs d w r w'
    using that by (auto simp: oled_write_commands_def dest!: oled_packets_fds [OF assms] split: if_split_asm)
  have dat: "fds w' = fds w" if "oled_write_data K bus d bs w = Some (r, w')" for bs d w r w'
    using that by (auto simp: oled_write_data_def dest!: oled_packets_fds [OF assms] split: if_split_asm)
  show refresh: "fds w' = fds w" if "oled_refresh K bus d w = Some (r, w')" for d w r w'
    using that by (auto simp: oled_refresh_def dest!: cmds dat
        split: if_split_asm Option.bind_split_asm prod.split_asm sum.split_asm)
  show "oled_display_on K bus d w = Some (r, w') \<Longrightarrow> fds w' = fds w" "oled_display_off K bus d w = Some (r, w') \<Longrightarrow> fds w' = fds w"
    by (auto simp: oled_display_on_def oled_display_off_def dest: cmds)
  show "fds w' = fds w" if "oled_init K bus d w = Some ((r, d'), w')"
    using that by (auto simp: oled_init_def Let_def dest!: cmds refresh
        split: if_split_asm Option.bind_split_asm prod.split_asm sum.split_asm)
qed

section \<open>Properties of the display\<close>

text \<open>C19. The UTF-8 decoder accepts exactly the encodings of the Unicode scalar values other than NUL:
  it returns a code point and a rest if and only if the text is the (shortest) encoding of that
  code point, which is at most 0x10FFFF and no surrogate, followed by that rest.\<close>
theorem utf8_next_exact:
  "utf8_next s = Inr (Some (cp, rest)) \<longleftrightarrow> scalar (unat cp) \<and> s = utf8_encode (unat cp) @ rest"
  using utf8_next_sound utf8_next_complete [of "unat cp" rest] by auto


definition demo_screen :: Oled where
  "demo_screen = \<lparr>attached = True, buffer = replicate 1024 0\<rparr>"


text \<open>When a refresh reports success, the bus has transferred one message that addresses the
  whole screen, followed by data messages of at most 16 bytes whose contents, put together, are the
  display buffer.\<close>
theorem oled_refresh_sends_buffer:
  assumes "transfers K (bus_fd bus) log" and "oled_refresh K bus d w = Some (Inr k, w')"
  shows "\<exists>ps. log w' = log w @ [0x00, 0x21, 0x00, 0x7F, 0x22, 0x00, 0x07] # map ((#) 0x40) ps
    \<and> concat ps = buffer d \<and> (\<forall>p\<in>set ps. 0 < length p \<and> length p \<le> 16)"
proof -
  have att: "attached d" using assms(2) by (auto simp: oled_refresh_def split: if_splits)
  obtain j w1 where c: "oled_packets K bus 0 32 [0x21, 0x00, 0x7F, 0x22, 0x00, 0x07] w = Some (Inr j, w1)"
      "oled_packets K bus 0x40 16 (buffer d) w1 = Some (Inr k, w')"
    using assms(2) att
    by (auto simp: oled_refresh_def oled_write_commands_def oled_write_data_def split: Option.bind_split_asm sum.split_asm)
  have "chunks 32 [0x21, 0x00, 0x7F, 0x22, 0x00, 0x07 :: byte] = [[0x21, 0x00, 0x7F, 0x22, 0x00, 0x07]]"
    by (simp add: chunks.simps)
  then have "log w1 = log w @ [[0x00, 0x21, 0x00, 0x7F, 0x22, 0x00, 0x07]]"
    using oled_packets_log [OF assms(1) c(1)] by simp
  moreover have "log w' = log w1 @ map ((#) 0x40) (chunks 16 (buffer d))"
    using oled_packets_log [OF assms(1) c(2)] by simp
  ultimately show ?thesis
    using concat_chunks [of 16 "buffer d"] chunks_length [of 16 _ "buffer d"]
    by (intro exI [of _ "chunks 16 (buffer d)"]) auto
qed

text \<open>A bus that transfers every message whole; the world is the list of messages.\<close>

definition demo_bus :: "byte list list sysio" where
  "demo_bus = \<lparr>sys_open = (\<lambda>p f w. (Inr 3, w)), sys_close = (\<lambda>fd w. (Inr (), w)), sys_read = (\<lambda>fd n w. (Inr [], w)),
     sys_write = (\<lambda>fd bs w. (Inr (length bs), w @ [bs])),
     sys_poll = (\<lambda>fd ev ms w. (Inr (Some ev), w)), sys_clock_gettime = (\<lambda>w. (Inr (0, 0), w)),
     sys_tcgetattr = (\<lambda>fd w. (Inr termios_zero, w)), sys_tcsetattr = (\<lambda>fd a t w. (Inr (), w)),
     sys_tcflush = (\<lambda>fd q w. (Inr (), w)), ioctl_i2c_slave = (\<lambda>fd a w. (Inr (), w)), ioctl_i2c_quick = (\<lambda>fd w. (Inr (), w)),
     ioctl_gpio_linehandle = (\<lambda>fd r w. (Inr 4, w)), ioctl_gpio_get = (\<lambda>fd w. (Inr 0, w)), ioctl_gpio_set = (\<lambda>fd b w. (Inr (), w))\<rparr>"

theorem oled_refresh_sends_buffer_witness:
  "\<exists>w' ps. oled_refresh demo_bus \<lparr>bus_fd = 3, bus_address = 0x3C\<rparr> \<lparr>attached = True, buffer = [1, 2, 3]\<rparr> [] = Some (Inr 0, w')
     \<and> w' = [0x00, 0x21, 0x00, 0x7F, 0x22, 0x00, 0x07] # map ((#) 0x40) ps \<and> concat ps = [1, 2, 3]"
proof -
  let ?b = "\<lparr>bus_fd = 3, bus_address = 0x3C\<rparr> :: I2cBus" and ?d = "\<lparr>attached = True, buffer = [1, 2, 3]\<rparr>"
  have t: "transfers demo_bus (bus_fd ?b) id" by (auto simp: transfers_def demo_bus_def)
  have "map_option fst (oled_refresh demo_bus ?b ?d []) = Some (Inr 0)" by code_simp
  then obtain w' where r: "oled_refresh demo_bus ?b ?d [] = Some (Inr 0, w')" by auto
  from oled_refresh_sends_buffer [OF t r] r show ?thesis by auto
qed

end
