(* ===== verification/Device_Backend.thy ===== *)
theory Device_Backend
  imports Device_Config Serial_Port Gpio_Line Led_Control Oled
begin

text \<open>
  The five backends, \<^verbatim>\<open>src/device_backend.c\<close>.  A backend's private data is one constructor of
  \<open>backend_context\<close>; the pointer to it is an option.  An operation that would follow a NULL pointer or a
  pointer to another backend's data has no result (\<open>None\<close>); devices made by \<^verbatim>\<open>device_backend_init\<close> never
  do that.  An \<^verbatim>\<open>int\<close> copied to or from a buffer is its four bytes, least significant first.
\<close>

section \<open>Private data\<close>

datatype backend_context =
    Uart_context SerialPort
  | I2c_context I2cBus
  | Oled_context (oled_bus: I2cBus) (oled_display: Oled)
  | Gpio_context GpioLine
  | Led_context (brightness_path: string)

type_synonym ('w, 'r) backend_op = "(backend_context, 'w, 'r) dev_op"

definition int_bytes :: "int \<Rightarrow> byte list" where
  "int_bytes v = map (\<lambda>i. ucast (drop_bit (8 * i) (of_int v :: uint32))) [0..<4]"

definition bytes_int :: "byte list \<Rightarrow> int" where
  "bytes_int bs = sint (foldr (\<lambda>b acc. ucast b OR push_bit 8 acc) bs (0 :: uint32))"

definition backend_destroy ::
  "('w, nat) backend_op \<Rightarrow> DeviceConfig \<Rightarrow> backend_context option \<Rightarrow> 'w \<Rightarrow> (backend_context option \<times> 'w) option" where
  "backend_destroy close cfg c w = do { (_, _, w') \<leftarrow> close cfg c w; Some (None, w') }"

section \<open>UART\<close>

definition uart_open :: "('w, 'x) sysio_scheme \<Rightarrow> ('w, nat) backend_op" where
  "uart_open K cfg c w = (case c of
     Some (Uart_context port) \<Rightarrow>
       (case serial_port_open K port (path cfg) (baudrate cfg) True w of
          ((r, port'), w') \<Rightarrow> Some (r, Some (Uart_context port'), w'))
   | _ \<Rightarrow> None)"

definition uart_read :: "('w, 'x) sysio_scheme \<Rightarrow> nat \<Rightarrow> ('w, byte list) backend_op" where
  "uart_read K n cfg c w = (case c of
     Some (Uart_context port) \<Rightarrow> do { (r, w') \<leftarrow> serial_port_read K port n w; Some (r, c, w') }
   | _ \<Rightarrow> None)"

definition uart_write :: "('w, 'x) sysio_scheme \<Rightarrow> byte list \<Rightarrow> ('w, nat) backend_op" where
  "uart_write K bs cfg c w = (case c of
     Some (Uart_context port) \<Rightarrow> do { (r, w') \<leftarrow> serial_port_write K port bs w; Some (r, c, w') }
   | _ \<Rightarrow> None)"

definition uart_control :: "('w, 'x) sysio_scheme \<Rightarrow> DeviceControl \<Rightarrow> ('w, nat) backend_op" where
  "uart_control K request cfg c w = (case c of
     Some (Uart_context port) \<Rightarrow>
       (case request of
          DEVICE_CONTROL_UART_WAIT None \<Rightarrow> Some (Inl EINVAL, c, w)
        | DEVICE_CONTROL_UART_WAIT (Some t) \<Rightarrow> do { (r, w') \<leftarrow> serial_port_wait_readable K port t w; Some (r, c, w') }
        | DEVICE_CONTROL_UART_WRITE_ALL None \<Rightarrow> Some (Inl EINVAL, c, w)
        | DEVICE_CONTROL_UART_WRITE_ALL (Some q) \<Rightarrow>
            do { (r, w') \<leftarrow> serial_port_write_all K port (data q) (timeout_ms q) w; Some (r, c, w') }
        | DEVICE_CONTROL_UART_FLUSH \<Rightarrow> do { (r, w') \<leftarrow> serial_port_flush_input K port w; Some (r, c, w') }
        | _ \<Rightarrow> Some (Inl ENOTSUP, c, w))
   | _ \<Rightarrow> None)"

definition uart_close :: "('w, 'x) sysio_scheme \<Rightarrow> ('w, nat) backend_op" where
  "uart_close K cfg c w = (case c of
     Some (Uart_context port) \<Rightarrow>
       (case serial_port_close K port w of (port', w') \<Rightarrow> Some (Inr 0, Some (Uart_context port'), w'))
   | _ \<Rightarrow> None)"

section \<open>I2C\<close>

abbreviation (input) SSIZE_MAX :: nat where "SSIZE_MAX \<equiv> 9223372036854775807"

definition i2c_open :: "('w, 'x) sysio_scheme \<Rightarrow> ('w, nat) backend_op" where
  "i2c_open K cfg c w = (case c of
     Some (I2c_context bus) \<Rightarrow>
       (case i2c_bus_open K bus (path cfg) (ucast (address cfg)) w of
          ((r, bus'), w') \<Rightarrow> Some (r, Some (I2c_context bus'), w'))
   | _ \<Rightarrow> None)"

definition i2c_read :: "('w, 'x) sysio_scheme \<Rightarrow> nat \<Rightarrow> ('w, byte list) backend_op" where
  "i2c_read K n cfg c w =
     (if n > SSIZE_MAX then Some (Inl EMSGSIZE, c, w)
      else case c of
        Some (I2c_context bus) \<Rightarrow> do { (r, w') \<leftarrow> i2c_bus_read K bus n w; Some (r, c, w') }
      | _ \<Rightarrow> None)"

definition i2c_write :: "('w, 'x) sysio_scheme \<Rightarrow> byte list \<Rightarrow> ('w, nat) backend_op" where
  "i2c_write K bs cfg c w =
     (if length bs > SSIZE_MAX then Some (Inl EMSGSIZE, c, w)
      else case c of
        Some (I2c_context bus) \<Rightarrow> do {
          (r, w') \<leftarrow> i2c_bus_write K bus bs w;
          case r of Inl e \<Rightarrow> Some (Inl e, c, w') | Inr _ \<Rightarrow> Some (Inr (length bs), c, w') }
      | _ \<Rightarrow> None)"

definition i2c_close :: "('w, 'x) sysio_scheme \<Rightarrow> ('w, nat) backend_op" where
  "i2c_close K cfg c w = (case c of
     Some (I2c_context bus) \<Rightarrow>
       (case i2c_bus_close K bus w of (bus', w') \<Rightarrow> Some (Inr 0, Some (I2c_context bus'), w'))
   | _ \<Rightarrow> None)"

section \<open>Display\<close>

definition oled_open :: "('w, 'x) sysio_scheme \<Rightarrow> ('w, nat) backend_op" where
  "oled_open K cfg c w = (case c of
     Some (Oled_context bus display) \<Rightarrow>
       (case i2c_bus_open K bus (path cfg) (ucast (address cfg)) w of
          ((Inl e, bus1), w1) \<Rightarrow> Some (Inl e, Some (Oled_context bus1 display), w1)
        | ((Inr _, bus1), w1) \<Rightarrow> do {
            ((r, display1), w2) \<leftarrow> oled_init K bus1 display w1;
            case r of
              Inl e \<Rightarrow> (case i2c_bus_close K bus1 w2 of
                (bus2, w3) \<Rightarrow> Some (Inl e, Some (Oled_context bus2 (display1\<lparr>attached := False\<rparr>)), w3))
            | Inr _ \<Rightarrow> Some (Inr 0, Some (Oled_context bus1 display1), w2) })
   | _ \<Rightarrow> None)"

definition oled_control :: "('w, 'x) sysio_scheme \<Rightarrow> DeviceControl \<Rightarrow> ('w, nat) backend_op" where
  "oled_control K request cfg c w = (case c of
     Some (Oled_context bus display) \<Rightarrow>
       (case request of
          DEVICE_CONTROL_OLED_CLEAR \<Rightarrow> Some (Inr 0, Some (Oled_context bus (oled_clear display)), w)
        | DEVICE_CONTROL_OLED_TEXT None \<Rightarrow> Some (Inl EINVAL, c, w)
        | DEVICE_CONTROL_OLED_TEXT (Some t) \<Rightarrow>
            (case oled_draw_text_utf8 (text_x t) (text_y t) (map_option (map char_byte) (text_string t)) display of
               (r, display') \<Rightarrow> Some (r, Some (Oled_context bus display'), w))
        | DEVICE_CONTROL_OLED_REFRESH \<Rightarrow> do { (r, w') \<leftarrow> oled_refresh K bus display w; Some (r, c, w') }
        | DEVICE_CONTROL_OLED_ON \<Rightarrow> do { (r, w') \<leftarrow> oled_display_on K bus display w; Some (r, c, w') }
        | DEVICE_CONTROL_OLED_OFF \<Rightarrow> do { (r, w') \<leftarrow> oled_display_off K bus display w; Some (r, c, w') }
        | _ \<Rightarrow> Some (Inl ENOTSUP, c, w))
   | _ \<Rightarrow> None)"

definition oled_close :: "('w, 'x) sysio_scheme \<Rightarrow> ('w, nat) backend_op" where
  "oled_close K cfg c w = (case c of
     Some (Oled_context bus display) \<Rightarrow>
       (case i2c_bus_close K bus w of
          (bus', w') \<Rightarrow> Some (Inr 0, Some (Oled_context bus' (display\<lparr>attached := False\<rparr>)), w'))
   | _ \<Rightarrow> None)"

section \<open>GPIO\<close>

definition gpio_open :: "('w, 'x) sysio_scheme \<Rightarrow> ('w, nat) backend_op" where
  "gpio_open K cfg c w = (case c of
     Some (Gpio_context line) \<Rightarrow>
       (case (if gpio_output cfg \<noteq> 0 then gpio_line_open_output K line (path cfg) (offset cfg) (initial_value cfg) w
              else gpio_line_open_input K line (path cfg) (offset cfg) (bias cfg) w) of
          ((r, line'), w') \<Rightarrow> Some (r, Some (Gpio_context line'), w'))
   | _ \<Rightarrow> None)"

definition gpio_read :: "('w, 'x) sysio_scheme \<Rightarrow> nat \<Rightarrow> ('w, byte list) backend_op" where
  "gpio_read K n cfg c w =
     (if n \<noteq> 4 then Some (Inl EINVAL, c, w)
      else case c of
        Some (Gpio_context line) \<Rightarrow>
          (case gpio_line_get_value K line w of
             (Inl e, w') \<Rightarrow> Some (Inl e, c, w')
           | (Inr v, w') \<Rightarrow> Some (Inr (int_bytes v), c, w'))
      | _ \<Rightarrow> None)"

definition gpio_write :: "('w, 'x) sysio_scheme \<Rightarrow> byte list \<Rightarrow> ('w, nat) backend_op" where
  "gpio_write K bs cfg c w =
     (if length bs \<noteq> 4 then Some (Inl EINVAL, c, w)
      else if gpio_output cfg = 0 then Some (Inl ENOTSUP, c, w)
      else case c of
        Some (Gpio_context line) \<Rightarrow>
          (case gpio_line_set_value K line (bytes_int bs) w of
             (Inl e, w') \<Rightarrow> Some (Inl e, c, w')
           | (Inr _, w') \<Rightarrow> Some (Inr 4, c, w'))
      | _ \<Rightarrow> None)"

definition gpio_close :: "('w, 'x) sysio_scheme \<Rightarrow> ('w, nat) backend_op" where
  "gpio_close K cfg c w = (case c of
     Some (Gpio_context line) \<Rightarrow>
       (case gpio_line_close K line w of (line', w') \<Rightarrow> Some (Inr 0, Some (Gpio_context line'), w'))
   | _ \<Rightarrow> None)"

section \<open>LED\<close>

definition led_open :: "('w, 'x) sysio_scheme \<Rightarrow> ('w, nat) backend_op" where
  "led_open K cfg c w = (case c of
     Some (Led_context p) \<Rightarrow> do {
       (r, w') \<leftarrow> sysfs_read_long K p w;
       case r of Inl e \<Rightarrow> Some (Inl e, c, w') | Inr _ \<Rightarrow> Some (Inr 0, c, w') }
   | _ \<Rightarrow> None)"

definition led_read :: "('w, 'x) sysio_scheme \<Rightarrow> nat \<Rightarrow> ('w, byte list) backend_op" where
  "led_read K n cfg c w =
     (if n \<noteq> 4 then Some (Inl EINVAL, c, w)
      else case c of
        Some (Led_context p) \<Rightarrow> do {
          (r, w') \<leftarrow> sysfs_read_long K p w;
          case r of Inl e \<Rightarrow> Some (Inl e, c, w')
          | Inr v \<Rightarrow> Some (Inr (int_bytes (if v \<noteq> 0 then 1 else 0)), c, w') }
      | _ \<Rightarrow> None)"

definition led_failure :: "int + unit \<Rightarrow> int + nat" where
  "led_failure r = (case r of Inl e \<Rightarrow> Inl (if e = 0 then EIO else e) | Inr _ \<Rightarrow> Inr 0)"

definition led_set :: "('w, 'x) sysio_scheme \<Rightarrow> DeviceConfig \<Rightarrow> int \<Rightarrow> 'w \<Rightarrow> ((int + nat) \<times> 'w) option" where
  "led_set K cfg v w =
     (if v = 1 then do { (r, w') \<leftarrow> led_control_set_on K (led_name cfg) w; Some (led_failure r, w') }
      else if v = 0 then do { (r, w') \<leftarrow> led_control_set_off K (led_name cfg) w; Some (led_failure r, w') }
      else Some (Inl EINVAL, w))"

definition led_write :: "('w, 'x) sysio_scheme \<Rightarrow> byte list \<Rightarrow> ('w, nat) backend_op" where
  "led_write K bs cfg c w =
     (if length bs \<noteq> 4 then Some (Inl EINVAL, c, w)
      else do {
        (r, w') \<leftarrow> led_set K cfg (bytes_int bs) w;
        case r of Inl e \<Rightarrow> Some (Inl e, c, w') | Inr _ \<Rightarrow> Some (Inr 4, c, w') })"

definition led_control :: "('w, 'x) sysio_scheme \<Rightarrow> DeviceControl \<Rightarrow> ('w, nat) backend_op" where
  "led_control K request cfg c w =
     (case request of
        DEVICE_CONTROL_LED_ON \<Rightarrow> do { (r, w') \<leftarrow> led_set K cfg 1 w; Some (r, c, w') }
      | DEVICE_CONTROL_LED_OFF \<Rightarrow> do { (r, w') \<leftarrow> led_set K cfg 0 w; Some (r, c, w') }
      | DEVICE_CONTROL_LED_TRIGGER None \<Rightarrow> Some (Inl EINVAL, c, w)
      | DEVICE_CONTROL_LED_TRIGGER (Some t) \<Rightarrow> do {
          (r, w') \<leftarrow> led_control_set_trigger K (led_name cfg) t w;
          Some (led_failure r, c, w') }
      | _ \<Rightarrow> Some (Inl ENOTSUP, c, w))"

definition led_close :: "('w, nat) backend_op" where
  "led_close cfg c w = Some (Inr 0, c, w)"

section \<open>Operation tables and initialisation\<close>

definition uart_ops :: "('w, 'x) sysio_scheme \<Rightarrow> (backend_context, 'w) DeviceOps" where
  "uart_ops K = \<lparr>op_open = Some (uart_open K), op_read = Some (uart_read K), op_write = Some (uart_write K),
     op_control = Some (uart_control K), op_close = Some (uart_close K), op_destroy = Some (backend_destroy (uart_close K))\<rparr>"

definition i2c_ops :: "('w, 'x) sysio_scheme \<Rightarrow> (backend_context, 'w) DeviceOps" where
  "i2c_ops K = \<lparr>op_open = Some (i2c_open K), op_read = Some (i2c_read K), op_write = Some (i2c_write K),
     op_control = None, op_close = Some (i2c_close K), op_destroy = Some (backend_destroy (i2c_close K))\<rparr>"

definition oled_ops :: "('w, 'x) sysio_scheme \<Rightarrow> (backend_context, 'w) DeviceOps" where
  "oled_ops K = \<lparr>op_open = Some (oled_open K), op_read = None, op_write = None,
     op_control = Some (oled_control K), op_close = Some (oled_close K), op_destroy = Some (backend_destroy (oled_close K))\<rparr>"

definition gpio_ops :: "('w, 'x) sysio_scheme \<Rightarrow> (backend_context, 'w) DeviceOps" where
  "gpio_ops K = \<lparr>op_open = Some (gpio_open K), op_read = Some (gpio_read K), op_write = Some (gpio_write K),
     op_control = None, op_close = Some (gpio_close K), op_destroy = Some (backend_destroy (gpio_close K))\<rparr>"

definition led_ops :: "('w, 'x) sysio_scheme \<Rightarrow> (backend_context, 'w) DeviceOps" where
  "led_ops K = \<lparr>op_open = Some (led_open K), op_read = Some (led_read K), op_write = Some (led_write K),
     op_control = Some (led_control K), op_close = Some led_close, op_destroy = Some (backend_destroy led_close)\<rparr>"

definition backend_ops :: "('w, 'x) sysio_scheme \<Rightarrow> DeviceType \<Rightarrow> (backend_context, 'w) DeviceOps" where
  "backend_ops K t = (case t of DEVICE_UART \<Rightarrow> uart_ops K | DEVICE_I2C \<Rightarrow> i2c_ops K | DEVICE_OLED \<Rightarrow> oled_ops K
     | DEVICE_GPIO \<Rightarrow> gpio_ops K | DEVICE_LED \<Rightarrow> led_ops K)"

definition backend_context_init :: "DeviceConfig \<Rightarrow> int + backend_context" where
  "backend_context_init cfg = (case type_of cfg of
     DEVICE_UART \<Rightarrow> Inr (Uart_context serial_port_init)
   | DEVICE_I2C \<Rightarrow> Inr (I2c_context i2c_bus_init)
   | DEVICE_OLED \<Rightarrow> Inr (Oled_context i2c_bus_init \<lparr>attached = False, buffer = replicate OLED_BUFFER_SIZE 0\<rparr>)
   | DEVICE_GPIO \<Rightarrow> Inr (Gpio_context gpio_line_init)
   | DEVICE_LED \<Rightarrow>
       (let p = ''/sys/class/leds/'' @ led_name cfg @ ''/brightness''
        in if length p \<ge> DEVICE_PATH_SIZE + DEVICE_NAME_SIZE then Inl ENAMETOOLONG else Inr (Led_context p)))"

definition device_backend_init ::
  "('w, 'x) sysio_scheme \<Rightarrow> bool \<Rightarrow> DeviceConfig \<Rightarrow> int + (backend_context, 'w) Device" where
  "device_backend_init K calloc_ok cfg =
     (if device_config_validate cfg \<noteq> Inr () then Inl EINVAL
      else if \<not> calloc_ok then Inl ENOMEM
      else case backend_context_init cfg of
        Inl e \<Rightarrow> Inl e
      | Inr c \<Rightarrow> Inr (device_init cfg (Some (backend_ops K (type_of cfg))) (Some c)))"


section \<open>The backends keep the contract of the device layer\<close>

text \<open>The backend a context belongs to, and the descriptors it owns.\<close>

fun context_type :: "backend_context \<Rightarrow> DeviceType" where
  "context_type (Uart_context port) = DEVICE_UART"
| "context_type (I2c_context bus) = DEVICE_I2C"
| "context_type (Oled_context bus display) = DEVICE_OLED"
| "context_type (Gpio_context line) = DEVICE_GPIO"
| "context_type (Led_context p) = DEVICE_LED"

fun context_fd :: "backend_context \<Rightarrow> int" where
  "context_fd (Uart_context port) = port_fd port"
| "context_fd (I2c_context bus) = bus_fd bus"
| "context_fd (Oled_context bus display) = bus_fd bus"
| "context_fd (Gpio_context line) = line_fd line"
| "context_fd (Led_context p) = -1"

definition context_for :: "DeviceType \<Rightarrow> DeviceConfig \<Rightarrow> backend_context option \<Rightarrow> bool" where
  "context_for t cfg c \<longleftrightarrow> (\<exists>x. c = Some x \<and> context_type x = t)"

definition holds_fd :: "backend_context option \<Rightarrow> bool" where
  "holds_fd c \<longleftrightarrow> (\<exists>x. c = Some x \<and> context_fd x \<ge> 0)"

lemma context_for_simps [simp]:
  "context_for t cfg None = False" "context_for t cfg (Some x) = (context_type x = t)"
  "holds_fd None = False" "holds_fd (Some x) = (context_fd x \<ge> 0)"
  by (auto simp: context_for_def holds_fd_def)

lemma context_cases:
  assumes "context_for t cfg c"
  obtains port where "t = DEVICE_UART" "c = Some (Uart_context port)"
  | bus where "t = DEVICE_I2C" "c = Some (I2c_context bus)"
  | bus display where "t = DEVICE_OLED" "c = Some (Oled_context bus display)"
  | line where "t = DEVICE_GPIO" "c = Some (Gpio_context line)"
  | p where "t = DEVICE_LED" "c = Some (Led_context p)"
  using assms that unfolding context_for_def by (metis context_type.elims)

lemmas uart_defs = uart_open_def uart_read_def uart_write_def uart_control_def uart_close_def
lemmas i2c_defs = i2c_open_def i2c_read_def i2c_write_def i2c_close_def
lemmas oled_defs = oled_open_def oled_control_def oled_close_def
lemmas gpio_defs = gpio_open_def gpio_read_def gpio_write_def gpio_close_def
lemmas led_defs = led_open_def led_read_def led_write_def led_control_def led_close_def
lemmas case_splits = sum.split_asm if_split_asm Option.bind_split_asm prod.split_asm option.split_asm
  backend_context.split_asm DeviceControl.split_asm

lemma serial_port_open_held:
  "serial_port_open K port p b nb w = ((r, port'), w') \<Longrightarrow> 0 \<le> port_fd port' \<Longrightarrow> 0 \<le> port_fd port \<or> r = Inr 0"
  "serial_port_open K port p b nb w = ((Inr n, port'), w') \<Longrightarrow> n = 0"
  by (auto simp: serial_port_open_def split: case_splits)

lemma i2c_bus_open_held:
  "i2c_bus_open K bus p a w = ((r, bus'), w') \<Longrightarrow> 0 \<le> bus_fd bus' \<Longrightarrow> 0 \<le> bus_fd bus \<or> r = Inr 0"
  "i2c_bus_open K bus p a w = ((Inr n, bus'), w') \<Longrightarrow> n = 0"
  by (auto simp: i2c_bus_open_def split: case_splits)

lemma gpio_line_open_held:
  "gpio_line_open_output K line p off v w = ((r, line'), w') \<Longrightarrow> 0 \<le> line_fd line' \<Longrightarrow> 0 \<le> line_fd line \<or> r = Inr 0"
  "gpio_line_open_input K line p off b w = ((r, line'), w') \<Longrightarrow> 0 \<le> line_fd line' \<Longrightarrow> 0 \<le> line_fd line \<or> r = Inr 0"
  "gpio_line_open_output K line p off v w = ((Inr n, line'), w') \<Longrightarrow> n = 0"
  "gpio_line_open_input K line p off b w = ((Inr n, line'), w') \<Longrightarrow> n = 0"
  by (auto simp: gpio_line_open_output_def gpio_line_open_input_def gpio_line_request_def split: case_splits)

lemma zero_results:
  "zero_result (uart_open K)" "zero_result (uart_close K)" "zero_result (i2c_open K)" "zero_result (i2c_close K)"
  "zero_result (oled_open K)" "zero_result (oled_close K)" "zero_result (gpio_open K)" "zero_result (gpio_close K)"
  "zero_result (led_open K)" "zero_result led_close"
  by (auto simp: zero_result_def uart_defs i2c_defs oled_defs gpio_defs led_defs split: case_splits
      dest: serial_port_open_held i2c_bus_open_held gpio_line_open_held)

interpretation uart: backend "uart_ops K" "context_for DEVICE_UART" holds_fd for K
proof unfold_locales
  show "ops_ok (uart_ops K)" by (simp add: ops_ok_def uart_ops_def zero_results)
qed (auto simp: uart_ops_def uart_defs serial_port_close_def dest!: serial_port_open_held(1) split: case_splits)

interpretation i2c: backend "i2c_ops K" "context_for DEVICE_I2C" holds_fd for K
proof unfold_locales
  show "ops_ok (i2c_ops K)" by (simp add: ops_ok_def i2c_ops_def zero_results)
qed (auto simp: i2c_ops_def i2c_defs i2c_bus_close_def dest!: i2c_bus_open_held(1) split: case_splits)

interpretation oled: backend "oled_ops K" "context_for DEVICE_OLED" holds_fd for K
proof unfold_locales
  show "ops_ok (oled_ops K)" by (simp add: ops_ok_def oled_ops_def zero_results)
qed (auto simp: oled_ops_def oled_defs i2c_bus_close_def dest!: i2c_bus_open_held(1) split: case_splits)

interpretation gpio: backend "gpio_ops K" "context_for DEVICE_GPIO" holds_fd for K
proof unfold_locales
  show "ops_ok (gpio_ops K)" by (simp add: ops_ok_def gpio_ops_def zero_results)
qed (auto simp: gpio_ops_def gpio_defs gpio_line_close_def dest!: gpio_line_open_held(1,2) split: case_splits)

interpretation led: backend "led_ops K" "context_for DEVICE_LED" holds_fd for K
proof unfold_locales
  show "ops_ok (led_ops K)" by (simp add: ops_ok_def led_ops_def zero_results)
qed (auto simp: led_ops_def led_defs elim: context_cases split: case_splits)


section \<open>Descriptor balance\<close>

text \<open>
  A backend over the kernel \<open>K\<close>: \<open>own\<close> are the descriptors its private data refers to.  Opening adds
  exactly these to the open descriptors of the process, closing and destroying remove exactly these, and
  using the device changes neither.
\<close>

locale fd_backend = backend os fits held
  for os :: "('c, 'w) DeviceOps" and fits :: "DeviceConfig \<Rightarrow> 'c option \<Rightarrow> bool" and held :: "'c option \<Rightarrow> bool" +
  fixes K :: "('w, 'x) sysio_scheme" and own :: "'c option \<Rightarrow> int set"
  assumes own_held: "own c = {} \<longleftrightarrow> \<not> held c"
    and fds_open: "fd_table K fds \<Longrightarrow> op_open os = Some f \<Longrightarrow> fits cfg c \<Longrightarrow> \<not> held c \<Longrightarrow> f cfg c w = Some (r, c', w')
      \<Longrightarrow> own c' \<inter> fds w = {} \<and> fds w' = fds w \<union> own c'"
    and fds_read: "fd_table K fds \<Longrightarrow> op_read os = Some f1 \<Longrightarrow> fits cfg c \<Longrightarrow> f1 n cfg c w = Some (r1, c', w')
      \<Longrightarrow> own c' = own c \<and> fds w' = fds w"
    and fds_write: "fd_table K fds \<Longrightarrow> op_write os = Some f2 \<Longrightarrow> fits cfg c \<Longrightarrow> f2 bs cfg c w = Some (r, c', w')
      \<Longrightarrow> own c' = own c \<and> fds w' = fds w"
    and fds_control: "fd_table K fds \<Longrightarrow> op_control os = Some f3 \<Longrightarrow> fits cfg c \<Longrightarrow> f3 q cfg c w = Some (r, c', w')
      \<Longrightarrow> own c' = own c \<and> fds w' = fds w"
    and fds_close: "fd_table K fds \<Longrightarrow> op_close os = Some f \<Longrightarrow> fits cfg c \<Longrightarrow> f cfg c w = Some (r, c', w')
      \<Longrightarrow> fds w' = fds w - own c"
    and fds_destroy: "fd_table K fds \<Longrightarrow> op_destroy os = Some g \<Longrightarrow> fits cfg c \<Longrightarrow> g cfg c w = Some (c', w')
      \<Longrightarrow> fds w' = fds w - own c"
begin

definition balanced :: "('w \<Rightarrow> int set) \<Rightarrow> int set \<Rightarrow> ('c, 'w) Device \<Rightarrow> 'w \<Rightarrow> bool" where
  "balanced fds base d w \<longleftrightarrow> own (priv d) \<inter> base = {} \<and> fds w = base \<union> own (priv d)"

lemma balanced_same: "balanced fds base d w \<Longrightarrow> own (priv d') = own (priv d) \<Longrightarrow> fds w' = fds w \<Longrightarrow> balanced fds base d' w'"
  by (simp add: balanced_def)

lemma open_balanced:
  assumes "fd_table K fds" "device_open d w = Some ((r, d'), w')" "safe d" "balanced fds base d w"
  shows "balanced fds base d' w'"
proof (cases "opened d \<or> enabled (config d) = 0 \<or> op_open os = None")
  case True
  then have "priv d' = priv d \<and> w' = w" using assms(2,3)
    by (auto simp: device_open_def device_failure_def safe_def split: if_split_asm option.split_asm)
  then show ?thesis using assms(4) by (simp add: balanced_def)
next
  case False
  then obtain f c where f: "op_open os = Some f" "f (config d) (priv d) w = Some (r, c, w')" "priv d' = c"
    using assms(2,3) by (auto simp: device_open_def safe_def Let_def split: if_split_asm Option.bind_split_asm)
  have closed: "\<not> held (priv d)" "own (priv d) = {}" using False assms(3) by (auto simp: safe_def own_held)
  have "fits (config d) (priv d)" using assms(3) by (simp add: safe_def)
  from fds_open [OF assms(1) f(1) this closed(1) f(2)] assms(4) closed(2) f(3)
  show ?thesis by (auto simp: balanced_def)
qed

lemma read_balanced:
  assumes "fd_table K fds" "device_read d b n w = Some ((r, d'), w')" "safe d" "balanced fds base d w"
  shows "balanced fds base d' w'"
proof -
  have "(priv d' = priv d \<and> w' = w) \<or> (\<exists>f. op_read os = Some f \<and> f n (config d) (priv d) w = Some (r, priv d', w'))"
    using assms(2,3)
    by (auto simp: device_read_def device_failure_def safe_def split: option.split_asm if_split_asm Option.bind_split_asm)
  then show ?thesis
    using fds_read [OF assms(1)] assms(3) balanced_same [OF assms(4)] by (metis safe_def)
qed

lemma write_balanced:
  assumes "fd_table K fds" "device_write d bs w = Some ((r, d'), w')" "safe d" "balanced fds base d w"
  shows "balanced fds base d' w'"
proof -
  have "(priv d' = priv d \<and> w' = w) \<or> (\<exists>f b. op_write os = Some f \<and> f b (config d) (priv d) w = Some (r, priv d', w'))"
    using assms(2,3)
    by (auto simp: device_write_def device_failure_def safe_def split: option.split_asm if_split_asm Option.bind_split_asm)
  then show ?thesis
    using fds_write [OF assms(1)] assms(3) balanced_same [OF assms(4)] by (metis safe_def)
qed

lemma control_balanced:
  assumes "fd_table K fds" "device_control d q w = Some ((r, d'), w')" "safe d" "balanced fds base d w"
  shows "balanced fds base d' w'"
proof -
  have "(priv d' = priv d \<and> w' = w) \<or> (\<exists>f. op_control os = Some f \<and> f q (config d) (priv d) w = Some (r, priv d', w'))"
    using assms(2,3)
    by (auto simp: device_control_def device_failure_def safe_def split: option.split_asm if_split_asm Option.bind_split_asm)
  then show ?thesis
    using fds_control [OF assms(1)] assms(3) balanced_same [OF assms(4)] by (metis safe_def)
qed

lemma close_balanced:
  assumes "fd_table K fds" "device_close d w = Some ((r, d'), w')" "safe d" "balanced fds base d w"
  shows "balanced fds base d' w' \<and> fds w' = base"
proof -
  have closed: "own (priv d') = {}" using close_safe [OF assms(2,3)] own_held by blast
  have "(priv d' = priv d \<and> w' = w) \<or> (\<exists>f. op_close os = Some f \<and> f (config d) (priv d) w = Some (r, priv d', w'))"
    using assms(2,3)
    by (auto simp: device_close_def device_failure_def safe_def Let_def
        split: option.split_asm if_split_asm Option.bind_split_asm)
  then have "fds w' = fds w - own (priv d)"
    using fds_close [OF assms(1)] assms(3) closed by (metis Diff_empty safe_def)
  then show ?thesis using assms(4) closed by (auto simp: balanced_def)
qed

lemma destroy_balanced:
  assumes "fd_table K fds" "device_destroy d w = Some (d', w')" "safe d" "balanced fds base d w"
  shows "fds w' = base"
proof -
  obtain r d1 w1 where close: "device_close d w = Some ((r, d1), w1)"
      "w' = w1 \<or> (\<exists>g c. op_destroy os = Some g \<and> g (config d1) (priv d1) w1 = Some (c, w'))"
    using assms(2,3) by (auto simp: device_destroy_def safe_def split: Option.bind_split_asm option.split_asm)
  have w1: "fds w1 = base" using close_balanced [OF assms(1) close(1) assms(3,4)] by simp
  have d1: "fits (config d1) (priv d1)" "own (priv d1) = {}"
    using close_safe [OF close(1) assms(3)] own_held by (auto simp: safe_def)
  show ?thesis using close(2) w1 fds_destroy [OF assms(1) _ d1(1)] d1(2) by auto
qed

end


text \<open>A sequence of calls on one device, each in the world the previous one left.\<close>

inductive device_run :: "('c, 'w) Device \<Rightarrow> 'w \<Rightarrow> ('c, 'w) Device \<Rightarrow> 'w \<Rightarrow> bool" where
  run_start: "device_run d w d w"
| run_open: "device_run d w d1 w1 \<Longrightarrow> device_open d1 w1 = Some ((r, d2), w2) \<Longrightarrow> device_run d w d2 w2"
| run_read: "device_run d w d1 w1 \<Longrightarrow> device_read d1 b n w1 = Some ((r1, d2), w2) \<Longrightarrow> device_run d w d2 w2"
| run_write: "device_run d w d1 w1 \<Longrightarrow> device_write d1 bs w1 = Some ((r, d2), w2) \<Longrightarrow> device_run d w d2 w2"
| run_control: "device_run d w d1 w1 \<Longrightarrow> device_control d1 q w1 = Some ((r, d2), w2) \<Longrightarrow> device_run d w d2 w2"
| run_close: "device_run d w d1 w1 \<Longrightarrow> device_close d1 w1 = Some ((r, d2), w2) \<Longrightarrow> device_run d w d2 w2"

context fd_backend
begin

lemma run_balanced:
  assumes "device_run d w d' w'" "fd_table K fds" "safe d" "balanced fds base d w"
  shows "safe d' \<and> balanced fds base d' w'"
  using assms
  by (induction rule: device_run.induct)
    (blast dest: open_safe read_safe write_safe control_safe close_safe
      open_balanced read_balanced write_balanced control_balanced close_balanced)+

end

definition own_fds :: "backend_context option \<Rightarrow> int set" where
  "own_fds c = (case c of None \<Rightarrow> {} | Some x \<Rightarrow> if context_fd x \<ge> 0 then {context_fd x} else {})"

lemma own_fds_simps [simp]:
  "own_fds None = {}" "own_fds (Some x) = (if context_fd x \<ge> 0 then {context_fd x} else {})"
  by (simp_all add: own_fds_def)

lemma own_fds_held: "own_fds c = {} \<longleftrightarrow> \<not> holds_fd c"
  by (cases c) auto

lemma close_fds:
  assumes "fd_table K fds"
  shows "serial_port_close K port w = (port', w') \<Longrightarrow> fds w' = fds w - own_fds (Some (Uart_context port))"
    and "i2c_bus_close K bus w = (bus', w') \<Longrightarrow> fds w' = fds w - own_fds (Some (I2c_context bus))"
    and "gpio_line_close K line w = (line', w') \<Longrightarrow> fds w' = fds w - own_fds (Some (Gpio_context line))"
  using fd_table_close [OF assms]
  by (auto simp: serial_port_close_def i2c_bus_close_def gpio_line_close_def split: if_split_asm)

lemma uart_fds:
  assumes "fd_table K fds"
  shows "uart_open K cfg c w = Some (r, c', w') \<Longrightarrow> \<not> holds_fd c \<Longrightarrow> own_fds c' \<inter> fds w = {} \<and> fds w' = fds w \<union> own_fds c'"
    and "uart_read K n cfg c w = Some (r1, c', w') \<Longrightarrow> own_fds c' = own_fds c \<and> fds w' = fds w"
    and "uart_write K bs cfg c w = Some (r, c', w') \<Longrightarrow> own_fds c' = own_fds c \<and> fds w' = fds w"
    and "uart_control K q cfg c w = Some (r, c', w') \<Longrightarrow> own_fds c' = own_fds c \<and> fds w' = fds w"
    and "uart_close K cfg c w = Some (r, c', w') \<Longrightarrow> fds w' = fds w - own_fds c"
proof -
  show "own_fds c' \<inter> fds w = {} \<and> fds w' = fds w \<union> own_fds c'"
    if a: "uart_open K cfg c w = Some (r, c', w')" "\<not> holds_fd c"
  proof -
    obtain port port' where l: "c = Some (Uart_context port)" "c' = Some (Uart_context port')" "port_fd port < 0"
      "serial_port_open K port (path cfg) (baudrate cfg) True w = ((r, port'), w')"
      using a by (auto simp: uart_open_def split: case_splits)
    then show ?thesis using serial_port_open_fds [OF assms l(4,3)] by fastforce
  qed
  show "uart_close K cfg c w = Some (r, c', w') \<Longrightarrow> fds w' = fds w - own_fds c"
    using close_fds(1) [OF assms] by (fastforce simp: uart_close_def split: case_splits)
qed (auto simp: uart_defs dest!: serial_port_fds [OF assms] split: case_splits)

lemma i2c_fds:
  assumes "fd_table K fds"
  shows "i2c_open K cfg c w = Some (r, c', w') \<Longrightarrow> \<not> holds_fd c \<Longrightarrow> own_fds c' \<inter> fds w = {} \<and> fds w' = fds w \<union> own_fds c'"
    and "i2c_read K n cfg c w = Some (r1, c', w') \<Longrightarrow> own_fds c' = own_fds c \<and> fds w' = fds w"
    and "i2c_write K bs cfg c w = Some (r, c', w') \<Longrightarrow> own_fds c' = own_fds c \<and> fds w' = fds w"
    and "i2c_close K cfg c w = Some (r, c', w') \<Longrightarrow> fds w' = fds w - own_fds c"
proof -
  show "own_fds c' \<inter> fds w = {} \<and> fds w' = fds w \<union> own_fds c'"
    if a: "i2c_open K cfg c w = Some (r, c', w')" "\<not> holds_fd c"
  proof -
    obtain bus bus' where l: "c = Some (I2c_context bus)" "c' = Some (I2c_context bus')" "bus_fd bus < 0"
      "i2c_bus_open K bus (path cfg) (ucast (address cfg)) w = ((r, bus'), w')"
      using a by (auto simp: i2c_open_def split: case_splits)
    then show ?thesis using i2c_bus_open_fds [OF assms l(4,3)] by fastforce
  qed
  show "i2c_close K cfg c w = Some (r, c', w') \<Longrightarrow> fds w' = fds w - own_fds c"
    using close_fds(2) [OF assms] by (fastforce simp: i2c_close_def split: case_splits)
qed (auto simp: i2c_defs dest!: i2c_bus_fds [OF assms] split: case_splits)

lemma gpio_fds:
  assumes "fd_table K fds"
  shows "gpio_open K cfg c w = Some (r, c', w') \<Longrightarrow> \<not> holds_fd c \<Longrightarrow> own_fds c' \<inter> fds w = {} \<and> fds w' = fds w \<union> own_fds c'"
    and "gpio_read K n cfg c w = Some (r1, c', w') \<Longrightarrow> own_fds c' = own_fds c \<and> fds w' = fds w"
    and "gpio_write K bs cfg c w = Some (r, c', w') \<Longrightarrow> own_fds c' = own_fds c \<and> fds w' = fds w"
    and "gpio_close K cfg c w = Some (r, c', w') \<Longrightarrow> fds w' = fds w - own_fds c"
proof -
  show "own_fds c' \<inter> fds w = {} \<and> fds w' = fds w \<union> own_fds c'"
    if a: "gpio_open K cfg c w = Some (r, c', w')" "\<not> holds_fd c"
  proof -
    obtain line line' where l: "c = Some (Gpio_context line)" "c' = Some (Gpio_context line')" "line_fd line < 0"
      "gpio_line_open_output K line (path cfg) (offset cfg) (initial_value cfg) w = ((r, line'), w')
       \<or> gpio_line_open_input K line (path cfg) (offset cfg) (bias cfg) w = ((r, line'), w')"
      using a by (auto simp: gpio_open_def split: case_splits)
    then show ?thesis using gpio_line_open_fds [OF assms l(3)] by fastforce
  qed
  show "gpio_close K cfg c w = Some (r, c', w') \<Longrightarrow> fds w' = fds w - own_fds c"
    using close_fds(3) [OF assms] by (fastforce simp: gpio_close_def split: case_splits)
qed (auto simp: gpio_defs dest!: gpio_line_fds [OF assms] split: case_splits)


lemma oled_context_fds:
  assumes "fd_table K fds"
  shows "oled_open K cfg c w = Some (r, c', w') \<Longrightarrow> \<not> holds_fd c \<Longrightarrow> own_fds c' \<inter> fds w = {} \<and> fds w' = fds w \<union> own_fds c'"
    and "oled_control K q cfg c w = Some (r, c', w') \<Longrightarrow> own_fds c' = own_fds c \<and> fds w' = fds w"
    and "oled_close K cfg c w = Some (r, c', w') \<Longrightarrow> fds w' = fds w - own_fds c"
proof -
  show "own_fds c' \<inter> fds w = {} \<and> fds w' = fds w \<union> own_fds c'"
    if a: "oled_open K cfg c w = Some (r, c', w')" "\<not> holds_fd c"
  proof -
    obtain bus display where l: "c = Some (Oled_context bus display)" "bus_fd bus < 0"
      using a by (auto simp: oled_open_def split: case_splits)
    obtain o1 bus1 w1 where o1: "i2c_bus_open K bus (path cfg) (ucast (address cfg)) w = ((o1, bus1), w1)"
      by (metis surj_pair)
    note open1 = i2c_bus_open_fds [OF assms o1 l(2)]
    show ?thesis
    proof (cases o1)
      case (Inl e)
      then have "c' = Some (Oled_context bus1 display)" "w' = w1" using a(1) l by (auto simp: oled_open_def o1)
      moreover have "bus1 = bus" "fds w1 = fds w" using open1 Inl by auto
      ultimately show ?thesis using l by simp
    next
      case (Inr k)
      then obtain r2 display1 w2 where i: "oled_init K bus1 display w1 = Some ((r2, display1), w2)"
        using a(1) l by (auto simp: oled_open_def o1 split: Option.bind_split_asm)
      note w2 = oled_fds(4) [OF assms i]
      show ?thesis
      proof (cases r2)
        case (Inl e)
        obtain bus2 w3 where c3: "i2c_bus_close K bus1 w2 = (bus2, w3)" by (metis surj_pair)
        have "c' = Some (Oled_context bus2 (display1\<lparr>attached := False\<rparr>))" "w' = w3" "bus_fd bus2 = -1"
          using a(1) l Inl \<open>o1 = Inr k\<close> c3 by (auto simp: oled_open_def o1 i i2c_bus_close_def)
        then show ?thesis using open1 \<open>o1 = Inr k\<close> w2 close_fds(2) [OF assms c3] by auto
      next
        case (Inr n)
        have "c' = Some (Oled_context bus1 display1)" "w' = w2"
          using a(1) l Inr \<open>o1 = Inr k\<close> by (auto simp: oled_open_def o1 i)
        then show ?thesis using open1 \<open>o1 = Inr k\<close> w2 by auto
      qed
    qed
  qed
  show "oled_close K cfg c w = Some (r, c', w') \<Longrightarrow> fds w' = fds w - own_fds c"
    using close_fds(2) [OF assms] by (fastforce simp: oled_close_def split: case_splits)
qed (auto simp: oled_control_def dest!: oled_fds [OF assms] split: case_splits)

lemma led_context_fds:
  assumes "fd_table K fds"
  shows "led_open K cfg c w = Some (r, c', w') \<Longrightarrow> c' = c \<and> fds w' = fds w"
    and "led_read K n cfg c w = Some (r1, c', w') \<Longrightarrow> c' = c \<and> fds w' = fds w"
    and "led_write K bs cfg c w = Some (r, c', w') \<Longrightarrow> c' = c \<and> fds w' = fds w"
    and "led_control K q cfg c w = Some (r, c', w') \<Longrightarrow> c' = c \<and> fds w' = fds w"
proof -
  have set: "fds w' = fds w" if "led_set K cfg v w = Some (x, w')" for v w x w'
    using that by (auto simp: led_set_def dest!: led_control_fds [OF assms] split: case_splits)
  show "led_open K cfg c w = Some (r, c', w') \<Longrightarrow> c' = c \<and> fds w' = fds w"
    "led_read K n cfg c w = Some (r1, c', w') \<Longrightarrow> c' = c \<and> fds w' = fds w"
    "led_write K bs cfg c w = Some (r, c', w') \<Longrightarrow> c' = c \<and> fds w' = fds w"
    "led_control K q cfg c w = Some (r, c', w') \<Longrightarrow> c' = c \<and> fds w' = fds w"
    by (auto simp: led_defs dest!: set sysfs_read_numbers_fds(1) [OF assms] led_control_fds [OF assms] split: case_splits)
qed

lemma led_context_own: "context_for DEVICE_LED cfg c \<Longrightarrow> own_fds c = {}"
  by (auto elim: context_cases)

lemma backend_destroy_fds:
  assumes "backend_destroy close cfg c w = Some (c', w')" "\<And>r c' w'. close cfg c w = Some (r, c', w') \<Longrightarrow> fds w' = fds w - own_fds c"
  shows "fds w' = fds w - own_fds c"
  using assms by (auto simp: backend_destroy_def split: Option.bind_split_asm)

interpretation uart: fd_backend "uart_ops K" "context_for DEVICE_UART" holds_fd K own_fds for K
proof (unfold_locales, goal_cases)
  case (1 c)
  show ?case by (rule own_fds_held)
next
  case (2 fds f cfg c w r c' w')
  then show ?case using uart_fds(1) [OF 2(1), of cfg c w r c' w'] by (simp add: uart_ops_def)
next
  case (3 fds f cfg c n w r c' w')
  then show ?case using uart_fds(2) [OF 3(1), of n cfg c w r c' w'] by (simp add: uart_ops_def)
next
  case (4 fds f cfg c bs w r c' w')
  then show ?case using uart_fds(3) [OF 4(1), of bs cfg c w r c' w'] by (simp add: uart_ops_def)
next
  case (5 fds f cfg c q w r c' w')
  then show ?case using uart_fds(4) [OF 5(1), of q cfg c w r c' w'] by (simp add: uart_ops_def)
next
  case (6 fds f cfg c w r c' w')
  then show ?case using uart_fds(5) [OF 6(1), of cfg c w r c' w'] by (simp add: uart_ops_def)
next
  case (7 fds g cfg c w c' w')
  then show ?case using backend_destroy_fds [of "uart_close K" cfg c w c' w' fds] uart_fds(5) [OF 7(1), of cfg c w]  by (simp add: uart_ops_def)
qed

interpretation i2c: fd_backend "i2c_ops K" "context_for DEVICE_I2C" holds_fd K own_fds for K
proof (unfold_locales, goal_cases)
  case (1 c)
  show ?case by (rule own_fds_held)
next
  case (2 fds f cfg c w r c' w')
  then show ?case using i2c_fds(1) [OF 2(1), of cfg c w r c' w'] by (simp add: i2c_ops_def)
next
  case (3 fds f cfg c n w r c' w')
  then show ?case using i2c_fds(2) [OF 3(1), of n cfg c w r c' w'] by (simp add: i2c_ops_def)
next
  case (4 fds f cfg c bs w r c' w')
  then show ?case using i2c_fds(3) [OF 4(1), of bs cfg c w r c' w'] by (simp add: i2c_ops_def)
next
  case (5 fds f cfg c q w r c' w')
  then show ?case by (simp add: i2c_ops_def)
next
  case (6 fds f cfg c w r c' w')
  then show ?case using i2c_fds(4) [OF 6(1), of cfg c w r c' w'] by (simp add: i2c_ops_def)
next
  case (7 fds g cfg c w c' w')
  then show ?case using backend_destroy_fds [of "i2c_close K" cfg c w c' w' fds] i2c_fds(4) [OF 7(1), of cfg c w]  by (simp add: i2c_ops_def)
qed

interpretation gpio: fd_backend "gpio_ops K" "context_for DEVICE_GPIO" holds_fd K own_fds for K
proof (unfold_locales, goal_cases)
  case (1 c)
  show ?case by (rule own_fds_held)
next
  case (2 fds f cfg c w r c' w')
  then show ?case using gpio_fds(1) [OF 2(1), of cfg c w r c' w'] by (simp add: gpio_ops_def)
next
  case (3 fds f cfg c n w r c' w')
  then show ?case using gpio_fds(2) [OF 3(1), of n cfg c w r c' w'] by (simp add: gpio_ops_def)
next
  case (4 fds f cfg c bs w r c' w')
  then show ?case using gpio_fds(3) [OF 4(1), of bs cfg c w r c' w'] by (simp add: gpio_ops_def)
next
  case (5 fds f cfg c q w r c' w')
  then show ?case by (simp add: gpio_ops_def)
next
  case (6 fds f cfg c w r c' w')
  then show ?case using gpio_fds(4) [OF 6(1), of cfg c w r c' w'] by (simp add: gpio_ops_def)
next
  case (7 fds g cfg c w c' w')
  then show ?case using backend_destroy_fds [of "gpio_close K" cfg c w c' w' fds] gpio_fds(4) [OF 7(1), of cfg c w]  by (simp add: gpio_ops_def)
qed

interpretation oled: fd_backend "oled_ops K" "context_for DEVICE_OLED" holds_fd K own_fds for K
proof (unfold_locales, goal_cases)
  case (1 c)
  show ?case by (rule own_fds_held)
next
  case (2 fds f cfg c w r c' w')
  then show ?case using oled_context_fds(1) [OF 2(1), of cfg c w r c' w'] by (simp add: oled_ops_def)
next
  case (3 fds f cfg c n w r c' w')
  then show ?case by (simp add: oled_ops_def)
next
  case (4 fds f cfg c bs w r c' w')
  then show ?case by (simp add: oled_ops_def)
next
  case (5 fds f cfg c q w r c' w')
  then show ?case using oled_context_fds(2) [OF 5(1), of q cfg c w r c' w'] by (simp add: oled_ops_def)
next
  case (6 fds f cfg c w r c' w')
  then show ?case using oled_context_fds(3) [OF 6(1), of cfg c w r c' w'] by (simp add: oled_ops_def)
next
  case (7 fds g cfg c w c' w')
  then show ?case using backend_destroy_fds [of "oled_close K" cfg c w c' w' fds] oled_context_fds(3) [OF 7(1), of cfg c w]  by (simp add: oled_ops_def)
qed

interpretation led: fd_backend "led_ops K" "context_for DEVICE_LED" holds_fd K own_fds for K
proof (unfold_locales, goal_cases)
  case (1 c)
  show ?case by (rule own_fds_held)
next
  case (2 fds f cfg c w r c' w')
  then show ?case using led_context_fds(1) [OF 2(1), of cfg c w r c' w'] led_context_own [of cfg c] by (simp add: led_ops_def)
next
  case (3 fds f cfg c n w r c' w')
  then show ?case using led_context_fds(2) [OF 3(1), of n cfg c w r c' w'] by (simp add: led_ops_def)
next
  case (4 fds f cfg c bs w r c' w')
  then show ?case using led_context_fds(3) [OF 4(1), of bs cfg c w r c' w'] by (simp add: led_ops_def)
next
  case (5 fds f cfg c q w r c' w')
  then show ?case using led_context_fds(4) [OF 5(1), of q cfg c w r c' w'] by (simp add: led_ops_def)
next
  case (6 fds f cfg c w r c' w')
  then show ?case using led_context_own [of cfg c] by (auto simp: led_ops_def led_close_def)
next
  case (7 fds g cfg c w c' w')
  then show ?case using led_context_own [of cfg c] by (auto simp: led_ops_def led_close_def backend_destroy_def)
qed


text \<open>One contract for whatever backend a configuration selects.\<close>

interpretation bk: fd_backend "backend_ops K t" "context_for t" holds_fd K own_fds for K t
  using uart.fd_backend_axioms [of K] i2c.fd_backend_axioms [of K] oled.fd_backend_axioms [of K]
    gpio.fd_backend_axioms [of K] led.fd_backend_axioms [of K]
  by (cases t) (simp_all add: backend_ops_def)

section \<open>Properties of the backends\<close>

lemma led_brightness_path_fits:
  "device_config_validate cfg = Inr () \<Longrightarrow> length (''/sys/class/leds/'' @ led_name cfg @ ''/brightness'') < 320"
  by (auto simp: device_config_validate_def config_invalid_def split: if_split_asm)

lemma backend_context_init_ok:
  assumes "device_config_validate cfg = Inr ()"
  obtains x where "backend_context_init cfg = Inr x" "context_type x = type_of cfg" "context_fd x = -1"
  using that led_brightness_path_fits [OF assms]
  by (cases "type_of cfg") (auto simp: backend_context_init_def serial_port_init_def i2c_bus_init_def gpio_line_init_def)

lemma device_backend_init_safe:
  fixes K :: "('w, 'x) sysio_scheme"
  assumes "device_backend_init K ok cfg = Inr d"
  shows "bk.safe TYPE('x) K (type_of cfg) d \<and> own_fds (priv d) = {} \<and> config d = cfg"
proof -
  have valid: "device_config_validate cfg = Inr ()" using assms by (auto simp: device_backend_init_def split: if_split_asm)
  obtain x where x: "backend_context_init cfg = Inr x" "context_type x = type_of cfg" "context_fd x = -1"
    by (rule backend_context_init_ok [OF valid])
  have d: "d = device_init cfg (Some (backend_ops K (type_of cfg))) (Some x)"
    using assms x(1) by (auto simp: device_backend_init_def split: if_split_asm)
  show ?thesis using bk.init_safe [of "type_of cfg" cfg "Some x" K] x
    by (simp add: d device_init_def)
qed

text \<open>C14. A device made from a configuration never leaks a descriptor.  After any sequence of
  calls on it, failed ones included, the open descriptors of the process are those from before the
  first call and, while the device is open, its own one, which is none of the others; when it is
  closed they are exactly those from before.  Closing it always succeeds, and after destroying it,
  open or not, the descriptors are again those from before.\<close>
theorem device_descriptor_balance:
  assumes "fd_table K fds" and "device_backend_init K ok cfg = Inr d" and "device_run d w d' w'"
  shows "own_fds (priv d') \<inter> fds w = {} \<and> fds w' = fds w \<union> own_fds (priv d')
    \<and> (\<not> opened d' \<longrightarrow> fds w' = fds w)
    \<and> (\<forall>r d2 w2. device_close d' w' = Some ((r, d2), w2) \<longrightarrow> r = Inr 0 \<and> \<not> opened d2 \<and> fds w2 = fds w)
    \<and> (\<forall>d2 w2. device_destroy d' w' = Some (d2, w2) \<longrightarrow> fds w2 = fds w)"
proof -
  note init = device_backend_init_safe [OF assms(2)]
  have start: "bk.balanced fds (fds w) d w" using init by (simp add: bk.balanced_def)
  note run = bk.run_balanced [OF assms(3,1) conjunct1 [OF init] start]
  have bal: "own_fds (priv d') \<inter> fds w = {}" "fds w' = fds w \<union> own_fds (priv d')"
    using run by (simp_all add: bk.balanced_def)
  have "\<not> opened d' \<Longrightarrow> own_fds (priv d') = {}"
    using run by (auto simp: bk.safe_def own_fds_held)
  moreover have "r = Inr 0 \<and> \<not> opened d2 \<and> fds w2 = fds w" if "device_close d' w' = Some ((r, d2), w2)" for r d2 w2
    using bk.close_safe [OF that] bk.close_balanced [OF assms(1) that] run by blast
  moreover have "fds w2 = fds w" if "device_destroy d' w' = Some (d2, w2)" for d2 w2
    using bk.destroy_balanced [OF assms(1) that] run by blast
  ultimately show ?thesis using bal by auto
qed

definition demo_uart :: "(backend_context, int set \<times> byte list) Device" where
  "demo_uart = projr (device_backend_init demo_files True (hd demo_configs))"

theorem device_descriptor_balance_witness:
  "\<exists>d' w'. device_open demo_uart ({0}, []) = Some ((Inr 0, d'), w') \<and> own_fds (priv d') = {3} \<and> fst w' = {0, 3}"
proof -
  have "device_config_validate (hd demo_configs) = Inr ()" "type_of (hd demo_configs) = DEVICE_UART" by code_simp+
  then have init: "device_backend_init demo_files True (hd demo_configs) = Inr demo_uart"
    by (simp add: demo_uart_def device_backend_init_def backend_context_init_def)
  have "map_option (\<lambda>((r, d), w). (r, map_option context_fd (priv d))) (device_open demo_uart ({0}, [])) = Some (Inr 0, Some 3)"
    by code_simp
  then obtain d' w' where o: "device_open demo_uart ({0}, []) = Some ((Inr 0, d'), w')" "own_fds (priv d') = {3}"
    by auto
  have "device_run demo_uart ({0}, []) d' w'" using run_open [OF run_start o(1)] .
  from device_descriptor_balance [OF demo_files_laws(1) init this] o show ?thesis by auto
qed

text \<open>C38. Making a device fails with \<^verbatim>\<open>EINVAL\<close> exactly for a configuration that does not validate
  and with \<^verbatim>\<open>ENOMEM\<close> exactly when a valid one finds no memory; the path of an LED always fits its
  buffer, so there is no third failure.  Otherwise the device is closed (or disabled), has the
  configuration, the operations of its type and a context of that type without a descriptor, and the
  bus address of an I2C device or display survives the conversion to 8 bits, within the 7-bit range.\<close>
theorem device_backend_init_total:
  "(case device_backend_init K calloc_ok cfg of
      Inl e \<Rightarrow> e = (if device_config_validate cfg = Inr () then ENOMEM else EINVAL)
        \<and> (device_config_validate cfg = Inr () \<longrightarrow> \<not> calloc_ok)
    | Inr d \<Rightarrow> device_config_validate cfg = Inr () \<and> calloc_ok \<and> config d = cfg \<and> device_ok d
        \<and> phase_of d = (if enabled cfg = 0 then Off else Closed)
        \<and> ops d = Some (backend_ops K (type_of cfg)) \<and> context_for (type_of cfg) cfg (priv d) \<and> own_fds (priv d) = {}
        \<and> (type_of cfg \<in> {DEVICE_I2C, DEVICE_OLED}
            \<longrightarrow> unat (ucast (address cfg) :: byte) = unat (address cfg) \<and> unat (address cfg) \<le> 0x7F))"
proof (cases "device_backend_init K calloc_ok cfg")
  case (Inl e)
  then show ?thesis
    by (auto simp: device_backend_init_def elim: backend_context_init_ok split: if_split_asm sum.split_asm)
next
  case (Inr d)
  then have valid: "device_config_validate cfg = Inr ()" "calloc_ok"
    by (auto simp: device_backend_init_def split: if_split_asm)
  have addr: "unat (ucast (address cfg) :: byte) = unat (address cfg) \<and> unat (address cfg) \<le> 0x7F"
    if "type_of cfg \<in> {DEVICE_I2C, DEVICE_OLED}"
  proof -
    have "address cfg \<le> 0x77" using that valid(1) by (auto simp: device_config_validate_iff)
    then have "unat (address cfg) \<le> 0x77" by (simp add: word_le_nat_alt)
    then show ?thesis by (simp add: unsigned_ucast_eq take_bit_nat_eq_self)
  qed
  have "phase_of d = (if enabled cfg = 0 then Off else Closed)"
    using Inr by (auto simp: device_backend_init_def device_init_def phase_of_def device_zero_def split: if_split_asm sum.split_asm)
  then show ?thesis using Inr valid addr device_backend_init_safe [OF Inr] by (auto simp: bk.safe_def)
qed

theorem device_backend_init_total_witness:
  "device_config_validate (hd demo_configs) = Inr () \<and> (\<exists>d. device_backend_init demo_files True (hd demo_configs) = Inr d \<and> phase_of d = Closed)"
proof -
  have "device_config_validate (hd demo_configs) = Inr ()" "enabled (hd demo_configs) = 1" by code_simp+
  with device_backend_init_total [where K = demo_files and calloc_ok = True and cfg = "hd demo_configs"] show ?thesis
    by (auto split: sum.split_asm if_split_asm)
qed

end
