(* ===== verification/Device_Manager.thy ===== *)
theory Device_Manager
  imports Device_Backend
begin

text \<open>
  The device table, \<^verbatim>\<open>src/device_manager.c\<close>.  The table is the list of its devices in slot order, whose
  length is \<^verbatim>\<open>count\<close>; a pointer to a device is its slot.  The manager pointer is never NULL here, and
  \<open>calloc_ok i\<close> says whether the allocation for the \<open>i\<close>-th device of a file succeeds.
\<close>

record ('c, 'w) DeviceManager =
  devices :: "('c, 'w) Device list"

type_synonym 'w manager = "(backend_context, 'w) DeviceManager"

definition device_manager_init :: "('c, 'w) DeviceManager" where
  "device_manager_init = \<lparr>devices = []\<rparr>"

fun find_slot :: "nat \<Rightarrow> string \<Rightarrow> ('c, 'w) Device list \<Rightarrow> nat option" where
  "find_slot i name [] = None"
| "find_slot i name (d # ds) = (if name_of (config d) = name then Some i else find_slot (Suc i) name ds)"

definition device_manager_find :: "('c, 'w) DeviceManager \<Rightarrow> string option \<Rightarrow> nat option" where
  "device_manager_find m name = (case name of None \<Rightarrow> None | Some s \<Rightarrow> find_slot 0 s (devices m))"

definition device_manager_get :: "('c, 'w) DeviceManager \<Rightarrow> nat \<Rightarrow> nat option" where
  "device_manager_get m i = (if i \<ge> length (devices m) then None else Some i)"

definition device_manager_register ::
  "('c, 'w) DeviceManager \<Rightarrow> DeviceConfig \<Rightarrow> ('c, 'w) DeviceOps option \<Rightarrow> 'c option \<Rightarrow> (int + unit) \<times> ('c, 'w) DeviceManager" where
  "device_manager_register m cfg os c =
     (if os = None \<or> Option.bind os op_open = None \<or> Option.bind os op_close = None \<or> device_config_validate cfg \<noteq> Inr ()
      then (Inl EINVAL, m)
      else if device_manager_find m (Some (name_of cfg)) \<noteq> None then (Inl EEXIST, m)
      else if length (devices m) = DEVICE_MAX_COUNT then (Inl ENOSPC, m)
      else (Inr (), m\<lparr>devices := devices m @ [device_init cfg os c]\<rparr>))"

text \<open>The loop of \<^verbatim>\<open>device_manager_close_all\<close>; \<open>saved\<close> is \<^verbatim>\<open>saved_errno\<close>.\<close>

fun close_devices :: "('c, 'w) Device list \<Rightarrow> int \<Rightarrow> 'w \<Rightarrow> (('c, 'w) Device list \<times> int \<times> 'w) option" where
  "close_devices [] saved w = Some ([], saved, w)"
| "close_devices (d # ds) saved w = do {
     ((r, d'), w1) \<leftarrow> device_close d w;
     (ds', saved', w2) \<leftarrow> close_devices ds (case r of Inl e \<Rightarrow> if saved = 0 then e else saved | Inr _ \<Rightarrow> saved) w1;
     Some (d' # ds', saved', w2) }"

definition device_manager_close_all ::
  "('c, 'w) DeviceManager \<Rightarrow> 'w \<Rightarrow> ((int + unit) \<times> ('c, 'w) DeviceManager \<times> 'w) option" where
  "device_manager_close_all m w = do {
     (ds, saved, w') \<leftarrow> close_devices (devices m) 0 w;
     Some (if saved \<noteq> 0 then Inl saved else Inr (), m\<lparr>devices := ds\<rparr>, w') }"

fun destroy_devices :: "('c, 'w) Device list \<Rightarrow> 'w \<Rightarrow> 'w option" where
  "destroy_devices [] w = Some w"
| "destroy_devices (d # ds) w = do { (_, w1) \<leftarrow> device_destroy d w; destroy_devices ds w1 }"

definition device_manager_destroy :: "('c, 'w) DeviceManager \<Rightarrow> 'w \<Rightarrow> (('c, 'w) DeviceManager \<times> 'w) option" where
  "device_manager_destroy m w = do { w' \<leftarrow> destroy_devices (devices m) w; Some (device_manager_init, w') }"

text \<open>The loop of \<^verbatim>\<open>device_manager_load\<close>: \<open>m\<close> is \<^verbatim>\<open>temporary\<close>, \<open>cfgs\<close> the rest of the list.\<close>

fun load_devices ::
  "('w, 'x) sysio_scheme \<Rightarrow> (nat \<Rightarrow> bool) \<Rightarrow> DeviceConfig list \<Rightarrow> 'w manager \<Rightarrow> 'w \<Rightarrow> ((int + 'w manager) \<times> 'w) option" where
  "load_devices K calloc_ok [] m w = Some (Inr m, w)"
| "load_devices K calloc_ok (cfg # cfgs) m w =
     (case device_backend_init K (calloc_ok (length (devices m))) cfg of
        Inl e \<Rightarrow> do { (_, w') \<leftarrow> device_manager_destroy m w; Some (Inl e, w') }
      | Inr d \<Rightarrow> load_devices K calloc_ok cfgs (m\<lparr>devices := devices m @ [d]\<rparr>) w)"

definition device_manager_load ::
  "('w, 'x) sysio_scheme \<Rightarrow> (string \<Rightarrow> config_source) \<Rightarrow> (nat \<Rightarrow> bool) \<Rightarrow> 'w manager \<Rightarrow> string option \<Rightarrow> 'w
     \<Rightarrow> ((int + unit) \<times> 'w manager \<times> 'w) option" where
  "device_manager_load K files calloc_ok m filename w =
     (if list_ex opened (devices m) then Some (Inl EBUSY, m, w)
      else case device_config_load files filename of
        Inl e \<Rightarrow> Some (Inl e, m, w)
      | Inr cfgs \<Rightarrow> do {
          (r, w1) \<leftarrow> load_devices K calloc_ok cfgs device_manager_init w;
          case r of
            Inl e \<Rightarrow> Some (Inl e, m, w1)
          | Inr temporary \<Rightarrow> do { (_, w2) \<leftarrow> device_manager_destroy m w1; Some (Inr (), temporary, w2) } })"

section \<open>Lookup\<close>

lemma find_slot_index:
  "find_slot i name ds = Some k \<longleftrightarrow>
     i \<le> k \<and> k < i + length ds \<and> name_of (config (ds ! (k - i))) = name
     \<and> (\<forall>j<k - i. name_of (config (ds ! j)) \<noteq> name)"
proof (induction i name ds rule: find_slot.induct)
  case (2 i name d ds)
  show ?case
  proof (cases "i < k")
    case True
    then obtain n where n: "k - i = Suc n" "k - Suc i = n" by (metis Suc_diff_Suc)
    have all: "(\<forall>j<Suc n. name_of (config ((d # ds) ! j)) \<noteq> name)
      \<longleftrightarrow> name_of (config d) \<noteq> name \<and> (\<forall>j<n. name_of (config (ds ! j)) \<noteq> name)"
      by (simp add: All_less_Suc2)
    show ?thesis using 2 True by (simp only: n all) (auto simp: n)
  next
    case False
    then show ?thesis using 2 by auto
  qed
qed simp

lemma find_slot_None: "find_slot i name ds = None \<longleftrightarrow> name \<notin> (name_of \<circ> config) ` set ds"
  by (induction i name ds rule: find_slot.induct) auto


section \<open>Invariants\<close>

text \<open>What every table made by these operations satisfies, whatever the backends are.\<close>

definition manager_ok :: "('c, 'w) DeviceManager \<Rightarrow> bool" where
  "manager_ok m \<longleftrightarrow> length (devices m) \<le> DEVICE_MAX_COUNT \<and> distinct (map (name_of \<circ> config) (devices m))
     \<and> list_all (\<lambda>d. device_config_validate (config d) = Inr ()) (devices m)"

text \<open>A device of one of the five backends in a state its operations can lead to.\<close>

definition backend_device :: "('w, 'x) sysio_scheme \<Rightarrow> (backend_context, 'w) Device \<Rightarrow> bool" where
  "backend_device K d \<longleftrightarrow> device_ok d \<and> ops d = Some (backend_ops K (type_of (config d)))
     \<and> context_for (type_of (config d)) (config d) (priv d) \<and> (holds_fd (priv d) \<longrightarrow> opened d)"

lemma backend_device_safe:
  fixes K :: "('w, 'x) sysio_scheme"
  shows "backend_device K d \<longleftrightarrow> bk.safe TYPE('x) K (type_of (config d)) d"
  by (simp add: backend_device_def bk.safe_def)

text \<open>The devices' own descriptors, and that they are apart from each other and from \<open>base\<close>.\<close>

definition owned :: "(backend_context, 'w) Device list \<Rightarrow> int set" where
  "owned ds = (\<Union>d\<in>set ds. own_fds (priv d))"

fun separate :: "int set \<Rightarrow> (backend_context, 'w) Device list \<Rightarrow> bool" where
  "separate base [] = True"
| "separate base (d # ds) = (own_fds (priv d) \<inter> base = {} \<and> separate (base \<union> own_fds (priv d)) ds)"

lemma owned_simps [simp]:
  "owned [] = {}" "owned (d # ds) = own_fds (priv d) \<union> owned ds" "owned (xs @ ys) = owned xs \<union> owned ys"
  by (auto simp: owned_def)

lemma separate_Un: "separate (base \<union> A) ds \<longleftrightarrow> separate base ds \<and> A \<inter> owned ds = {}"
  by (induction base ds arbitrary: A rule: separate.induct) (auto simp: Un_assoc Un_commute Un_left_commute Int_Un_distrib)

lemma separate_at:
  "separate base (xs @ d # ys) \<longleftrightarrow>
     separate base (xs @ ys) \<and> own_fds (priv d) \<inter> (base \<union> owned xs \<union> owned ys) = {}"
  by (induction xs arbitrary: base) (auto simp: separate_Un Int_Un_distrib Int_commute)

definition table_balanced :: "('w \<Rightarrow> int set) \<Rightarrow> int set \<Rightarrow> 'w manager \<Rightarrow> 'w \<Rightarrow> bool" where
  "table_balanced fds base m w \<longleftrightarrow> separate base (devices m) \<and> fds w = base \<union> owned (devices m)"

definition table_ok :: "('w, 'x) sysio_scheme \<Rightarrow> 'w manager \<Rightarrow> bool" where
  "table_ok K m \<longleftrightarrow> manager_ok m \<and> list_all (backend_device K) (devices m)"

text \<open>An operation on the device in slot \<open>i\<close> only.\<close>

lemma list_at: "i < length ds \<Longrightarrow> ds = take i ds @ ds ! i # drop (Suc i) ds" "i < length ds \<Longrightarrow> ds[i := d] = take i ds @ d # drop (Suc i) ds"
  by (simp_all add: id_take_nth_drop upd_conv_take_nth_drop)

lemma manager_ok_update:
  assumes "manager_ok m" "i < length (devices m)" "config d = config (devices m ! i)"
  shows "manager_ok (m\<lparr>devices := (devices m)[i := d]\<rparr>)"
proof -
  have "map (name_of \<circ> config) ((devices m)[i := d]) = map (name_of \<circ> config) (devices m)"
    using assms(2,3) by (simp add: map_update list_update_same_conv)
  moreover have "device_config_validate (config d) = Inr ()" using assms by (simp add: manager_ok_def list_all_length)
  ultimately show ?thesis using assms(1,2)
    by (auto simp: manager_ok_def list_all_iff dest!: set_mp [OF set_update_subset_insert])
qed

lemma table_update:
  assumes "table_ok K m" "table_balanced fds base m w" "i < length (devices m)"
    and "backend_device K d" "config d = config (devices m ! i)"
    and "\<And>base'. bk.balanced fds base' (devices m ! i) w \<Longrightarrow> bk.balanced fds base' d w'"
  shows "table_ok K (m\<lparr>devices := (devices m)[i := d]\<rparr>) \<and> table_balanced fds base (m\<lparr>devices := (devices m)[i := d]\<rparr>) w'"
proof
  let ?ds = "devices m"
  show "table_ok K (m\<lparr>devices := ?ds[i := d]\<rparr>)"
    using assms(1,4) manager_ok_update [OF _ assms(3,5)]
    by (auto simp: table_ok_def list_all_iff dest!: set_mp [OF set_update_subset_insert])
  let ?base = "base \<union> owned (take i ?ds) \<union> owned (drop (Suc i) ?ds)"
  have old: "separate base (take i ?ds @ ?ds ! i # drop (Suc i) ?ds)" "fds w = base \<union> owned (take i ?ds @ ?ds ! i # drop (Suc i) ?ds)"
    using assms(2) list_at(1) [OF assms(3)] by (simp_all add: table_balanced_def)
  then have "bk.balanced fds ?base (?ds ! i) w" by (auto simp: separate_at bk.balanced_def)
  then have "bk.balanced fds ?base d w'" by (rule assms(6))
  then show "table_balanced fds base (m\<lparr>devices := ?ds[i := d]\<rparr>) w'"
    using old(1) by (auto simp: table_balanced_def list_at(2) [OF assms(3)] separate_at bk.balanced_def)
qed


section \<open>The loops over the table\<close>

lemma backend_device_close:
  assumes "backend_device K d" "device_close d w = Some ((r, d'), w')"
  shows "backend_device K d' \<and> config d' = config d \<and> r = Inr 0 \<and> \<not> opened d' \<and> own_fds (priv d') = {}"
proof -
  have "config d' = config d"
    using assms by (auto simp: device_close_def device_failure_def device_result_def Let_def
        split: option.split_asm if_split_asm Option.bind_split_asm sum.split_asm)
  then show ?thesis
    using assms bk.close_safe [OF assms(2), of K "type_of (config d)"] by (auto simp: backend_device_safe own_fds_held)
qed

lemma balanced_rest:
  "separate base (d # ds) \<Longrightarrow> fds w = base \<union> owned (d # ds) \<Longrightarrow> bk.balanced fds (base \<union> owned ds) d w"
  by (auto simp: bk.balanced_def separate_Un)

lemma close_devices_all:
  fixes K :: "('w, 'x) sysio_scheme"
  assumes K: "fd_table K fds"
  shows "close_devices ds s w = Some (ds', s', w') \<Longrightarrow> list_all (backend_device K) ds \<Longrightarrow> separate base ds
    \<Longrightarrow> fds w = base \<union> owned ds
    \<Longrightarrow> list_all (backend_device K) ds' \<and> map config ds' = map config ds \<and> s' = s
      \<and> list_all (\<lambda>d. \<not> opened d) ds' \<and> owned ds' = {} \<and> separate base ds' \<and> fds w' = base"
proof (induction ds arbitrary: s w ds' s' w')
  case (Cons d ds)
  obtain r d1 w1 where c: "device_close d w = Some ((r, d1), w1)"
    using Cons.prems(1) by (auto split: Option.bind_split_asm)
  have d1: "backend_device K d1 \<and> config d1 = config d \<and> r = Inr 0 \<and> \<not> opened d1 \<and> own_fds (priv d1) = {}"
    by (rule backend_device_close [OF _ c]) (use Cons.prems(2) in simp)
  have "bk.safe TYPE('x) K (type_of (config d)) d" using Cons.prems(2) by (simp add: backend_device_safe)
  then have w1: "fds w1 = base \<union> owned ds"
    using bk.close_balanced [OF K c _ balanced_rest [where fds = fds and w = w, OF Cons.prems(3,4)]] by blast
  obtain ds1 where ds1: "close_devices ds s w1 = Some (ds1, s', w')" "ds' = d1 # ds1"
    using Cons.prems(1) d1 by (auto simp: c split: Option.bind_split_asm)
  have "separate base ds" using Cons.prems(3) by (simp add: separate_Un)
  from Cons.IH [OF ds1(1) _ this w1] Cons.prems(2) d1 show ?case by (simp add: ds1(2))
qed auto

lemma destroy_devices_all:
  fixes K :: "('w, 'x) sysio_scheme"
  assumes K: "fd_table K fds"
  shows "destroy_devices ds w = Some w' \<Longrightarrow> list_all (backend_device K) ds \<Longrightarrow> separate base ds
    \<Longrightarrow> fds w = base \<union> owned ds \<Longrightarrow> fds w' = base"
proof (induction ds arbitrary: w)
  case (Cons d ds)
  obtain d1 w1 where c: "device_destroy d w = Some (d1, w1)" "destroy_devices ds w1 = Some w'"
    using Cons.prems(1) by (auto split: Option.bind_split_asm)
  have "bk.safe TYPE('x) K (type_of (config d)) d" using Cons.prems(2) by (simp add: backend_device_safe)
  then have w1: "fds w1 = base \<union> owned ds"
    using bk.destroy_balanced [OF K c(1) _ balanced_rest [where fds = fds and w = w, OF Cons.prems(3,4)]] by blast
  have "separate base ds" using Cons.prems(3) by (simp add: separate_Un)
  from Cons.IH [OF c(2) _ this w1] Cons.prems(2) show ?case by simp
qed simp

lemma destroy_balanced_table:
  assumes "fd_table K fds" "table_ok K m" "table_balanced fds base m w" "device_manager_destroy m w = Some (m', w')"
  shows "m' = device_manager_init \<and> fds w' = base"
  using assms destroy_devices_all [OF assms(1), of "devices m" w w' base]
  by (auto simp: device_manager_destroy_def table_ok_def table_balanced_def split: Option.bind_split_asm)

lemma init_table: "table_ok K device_manager_init" "table_balanced fds base device_manager_init w \<longleftrightarrow> fds w = base"
  by (auto simp: table_ok_def manager_ok_def device_manager_init_def table_balanced_def)

lemma separate_none: "owned ds = {} \<Longrightarrow> separate base ds"
  by (induction ds arbitrary: base) auto

text \<open>The table under construction: its configurations are those read so far, all closed.\<close>

lemma load_devices_all:
  fixes K :: "('w, 'x) sysio_scheme"
  assumes K: "fd_table K fds"
  shows "load_devices K ok cfgs m w = Some (r, w') \<Longrightarrow> list_all (backend_device K) (devices m)
    \<Longrightarrow> list_all (\<lambda>d. \<not> opened d \<and> own_fds (priv d) = {}) (devices m)
    \<Longrightarrow> fds w' = fds w \<and> (\<forall>m'. r = Inr m' \<longrightarrow> map config (devices m') = map config (devices m) @ cfgs
      \<and> list_all (backend_device K) (devices m') \<and> list_all (\<lambda>d. \<not> opened d \<and> own_fds (priv d) = {}) (devices m'))"
proof (induction cfgs arbitrary: m)
  case (Cons cfg cfgs)
  show ?case
  proof (cases "device_backend_init K (ok (length (devices m))) cfg")
    case (Inl e)
    then obtain w1 where d: "destroy_devices (devices m) w = Some w1" "r = Inl e" "w' = w1"
      using Cons.prems(1) by (auto simp: device_manager_destroy_def split: Option.bind_split_asm)
    have none: "owned (devices m) = {}" using Cons.prems(3) by (auto simp: owned_def list_all_iff)
    from destroy_devices_all [OF K d(1) Cons.prems(2) separate_none [OF this]] none d show ?thesis by simp
  next
    case (Inr d)
    have d: "backend_device K d" "config d = cfg" "own_fds (priv d) = {}"
      using device_backend_init_safe [OF Inr] by (auto simp: backend_device_safe)
    have "\<not> opened d" using Inr by (auto simp: device_backend_init_def device_init_def device_zero_def split: if_split_asm sum.split_asm)
    with d Cons.IH [of "m\<lparr>devices := devices m @ [d]\<rparr>"] Cons.prems Inr show ?thesis by simp
  qed
qed auto


section \<open>Runs of the table\<close>

text \<open>Any sequence of calls on a table and, through it, on its devices.\<close>

inductive manager_run ::
  "('w, 'x) sysio_scheme \<Rightarrow> (string \<Rightarrow> config_source) \<Rightarrow> 'w manager \<Rightarrow> 'w \<Rightarrow> 'w manager \<Rightarrow> 'w \<Rightarrow> bool"
  for K files m w where
  run_init: "manager_run K files m w m w"
| run_load: "manager_run K files m w m1 w1 \<Longrightarrow> device_manager_load K files ok m1 f w1 = Some (r, m2, w2)
    \<Longrightarrow> manager_run K files m w m2 w2"
| run_register: "manager_run K files m w m1 w1 \<Longrightarrow> backend_context_init cfg = Inr c
    \<Longrightarrow> device_manager_register m1 cfg (Some (backend_ops K (type_of cfg))) (Some c) = (r, m2)
    \<Longrightarrow> manager_run K files m w m2 w1"
| run_close_all: "manager_run K files m w m1 w1 \<Longrightarrow> device_manager_close_all m1 w1 = Some (r, m2, w2)
    \<Longrightarrow> manager_run K files m w m2 w2"
| run_destroy: "manager_run K files m w m1 w1 \<Longrightarrow> device_manager_destroy m1 w1 = Some (m2, w2)
    \<Longrightarrow> manager_run K files m w m2 w2"
| run_device: "manager_run K files m w m1 w1 \<Longrightarrow> device_manager_get m1 i = Some i
    \<Longrightarrow> device_run (devices m1 ! i) w1 d w2 \<Longrightarrow> manager_run K files m w (m1\<lparr>devices := (devices m1)[i := d]\<rparr>) w2"

lemma device_steps_config:
  "device_open d w = Some ((r, d'), w') \<Longrightarrow> config d' = config d"
  "device_read d b n w = Some ((rb, d'), w') \<Longrightarrow> config d' = config d"
  "device_write d bs w = Some ((r, d'), w') \<Longrightarrow> config d' = config d"
  "device_control d q w = Some ((r, d'), w') \<Longrightarrow> config d' = config d"
  "device_close d w = Some ((r, d'), w') \<Longrightarrow> config d' = config d"
  by (auto simp: device_op_defs device_failure_def device_result_def Let_def
      split: option.split_asm if_split_asm Option.bind_split_asm sum.split_asm)

lemma device_run_config: "device_run d w d' w' \<Longrightarrow> config d' = config d"
  by (induction rule: device_run.induct) (auto dest: device_steps_config)

lemma manager_register_table:
  assumes "table_ok K m" "table_balanced fds base m w" "backend_context_init cfg = Inr c"
    and "device_manager_register m cfg (Some (backend_ops K (type_of cfg))) (Some c) = (r, m')"
  shows "table_ok K m' \<and> table_balanced fds base m' w"
proof (cases "r = Inr ()")
  case True
  let ?d = "device_init cfg (Some (backend_ops K (type_of cfg))) (Some c)"
  have m': "m' = m\<lparr>devices := devices m @ [?d]\<rparr>" "device_config_validate cfg = Inr ()"
      "name_of cfg \<notin> (name_of \<circ> config) ` set (devices m)" "length (devices m) \<noteq> 16"
    using assms(4) True by (auto simp: device_manager_register_def device_manager_find_def find_slot_None split: if_split_asm)
  have "context_type c = type_of cfg \<and> context_fd c = -1"
    using backend_context_init_ok [OF m'(2)] assms(3) by (metis sum.inject(2))
  then have "backend_device K ?d" "own_fds (priv ?d) = {}" "config ?d = cfg"
    using bk.init_safe [of "type_of cfg" cfg "Some c" K] by (auto simp: backend_device_safe device_init_def)
  then show ?thesis using assms(1,2) m' separate_at [of base "devices m" ?d "[]"]
    by (auto simp: table_ok_def manager_ok_def table_balanced_def)
next
  case False
  then show ?thesis using assms by (auto simp: device_manager_register_def split: if_split_asm)
qed

lemma manager_load_table:
  assumes K: "fd_table K fds" and "table_ok K m" "table_balanced fds base m w"
    and "device_manager_load K files ok m f w = Some (r, m', w')"
  shows "(r = Inr () \<and> device_config_load files f = Inr (map config (devices m')) \<and> table_ok K m'
        \<and> list_all (\<lambda>d. \<not> opened d \<and> own_fds (priv d) = {}) (devices m') \<and> fds w' = base)
    \<or> ((\<exists>e. r = Inl e) \<and> m' = m \<and> fds w' = fds w)"
proof (cases "list_ex opened (devices m) \<or> (\<exists>e. device_config_load files f = Inl e)")
  case True
  then show ?thesis using assms(4) by (auto simp: device_manager_load_def split: if_split_asm)
next
  case False
  then obtain cfgs where cfgs: "device_config_load files f = Inr cfgs" by (cases "device_config_load files f") auto
  obtain l w1 where l: "load_devices K ok cfgs device_manager_init w = Some (l, w1)"
    using assms(4) False by (auto simp: device_manager_load_def cfgs split: Option.bind_split_asm)
  have load: "fds w1 = fds w \<and> (\<forall>m'. l = Inr m' \<longrightarrow> map config (devices m') = cfgs
      \<and> list_all (backend_device K) (devices m') \<and> list_all (\<lambda>d. \<not> opened d \<and> own_fds (priv d) = {}) (devices m'))"
    using load_devices_all [OF K l] by (simp add: device_manager_init_def)
  show ?thesis
  proof (cases l)
    case (Inl e)
    then show ?thesis using assms(4) False load by (auto simp: device_manager_load_def cfgs l)
  next
    case (Inr t)
    obtain m0 where d: "device_manager_destroy m w1 = Some (m0, w')" "r = Inr ()" "m' = t"
      using assms(4) False by (auto simp: device_manager_load_def cfgs l Inr split: Option.bind_split_asm)
    have "fds w' = base"
      using destroy_balanced_table [OF K assms(2) _ d(1)] assms(3) load by (auto simp: table_balanced_def)
    moreover have "manager_ok t"
      using device_config_load_valid [OF cfgs] load Inr
      by (auto simp: manager_ok_def list_all_iff map_map [symmetric] simp del: map_map)
    ultimately show ?thesis using load Inr d cfgs by (auto simp: table_ok_def)
  qed
qed


lemma manager_close_all_table:
  assumes K: "fd_table K fds" and "table_ok K m" "table_balanced fds base m w"
    and "device_manager_close_all m w = Some (r, m', w')"
  shows "r = Inr () \<and> table_ok K m' \<and> table_balanced fds base m' w' \<and> map config (devices m') = map config (devices m)
    \<and> list_all (\<lambda>d. \<not> opened d) (devices m') \<and> fds w' = base"
proof -
  obtain ds s where c: "close_devices (devices m) 0 w = Some (ds, s, w')"
      "r = (if s \<noteq> 0 then Inl s else Inr ())" "m' = m\<lparr>devices := ds\<rparr>"
    using assms(4) by (auto simp: device_manager_close_all_def split: Option.bind_split_asm)
  have all: "list_all (backend_device K) ds \<and> map config ds = map config (devices m) \<and> s = 0
      \<and> list_all (\<lambda>d. \<not> opened d) ds \<and> owned ds = {} \<and> separate base ds \<and> fds w' = base"
    using close_devices_all [OF K c(1), of base] assms(2,3) by (simp add: table_ok_def table_balanced_def)
  have "manager_ok m'"
  proof -
    have same: "map config ds = map config (devices m)" using all by simp
    from same have "map name_of (map config ds) = map name_of (map config (devices m))" by simp
    moreover from same have "length ds = length (devices m)" by (rule map_eq_imp_length_eq)
    moreover from same have "config ` set ds = config ` set (devices m)" by (metis set_map)
    ultimately show ?thesis using assms(2) c(3)
      by (auto simp: manager_ok_def table_ok_def list_all_iff) (metis (no_types, lifting) image_iff)
  qed
  with all c show ?thesis by (simp add: table_ok_def table_balanced_def)
qed

lemma manager_run_table:
  assumes "manager_run K files m w m' w'" and K: "fd_table K fds" and "table_ok K m" "table_balanced fds base m w"
  shows "table_ok K m' \<and> table_balanced fds base m' w'"
  using assms(1)
proof (induction rule: manager_run.induct)
  case run_init
  show ?case using assms(3,4) by simp
next
  case (run_load m1 w1 ok f r m2 w2)
  then have m1: "table_ok K m1" "table_balanced fds base m1 w1" by simp_all
  have "owned (devices m2) = {}" if "list_all (\<lambda>d. \<not> opened d \<and> own_fds (priv d) = {}) (devices m2)"
    using that by (auto simp: owned_def list_all_iff)
  with manager_load_table [OF K m1 run_load.hyps(2)] m1 separate_none show ?case
    by (auto simp: table_balanced_def)
next
  case (run_register m1 w1 cfg c r m2)
  then show ?case using manager_register_table [of K m1 fds base w1 cfg c r m2] by simp
next
  case (run_close_all m1 w1 r m2 w2)
  then show ?case using manager_close_all_table [OF K] by blast
next
  case (run_destroy m1 w1 m2 w2)
  then show ?case using destroy_balanced_table [OF K, of m1 base w1 m2 w2] by (simp add: init_table)
next
  case (run_device m1 w1 i d w2)
  then have i: "i < length (devices m1)" by (simp add: device_manager_get_def split: if_split_asm)
  have cfg: "config d = config (devices m1 ! i)" by (rule device_run_config [OF run_device.hyps(3)])
  have safe: "bk.safe TYPE('b) K (type_of (config d)) (devices m1 ! i)"
    using run_device.IH i cfg by (simp add: table_ok_def list_all_length backend_device_safe)
  have "backend_device K d" if "bk.balanced fds b (devices m1 ! i) w1" for b
    using bk.run_balanced [OF run_device.hyps(3) K safe that] by (simp add: backend_device_safe)
  moreover have "bk.balanced fds b d w2" if "bk.balanced fds b (devices m1 ! i) w1" for b
    using bk.run_balanced [OF run_device.hyps(3) K safe that] by simp
  moreover have "\<exists>b. bk.balanced fds b (devices m1 ! i) w1"
  proof -
    have "own_fds (priv (devices m1 ! i)) \<subseteq> fds w1"
      using run_device.IH i by (auto simp: table_balanced_def owned_def)
    then show ?thesis by (intro exI [of _ "fds w1 - own_fds (priv (devices m1 ! i))"]) (auto simp: bk.balanced_def)
  qed
  ultimately show ?case using table_update [OF _ _ i, of K fds base w1 d w2] run_device.IH cfg by blast
qed


lemma load_devices_error:
  "load_devices K ok cfgs m w = Some (Inl e, w') \<Longrightarrow> list_all (\<lambda>c. device_config_validate c = Inr ()) cfgs \<Longrightarrow> e = ENOMEM"
proof (induction cfgs arbitrary: m)
  case (Cons cfg cfgs)
  obtain x where "backend_context_init cfg = Inr x" using Cons.prems(2) by (auto elim: backend_context_init_ok)
  with Cons show ?case
    by (auto simp: device_backend_init_def split: sum.split_asm if_split_asm Option.bind_split_asm)
qed auto

section \<open>Properties of the device table\<close>

text \<open>C6. Starting from an empty table, any sequence of loads, registrations and calls on the
  devices leaves a table of at most 16 devices with different names and valid configurations, each
  in a consistent state.  The open descriptors of the process are those from the start and one for
  each open device, all different; closing all devices succeeds, leaves none of them open and, like
  destroying the table, brings back exactly the descriptors from the start.\<close>
theorem device_table_invariant:
  assumes "fd_table K fds" and "manager_run K files device_manager_init w m w'"
  shows "length (devices m) \<le> 16 \<and> distinct (map (name_of \<circ> config) (devices m))
    \<and> list_all (\<lambda>d. device_config_validate (config d) = Inr () \<and> device_ok d) (devices m)
    \<and> separate (fds w) (devices m) \<and> fds w' = fds w \<union> owned (devices m)
    \<and> (\<forall>r m2 w2. device_manager_close_all m w' = Some (r, m2, w2) \<longrightarrow>
        r = Inr () \<and> list_all (\<lambda>d. \<not> opened d) (devices m2) \<and> fds w2 = fds w)
    \<and> (\<forall>m2 w2. device_manager_destroy m w' = Some (m2, w2) \<longrightarrow> devices m2 = [] \<and> fds w2 = fds w)"
proof -
  note t = manager_run_table [OF assms(2,1) init_table(1) iffD2 [OF init_table(2) refl]]
  note close = manager_close_all_table [OF assms(1) conjunct1 [OF t] conjunct2 [OF t]]
  note destroy = destroy_balanced_table [OF assms(1) conjunct1 [OF t] conjunct2 [OF t]]
  have "list_all (\<lambda>d. device_config_validate (config d) = Inr () \<and> device_ok d) (devices m)"
    using t by (auto simp: table_ok_def manager_ok_def backend_device_def list_all_iff)
  moreover have "devices m2 = [] \<and> fds w2 = fds w" if "device_manager_destroy m w' = Some (m2, w2)" for m2 w2
    using destroy [OF that] by (simp add: device_manager_init_def)
  moreover have "r = Inr () \<and> list_all (\<lambda>d. \<not> opened d) (devices m2) \<and> fds w2 = fds w"
    if "device_manager_close_all m w' = Some (r, m2, w2)" for r m2 w2
    using close [OF that] by blast
  ultimately show ?thesis using t by (simp add: table_ok_def manager_ok_def table_balanced_def)
qed

definition demo_source :: "string \<Rightarrow> config_source" where
  "demo_source f = Config_file (config_file_text demo_configs) False None"

lemma demo_load:
  obtains m where "device_manager_load demo_files demo_source (\<lambda>_. True) device_manager_init (Some ''dev.conf'') ({0}, [])
    = Some (Inr (), m, ({0}, []))" and "length (devices m) = 2"
proof -
  have "map_option (\<lambda>(r, m, w). (r, length (devices m), w))
      (device_manager_load demo_files demo_source (\<lambda>_. True) device_manager_init (Some ''dev.conf'') ({0}, []))
    = Some (Inr (), 2, ({0}, []))" by code_simp
  then show ?thesis using that by auto
qed

theorem device_table_invariant_witness:
  "\<exists>m w'. manager_run demo_files demo_source device_manager_init ({0}, []) m w' \<and> length (devices m) = 2 \<and> fst w' = {0} \<union> owned (devices m)"
proof -
  obtain m where m: "device_manager_load demo_files demo_source (\<lambda>_. True) device_manager_init (Some ''dev.conf'') ({0}, [])
    = Some (Inr (), m, ({0}, []))" "length (devices m) = 2" by (rule demo_load)
  have run: "manager_run demo_files demo_source device_manager_init ({0}, []) m ({0}, [])"
    by (rule run_load [OF run_init m(1)])
  have "fst ({0 :: int}, [] :: byte list) = fst ({0 :: int}, [] :: byte list) \<union> owned (devices m)"
    using device_table_invariant [OF demo_files_laws(1) run] by blast
  with run m(2) show ?thesis by (intro exI [of _ m] exI [of _ "({0}, [])"]) simp
qed

text \<open>C29. Loading a device file is all or nothing.  When it succeeds, no device was open, the table
  holds exactly the devices of the file in its order, all closed, and nothing else is left open.  When it
  fails, the table and the open descriptors are as before, and the error says why: \<^verbatim>\<open>EBUSY\<close> when a
  device is open, the error of reading the file, or \<^verbatim>\<open>ENOMEM\<close>.\<close>
theorem device_manager_load_atomic:
  assumes "fd_table K fds" and "manager_run K files device_manager_init w m w1"
    and "device_manager_load K files ok m f w1 = Some (r, m', w2)"
  shows "case r of
      Inr _ \<Rightarrow> list_all (\<lambda>d. \<not> opened d) (devices m) \<and> device_config_load files f = Inr (map config (devices m'))
        \<and> list_all (\<lambda>d. \<not> opened d) (devices m') \<and> fds w2 = fds w
    | Inl e \<Rightarrow> m' = m \<and> fds w2 = fds w1
        \<and> (e = EBUSY \<and> list_ex opened (devices m) \<or> device_config_load files f = Inl e \<or> e = ENOMEM)"
proof -
  note t = manager_run_table [OF assms(2,1) init_table(1) iffD2 [OF init_table(2) refl]]
  note load = manager_load_table [OF assms(1) conjunct1 [OF t] conjunct2 [OF t] assms(3)]
  show ?thesis
  proof (cases r)
    case (Inr u)
    then have "\<not> list_ex opened (devices m)" using assms(3) by (auto simp: device_manager_load_def split: if_split_asm)
    with Inr load show ?thesis by (auto simp: list_all_iff list_ex_iff)
  next
    case (Inl e)
    have "e = ENOMEM" if "\<not> list_ex opened (devices m)" "device_config_load files f = Inr cfgs" for cfgs
      using assms(3) that device_config_load_valid [OF that(2)] Inl
      by (auto simp: device_manager_load_def dest: load_devices_error split: Option.bind_split_asm sum.split_asm)
    moreover have "e = EBUSY" if "list_ex opened (devices m)" using assms(3) that Inl by (simp add: device_manager_load_def)
    moreover have "e = e'" if "\<not> list_ex opened (devices m)" "device_config_load files f = Inl e'" for e'
      using assms(3) that Inl by (simp add: device_manager_load_def)
    ultimately have "e = EBUSY \<and> list_ex opened (devices m) \<or> device_config_load files f = Inl e \<or> e = ENOMEM"
      by (cases "device_config_load files f") blast+
    with Inl load show ?thesis by simp
  qed
qed

theorem device_manager_load_atomic_witness:
  "\<exists>m. device_manager_load demo_files demo_source (\<lambda>_. True) device_manager_init (Some ''dev.conf'') ({0}, [])
     = Some (Inr (), m, ({0}, [])) \<and> map config (devices m) = demo_configs"
proof -
  obtain m where m: "device_manager_load demo_files demo_source (\<lambda>_. True) device_manager_init (Some ''dev.conf'') ({0}, [])
    = Some (Inr (), m, ({0}, []))" by (rule demo_load)
  have loads: "device_config_load demo_source (Some ''dev.conf'') = Inr demo_configs" by code_simp
  from device_manager_load_atomic [OF demo_files_laws(1) run_init m] m loads show ?thesis by auto
qed

text \<open>Registering a device under a new name in a table with a free slot makes the name find
  the new device and changes no other lookup; a failed registration changes nothing, with
  \<^verbatim>\<open>EINVAL\<close> for an invalid configuration or incomplete operations, \<^verbatim>\<open>EEXIST\<close> for a name in use and
  \<^verbatim>\<open>ENOSPC\<close> for a full table.\<close>
theorem device_manager_register_find:
  "(let (r, m') = device_manager_register m cfg os c in
    (case r of
       Inr _ \<Rightarrow> device_manager_find m' (Some (name_of cfg)) = Some (length (devices m))
         \<and> devices m' ! length (devices m) = device_init cfg os c
         \<and> (\<forall>n. n \<noteq> name_of cfg \<longrightarrow> device_manager_find m' (Some n) = device_manager_find m (Some n))
         \<and> (\<forall>i. i < length (devices m) \<longrightarrow> devices m' ! i = devices m ! i)
     | Inl e \<Rightarrow> m' = m \<and> (e = EINVAL \<and> (device_config_validate cfg \<noteq> Inr () \<or> Option.bind os op_open = None \<or> Option.bind os op_close = None)
         \<or> e = EEXIST \<and> (\<exists>i. device_manager_find m (Some (name_of cfg)) = Some i)
         \<or> e = ENOSPC \<and> length (devices m) = 16)))"
proof -
  have app: "find_slot i n (ds @ [d]) = (case find_slot i n ds of
      None \<Rightarrow> if name_of (config d) = n then Some (i + length ds) else None | Some k \<Rightarrow> Some k)" for i n ds d
    by (induction i n ds rule: find_slot.induct) (auto split: option.split)
  have cfg: "config (device_init cfg os c) = cfg" by (simp add: device_init_def)
  show ?thesis
    by (auto simp: device_manager_register_def device_manager_find_def app cfg nth_append split: option.split)
qed

theorem device_manager_register_find_witness:
  "\<exists>m'. device_manager_register device_manager_init (hd demo_configs) (Some (uart_ops demo_files)) (Some (Uart_context serial_port_init))
      = (Inr (), m') \<and> device_manager_find m' (Some ''console'') = Some 0"
proof -
  let ?r = "device_manager_register device_manager_init (hd demo_configs) (Some (uart_ops demo_files)) (Some (Uart_context serial_port_init))"
  have valid: "device_config_validate (hd demo_configs) = Inr ()" "name_of (hd demo_configs) = ''console''" by code_simp+
  have ok: "fst ?r = Inr ()"
    by (simp add: device_manager_register_def valid uart_ops_def device_manager_find_def device_manager_init_def)
  from device_manager_register_find [where m = device_manager_init and cfg = "hd demo_configs"
      and os = "Some (uart_ops demo_files)" and c = "Some (Uart_context serial_port_init)"] ok valid(2)
  show ?thesis by (cases ?r) (auto simp: device_manager_init_def)
qed

end
