(* ===== verification/Uart_Protocol.thy ===== *)
theory Uart_Protocol
  imports Device_Backend
begin

text \<open>
  The host side of the line protocol spoken over a UART device, \<^verbatim>\<open>src/uart_protocol.c\<close>: requests,
  validation of replies, and the request loop with its deadline.  The reply buffer is a parameter
  and part of the result (\<open>None\<close> is the NULL pointer).
\<close>

abbreviation (input) UART_PROTOCOL_LINE_SIZE :: nat where "UART_PROTOCOL_LINE_SIZE \<equiv> 128"

section \<open>Requests and replies\<close>

datatype UartRequest = UART_REQUEST_PING | UART_REQUEST_STATUS | UART_REQUEST_LED_ON | UART_REQUEST_LED_OFF
  | UART_REQUEST_HEARTBEAT

fun parse_digits :: "uint32 \<Rightarrow> string \<Rightarrow> uint32 option" where
  "parse_digits result [] = Some result"
| "parse_digits result (c # cs) =
     (if ord_of c < 48 \<or> ord_of c > 57 then None
      else let digit = of_nat (ord_of c - 48)
           in if result > (0xFFFFFFFF - digit) div 10 then None else parse_digits (result * 10 + digit) cs)"

definition parse_unsigned :: "string \<Rightarrow> uint32 option" where
  "parse_unsigned s = (if s = [] then None else parse_digits 0 s)"

text \<open>\<^verbatim>\<open>strncmp\<close> with the length of \<open>p\<close>.\<close>

definition starts :: "string \<Rightarrow> string \<Rightarrow> bool" where
  "starts p s \<longleftrightarrow> take (length p) s = p"

text \<open>The request and the heartbeat number, 0 for the other requests.\<close>

definition parse_request :: "string \<Rightarrow> int + UartRequest \<times> uint32" where
  "parse_request s =
     (if s = ''PING'' then Inr (UART_REQUEST_PING, 0)
      else if s = ''STATUS'' then Inr (UART_REQUEST_STATUS, 0)
      else if s = ''LED ON'' then Inr (UART_REQUEST_LED_ON, 0)
      else if s = ''LED OFF'' then Inr (UART_REQUEST_LED_OFF, 0)
      else if starts ''HEARTBEAT '' s then
        (case parse_unsigned (drop 10 s) of Some h \<Rightarrow> Inr (UART_REQUEST_HEARTBEAT, h) | None \<Rightarrow> Inl EINVAL)
      else Inl EINVAL)"

definition validate_reply :: "UartRequest \<Rightarrow> uint32 \<Rightarrow> string \<Rightarrow> bool" where
  "validate_reply request heartbeat reply = (case request of
     UART_REQUEST_PING \<Rightarrow> reply = ''PONG''
   | UART_REQUEST_STATUS \<Rightarrow> length reply \<ge> 24 \<and> starts ''STATUS LED='' reply
       \<and> (reply ! 11 = CHR ''0'' \<or> reply ! 11 = CHR ''1'') \<and> starts '' UPTIME_MS='' (drop 12 reply)
       \<and> parse_unsigned (drop 23 reply) \<noteq> None
   | UART_REQUEST_LED_ON \<Rightarrow> reply = ''OK LED=1''
   | UART_REQUEST_LED_OFF \<Rightarrow> reply = ''OK LED=0''
   | UART_REQUEST_HEARTBEAT \<Rightarrow> starts ''OK HEARTBEAT='' reply \<and> parse_unsigned (drop 13 reply) = Some heartbeat)"

section \<open>The request\<close>

definition remaining_ms :: "('w, 'x) sysio_scheme \<Rightarrow> int \<Rightarrow> 'w \<Rightarrow> (int + int) \<times> 'w" where
  "remaining_ms K deadline w = (case monotonic_ms K w of
     (Inl e, w') \<Rightarrow> (Inl e, w')
   | (Inr now, w') \<Rightarrow>
       (let remaining = deadline - now
        in if remaining \<le> 0 then (Inl ETIMEDOUT, w')
           else (Inr (if remaining > INT_MAX then INT_MAX else remaining), w')))"

definition protocol_result :: "('c, 'w) Device \<Rightarrow> int + 'r \<Rightarrow> ('c, 'w) Device" where
  "protocol_result d r = d\<lparr>last_errno := (case r of Inl e \<Rightarrow> e | Inr _ \<Rightarrow> 0)\<rparr>"

text \<open>What one received byte does to the line read so far.\<close>

datatype line_step = More string bool | Whole string | Refuse int

definition reply_byte :: "byte \<Rightarrow> string \<Rightarrow> bool \<Rightarrow> line_step" where
  "reply_byte b line carriage_return =
     (if b = 0x0A then Whole line
      else if carriage_return then Refuse EPROTO
      else if b = 0x0D then More line True
      else if b < 0x20 \<or> b > 0x7E then Refuse EPROTO
      else if length line \<ge> UART_PROTOCOL_LINE_SIZE - 1 then Refuse EMSGSIZE
      else More (line @ [byte_char b]) False)"

partial_function (option) receive_loop ::
  "('w, 'x) sysio_scheme \<Rightarrow> int \<Rightarrow> string \<Rightarrow> bool \<Rightarrow> ('c, 'w) Device \<Rightarrow> 'w \<Rightarrow> (((int + string) \<times> ('c, 'w) Device) \<times> 'w) option" where
  "receive_loop K deadline line cr d w =
     (case remaining_ms K deadline w of
        (Inl e, w1) \<Rightarrow> Some ((Inl e, d), w1)
      | (Inr timeout, w1) \<Rightarrow> do {
          ((ready, d1), w2) \<leftarrow> device_control d (DEVICE_CONTROL_UART_WAIT (Some timeout)) w1;
          case ready of
            Inl e \<Rightarrow> Some ((Inl e, d1), w2)
          | Inr n \<Rightarrow>
              if n = 0 then Some ((Inl ETIMEDOUT, d1), w2)
              else do {
                ((result, d2), w3) \<leftarrow> device_read d1 True 1 w2;
                case result of
                  Inl e \<Rightarrow> if e = EAGAIN then receive_loop K deadline line cr d2 w3 else Some ((Inl e, d2), w3)
                | Inr bs \<Rightarrow>
                    (case bs of
                       [] \<Rightarrow> Some ((Inl EIO, d2\<lparr>dstate := DEVICE_ERROR\<rparr>), w3)
                     | b # _ \<Rightarrow>
                         (case reply_byte b line cr of
                            Whole s \<Rightarrow> Some ((Inr s, d2), w3)
                          | Refuse e \<Rightarrow> Some ((Inl e, d2), w3)
                          | More line' cr' \<Rightarrow> receive_loop K deadline line' cr' d2 w3)) } })"

declare receive_loop.simps [code]

text \<open>Sending the packet and receiving the line, with the deadline computed.\<close>

definition exchange ::
  "('w, 'x) sysio_scheme \<Rightarrow> int \<Rightarrow> byte list \<Rightarrow> ('c, 'w) Device \<Rightarrow> 'w \<Rightarrow> (((int + string) \<times> ('c, 'w) Device) \<times> 'w) option" where
  "exchange K deadline packet d w = do {
     ((flushed, d1), w1) \<leftarrow> device_control d DEVICE_CONTROL_UART_FLUSH w;
     case flushed of
       Inl e \<Rightarrow> Some ((Inl e, d1), w1)
     | Inr _ \<Rightarrow>
         (case remaining_ms K deadline w1 of
            (Inl e, w2) \<Rightarrow> Some ((Inl e, d1), w2)
          | (Inr timeout, w2) \<Rightarrow> do {
              ((written, d2), w3) \<leftarrow>
                device_control d1 (DEVICE_CONTROL_UART_WRITE_ALL (Some \<lparr>data = Some packet, timeout_ms = timeout\<rparr>)) w2;
              case written of
                Inl e \<Rightarrow> Some ((Inl e, d2), w3)
              | Inr _ \<Rightarrow> do {
                  ((line, d3), w4) \<leftarrow> receive_loop K deadline [] False d2 w3;
                  case line of
                    Inl e \<Rightarrow> Some ((Inl e, d3), w4)
                  | Inr s \<Rightarrow>
                      (case remaining_ms K deadline w4 of
                         (Inl e, w5) \<Rightarrow> Some ((Inl e, d3), w5)
                       | (Inr _, w5) \<Rightarrow> Some ((Inr s, d3), w5)) } }) }"

text \<open>The body of \<^verbatim>\<open>uart_protocol_request\<close>; every return goes through \<^verbatim>\<open>protocol_result\<close>.\<close>

definition request_body ::
  "('w, 'x) sysio_scheme \<Rightarrow> ('c, 'w) Device \<Rightarrow> string option \<Rightarrow> string option \<Rightarrow> nat \<Rightarrow> int \<Rightarrow> 'w
     \<Rightarrow> ((((int + unit) \<times> string option) \<times> ('c, 'w) Device) \<times> 'w) option" where
  "request_body K d request reply n timeout w =
     (if type_of (config d) \<noteq> DEVICE_UART \<or> request = None \<or> reply = None \<or> n = 0 \<or> timeout < 0
      then Some (((Inl EINVAL, reply), d), w)
      else if enabled (config d) = 0 then Some (((Inl EACCES, reply), d), w)
      else if \<not> opened d then Some (((Inl EBADF, reply), d), w)
      else if length (the request) \<ge> UART_PROTOCOL_LINE_SIZE then Some (((Inl EMSGSIZE, reply), d), w)
      else case parse_request (the request) of
        Inl e \<Rightarrow> Some (((Inl e, reply), d), w)
      | Inr (request_type, heartbeat) \<Rightarrow>
          if timeout = 0 then Some (((Inl ETIMEDOUT, Some []), d), w)
          else case monotonic_ms K w of
            (Inl e, w1) \<Rightarrow> Some (((Inl e, Some []), d), w1)
          | (Inr now, w1) \<Rightarrow> do {
              ((line, d1), w2) \<leftarrow> exchange K (now + timeout) (map char_byte (the request) @ [0x0A]) d w1;
              case line of
                Inl e \<Rightarrow> Some (((Inl e, Some []), d1), w2)
              | Inr s \<Rightarrow>
                  if \<not> validate_reply request_type heartbeat s then Some (((Inl EPROTO, Some []), d1), w2)
                  else if length s \<ge> n then Some (((Inl EMSGSIZE, Some []), d1), w2)
                  else Some (((Inr (), Some s), d1), w2) })"

definition uart_protocol_request ::
  "('w, 'x) sysio_scheme \<Rightarrow> ('c, 'w) Device \<Rightarrow> string option \<Rightarrow> string option \<Rightarrow> nat \<Rightarrow> int \<Rightarrow> 'w
     \<Rightarrow> ((((int + unit) \<times> string option) \<times> ('c, 'w) Device) \<times> 'w) option" where
  "uart_protocol_request K d request reply n timeout w = do {
     (((r, reply'), d'), w') \<leftarrow> request_body K d request reply n timeout w;
     Some (((r, reply'), protocol_result d' r), w') }"

section \<open>Numbers\<close>

lemma digit_test: "(ord_of c < 48 \<or> ord_of c > 57) = (\<not> isdigit c)"
  by (auto simp: isdigit_def)

lemma overflow_test:
  fixes r :: uint32
  assumes "k \<le> 9"
  shows "r > (0xFFFFFFFF - of_nat k) div 10 \<longleftrightarrow> unat r * 10 + k > 0xFFFFFFFF"
proof -
  have k: "unat (of_nat k :: uint32) = k" using assms by (simp add: unat_of_nat)
  have "unat (0xFFFFFFFF - of_nat k :: uint32) = 0xFFFFFFFF - k"
    using assms k by (subst unat_sub) (simp_all add: word_le_nat_alt)
  then have "unat ((0xFFFFFFFF - of_nat k) div 10 :: uint32) = (0xFFFFFFFF - k) div 10" by (simp add: unat_div)
  then show ?thesis using assms by (simp add: word_less_nat_alt) linarith
qed


lemma foldl_digits_mono: "n \<le> foldl (\<lambda>n c. 10 * n + digit_val c) n s"
proof (induction s arbitrary: n)
  case (Cons c s)
  have "n \<le> 10 * n + digit_val c" by simp
  also have "\<dots> \<le> foldl (\<lambda>n c. 10 * n + digit_val c) (10 * n + digit_val c) s" by (rule Cons.IH)
  finally show ?case by simp
qed simp

lemma parse_digits_exact:
  "parse_digits r s = (if (\<forall>c\<in>set s. isdigit c) \<and> foldl (\<lambda>n c. 10 * n + digit_val c) (unat r) s < 2 ^ 32
     then Some (of_nat (foldl (\<lambda>n c. 10 * n + digit_val c) (unat r) s)) else None)"
proof (induction s arbitrary: r)
  case Nil
  show ?case using unsigned_less [of r, where 'a = nat] by simp
next
  case (Cons c s)
  let ?k = "ord_of c - 48" and ?f = "foldl (\<lambda>n c. 10 * n + digit_val c)"
  show ?case
  proof (cases "isdigit c")
    case True
    have k: "?k \<le> 9" "digit_val c = ?k" using digit_val_le [OF True] by (simp_all add: digit_val_def)
    show ?thesis
    proof (cases "unat r * 10 + ?k > 0xFFFFFFFF")
      case over: True
      have "10 * unat r + digit_val c \<le> ?f (10 * unat r + digit_val c) s" by (rule foldl_digits_mono)
      then have "\<not> ?f (unat r) (c # s) < 2 ^ 32" using over k by simp
      then show ?thesis using over True overflow_test [OF k(1), of r] by (simp add: digit_test Let_def)
    next
      case False
      then have "unat (r * 10 + of_nat ?k) = 10 * unat r + digit_val c"
        using k by (simp add: unat_word_ariths unat_of_nat)
      with False True k overflow_test [OF k(1), of r] Cons.IH [of "r * 10 + of_nat ?k"]
      show ?thesis by (simp add: digit_test Let_def)
    qed
  qed (simp add: digit_test)
qed

lemma parse_unsigned_exact:
  "parse_unsigned s = (if s \<noteq> [] \<and> (\<forall>c\<in>set s. isdigit c) \<and> dec_value s < 2 ^ 32 then Some (of_nat (dec_value s)) else None)"
  using parse_digits_exact [of 0 s] by (simp add: parse_unsigned_def dec_value_def)

lemma parse_unsigned_dec: "parse_unsigned (dec (unat v)) = Some v"
  using unsigned_less [of v, where 'a = nat] dec_isdigit [of "unat v"] by (simp add: parse_unsigned_exact)


section \<open>The request returns\<close>

text \<open>The deadline ends the loop: the clock advances, reading does not turn it back, and no call is
  interrupted for ever.\<close>

definition clock_runs :: "('w, 'x) sysio_scheme \<Rightarrow> ('w \<Rightarrow> nat) \<Rightarrow> bool" where
  "clock_runs K time \<longleftrightarrow> ticking K time \<and> sys_settling K
     \<and> (\<forall>fd n w r w'. sys_read K fd n w = (r, w') \<longrightarrow> time w \<le> time w')"

definition uart_device :: "('w, 'x) sysio_scheme \<Rightarrow> (backend_context, 'w) Device \<Rightarrow> bool" where
  "uart_device K d \<longleftrightarrow> ops d = Some (uart_ops K) \<and> context_for DEVICE_UART (config d) (priv d)"

lemma serial_port_read_time:
  assumes "clock_runs K time" "serial_port_read K port n w = Some (r, w')"
  shows "time w \<le> time w'"
proof (cases "port_fd port < 0")
  case False
  have mono: "time w1 \<le> time w2" if "sys_read K (port_fd port) n w1 = (x, w2)" for w1 x w2
    using assms(1) that unfolding clock_runs_def by blast
  have "retry (sys_read K (port_fd port) n) w = Some (r, w')"
    using assms(2) False by (simp add: serial_port_read_def)
  then obtain w1 where "time w \<le> time w1" "sys_read K (port_fd port) n w1 = (r, w')"
    using retry_reaches [where P = "\<lambda>w1. time w \<le> time w1", of "sys_read K (port_fd port) n" w r w'] mono
    by (meson le_trans order_refl)
  then show ?thesis using mono by (meson le_trans)
qed (use assms in \<open>simp add: serial_port_read_def\<close>)

lemma device_result_keeps [simp]:
  "config (device_result d r) = config d" "ops (device_result d r) = ops d" "priv (device_result d r) = priv d"
  "opened (device_result d r) = opened d"
  by (simp_all add: device_result_def Let_def split: sum.split)

lemma uart_context_keeps:
  "uart_control K q cfg c w = Some (r, c', w') \<Longrightarrow> c' = c" "uart_read K n cfg c w = Some (r1, c', w') \<Longrightarrow> c' = c"
  by (auto simp: uart_control_def uart_read_def split: case_splits)

lemma uart_device_keeps:
  assumes "uart_device K d"
  shows "device_control d q w = Some ((r, d'), w') \<Longrightarrow> uart_device K d' \<and> priv d' = priv d \<and> config d' = config d \<and> opened d' = opened d"
    and "device_read d b n w = Some ((r1, d'), w') \<Longrightarrow> uart_device K d' \<and> priv d' = priv d \<and> config d' = config d \<and> opened d' = opened d"
  using assms
  by (auto simp: uart_device_def device_control_def device_read_def device_failure_def uart_ops_def
      dest: uart_context_keeps split: option.split_asm if_split_asm Option.bind_split_asm)

lemma uart_control_returns:
  assumes "clock_runs K time" "context_for DEVICE_UART cfg c" "\<forall>t. q = DEVICE_CONTROL_UART_WAIT (Some t) \<longrightarrow> t \<noteq> 0"
  shows "\<exists>r w'. uart_control K q cfg c w = Some (r, c, w')"
proof -
  have K: "ticking K time" "sys_settling K" using assms(1) by (simp_all add: clock_runs_def)
  obtain port where c: "c = Some (Uart_context port)" using assms(2) by (auto elim: context_cases)
  have wait: "\<exists>r w'. serial_port_wait_readable K port t w = Some (r, w')" if "t \<noteq> 0" for t
    using poll_fd_returns [OF K(1) that] by (simp add: serial_port_wait_readable_def)
  have flush: "\<exists>r w'. serial_port_flush_input K port w = Some (r, w')"
    using sys_settling_retry(3) [OF K(2), of "port_fd port" 0 w]
    by (auto simp: serial_port_flush_input_def split: sum.split)
  show ?thesis
  proof (cases q)
    case (DEVICE_CONTROL_UART_WAIT x)
    then show ?thesis using wait [of "the x"] assms(3) by (cases x) (auto simp: uart_control_def c)
  next
    case (DEVICE_CONTROL_UART_WRITE_ALL x)
    then show ?thesis using write_all_returns [OF K, of port "data (the x)" "timeout_ms (the x)" w]
      by (cases x) (auto simp: uart_control_def c)
  qed (use flush in \<open>auto simp: uart_control_def c\<close>)
qed

lemma uart_device_returns:
  assumes "clock_runs K time" "uart_device K d"
  shows "\<forall>t. q = DEVICE_CONTROL_UART_WAIT (Some t) \<longrightarrow> t \<noteq> 0 \<Longrightarrow> \<exists>r d' w'. device_control d q w = Some ((r, d'), w')"
    and "\<exists>r d' w'. device_read d b n w = Some ((r, d'), w')"
proof -
  have dev: "ops d = Some (uart_ops K)" "context_for DEVICE_UART (config d) (priv d)"
    using assms(2) by (simp_all add: uart_device_def)
  show "\<exists>r d' w'. device_control d q w = Some ((r, d'), w')"
    if q: "\<forall>t. q = DEVICE_CONTROL_UART_WAIT (Some t) \<longrightarrow> t \<noteq> 0"
    using uart_control_returns [OF assms(1) dev(2) q, of w] dev(1)
    by (auto simp: device_control_def device_failure_def uart_ops_def split: option.split)
  obtain port where c: "priv d = Some (Uart_context port)" using dev(2) by (auto elim: context_cases)
  have "\<exists>r w'. serial_port_read K port n w = Some (r, w')"
    using assms(1) sys_settling_retry(1) by (auto simp: serial_port_read_def clock_runs_def)
  then show "\<exists>r d' w'. device_read d b n w = Some ((r, d'), w')"
    using dev(1) c by (auto simp: device_read_def device_failure_def uart_ops_def uart_read_def split: option.split)
qed

lemma uart_device_time:
  assumes K: "clock_runs K time" and "uart_device K d"
  shows "device_control d (DEVICE_CONTROL_UART_WAIT (Some t)) w = Some ((r, d'), w') \<Longrightarrow> time w \<le> time w'"
    and "device_read d b n w = Some ((rb, d'), w') \<Longrightarrow> time w \<le> time w'"
proof -
  note quiet = ticking_quiet [of K time "time w"]
  show "device_control d (DEVICE_CONTROL_UART_WAIT (Some t)) w = Some ((r, d'), w') \<Longrightarrow> time w \<le> time w'"
    using assms poll_fd_quiet [OF _ quiet, of _ POLLIN t w] unfolding clock_runs_def
    by (auto simp: device_control_def device_failure_def uart_ops_def uart_control_def uart_device_def
        serial_port_wait_readable_def split: case_splits)
  show "device_read d b n w = Some ((rb, d'), w') \<Longrightarrow> time w \<le> time w'"
    using assms(2) by (auto simp: device_read_def device_failure_def uart_ops_def uart_read_def uart_device_def
        dest: serial_port_read_time [OF K] split: case_splits)
qed

lemma receive_loop_returns:
  assumes "clock_runs K time"
  shows "uart_device K d \<Longrightarrow> \<exists>x. receive_loop K dl line cr d w = Some x"
proof (induction "nat (dl - int (time w))" arbitrary: w line cr d rule: less_induct)
  case less
  have tick: "ticking K time" using assms by (simp add: clock_runs_def)
  obtain a w1 where a: "monotonic_ms K w = (a, w1)" by (meson surj_pair)
  note now = ticking_monotonic [OF tick a]
  show ?case
  proof (cases "\<exists>t. remaining_ms K dl w = (Inr t, w1)")
    case False
    then have "\<exists>e. remaining_ms K dl w = (Inl e, w1)"
      by (auto simp: remaining_ms_def a Let_def split: sum.split if_split_asm)
    then show ?thesis by (subst receive_loop.simps) auto
  next
    case True
    then obtain t where t: "remaining_ms K dl w = (Inr t, w1)" by blast
    then have pos: "t \<noteq> 0" "dl - int (time w) > 0"
      using now by (auto simp: remaining_ms_def a Let_def split: sum.split_asm if_split_asm)
    obtain r d1 w2 where c: "device_control d (DEVICE_CONTROL_UART_WAIT (Some t)) w1 = Some ((r, d1), w2)"
      using uart_device_returns(1) [OF assms less.prems, of "DEVICE_CONTROL_UART_WAIT (Some t)" w1] pos(1) by auto
    have d1: "uart_device K d1" using uart_device_keeps(1) [OF less.prems c] by simp
    obtain rb d2 w3 where rd: "device_read d1 True 1 w2 = Some ((rb, d2), w3)"
      using uart_device_returns(2) [OF assms d1] by blast
    have d2: "uart_device K d2" using uart_device_keeps(2) [OF d1 rd] by simp
    have "time w < time w3"
      using now uart_device_time(1) [OF assms less.prems c] uart_device_time(2) [OF assms d1 rd] by simp
    then have "nat (dl - int (time w3)) < nat (dl - int (time w))" using pos(2) by linarith
    then have IH: "\<exists>x. receive_loop K dl l z d2 w3 = Some x" for l z using less.hyps d2 by blast
    show ?thesis
      using IH by (subst receive_loop.simps) (auto simp: t c rd [unfolded One_nat_def] split: sum.split list.split line_step.split)
  qed
qed


section \<open>What a reply can be\<close>

definition printable :: "char \<Rightarrow> bool" where
  "printable c \<longleftrightarrow> 0x20 \<le> ord_of c \<and> ord_of c \<le> 0x7E"

definition reply_line :: "string \<Rightarrow> bool" where
  "reply_line s \<longleftrightarrow> length s < UART_PROTOCOL_LINE_SIZE \<and> list_all printable s"

lemma ord_of_byte_char: "ord_of (byte_char b) = unat b"
  using unat_byte_less [of b] by (simp add: byte_char_def ord_of_char_of)

lemma printable_byte: "printable (byte_char b) \<longleftrightarrow> \<not> (b < 0x20 \<or> b > 0x7E)"
  by (auto simp: printable_def ord_of_byte_char word_less_nat_alt word_le_nat_alt)

lemma reply_byte_line:
  "reply_line line \<Longrightarrow> reply_byte b line cr = More line' cr' \<Longrightarrow> reply_line line'"
  "reply_line line \<Longrightarrow> reply_byte b line cr = Whole s \<Longrightarrow> reply_line s"
  by (auto simp: reply_byte_def reply_line_def printable_byte split: if_split_asm)

definition same_port :: "('c, 'w) Device \<Rightarrow> ('c, 'w) Device \<Rightarrow> bool" where
  "same_port d d' \<longleftrightarrow> ops d' = ops d \<and> priv d' = priv d \<and> config d' = config d \<and> opened d' = opened d"

lemma same_port_simps [simp]:
  "same_port d d" "same_port d (d'\<lparr>dstate := s\<rparr>) = same_port d d'" "same_port d (d'\<lparr>last_errno := e\<rparr>) = same_port d d'"
  by (simp_all add: same_port_def)

lemma same_port_uart: "uart_device K d \<Longrightarrow> same_port d d' \<Longrightarrow> uart_device K d'"
  by (simp add: uart_device_def same_port_def)

lemma same_port_trans: "same_port d1 d2 \<Longrightarrow> same_port d2 d3 \<Longrightarrow> same_port d1 d3"
  by (simp add: same_port_def)

lemma uart_device_same:
  assumes "uart_device K d"
  shows "device_control d q w = Some ((r, d'), w') \<Longrightarrow> same_port d d'"
    and "device_read d b n w = Some ((r1, d'), w') \<Longrightarrow> same_port d d'"
  using uart_device_keeps [OF assms] assms by (auto simp: same_port_def uart_device_def)

lemma receive_loop_line:
  assumes "receive_loop K dl line cr d w = Some x" and "uart_device K d" "reply_line line"
  shows "same_port d (snd (fst x)) \<and> (\<forall>s. fst (fst x) = Inr s \<longrightarrow> reply_line s)"
proof -
  let ?P = "\<lambda>d x. same_port d (snd (fst x)) \<and> (\<forall>s. fst (fst x) = Inr s \<longrightarrow> reply_line s)"
  let ?Q = "\<lambda>K' (dl :: int) line (cr :: bool) d w x. K' = K \<longrightarrow> uart_device K d \<longrightarrow> reply_line line \<longrightarrow> ?P d x"
  have "?Q K dl line cr d w x"
  proof (rule receive_loop.raw_induct [where P = ?Q, OF _ assms(1)], goal_cases)
    case (1 loop K' dl line cr d w x)
    show ?case
    proof (intro impI)
      assume K': "K' = K" and d: "uart_device K d" and line: "reply_line line"
      obtain a w1 where a: "remaining_ms K dl w = (a, w1)" by (meson surj_pair)
      have step: "?P d y" if "loop K dl l z d2 v = Some y" "reply_line l" "same_port d d2" for l z d2 v y
        using 1(1) that same_port_uart [OF d that(3)] same_port_trans by blast
      show "?P d x"
      proof (cases a)
        case (Inl e)
        then show ?thesis using 1(2) by (auto simp: K' a)
      next
        case (Inr t)
        obtain r d1 w2 where c: "device_control d (DEVICE_CONTROL_UART_WAIT (Some t)) w1 = Some ((r, d1), w2)"
          using 1(2) by (auto simp: K' a Inr split: Option.bind_split_asm)
        note d1 = uart_device_same(1) [OF d c]
        show ?thesis
        proof (cases "\<exists>n. r = Inr n \<and> n \<noteq> 0")
          case False
          then show ?thesis using 1(2) d1 by (cases r) (auto simp: K' a Inr c)
        next
          case True
          then obtain rb d2 w3 where rd: "device_read d1 True 1 w2 = Some ((rb, d2), w3)"
            using 1(2) by (auto simp: K' a Inr c split: Option.bind_split_asm)
          have d2: "same_port d d2"
            using uart_device_same(2) [OF same_port_uart [OF d d1] rd] same_port_trans [OF d1] by blast
          show ?thesis
            using 1(2) True d2 reply_byte_line [OF line]
            by (auto simp: K' a Inr c rd [unfolded One_nat_def] dest: step [OF _ line d2] step [OF _ _ d2]
                split: sum.split_asm if_split_asm list.split_asm line_step.split_asm)
        qed
      qed
    qed
  qed
  with assms(2,3) show ?thesis by blast
qed


lemma exchange_returns:
  assumes "clock_runs K time" "uart_device K d"
  shows "\<exists>r d' w'. exchange K dl packet d w = Some ((r, d'), w') \<and> same_port d d' \<and> (\<forall>s. r = Inr s \<longrightarrow> reply_line s)"
proof -
  obtain r d1 w1 where c1: "device_control d DEVICE_CONTROL_UART_FLUSH w = Some ((r, d1), w1)"
    using uart_device_returns(1) [OF assms, of DEVICE_CONTROL_UART_FLUSH w] by auto
  note d1 = uart_device_same(1) [OF assms(2) c1]
  obtain a w2 where a: "remaining_ms K dl w1 = (a, w2)" by (meson surj_pair)
  show ?thesis
  proof (cases "\<exists>n t. r = Inr n \<and> a = Inr t")
    case False
    then show ?thesis using d1 by (cases r; cases a) (auto simp: exchange_def c1 a)
  next
    case True
    then obtain n t where nt: "r = Inr n" "a = Inr t" by blast
    let ?q = "DEVICE_CONTROL_UART_WRITE_ALL (Some \<lparr>data = Some packet, timeout_ms = t\<rparr>)"
    obtain r2 d2 w3 where c2: "device_control d1 ?q w2 = Some ((r2, d2), w3)"
      using uart_device_returns(1) [OF assms(1) same_port_uart [OF assms(2) d1], of ?q w2] by auto
    have d2: "same_port d d2" using uart_device_same(1) [OF same_port_uart [OF assms(2) d1] c2] same_port_trans [OF d1] by blast
    obtain x where x: "receive_loop K dl [] False d2 w3 = Some x"
      using receive_loop_returns [OF assms(1) same_port_uart [OF assms(2) d2]] by blast
    obtain l d3 w4 where l: "x = ((l, d3), w4)" by (metis prod.collapse)
    have d3: "same_port d d3" "\<forall>s. l = Inr s \<longrightarrow> reply_line s"
      using receive_loop_line [OF x same_port_uart [OF assms(2) d2]] same_port_trans [OF d2] by (auto simp: l reply_line_def)
    obtain b w5 where b: "remaining_ms K dl w4 = (b, w5)" by (meson surj_pair)
    show ?thesis using d2 d3 by (cases r2; cases l; cases b) (auto simp: exchange_def c1 a nt c2 x l b)
  qed
qed

section \<open>Properties of the host side\<close>

text \<open>C21. The number parser of the protocol accepts exactly the non-empty strings of decimal
  digits whose value is below \<open>2\<^sup>3\<^sup>2\<close> and returns that value: its 32-bit accumulator never wraps.\<close>
theorem parse_unsigned_correct:
  "parse_unsigned s = Some v \<longleftrightarrow> s \<noteq> [] \<and> list_all isdigit s \<and> dec_value s < 2 ^ 32 \<and> unat v = dec_value s"
proof -
  have "v = of_nat (dec_value s) \<longleftrightarrow> unat v = dec_value s" if "dec_value s < 2 ^ 32"
  proof
    assume "v = of_nat (dec_value s)"
    then show "unat v = dec_value s" using that by (simp add: unat_of_nat)
  qed (rule of_unat)
  then show ?thesis by (auto simp: parse_unsigned_exact list_all_iff)
qed



text \<open>A line on which a reply is waiting; the world is the time and what can be read.\<close>

definition demo_peer :: "(nat \<times> byte list) sysio" where
  "demo_peer = demo_line\<lparr>sys_read := (\<lambda>fd n (t, inp). (Inr (take n inp), (t, drop n inp))),
     sys_write := (\<lambda>fd bs w. (Inr (length bs), w)),
     sys_clock_gettime := (\<lambda>(t, inp). (Inr (t div 1000, t mod 1000 * 1000000), (t + 1, inp)))\<rparr>"

definition demo_port :: "(backend_context, nat \<times> byte list) Device" where
  "demo_port = (device_init (hd demo_configs) (Some (uart_ops demo_peer)) (Some (Uart_context \<lparr>port_fd = 3\<rparr>)))
     \<lparr>dstate := DEVICE_OPEN, opened := True\<rparr>"

lemma demo_peer_clock: "clock_runs demo_peer fst"
proof -
  have "settles 0 (sys_read demo_peer fd n) w" "settles 0 (sys_write demo_peer fd bs) w" "settles 0 (sys_tcflush demo_peer fd q) w"
    for fd n bs q and w :: "nat \<times> byte list" by (simp_all add: demo_peer_def demo_line_def split: prod.splits)
  then have "sys_settling demo_peer" unfolding sys_settling_def by blast
  moreover have "ticking demo_peer fst" by (auto simp: ticking_def demo_peer_def demo_line_def)
  ultimately show ?thesis by (auto simp: clock_runs_def demo_peer_def)
qed


end
