(* ===== verification/Stm32_Protocol.thy ===== *)
theory Stm32_Protocol
  imports Uart_Protocol
begin

text \<open>
  The board side of the line protocol, \<^verbatim>\<open>examples/stm32_uart_protocol\<close>.  The context behind the
  callbacks' \<^verbatim>\<open>void *\<close> has the type \<open>'c\<close> and is threaded through them; a callback pointer is an option.
  \<open>None\<close> as a result is the return value -1 (the reply buffer is then not used by any caller), and the
  line buffer with its length is the string of its characters.
\<close>

abbreviation (input) STM32_UART_PROTOCOL_LINE_SIZE :: nat where "STM32_UART_PROTOCOL_LINE_SIZE \<equiv> 128"

record 'c Stm32UartCallbacks =
  set_led :: "('c \<Rightarrow> int \<Rightarrow> int \<times> 'c) option"
  get_led :: "('c \<Rightarrow> int \<times> 'c) option"
  uptime_ms :: "('c \<Rightarrow> uint32 \<times> 'c) option"
  send_bytes :: "('c \<Rightarrow> string \<Rightarrow> int \<times> 'c) option"
  ctx :: 'c

record 'c Stm32UartProtocol =
  callbacks :: "'c Stm32UartCallbacks"
  line_text :: string
  carriage_return :: bool
  discarding :: bool
  line_too_long :: bool

text \<open>The firmware's copy of \<^verbatim>\<open>parse_unsigned\<close> is the same text as the host's.\<close>

definition stm32_parse_unsigned :: "string \<Rightarrow> uint32 option" where
  "stm32_parse_unsigned s = (if s = [] then None else parse_digits 0 s)"

definition copy_reply :: "nat \<Rightarrow> string \<Rightarrow> string option" where
  "copy_reply n s = (if length s \<ge> n then None else Some s)"

definition stm32_uart_protocol_handle ::
  "'c Stm32UartCallbacks \<Rightarrow> string \<Rightarrow> nat \<Rightarrow> string option \<times> 'c Stm32UartCallbacks" where
  "stm32_uart_protocol_handle cb request n =
     (case (set_led cb, get_led cb, uptime_ms cb) of
        (Some setl, Some getl, Some uptime) \<Rightarrow>
          if n = 0 then (None, cb)
          else if length request \<ge> STM32_UART_PROTOCOL_LINE_SIZE then (copy_reply n (''ERR LINE_TOO_LONG'' @ [NL]), cb)
          else if request = ''PING'' then (copy_reply n (''PONG'' @ [NL]), cb)
          else if request = ''STATUS'' then
            (case getl (ctx cb) of
               (led, c1) \<Rightarrow>
                 if led \<noteq> 0 \<and> led \<noteq> 1 then (copy_reply n (''ERR DEVICE'' @ [NL]), cb\<lparr>ctx := c1\<rparr>)
                 else (case uptime (ctx (cb\<lparr>ctx := c1\<rparr>)) of
                   (up, c2) \<Rightarrow> (copy_reply n (''STATUS LED='' @ dec_int led @ '' UPTIME_MS='' @ dec (unat up) @ [NL]), cb\<lparr>ctx := c2\<rparr>)))
          else if request = ''LED ON'' \<or> request = ''LED OFF'' then
            (let enabled = (if request = ''LED ON'' then 1 else 0)
             in case setl (ctx cb) enabled of
                  (failed, c1) \<Rightarrow>
                    if failed \<noteq> 0 then (copy_reply n (''ERR DEVICE'' @ [NL]), cb\<lparr>ctx := c1\<rparr>)
                    else (case getl c1 of
                      (led, c2) \<Rightarrow>
                        if led \<noteq> enabled then (copy_reply n (''ERR DEVICE'' @ [NL]), cb\<lparr>ctx := c2\<rparr>)
                        else (copy_reply n ((if enabled \<noteq> 0 then ''OK LED=1'' else ''OK LED=0'') @ [NL]), cb\<lparr>ctx := c2\<rparr>)))
          else if starts ''HEARTBEAT '' request then
            (case stm32_parse_unsigned (drop 10 request) of
               None \<Rightarrow> (copy_reply n (''ERR ARGUMENT'' @ [NL]), cb)
             | Some sequence \<Rightarrow> (copy_reply n (''OK HEARTBEAT='' @ dec (unat sequence) @ [NL]), cb))
          else (copy_reply n (''ERR COMMAND'' @ [NL]), cb)
      | _ \<Rightarrow> (None, cb))"

definition stm32_uart_protocol_init :: "'c Stm32UartCallbacks \<Rightarrow> 'c Stm32UartProtocol option" where
  "stm32_uart_protocol_init cb =
     (if set_led cb = None \<or> get_led cb = None \<or> uptime_ms cb = None \<or> send_bytes cb = None then None
      else Some \<lparr>callbacks = cb, line_text = [], carriage_return = False, discarding = False, line_too_long = False\<rparr>)"

text \<open>The end of a line: the reply is computed, the line reset, the reply sent.\<close>

definition stm32_line_end ::
  "('c \<Rightarrow> string \<Rightarrow> int \<times> 'c) \<Rightarrow> 'c Stm32UartProtocol \<Rightarrow> int \<times> 'c Stm32UartProtocol" where
  "stm32_line_end send p =
     (case (if discarding p
            then (copy_reply 128 ((if line_too_long p then ''ERR LINE_TOO_LONG'' else ''ERR COMMAND'') @ [NL]), callbacks p)
            else stm32_uart_protocol_handle (callbacks p) (line_text p) 128) of
        (result, cb) \<Rightarrow>
          (let p1 = p\<lparr>callbacks := cb, line_text := [], carriage_return := False, discarding := False, line_too_long := False\<rparr>
           in case result of
                None \<Rightarrow> (-1, p1)
              | Some reply \<Rightarrow> (case send (ctx cb) reply of (r, c) \<Rightarrow> (r, p1\<lparr>callbacks := cb\<lparr>ctx := c\<rparr>\<rparr>))))"

definition stm32_uart_protocol_feed :: "'c Stm32UartProtocol \<Rightarrow> byte \<Rightarrow> int \<times> 'c Stm32UartProtocol" where
  "stm32_uart_protocol_feed p b =
     (case send_bytes (callbacks p) of
        None \<Rightarrow> (-1, p)
      | Some send \<Rightarrow>
          if b = 0x0A then stm32_line_end send p
          else if discarding p then (0, p)
          else if carriage_return p then (0, p\<lparr>discarding := True\<rparr>)
          else if b = 0x0D then (0, p\<lparr>carriage_return := True\<rparr>)
          else if b < 0x20 \<or> b > 0x7E then (0, p\<lparr>discarding := True\<rparr>)
          else if length (line_text p) \<ge> STM32_UART_PROTOCOL_LINE_SIZE - 1
            then (0, p\<lparr>discarding := True, line_too_long := True\<rparr>)
          else (0, p\<lparr>line_text := line_text p @ [byte_char b]\<rparr>))"

section \<open>The board answers line by line\<close>

text \<open>The specification: what a line without its final newline asks for, or the error it is answered
  with.  The leading printable characters are the request when nothing or a single carriage return
  follows them.\<close>

definition board_line :: "byte list \<Rightarrow> string + string" where
  "board_line bs =
     (let text = takeWhile (\<lambda>b. printable (byte_char b)) bs; rest = dropWhile (\<lambda>b. printable (byte_char b)) bs
      in if length text > 127 then Inl ''ERR LINE_TOO_LONG''
         else if rest = [] \<or> rest = [0x0D] then Inr (map byte_char text)
         else Inl ''ERR COMMAND'')"

fun feed_all :: "'c Stm32UartProtocol \<Rightarrow> byte list \<Rightarrow> 'c Stm32UartProtocol" where
  "feed_all p [] = p"
| "feed_all p (b # bs) = feed_all (snd (stm32_uart_protocol_feed p b)) bs"

lemma feed_all_append: "feed_all p (xs @ ys) = feed_all (feed_all p xs) ys"
  by (induction xs arbitrary: p) auto

definition idle :: "'c Stm32UartProtocol \<Rightarrow> bool" where
  "idle p \<longleftrightarrow> line_text p = [] \<and> \<not> carriage_return p \<and> \<not> discarding p \<and> \<not> line_too_long p \<and> send_bytes (callbacks p) \<noteq> None"


definition line_state :: "'c Stm32UartProtocol \<Rightarrow> byte list \<Rightarrow> 'c Stm32UartProtocol \<Rightarrow> bool" where
  "line_state p bs q \<longleftrightarrow> callbacks q = callbacks p \<and>
     (let text = takeWhile (\<lambda>b. printable (byte_char b)) bs; rest = dropWhile (\<lambda>b. printable (byte_char b)) bs
      in if length text > 127 then discarding q \<and> line_too_long q
         else \<not> line_too_long q \<and>
           (if rest = [] \<or> rest = [0x0D] then \<not> discarding q \<and> line_text q = map byte_char text \<and> carriage_return q = (rest \<noteq> [])
            else discarding q))"

lemma printable_CR: "\<not> printable (byte_char 0x0D)"
  by (simp add: printable_byte)

lemma line_state_step:
  assumes "line_state p bs q" "b \<noteq> 0x0A" "send_bytes (callbacks p) \<noteq> None"
  shows "line_state p (bs @ [b]) (snd (stm32_uart_protocol_feed q b))"
proof -
  let ?pr = "\<lambda>b. printable (byte_char b)"
  obtain send where send: "send_bytes (callbacks q) = Some send" using assms(1,3) by (auto simp: line_state_def)
  have cr: "b = 0x0D \<Longrightarrow> \<not> ?pr b" using printable_CR by blast
  consider "list_all ?pr bs" "?pr b" | "list_all ?pr bs" "\<not> ?pr b" | "\<not> list_all ?pr bs" by blast
  then show ?thesis
  proof cases
    case 1
    have t: "takeWhile ?pr bs = bs" "dropWhile ?pr bs = []" "takeWhile ?pr (bs @ [b]) = bs @ [b]" "dropWhile ?pr (bs @ [b]) = []"
      using 1 by (simp_all add: list_all_iff)
    show ?thesis using assms 1(2) 1(2) [unfolded printable_byte] cr
      by (auto simp: line_state_def Let_def stm32_uart_protocol_feed_def send t split: if_split_asm)
  next
    case 2
    have t: "takeWhile ?pr bs = bs" "dropWhile ?pr bs = []" "takeWhile ?pr (bs @ [b]) = bs" "dropWhile ?pr (bs @ [b]) = [b]"
      using 2 by (simp_all add: list_all_iff takeWhile_append2 dropWhile_append2)
    show ?thesis using assms 2(2) [unfolded printable_byte]
      by (auto simp: line_state_def Let_def stm32_uart_protocol_feed_def send t split: if_split_asm)
  next
    case 3
    then obtain x where x: "x \<in> set bs" "\<not> ?pr x" by (auto simp: list_all_iff)
    then have "takeWhile ?pr (bs @ [b]) = takeWhile ?pr bs" "dropWhile ?pr (bs @ [b]) = dropWhile ?pr bs @ [b]" "dropWhile ?pr bs \<noteq> []"
      by (auto simp: takeWhile_append1 dropWhile_append1)
    then show ?thesis using assms
      by (auto simp: line_state_def Let_def stm32_uart_protocol_feed_def send split: if_split_asm)
  qed
qed

lemma line_state_all:
  assumes "idle p" "0x0A \<notin> set bs"
  shows "line_state p bs (feed_all p bs)"
  using assms(2)
proof (induction bs rule: rev_induct)
  case Nil
  show ?case using assms(1) by (simp add: line_state_def idle_def)
next
  case (snoc b bs)
  have "line_state p bs (feed_all p bs)" "b \<noteq> 0x0A" using snoc by auto
  from line_state_step [OF this] assms(1) show ?case by (simp add: feed_all_append idle_def)
qed


lemma board_line_end:
  assumes "line_state p bs q" "send_bytes (callbacks p) = Some send"
  shows "snd (stm32_uart_protocol_feed q 0x0A) =
    (case (case board_line bs of
        Inl e \<Rightarrow> (Some (e @ [NL]), callbacks p)
      | Inr request \<Rightarrow> stm32_uart_protocol_handle (callbacks p) request 128) of
      (None, cb) \<Rightarrow> q\<lparr>callbacks := cb, line_text := [], carriage_return := False, discarding := False, line_too_long := False\<rparr>
    | (Some reply, cb) \<Rightarrow> q\<lparr>callbacks := cb\<lparr>ctx := snd (send (ctx cb) reply)\<rparr>, line_text := [], carriage_return := False,
        discarding := False, line_too_long := False\<rparr>)"
  using assms
  by (auto simp: line_state_def board_line_def Let_def stm32_uart_protocol_feed_def stm32_line_end_def copy_reply_def
      split: if_split_asm option.split prod.split)

section \<open>Host and board agree\<close>

definition callbacks_ok :: "'c Stm32UartCallbacks \<Rightarrow> bool" where
  "callbacks_ok cb \<longleftrightarrow> set_led cb \<noteq> None \<and> get_led cb \<noteq> None \<and> uptime_ms cb \<noteq> None \<and> send_bytes cb \<noteq> None"

lemma stm32_parse_unsigned_same: "stm32_parse_unsigned = parse_unsigned"
  by (simp add: fun_eq_iff stm32_parse_unsigned_def parse_unsigned_def)

lemma isdigit_printable: "isdigit c \<Longrightarrow> printable c"
  by (auto simp: isdigit_def printable_def)

lemma length_dec32: "length (dec (unat (v :: uint32))) \<le> 10"
  using unsigned_less [of v, where 'a = nat] by (intro length_dec) simp_all

lemma dec_printable: "list_all printable (dec n)"
  using dec_isdigit [of n] isdigit_printable by (auto simp: list_all_iff)

lemma status_reply_valid:
  fixes up :: uint32
  assumes "led = 0 \<or> led = (1 :: int)"
  shows "validate_reply UART_REQUEST_STATUS h (''STATUS LED='' @ dec_int led @ '' UPTIME_MS='' @ dec (unat up))"
    and "reply_line (''STATUS LED='' @ dec_int led @ '' UPTIME_MS='' @ dec (unat up))"
proof -
  have "dec_int 0 = ''0''" "dec_int 1 = ''1''" by code_simp+
  then obtain c where c: "dec_int led = [c]" "c = CHR ''0'' \<or> c = CHR ''1''" using assms by auto
  obtain x xs where x: "dec (unat up) = x # xs" by (cases "dec (unat up)") auto
  show "validate_reply UART_REQUEST_STATUS h (''STATUS LED='' @ dec_int led @ '' UPTIME_MS='' @ dec (unat up))"
    using c parse_unsigned_dec [of up] by (auto simp: validate_reply_def starts_def x)
  have "printable c" using c(2) by (auto simp: printable_def ord_of_def)
  then show "reply_line (''STATUS LED='' @ dec_int led @ '' UPTIME_MS='' @ dec (unat up))"
    using c(1) length_dec32 [of up] dec_printable [of "unat up"]
    by (simp add: reply_line_def) (simp add: printable_def ord_of_def)
qed

lemma heartbeat_reply_valid:
  "validate_reply UART_REQUEST_HEARTBEAT h (''OK HEARTBEAT='' @ dec (unat h))" "reply_line (''OK HEARTBEAT='' @ dec (unat h))"
  using parse_unsigned_dec [of h] length_dec32 [of h] dec_printable [of "unat h"]
  by (simp_all add: validate_reply_def starts_def reply_line_def printable_def ord_of_def)

lemma fixed_replies:
  "reply_line ''PONG''" "reply_line ''OK LED=1''" "reply_line ''OK LED=0''" "reply_line ''ERR DEVICE''" "reply_line ''ERR ARGUMENT''"
  "reply_line ''ERR COMMAND''" "reply_line ''ERR LINE_TOO_LONG''"
  by (simp_all add: reply_line_def printable_def ord_of_def)


lemma handle_replies:
  assumes "callbacks_ok cb" "length r < 128"
  shows "\<exists>s cb'. stm32_uart_protocol_handle cb r 128 = (Some (s @ [NL]), cb') \<and> send_bytes cb' = send_bytes cb \<and> callbacks_ok cb'
    \<and> reply_line s
    \<and> (case parse_request r of
         Inr (q, h) \<Rightarrow> validate_reply q h s \<or> s = ''ERR DEVICE'' \<and> q \<in> {UART_REQUEST_STATUS, UART_REQUEST_LED_ON, UART_REQUEST_LED_OFF}
       | Inl _ \<Rightarrow> s = ''ERR ARGUMENT'' \<or> s = ''ERR COMMAND'')"
proof -
  obtain setl getl uptime where cb: "set_led cb = Some setl" "get_led cb = Some getl" "uptime_ms cb = Some uptime"
    using assms(1) by (auto simp: callbacks_ok_def)
  note defs = stm32_uart_protocol_handle_def cb copy_reply_def parse_request_def fixed_replies callbacks_ok_def
  have ok: "\<exists>send. send_bytes cb = Some send" using assms(1) by (auto simp: callbacks_ok_def)
  have not: "\<not> 128 \<le> length r" using assms(2) by simp
  consider "r = ''PING''" | "r = ''STATUS''" | (led) "r = ''LED ON'' \<or> r = ''LED OFF''"
    | (beat) "r \<notin> {''PING'', ''STATUS'', ''LED ON'', ''LED OFF''}" by auto
  then show ?thesis
  proof cases
    case 1
    then show ?thesis using ok by (auto simp: defs validate_reply_def)
  next
    case 2
    obtain led c1 up c2 where x: "getl (ctx cb) = (led, c1)" "uptime c1 = (up, c2)" by (metis surj_pair)
    show ?thesis
    proof (cases "led = 0 \<or> led = 1")
      case True
      have "length (dec (unat up)) \<le> 10" "length (dec_int led) = 1"
        using length_dec32 True by (auto simp: dec_int_def dec.simps [of "Suc 0"])
      then show ?thesis using 2 x True status_reply_valid(1) [OF True, of 0 up] status_reply_valid(2) [OF True, of up] ok
        by (intro exI [of _ "''STATUS LED='' @ dec_int led @ '' UPTIME_MS='' @ dec (unat up)"] exI [of _ "cb\<lparr>ctx := c2\<rparr>"]) (simp add: defs)
    next
      case False
      then show ?thesis using 2 x ok by (intro exI [of _ "''ERR DEVICE''"] exI [of _ "cb\<lparr>ctx := c1\<rparr>"]) (simp add: defs)
    qed
  next
    case led
    define v :: int where "v = (if r = ''LED ON'' then 1 else 0)"
    obtain failed c1 got c2 where x: "setl (ctx cb) v = (failed, c1)" "getl c1 = (got, c2)" by (metis surj_pair)
    show ?thesis
    proof (cases "failed = 0 \<and> got = v")
      case True
      then show ?thesis using led x ok
        by (intro exI [of _ "if r = ''LED ON'' then ''OK LED=1'' else ''OK LED=0''"] exI [of _ "cb\<lparr>ctx := c2\<rparr>"])
          (auto simp: defs v_def validate_reply_def)
    next
      case False
      then show ?thesis using led x ok
        by (intro exI [of _ "''ERR DEVICE''"] exI [of _ "cb\<lparr>ctx := if failed \<noteq> 0 then c1 else c2\<rparr>"]) (auto simp: defs v_def)
    qed
  next
    case beat
    show ?thesis
    proof (cases "starts ''HEARTBEAT '' r \<and> parse_unsigned (drop 10 r) \<noteq> None")
      case True
      then obtain h where h: "parse_unsigned (drop 10 r) = Some h" by auto
      show ?thesis using beat True h not heartbeat_reply_valid [of h] length_dec32 [of h] ok
        by (intro exI [of _ "''OK HEARTBEAT='' @ dec (unat h)"] exI [of _ cb]) (simp add: defs stm32_parse_unsigned_same)
    next
      case False
      then show ?thesis using beat not ok
        by (intro exI [of _ "if starts ''HEARTBEAT '' r then ''ERR ARGUMENT'' else ''ERR COMMAND''"] exI [of _ cb])
          (auto simp: defs stm32_parse_unsigned_same)
    qed
  qed
qed

lemma error_reply_invalid:
  assumes "starts ''ERR '' s"
  shows "\<not> validate_reply q h s"
proof -
  obtain t where "s = ''ERR '' @ t" using assms by (metis append_take_drop_id starts_def)
  then show ?thesis by (cases q) (auto simp: validate_reply_def starts_def)
qed

lemma feed_line:
  assumes "idle p" and "callbacks_ok (callbacks p)" and "0x0A \<notin> set bs"
  shows "\<exists>reply cb. (case board_line bs of
        Inl e \<Rightarrow> reply = e @ [NL] \<and> cb = callbacks p
      | Inr request \<Rightarrow> stm32_uart_protocol_handle (callbacks p) request 128 = (Some reply, cb))
    \<and> send_bytes cb = send_bytes (callbacks p)
    \<and> feed_all p (bs @ [0x0A]) = p\<lparr>callbacks := cb\<lparr>ctx := snd (the (send_bytes cb) (ctx cb) reply)\<rparr>\<rparr>
    \<and> idle (feed_all p (bs @ [0x0A]))"
proof -
  obtain send where send: "send_bytes (callbacks p) = Some send" using assms(1) by (auto simp: idle_def)
  note q = line_state_all [OF assms(1,3)]
  have feed: "feed_all p (bs @ [0x0A]) = snd (stm32_uart_protocol_feed (feed_all p bs) 0x0A)"
    by (simp add: feed_all_append)
  have rec: "q\<lparr>callbacks := c, line_text := [], carriage_return := False, discarding := False, line_too_long := False\<rparr> = p\<lparr>callbacks := c\<rparr>"
    for q :: "'a Stm32UartProtocol" and c using assms(1) by (cases q; cases p) (simp add: idle_def)
  show ?thesis
  proof (cases "board_line bs")
    case (Inl e)
    then show ?thesis using assms(1) send
      by (intro exI [of _ "e @ [NL]"] exI [of _ "callbacks p"]) (simp add: feed board_line_end [OF q send] rec idle_def)
  next
    case (Inr r)
    then have "length r < 128" by (auto simp: board_line_def Let_def split: if_split_asm)
    then obtain s cb where s: "stm32_uart_protocol_handle (callbacks p) r 128 = (Some (s @ [NL]), cb)" "send_bytes cb = Some send"
      using handle_replies [OF assms(2)] send by metis
    then show ?thesis using Inr assms(1)
      by (intro exI [of _ "s @ [NL]"] exI [of _ cb]) (simp add: feed board_line_end [OF q send] rec idle_def send)
  qed
qed

section \<open>Properties of the board side\<close>

text \<open>C16. The board answers line by line: whatever bytes make up a line, feeding them and a newline
  to an idle board leaves it idle again, and the board has sent exactly one reply, computed as
  specified: to the request made of the line's printable characters, when these are at most 127 and end
  the line (but for a carriage return), and otherwise \<^verbatim>\<open>ERR LINE_TOO_LONG\<close> or \<^verbatim>\<open>ERR COMMAND\<close>.\<close>
theorem stm32_answers_each_line:
  assumes "idle p" and "callbacks_ok (callbacks p)" and "0x0A \<notin> set bs"
  shows "\<exists>reply cb. (case board_line bs of
        Inl e \<Rightarrow> reply = e @ [NL] \<and> cb = callbacks p
      | Inr request \<Rightarrow> stm32_uart_protocol_handle (callbacks p) request 128 = (Some reply, cb))
    \<and> send_bytes cb = send_bytes (callbacks p)
    \<and> feed_all p (bs @ [0x0A]) = p\<lparr>callbacks := cb\<lparr>ctx := snd (the (send_bytes cb) (ctx cb) reply)\<rparr>\<rparr>
    \<and> idle (feed_all p (bs @ [0x0A]))"
  using assms by (rule feed_line)


text \<open>C20. Host and board agree on the protocol.  A board with its callbacks answers every request of
  fewer than 128 characters with one printable line that fits the host's line buffer.  To a request the
  host accepts it is a reply the host accepts for that very request, unless the LED hardware fails, which is
  reported as \<^verbatim>\<open>ERR DEVICE\<close>; what the host refuses to send the board refuses to run.  And no error reply
  is ever taken for a valid one.\<close>
theorem host_board_agree:
  assumes "callbacks_ok cb" and "length r < 128"
  shows "\<exists>s cb'. stm32_uart_protocol_handle cb r 128 = (Some (s @ [NL]), cb') \<and> reply_line s
    \<and> (case parse_request r of
         Inr (q, h) \<Rightarrow> validate_reply q h s \<or> s = ''ERR DEVICE'' \<and> q \<in> {UART_REQUEST_STATUS, UART_REQUEST_LED_ON, UART_REQUEST_LED_OFF}
       | Inl _ \<Rightarrow> s = ''ERR ARGUMENT'' \<or> s = ''ERR COMMAND'')
    \<and> (starts ''ERR '' s \<longrightarrow> (\<forall>q h. \<not> validate_reply q h s))"
proof -
  obtain s cb' where s: "stm32_uart_protocol_handle cb r 128 = (Some (s @ [NL]), cb')" "reply_line s"
    "case parse_request r of
       Inr (q, h) \<Rightarrow> validate_reply q h s \<or> s = ''ERR DEVICE'' \<and> q \<in> {UART_REQUEST_STATUS, UART_REQUEST_LED_ON, UART_REQUEST_LED_OFF}
     | Inl _ \<Rightarrow> s = ''ERR ARGUMENT'' \<or> s = ''ERR COMMAND''"
    using handle_replies [OF assms] by blast
  then show ?thesis using error_reply_invalid [of s] by blast
qed

section \<open>A board on the wire\<close>

text \<open>A board whose LED works: its context is the LED, the uptime and the bytes it has sent and the host
  has not read.  The world is the time in milliseconds and the board; the kernel passes what the host
  writes to the board and what the board sends to the host, and each look at the clock takes a
  millisecond.\<close>

record board =
  led :: int
  uptime :: uint32
  sent_bytes :: "byte list"

definition board_callbacks :: "board \<Rightarrow> board Stm32UartCallbacks" where
  "board_callbacks b = \<lparr>set_led = Some (\<lambda>c v. (0, c\<lparr>led := v\<rparr>)), get_led = Some (\<lambda>c. (led c, c)),
     uptime_ms = Some (\<lambda>c. (uptime c, c)), send_bytes = Some (\<lambda>c s. (0, c\<lparr>sent_bytes := sent_bytes c @ map char_byte s\<rparr>)),
     ctx = b\<rparr>"

type_synonym bench = "nat \<times> board Stm32UartProtocol"

definition bench_ctx :: "(board \<Rightarrow> board) \<Rightarrow> board Stm32UartProtocol \<Rightarrow> board Stm32UartProtocol" where
  "bench_ctx f p = p\<lparr>callbacks := (callbacks p)\<lparr>ctx := f (ctx (callbacks p))\<rparr>\<rparr>"

abbreviation "pending p \<equiv> sent_bytes (ctx (callbacks p))"

definition wire :: "bench sysio" where
  "wire = \<lparr>sys_open = (\<lambda>p f w. (Inr 3, w)), sys_close = (\<lambda>fd w. (Inr (), w)),
     sys_read = (\<lambda>fd n (t, p). if pending p = [] then (Inl EAGAIN, (t, p))
       else (Inr (take n (pending p)), (t, bench_ctx (\<lambda>c. c\<lparr>sent_bytes := drop n (sent_bytes c)\<rparr>) p))),
     sys_write = (\<lambda>fd bs (t, p). (Inr (length bs), (t, feed_all p bs))),
     sys_poll = (\<lambda>fd ev ms (t, p). if ev = POLLIN \<and> pending p = [] then (Inr None, (t + nat ms, p)) else (Inr (Some ev), (t, p))),
     sys_clock_gettime = (\<lambda>(t, p). (Inr (t div 1000, t mod 1000 * 1000000), (t + 1, p))),
     sys_tcgetattr = (\<lambda>fd w. (Inr termios_zero, w)), sys_tcsetattr = (\<lambda>fd a tty w. (Inr (), w)),
     sys_tcflush = (\<lambda>fd q (t, p). (Inr (), (t, bench_ctx (\<lambda>c. c\<lparr>sent_bytes := []\<rparr>) p))),
     ioctl_i2c_slave = (\<lambda>fd a w. (Inr (), w)), ioctl_i2c_quick = (\<lambda>fd w. (Inr (), w)),
     ioctl_gpio_linehandle = (\<lambda>fd r w. (Inr 4, w)), ioctl_gpio_get = (\<lambda>fd w. (Inr 0, w)), ioctl_gpio_set = (\<lambda>fd b w. (Inr (), w))\<rparr>"

lemma wire_clock [simp]: "monotonic_ms wire (t, p) = (Inr (int t), (t + 1, p))"
proof -
  have "t div 1000 * 1000 + t mod 1000 * 1000000 div 1000000 = t" by simp
  then show ?thesis unfolding monotonic_ms_def by (simp only: wire_def sysio.simps prod.case sum.case)
qed

lemma wire_remaining: "int t < dl \<Longrightarrow> remaining_ms wire dl (t, p) = (Inr (min (dl - int t) INT_MAX), (t + 1, p))"
  by (simp add: remaining_ms_def min_def)

lemma wire_poll:
  assumes "1 < ms" "ev = POLLOUT \<or> ev = POLLIN \<and> pending p \<noteq> []"
  shows "poll_fd wire fd ev ms (t, p) = Some (Inr 1, (t + 2, p))"
proof -
  have "sys_poll wire fd ev k (t + 2, p) = (Inr (Some ev), (t + 2, p))" for k
    using assms(2) by (auto simp: wire_def)
  moreover have "poll_wait wire ms (int t + ms) (t + 1, p) = (Inr (Some (min (ms - 1) INT_MAX)), (t + 2, p))"
    using assms(1) by (auto simp: poll_wait_def min_def)
  moreover have "ev AND ev \<noteq> 0" using assms(2) by auto
  ultimately have "poll_loop wire fd ev ms (int t + ms) (t + 1, p) = Some (Inr 1, (t + 2, p))"
    by (subst poll_loop.simps) simp
  then show ?thesis using assms(1) by (simp add: poll_fd_def)
qed


definition open_port :: "(backend_context, bench) Device \<Rightarrow> bool" where
  "open_port d \<longleftrightarrow> ops d = Some (uart_ops wire) \<and> (\<exists>fd\<ge>0. priv d = Some (Uart_context \<lparr>port_fd = fd\<rparr>))
     \<and> type_of (config d) = DEVICE_UART \<and> enabled (config d) \<noteq> 0 \<and> opened d \<and> dstate d \<noteq> DEVICE_ERROR"

lemma open_port_good: "open_port d \<Longrightarrow> open_port (d\<lparr>last_errno := e, dstate := DEVICE_OPEN\<rparr>)"
  by (simp add: open_port_def)

abbreviation "good d \<equiv> d\<lparr>last_errno := 0, dstate := DEVICE_OPEN\<rparr>"
abbreviation "set_pending bs p \<equiv> bench_ctx (\<lambda>c. c\<lparr>sent_bytes := bs\<rparr>) p"

lemma open_port_control:
  assumes "open_port d" "uart_control wire q (config d) (priv d) w = Some (Inr n, priv d, w')"
  shows "device_control d q w = Some ((Inr n, good d), w')"
  using assms by (auto simp: open_port_def device_control_def device_ready_def uart_ops_def device_result_def)

lemma wire_wait:
  assumes "open_port d" "1 < ms" "pending p \<noteq> []"
  shows "device_control d (DEVICE_CONTROL_UART_WAIT (Some ms)) (t, p) = Some ((Inr 1, good d), (t + 2, p))"
proof -
  obtain fd where fd: "priv d = Some (Uart_context \<lparr>port_fd = fd\<rparr>)" "0 \<le> fd" using assms(1) by (auto simp: open_port_def)
  show ?thesis using wire_poll [OF assms(2), of POLLIN p fd t] assms(2,3) fd
    by (intro open_port_control [OF assms(1)]) (simp add: uart_control_def serial_port_wait_readable_def)
qed

lemma wire_flush:
  assumes "open_port d"
  shows "device_control d DEVICE_CONTROL_UART_FLUSH (t, p) = Some ((Inr 0, good d), (t, set_pending [] p))"
proof -
  obtain fd where fd: "priv d = Some (Uart_context \<lparr>port_fd = fd\<rparr>)" "0 \<le> fd" using assms(1) by (auto simp: open_port_def)
  have "retry (sys_tcflush wire fd 0) (t, p) = Some (Inr (), (t, set_pending [] p))"
    by (rule retry_once) (simp_all add: wire_def)
  then show ?thesis using fd
    by (intro open_port_control [OF assms(1)]) (simp add: uart_control_def serial_port_flush_input_def)
qed

lemma wire_write:
  assumes "open_port d" "5 < ms" "ms \<le> INT_MAX" "bs \<noteq> []"
  shows "device_control d (DEVICE_CONTROL_UART_WRITE_ALL (Some \<lparr>data = Some bs, timeout_ms = ms\<rparr>)) (t, p)
    = Some ((Inr 0, good d), (t + 4, feed_all p bs))"
proof -
  obtain fd where fd: "priv d = Some (Uart_context \<lparr>port_fd = fd\<rparr>)" "0 \<le> fd" using assms(1) by (auto simp: open_port_def)
  have w: "serial_port_write wire \<lparr>port_fd = fd\<rparr> bs (t + 4, p) = Some (Inr (length bs), (t + 4, feed_all p bs))"
    using fd(2) by (simp add: serial_port_write_def wire_def retry_once)
  have poll: "poll_fd wire fd POLLOUT (min (int t + ms - int (t + 1)) INT_MAX) (t + 2, p) = Some (Inr 1, (t + 4, p))"
    using wire_poll [of "min (int t + ms - int (t + 1)) INT_MAX" POLLOUT p fd "t + 2"] assms(2) by (simp add: min_def)
  have "write_all_loop wire \<lparr>port_fd = fd\<rparr> (int t + ms) bs (t + 1, p) = Some (Inr 0, (t + 4, feed_all p bs))"
    using assms(2,4) w poll by (subst write_all_loop.simps) (simp add: write_all_loop.simps)
  then show ?thesis using fd assms(2,4)
    by (intro open_port_control [OF assms(1)]) (simp add: uart_control_def serial_port_write_all_def)
qed

lemma wire_read:
  assumes "open_port d" "pending p = b # bs"
  shows "device_read d True 1 (t, p) = Some ((Inr [b], good d), (t, set_pending bs p))"
proof -
  obtain fd where fd: "priv d = Some (Uart_context \<lparr>port_fd = fd\<rparr>)" "0 \<le> fd" using assms(1) by (auto simp: open_port_def)
  have "retry (sys_read wire fd 1) (t, p) = Some (Inr [b], (t, set_pending bs p))"
    using assms(2) by (intro retry_once) (simp_all add: wire_def bench_ctx_def)
  then show ?thesis using fd assms(1)
    by (auto simp: device_read_def device_ready_def uart_ops_def uart_read_def serial_port_read_def device_result_def open_port_def)
qed

lemma pending_set [simp]: "pending (set_pending bs p) = bs" "set_pending cs (set_pending bs p) = set_pending cs p"
  by (simp_all add: bench_ctx_def)

lemma wire_receive:
  assumes "list_all printable s" "length line + length s < 128"
  shows "open_port d \<Longrightarrow> pending p = map char_byte s @ [0x0A] \<Longrightarrow> int t + 3 * int (length s) + 3 < dl
    \<Longrightarrow> receive_loop wire dl line False d (t, p) = Some ((Inr (line @ s), good d), (t + 3 * length s + 3, set_pending [] p))"
  using assms
proof (induction s arbitrary: line d p t)
  case Nil
  have ms: "1 < min (dl - int t) INT_MAX" using Nil.prems(3) by simp
  have "reply_byte 0x0A line False = Whole line" by (simp add: reply_byte_def)
  then show ?case
    using Nil.prems wire_remaining [of t dl p] wire_wait [OF Nil.prems(1) ms, of p "t + 1"]
      wire_read [OF open_port_good [OF Nil.prems(1)], of p "0x0A" "[]" 0 "t + 3"]
    by (subst receive_loop.simps) (simp add: numeral_3_eq_3)
next
  case (Cons c s)
  have ms: "1 < min (dl - int t) INT_MAX" using Cons.prems(3) by simp
  have "\<not> (char_byte c < 0x20 \<or> char_byte c > 0x7E)" using Cons.prems(4) printable_byte [of "char_byte c"] by simp
  then have "reply_byte (char_byte c) line False = More (line @ [c]) False"
    using Cons.prems(5) by (auto simp: reply_byte_def)
  moreover have "receive_loop wire dl (line @ [c]) False (good d) (Suc (Suc (Suc t)), set_pending (map char_byte s @ [0x0A]) p)
      = Some ((Inr ((line @ [c]) @ s), good (good d)), (Suc (Suc (Suc t)) + 3 * length s + 3, set_pending [] p))"
    using Cons.IH [of "good d" "set_pending (map char_byte s @ [0x0A]) p" "Suc (Suc (Suc t))" "line @ [c]"] Cons.prems open_port_good by simp
  ultimately show ?case
    using Cons.prems wire_remaining [of t dl p] wire_wait [OF Cons.prems(1) ms, of p "t + 1"]
      wire_read [OF open_port_good [OF Cons.prems(1)], of p "char_byte c" "map char_byte s @ [0x0A]" 0 "Suc (Suc (Suc t))"]
    by (subst receive_loop.simps) simp
qed


lemma accepted_printable:
  assumes "parse_request r = Inr x"
  shows "list_all printable r"
proof (cases "r \<in> {''PING'', ''STATUS'', ''LED ON'', ''LED OFF''}")
  case True
  then show ?thesis by (auto simp: printable_def ord_of_def)
next
  case False
  have "length ''HEARTBEAT '' = 10" by simp
  with False have r: "take 10 r = ''HEARTBEAT ''" "parse_unsigned (drop 10 r) \<noteq> None"
    using assms by (auto simp: parse_request_def starts_def simp del: list.size split: if_split_asm option.split_asm)
  then have "list_all printable (drop 10 r)"
    by (auto simp: parse_unsigned_exact list_all_iff isdigit_printable split: if_split_asm)
  moreover have "list_all printable (take 10 r)" by (simp add: r(1)) (simp add: printable_def ord_of_def)
  ultimately have "list_all printable (take 10 r @ drop 10 r)" by (simp only: list_all_append)
  then show ?thesis by simp
qed

lemma printable_line: "list_all printable r \<Longrightarrow> length r < 128 \<Longrightarrow> board_line (map char_byte r) = Inr r"
proof -
  assume r: "list_all printable r" "length r < 128"
  have whole: "takeWhile (\<lambda>b. printable (byte_char b)) (map char_byte r) = map char_byte r"
    "dropWhile (\<lambda>b. printable (byte_char b)) (map char_byte r) = []"
    using r(1) by (simp_all add: list_all_iff takeWhile_eq_all_conv dropWhile_eq_Nil_conv)
  show ?thesis using r(2) by (simp add: board_line_def Let_def whole comp_def)
qed

definition led_after :: "string \<Rightarrow> board \<Rightarrow> board" where
  "led_after r b = (if r = ''LED ON'' then b\<lparr>led := 1\<rparr> else if r = ''LED OFF'' then b\<lparr>led := 0\<rparr> else b)"

lemma board_handle:
  assumes "parse_request r = Inr (q, h)" "length r < 128" "led b = 0 \<or> led b = 1"
  shows "\<exists>s. stm32_uart_protocol_handle (board_callbacks b) r 128 = (Some (s @ [NL]), board_callbacks (led_after r b))
    \<and> validate_reply q h s \<and> reply_line s"
proof -
  have "callbacks_ok (board_callbacks b)" by (simp add: callbacks_ok_def board_callbacks_def)
  from handle_replies [OF this assms(2)] obtain s cb where
    s: "stm32_uart_protocol_handle (board_callbacks b) r 128 = (Some (s @ [NL]), cb)" "reply_line s"
      "validate_reply q h s \<or> s = ''ERR DEVICE'' \<and> q \<in> {UART_REQUEST_STATUS, UART_REQUEST_LED_ON, UART_REQUEST_LED_OFF}"
    using assms(1) by auto
  have "cb = board_callbacks (led_after r b) \<and> (s = ''ERR DEVICE'' \<longrightarrow> q \<notin> {UART_REQUEST_STATUS, UART_REQUEST_LED_ON, UART_REQUEST_LED_OFF})"
    using s(1) assms
    by (auto simp: stm32_uart_protocol_handle_def board_callbacks_def copy_reply_def led_after_def parse_request_def
        split: if_split_asm option.split_asm)
  then show ?thesis using s by blast
qed


lemma wire_exchange:
  assumes "open_port d" "idle p" "callbacks p = board_callbacks b" "led b = 0 \<or> led b = 1"
    and "parse_request r = Inr (q, h)" "length r < 128" "int t + 400 \<le> dl" "dl \<le> int t + INT_MAX"
  shows "\<exists>s t'. exchange wire dl (map char_byte r @ [0x0A]) d (t + 1, p)
      = Some ((Inr s, good d), (t', p\<lparr>callbacks := board_callbacks ((led_after r b)\<lparr>sent_bytes := []\<rparr>)\<rparr>)) \<and> validate_reply q h s \<and> reply_line s"
proof -
  let ?p0 = "set_pending [] p" and ?b0 = "b\<lparr>sent_bytes := []\<rparr>" and ?b1 = "led_after r (b\<lparr>sent_bytes := []\<rparr>)"
  have p0: "idle ?p0" "callbacks ?p0 = board_callbacks ?b0"
    using assms(2,3) by (simp_all add: idle_def bench_ctx_def board_callbacks_def)
  obtain s where s: "stm32_uart_protocol_handle (board_callbacks ?b0) r 128 = (Some (s @ [NL]), board_callbacks ?b1)"
      "validate_reply q h s" "reply_line s"
    using board_handle [OF assms(5,6), of ?b0] assms(4) by auto
  have "0x0A \<notin> set (map char_byte r)"
  proof
    assume "0x0A \<in> set (map char_byte r)"
    then have "0x0A \<in> char_byte ` set r" by simp
    then obtain c where "c \<in> set r" "char_byte c = 0x0A" by force
    then have "c = byte_char 0x0A" "printable c"
      using accepted_printable [OF assms(5)] by (auto simp: list_all_iff) (metis byte_char_byte)
    then show False using printable_byte [of "0x0A"] by simp
  qed
  moreover have "board_line (map char_byte r) = Inr r" by (rule printable_line [OF accepted_printable [OF assms(5)] assms(6)])
  ultimately have fed: "feed_all ?p0 (map char_byte r @ [0x0A])
      = ?p0\<lparr>callbacks := (board_callbacks ?b1)\<lparr>ctx := snd (the (send_bytes (board_callbacks ?b1)) ?b1 (s @ [NL]))\<rparr>\<rparr>"
    using feed_line [OF p0(1), of "map char_byte r"] s(1) p0(2) by (auto simp: callbacks_ok_def board_callbacks_def)
  let ?p1 = "feed_all ?p0 (map char_byte r @ [0x0A])"
  have nl: "char_byte NL = 0x0A" by (simp add: char_byte_def ord_of_def)
  have "sent_bytes ?b1 = []" by (simp add: led_after_def)
  then have p1: "pending ?p1 = map char_byte s @ [0x0A]"
      "set_pending [] ?p1 = p\<lparr>callbacks := board_callbacks ((led_after r b)\<lparr>sent_bytes := []\<rparr>)\<rparr>"
    unfolding fed by (simp_all add: board_callbacks_def nl bench_ctx_def led_after_def)
  have len: "length s < 128" "list_all printable s" using s(3) by (simp_all add: reply_line_def)
  have ms: "5 < min (dl - int (t + 1)) INT_MAX" using assms(7) by simp
  have rem: "remaining_ms wire dl (t + 1, ?p0) = (Inr (min (dl - int (t + 1)) INT_MAX), (t + 2, ?p0))"
    using wire_remaining [of "t + 1" dl ?p0] assms(7) by simp
  note wr = wire_write [OF open_port_good [OF assms(1)] ms, of "map char_byte r @ [0x0A]" 0 "t + 2" ?p0]
  have rc: "receive_loop wire dl [] False (good d) (6 + t, ?p1)
      = Some ((Inr s, good (good d)), (t + 6 + 3 * length s + 3, set_pending [] ?p1))"
    using wire_receive [OF len(2) _ open_port_good [OF assms(1), of 0] p1(1), where line = "[]" and dl = dl and t = "6 + t"] len(1) assms(7) by simp
  have last: "remaining_ms wire dl (t + 6 + 3 * length s + 3, set_pending [] ?p1) = (Inr (min (dl - int (t + 6 + 3 * length s + 3)) INT_MAX), (t + 6 + 3 * length s + 3 + 1, set_pending [] ?p1))"
    by (rule wire_remaining) (use len(1) assms(7) in simp)
  have "exchange wire dl (map char_byte r @ [0x0A]) d (t + 1, p)
      = Some ((Inr s, good d), (t + 6 + 3 * length s + 3 + 1, set_pending [] ?p1))"
    using wire_flush [OF assms(1), of "t + 1" p] rem wr rc last unfolding exchange_def by simp
  then show ?thesis using s(2,3) unfolding p1(2) by blast
qed




definition demo_board :: board where
  "demo_board = \<lparr>led = 0, uptime = 42, sent_bytes = []\<rparr>"

definition demo_protocol :: "board Stm32UartProtocol" where
  "demo_protocol = the (stm32_uart_protocol_init (board_callbacks demo_board))"

lemma demo_protocol_idle:
  "idle demo_protocol" "callbacks_ok (callbacks demo_protocol)" "callbacks demo_protocol = board_callbacks demo_board"
  by (simp_all add: demo_protocol_def stm32_uart_protocol_init_def board_callbacks_def idle_def callbacks_ok_def)

definition demo_link :: "(backend_context, bench) Device" where
  "demo_link = (device_init (hd demo_configs) (Some (uart_ops wire)) (Some (Uart_context \<lparr>port_fd = 3\<rparr>)))
     \<lparr>dstate := DEVICE_OPEN, opened := True\<rparr>"

theorem stm32_answers_each_line_witness:
  "idle (feed_all demo_protocol (map char_byte ''LED ON'' @ [0x0A])) \<and> (0x0A :: byte) \<notin> set (map char_byte ''LED ON'')"
proof -
  have nl: "(0x0A :: byte) \<notin> set (map char_byte ''LED ON'')" by code_simp
  from stm32_answers_each_line [OF demo_protocol_idle(1,2) nl] nl show ?thesis by blast
qed

theorem host_board_agree_witness:
  "\<exists>s cb'. stm32_uart_protocol_handle (board_callbacks demo_board) ''LED ON'' 128 = (Some (s @ [NL]), cb') \<and> reply_line s"
proof -
  have "callbacks_ok (board_callbacks demo_board)" "length ''LED ON'' < 128" using demo_protocol_idle by simp_all
  from host_board_agree [OF this] show ?thesis by blast
qed


end
