(* ===== verification/Process_Api.thy ===== *)
theory Process_Api
  imports Job
begin

text \<open>
  The system calls of the shell beside those of the job table: the kernel record of the job table
  extended by descriptors, processes, terminals and signals.  \<open>io\<close> are the calls the device code uses
  too.  \<^verbatim>\<open>fork\<close> is seen from the parent: it gives the child's number; what the child does is a function of
  its own world (see the executor).  \<^verbatim>\<open>execvp\<close> gives \<open>None\<close> when the process image is replaced and the
  error otherwise.  Signal sets are sets of signal numbers, and \<^verbatim>\<open>sigprocmask\<close> returns the old mask.
\<close>

datatype disposition = SIG_DFL | SIG_IGN | Handler

datatype mask_how = SIG_BLOCK | SIG_SETMASK

record 'w api = "'w kernel" +
  io :: "'w sysio"
  sys_pipe :: "'w \<Rightarrow> (int + int \<times> int) \<times> 'w"
  sys_fork :: "'w \<Rightarrow> (int + int) \<times> 'w"
  sys_execvp :: "string list \<Rightarrow> 'w \<Rightarrow> int option \<times> 'w"
  sys_setpgid :: "int \<Rightarrow> int \<Rightarrow> 'w \<Rightarrow> (int + unit) \<times> 'w"
  sys_getpid :: "'w \<Rightarrow> int"
  sys_getpgrp :: "'w \<Rightarrow> int"
  sys_getfd :: "int \<Rightarrow> 'w \<Rightarrow> (int + uint32) \<times> 'w"
  sys_setfd :: "int \<Rightarrow> uint32 \<Rightarrow> 'w \<Rightarrow> (int + unit) \<times> 'w"
  sys_getfl :: "int \<Rightarrow> 'w \<Rightarrow> (int + uint32) \<times> 'w"
  sys_setfl :: "int \<Rightarrow> uint32 \<Rightarrow> 'w \<Rightarrow> (int + unit) \<times> 'w"
  sys_dupfd :: "int \<Rightarrow> int \<Rightarrow> 'w \<Rightarrow> (int + int) \<times> 'w"
  sys_dup2 :: "int \<Rightarrow> int \<Rightarrow> 'w \<Rightarrow> (int + unit) \<times> 'w"
  sys_isatty :: "int \<Rightarrow> 'w \<Rightarrow> bool"
  sys_tcgetpgrp :: "int \<Rightarrow> 'w \<Rightarrow> (int + int) \<times> 'w"
  sys_tcsetpgrp :: "int \<Rightarrow> int \<Rightarrow> 'w \<Rightarrow> (int + unit) \<times> 'w"
  sys_sigprocmask :: "mask_how \<Rightarrow> int set \<Rightarrow> 'w \<Rightarrow> (int + int set) \<times> 'w"
  sys_sigaction :: "int \<Rightarrow> disposition \<Rightarrow> int set \<Rightarrow> 'w \<Rightarrow> (int + unit) \<times> 'w"

abbreviation "close_fd K fd w \<equiv> snd (sys_close (io K) fd w)"

abbreviation (input) STDIN_FILENO :: int where "STDIN_FILENO \<equiv> 0"
abbreviation (input) STDOUT_FILENO :: int where "STDOUT_FILENO \<equiv> 1"
abbreviation (input) STDERR_FILENO :: int where "STDERR_FILENO \<equiv> 2"
abbreviation (input) FD_CLOEXEC :: uint32 where "FD_CLOEXEC \<equiv> 1"
abbreviation (input) O_CREAT :: uint32 where "O_CREAT \<equiv> 0x40"
abbreviation (input) O_TRUNC :: uint32 where "O_TRUNC \<equiv> 0x200"
abbreviation (input) O_APPEND :: uint32 where "O_APPEND \<equiv> 0x400"
abbreviation (input) SIGINT :: int where "SIGINT \<equiv> 2"
abbreviation (input) SIGQUIT :: int where "SIGQUIT \<equiv> 3"
abbreviation (input) SIGPIPE :: int where "SIGPIPE \<equiv> 13"
abbreviation (input) SIGCHLD :: int where "SIGCHLD \<equiv> 17"
abbreviation (input) SIGTSTP :: int where "SIGTSTP \<equiv> 20"
abbreviation (input) SIGTTIN :: int where "SIGTTIN \<equiv> 21"
abbreviation (input) SIGTTOU :: int where "SIGTTOU \<equiv> 22"

section \<open>What a call keeps\<close>

definition keeps :: "('w \<Rightarrow> 'p) \<Rightarrow> ('w \<Rightarrow> 'r \<times> 'w) \<Rightarrow> bool" where
  "keeps P call \<longleftrightarrow> (\<forall>w. P (snd (call w)) = P w)"

lemma keepsD: "keeps P call \<Longrightarrow> call w = (r, w') \<Longrightarrow> P w' = P w"
  unfolding keeps_def by (metis snd_conv)

lemma keeps_snd: "keeps P call \<Longrightarrow> P (snd (call w)) = P w"
  by (simp add: keeps_def)

lemma keeps_retry: "keeps P call \<Longrightarrow> retry call w = Some (r, w') \<Longrightarrow> P w' = P w"
  by (rule retry_keeps [where fds = P]) (auto dest: keepsD)

text \<open>The calls on process groups, descriptor flags, terminals, signals and the output stream change
  neither the open descriptors nor the children.\<close>

definition side_calls_keep :: "('w, 'x) api_scheme \<Rightarrow> ('w \<Rightarrow> 'p) \<Rightarrow> bool" where
  "side_calls_keep K P \<longleftrightarrow> (\<forall>a b. keeps P (sys_setpgid K a b)) \<and> (\<forall>a. keeps P (sys_getfd K a))
     \<and> (\<forall>a b. keeps P (sys_setfd K a b)) \<and> (\<forall>a. keeps P (sys_getfl K a)) \<and> (\<forall>a b. keeps P (sys_setfl K a b))
     \<and> (\<forall>a. keeps P (sys_tcgetpgrp K a)) \<and> (\<forall>a b. keeps P (sys_tcsetpgrp K a b))
     \<and> (\<forall>a b. keeps P (sys_sigprocmask K a b)) \<and> (\<forall>a b c. keeps P (sys_sigaction K a b c))
     \<and> (\<forall>a b. keeps P (Job.kill K a b)) \<and> (\<forall>n. keeps P (nanosleep K n)) \<and> (\<forall>s w. P (stdout K s w) = P w)
     \<and> (\<forall>a bs. keeps P (sys_write (io K) a bs)) \<and> (\<forall>a n. keeps P (sys_read (io K) a n))
     \<and> (\<forall>a. keeps P (sys_tcgetattr (io K) a)) \<and> (\<forall>a b c. keeps P (sys_tcsetattr (io K) a b c))"

lemma side_calls:
  assumes "side_calls_keep K P"
  shows "keeps P (sys_setpgid K a b)" "keeps P (sys_getfd K a)" "keeps P (sys_setfd K a c)" "keeps P (sys_tcsetpgrp K a b)"
    "keeps P (Job.kill K a b)" "keeps P (sys_write (io K) a bs)" "keeps P (sys_tcgetattr (io K) a)"
    "keeps P (sys_tcsetattr (io K) a b tty)" "P (stdout K s w) = P w" "keeps P (sys_getfl K a)" "keeps P (sys_setfl K a c)"
    "keeps P (sys_read (io K) a n)" "keeps P (sys_sigprocmask K how sigs)" "keeps P (sys_tcgetpgrp K a)"
  using assms by (simp_all add: side_calls_keep_def)

section \<open>Descriptors and children\<close>

text \<open>The shell's open descriptors: a pipe is two fresh ones, \<^verbatim>\<open>dup2\<close> opens its target, and duplicating
  gives a fresh one.\<close>

definition api_fds :: "('w, 'x) api_scheme \<Rightarrow> ('w \<Rightarrow> int set) \<Rightarrow> bool" where
  "api_fds K fds \<longleftrightarrow> fd_table (io K) fds \<and> side_calls_keep K fds
     \<and> (\<forall>w r w'. sys_pipe K w = (r, w') \<longrightarrow> (case r of
          Inr (a, b) \<Rightarrow> 0 \<le> a \<and> 0 \<le> b \<and> a \<noteq> b \<and> a \<notin> fds w \<and> b \<notin> fds w \<and> fds w' = fds w \<union> {a, b}
        | Inl _ \<Rightarrow> fds w' = fds w))
     \<and> (\<forall>fd n w r w'. sys_dupfd K fd n w = (r, w') \<longrightarrow> (case r of
          Inr a \<Rightarrow> n \<le> a \<and> a \<notin> fds w \<and> fds w' = insert a (fds w)
        | Inl _ \<Rightarrow> fds w' = fds w))
     \<and> (\<forall>a b w r w'. sys_dup2 K a b w = (r, w') \<longrightarrow> (case r of
          Inr _ \<Rightarrow> fds w' = insert b (fds w)
        | Inl _ \<Rightarrow> fds w' = fds w))
     \<and> keeps fds (sys_fork K) \<and> (\<forall>a b. keeps fds (waitpid_one K a b)) \<and> (\<forall>a b. keeps fds (waitpid_group K a b))"

lemma api_fds_laws:
  assumes "api_fds K fds"
  shows "fd_table (io K) fds" "side_calls_keep K fds" "keeps fds (sys_fork K)" "keeps fds (waitpid_one K a b)"
    "keeps fds (waitpid_group K a b)"
  using assms by (simp_all add: api_fds_def)

lemma api_fds_pipe:
  assumes "api_fds K fds"
  shows "sys_pipe K w = (Inr (a, b), w')
    \<Longrightarrow> 0 \<le> a \<and> 0 \<le> b \<and> a \<noteq> b \<and> a \<notin> fds w \<and> b \<notin> fds w \<and> fds w' = fds w \<union> {a, b}"
    and "sys_pipe K w = (Inl e, w') \<Longrightarrow> fds w' = fds w"
proof -
  have law: "\<forall>w r w'. sys_pipe K w = (r, w') \<longrightarrow> (case r of
      Inr (a, b) \<Rightarrow> 0 \<le> a \<and> 0 \<le> b \<and> a \<noteq> b \<and> a \<notin> fds w \<and> b \<notin> fds w \<and> fds w' = fds w \<union> {a, b} | Inl _ \<Rightarrow> fds w' = fds w)"
    using assms by (simp add: api_fds_def)
  show "sys_pipe K w = (Inr (a, b), w')
    \<Longrightarrow> 0 \<le> a \<and> 0 \<le> b \<and> a \<noteq> b \<and> a \<notin> fds w \<and> b \<notin> fds w \<and> fds w' = fds w \<union> {a, b}"
    using law [rule_format, of w "Inr (a, b)" w'] by simp
  show "sys_pipe K w = (Inl e, w') \<Longrightarrow> fds w' = fds w"
    using law [rule_format, of w "Inl e" w'] by simp
qed

lemma api_fds_close: "api_fds K fds \<Longrightarrow> fds (close_fd K fd w) = fds w - {fd}"
  by (rule fd_table_close [OF api_fds_laws(1)])

text \<open>The shell's children: \<^verbatim>\<open>fork\<close> adds a fresh one with a positive number, one that is reported as
  terminated is gone, and so is one the kernel does not know; without options, \<^verbatim>\<open>waitpid\<close> reports only
  termination.\<close>

definition terminated :: "uint32 \<Rightarrow> bool" where
  "terminated s \<longleftrightarrow> WIFEXITED s \<or> WIFSIGNALED s"

definition api_kids :: "('w, 'x) api_scheme \<Rightarrow> ('w \<Rightarrow> int set) \<Rightarrow> bool" where
  "api_kids K kids \<longleftrightarrow> side_calls_keep K kids \<and> keeps kids (sys_pipe K) \<and> (\<forall>fd. keeps kids (sys_close (io K) fd))
     \<and> (\<forall>p f. keeps kids (sys_open (io K) p f)) \<and> (\<forall>a b. keeps kids (sys_dup2 K a b)) \<and> (\<forall>a b. keeps kids (sys_dupfd K a b))
     \<and> (\<forall>w r w'. sys_fork K w = (r, w') \<longrightarrow> (case r of
          Inr n \<Rightarrow> 0 < n \<and> n \<notin> kids w \<and> kids w' = insert n (kids w) | Inl _ \<Rightarrow> kids w' = kids w))
     \<and> (\<forall>n opts w r w'. waitpid_one K n opts w = (r, w') \<longrightarrow> (case r of
          Inr (Some s) \<Rightarrow> kids w' = (if terminated s then kids w - {n} else kids w)
        | Inr None \<Rightarrow> kids w' = kids w
        | Inl e \<Rightarrow> kids w' = kids w \<and> (e = ECHILD \<longrightarrow> n \<notin> kids w)))
     \<and> (\<forall>n w r w'. waitpid_one K n 0 w = (r, w') \<longrightarrow> r = Inl EINTR \<or> r = Inl ECHILD \<or> (\<exists>s. r = Inr (Some s) \<and> terminated s))
     \<and> (\<forall>g opts w r w'. waitpid_group K g opts w = (r, w') \<longrightarrow> (case r of
          Inr (n, s) \<Rightarrow> kids w' = (if terminated s then kids w - {n} else kids w)
        | Inl _ \<Rightarrow> kids w' = kids w))"

lemma api_kids_laws:
  assumes "api_kids K kids"
  shows "side_calls_keep K kids" "keeps kids (sys_pipe K)" "keeps kids (sys_close (io K) fd)"
    "keeps kids (sys_open (io K) p f)" "keeps kids (sys_dup2 K a b)" "keeps kids (sys_dupfd K a b)"
    "sys_fork K w = (Inl e, w') \<Longrightarrow> kids w' = kids w"
    "sys_fork K w = (Inr n, w') \<Longrightarrow> 0 < n \<and> n \<notin> kids w \<and> kids w' = insert n (kids w)"
proof -
  have "\<forall>w r w'. sys_fork K w = (r, w') \<longrightarrow> (case r of
      Inr n \<Rightarrow> 0 < n \<and> n \<notin> kids w \<and> kids w' = insert n (kids w) | Inl _ \<Rightarrow> kids w' = kids w)"
    using assms by (simp add: api_kids_def)
  then show "sys_fork K w = (Inl e, w') \<Longrightarrow> kids w' = kids w"
    "sys_fork K w = (Inr n, w') \<Longrightarrow> 0 < n \<and> n \<notin> kids w \<and> kids w' = insert n (kids w)" by fastforce+
qed (use assms in \<open>simp_all add: api_kids_def\<close>)

lemma api_kids_waitpid:
  assumes "api_kids K kids" "waitpid_one K n opts w = (r, w')"
  shows "kids w' \<subseteq> kids w" "r = Inr (Some s) \<Longrightarrow> kids w' = (if terminated s then kids w - {n} else kids w)"
    "r = Inr None \<Longrightarrow> kids w' = kids w" "r = Inl e \<Longrightarrow> kids w' = kids w \<and> (e = ECHILD \<longrightarrow> n \<notin> kids w)"
proof -
  have law: "case r of Inr (Some s) \<Rightarrow> kids w' = (if terminated s then kids w - {n} else kids w)
      | Inr None \<Rightarrow> kids w' = kids w | Inl e \<Rightarrow> kids w' = kids w \<and> (e = ECHILD \<longrightarrow> n \<notin> kids w)"
    using assms unfolding api_kids_def by blast
  then show "r = Inr (Some s) \<Longrightarrow> kids w' = (if terminated s then kids w - {n} else kids w)" "r = Inr None \<Longrightarrow> kids w' = kids w"
    "r = Inl e \<Longrightarrow> kids w' = kids w \<and> (e = ECHILD \<longrightarrow> n \<notin> kids w)" by simp_all
  show "kids w' \<subseteq> kids w" using law by (auto split: sum.split_asm option.split_asm if_split_asm)
qed

lemma api_kids_waitpid_block:
  assumes "api_kids K kids" "waitpid_one K n 0 w = (r, w')" "r \<noteq> Inl EINTR"
  shows "kids w' = kids w - {n}"
proof -
  have "r = Inl ECHILD \<or> (\<exists>s. r = Inr (Some s) \<and> terminated s)" using assms unfolding api_kids_def by blast
  then show ?thesis using api_kids_waitpid [OF assms(1,2)] by auto
qed

lemma api_kids_waitpid_group:
  assumes "api_kids K kids"
  shows "waitpid_group K g opts w = (Inr (n, s), w') \<Longrightarrow> kids w' = (if terminated s then kids w - {n} else kids w)"
    and "waitpid_group K g opts w = (Inl e, w') \<Longrightarrow> kids w' = kids w"
proof -
  have law: "waitpid_group K g opts w = (r, w') \<Longrightarrow> (case r of
      Inr (n, s) \<Rightarrow> kids w' = (if terminated s then kids w - {n} else kids w) | Inl _ \<Rightarrow> kids w' = kids w)" for r
    using assms unfolding api_kids_def by blast
  show "waitpid_group K g opts w = (Inr (n, s), w') \<Longrightarrow> kids w' = (if terminated s then kids w - {n} else kids w)"
    "waitpid_group K g opts w = (Inl e, w') \<Longrightarrow> kids w' = kids w"
    using law [of "Inr (n, s)"] law [of "Inl e"] by simp_all
qed

end
