(* ===== verification/Terminal.thy ===== *)
theory Terminal
  imports Process_Api
begin

text \<open>
  Control of the terminal, \<^verbatim>\<open>src/terminal.c\<close>.  The file's static variables are the record
  \<open>terminal\<close>; only initialisation and shutdown change it.
\<close>

record terminal =
  shell_pgid :: int
  terminal_fd :: int
  terminal_initialized :: bool
  shell_modes_valid :: bool
  shell_modes :: termios

definition terminal_reset :: "terminal \<Rightarrow> terminal" where
  "terminal_reset T = T\<lparr>terminal_initialized := False, terminal_fd := -1, shell_pgid := -1, shell_modes_valid := False\<rparr>"

definition terminal_set_pgrp :: "('w, 'x) api_scheme \<Rightarrow> terminal \<Rightarrow> int \<Rightarrow> 'w \<Rightarrow> ((int + unit) \<times> 'w) option" where
  "terminal_set_pgrp K T grp w = retry (sys_tcsetpgrp K (terminal_fd T) grp) w"

definition terminal_is_initialized :: "terminal \<Rightarrow> bool" where
  "terminal_is_initialized T = terminal_initialized T"

text \<open>A result \<open>Inl e\<close> is the return value -1 with \<^verbatim>\<open>errno = e\<close>; where the function returns -1 without
  setting \<^verbatim>\<open>errno\<close>, \<open>e\<close> is 0.\<close>

definition terminal_set_foreground :: "('w, 'x) api_scheme \<Rightarrow> terminal \<Rightarrow> int \<Rightarrow> 'w \<Rightarrow> ((int + unit) \<times> 'w) option" where
  "terminal_set_foreground K T grp w =
     (if \<not> terminal_initialized T then Some (Inr (), w)
      else if grp \<le> 0 then Some (Inl 0, w)
      else terminal_set_pgrp K T grp w)"

text \<open>\<open>Inr None\<close>: the modes were not read, because there is no terminal.\<close>

definition terminal_get_modes :: "('w, 'x) api_scheme \<Rightarrow> terminal \<Rightarrow> 'w \<Rightarrow> ((int + termios option) \<times> 'w) option" where
  "terminal_get_modes K T w =
     (if \<not> terminal_initialized T then Some (Inr None, w)
      else do {
        (r, w') \<leftarrow> retry (sys_tcgetattr (io K) (terminal_fd T)) w;
        Some (map_sum id Some r, w') })"

abbreviation (input) TCSADRAIN :: int where "TCSADRAIN \<equiv> 1"

definition terminal_set_modes :: "('w, 'x) api_scheme \<Rightarrow> terminal \<Rightarrow> termios \<Rightarrow> 'w \<Rightarrow> ((int + unit) \<times> 'w) option" where
  "terminal_set_modes K T modes w =
     (if \<not> terminal_initialized T then Some (Inr (), w)
      else retry (sys_tcsetattr (io K) (terminal_fd T) TCSADRAIN modes) w)"

definition terminal_restore :: "('w, 'x) api_scheme \<Rightarrow> terminal \<Rightarrow> 'w \<Rightarrow> ((int + unit) \<times> 'w) option" where
  "terminal_restore K T w =
     (if \<not> terminal_initialized T then Some (Inr (), w)
      else if shell_pgid T \<le> 0 then Some (Inl 0, w)
      else do {
        (r, w1) \<leftarrow> terminal_set_pgrp K T (shell_pgid T) w;
        case r of
          Inl e \<Rightarrow> Some (Inl e, w1)
        | Inr _ \<Rightarrow> if shell_modes_valid T then terminal_set_modes K T (shell_modes T) w1 else Some (Inr (), w1) })"

text \<open>The loop that waits until the shell is in the foreground; the result is the shell's group.\<close>

partial_function (option) foreground_loop :: "('w, 'x) api_scheme \<Rightarrow> int \<Rightarrow> int \<Rightarrow> 'w \<Rightarrow> ((int + int) \<times> 'w) option" where
  "foreground_loop K fd shell_group w =
     (case sys_tcgetpgrp K fd w of
        (Inl e, w1) \<Rightarrow> Some (Inl e, w1)
      | (Inr foreground, w1) \<Rightarrow>
          if foreground = shell_group then Some (Inr shell_group, w1)
          else (case Job.kill K (- shell_group) SIGTTIN w1 of
            (Inl e, w2) \<Rightarrow> if e = EINTR then foreground_loop K fd shell_group w2 else Some (Inl e, w2)
          | (Inr _, w2) \<Rightarrow> foreground_loop K fd (sys_getpgrp K w2) w2))"

declare foreground_loop.simps [code]

text \<open>The path \<^verbatim>\<open>fail\<close>.\<close>

definition terminal_init_fail :: "('w, 'x) api_scheme \<Rightarrow> terminal \<Rightarrow> 'w \<Rightarrow> (bool \<times> terminal) \<times> 'w" where
  "terminal_init_fail K T w = ((False, T\<lparr>terminal_fd := -1, shell_pgid := -1, shell_modes_valid := False\<rparr>), close_fd K (terminal_fd T) w)"

text \<open>The shell's own process group; \<open>None\<close> when it cannot be made.\<close>

definition own_group :: "('w, 'x) api_scheme \<Rightarrow> int \<Rightarrow> 'w \<Rightarrow> int option \<times> 'w" where
  "own_group K shell_group w =
     (if shell_group \<noteq> sys_getpid K w then
        (case sys_setpgid K 0 0 w of
           (Inl e, w') \<Rightarrow> (if e \<noteq> EACCES then None else Some (sys_getpgrp K w'), w')
         | (Inr _, w') \<Rightarrow> (Some (sys_getpgrp K w'), w'))
      else (Some shell_group, w))"

text \<open>Taking the terminal with \<^verbatim>\<open>SIGTTOU\<close> blocked; \<open>old\<close> is the mask to restore.\<close>

definition take_terminal :: "('w, 'x) api_scheme \<Rightarrow> terminal \<Rightarrow> int \<Rightarrow> int set \<Rightarrow> 'w \<Rightarrow> ((bool \<times> terminal) \<times> 'w) option" where
  "take_terminal K T shell_group old w =
     (case own_group K shell_group w of
        (None, w1) \<Rightarrow> Some (terminal_init_fail K T (snd (sys_sigprocmask K SIG_SETMASK old w1)))
      | (Some grp, w1) \<Rightarrow>
          let T1 = T\<lparr>shell_pgid := grp\<rparr>
          in do {
            (r, w2) \<leftarrow> terminal_set_pgrp K T1 grp w1;
            case r of
              Inl e \<Rightarrow> Some (terminal_init_fail K T1 (snd (sys_sigprocmask K SIG_SETMASK old w2)))
            | Inr _ \<Rightarrow>
                (case sys_sigprocmask K SIG_SETMASK old w2 of
                   (Inl e, w3) \<Rightarrow> Some (terminal_init_fail K T1 w3)
                 | (Inr _, w3) \<Rightarrow>
                     (case sys_tcgetattr (io K) (terminal_fd T1) w3 of
                        (Inl e, w4) \<Rightarrow> Some (terminal_init_fail K T1 w4)
                      | (Inr modes, w4) \<Rightarrow>
                          Some ((True, T1\<lparr>shell_modes := modes, shell_modes_valid := True, terminal_initialized := True\<rparr>), w4))) })"

definition terminal_init :: "('w, 'x) api_scheme \<Rightarrow> terminal \<Rightarrow> 'w \<Rightarrow> ((bool \<times> terminal) \<times> 'w) option" where
  "terminal_init K T0 w =
     (let T = terminal_reset T0
      in if \<not> sys_isatty K STDIN_FILENO w then Some ((True, T), w)
         else case sys_open (io K) ''/dev/tty'' (O_RDWR OR O_CLOEXEC) w of
           (Inl e, w1) \<Rightarrow> Some ((False, T), w1)
         | (Inr fd, w1) \<Rightarrow>
             let T1 = T\<lparr>terminal_fd := fd\<rparr>
             in do {
               (g, w2) \<leftarrow> foreground_loop K fd (sys_getpgrp K w1) w1;
               case g of
                 Inl e \<Rightarrow> Some (terminal_init_fail K T1 w2)
               | Inr grp \<Rightarrow>
                   (case sys_sigprocmask K SIG_BLOCK {SIGTTOU} w2 of
                      (Inl e, w3) \<Rightarrow> Some (terminal_init_fail K T1 w3)
                    | (Inr old, w3) \<Rightarrow> take_terminal K T1 grp old w3) })"

definition terminal_shutdown :: "('w, 'x) api_scheme \<Rightarrow> terminal \<Rightarrow> 'w \<Rightarrow> (terminal \<times> 'w) option" where
  "terminal_shutdown K T w = do {
     (_, w1) \<leftarrow> (if terminal_initialized T then terminal_restore K T w else Some (Inr (), w));
     Some (terminal_reset T, if terminal_fd T \<ge> 0 then close_fd K (terminal_fd T) w1 else w1) }"

section \<open>What the terminal code keeps\<close>

lemma terminal_keeps:
  assumes "side_calls_keep K P"
  shows "terminal_set_foreground K T grp w = Some (r, w') \<Longrightarrow> P w' = P w"
    and "terminal_get_modes K T w = Some (r1, w') \<Longrightarrow> P w' = P w"
    and "terminal_set_modes K T modes w = Some (r, w') \<Longrightarrow> P w' = P w"
    and "terminal_restore K T w = Some (r, w') \<Longrightarrow> P w' = P w"
proof -
  note retries = keeps_retry [OF side_calls(4) [OF assms]] keeps_retry [OF side_calls(7) [OF assms]] keeps_retry [OF side_calls(8) [OF assms]]
  show "terminal_set_foreground K T grp w = Some (r, w') \<Longrightarrow> P w' = P w" "terminal_get_modes K T w = Some (r1, w') \<Longrightarrow> P w' = P w"
    "terminal_set_modes K T modes w = Some (r, w') \<Longrightarrow> P w' = P w"  "terminal_restore K T w = Some (r, w') \<Longrightarrow> P w' = P w"
    by (auto simp: terminal_set_foreground_def terminal_get_modes_def terminal_set_modes_def terminal_restore_def terminal_set_pgrp_def
        dest!: retries split: if_split_asm Option.bind_split_asm prod.split_asm sum.split_asm)
qed

text \<open>A terminal that is in use has a descriptor and a group.\<close>

definition terminal_ok :: "terminal \<Rightarrow> bool" where
  "terminal_ok T \<longleftrightarrow> (if terminal_initialized T then 0 \<le> terminal_fd T \<and> shell_modes_valid T else terminal_fd T = -1 \<and> \<not> shell_modes_valid T)"

definition terminal_fds :: "terminal \<Rightarrow> int set" where
  "terminal_fds T = (if terminal_fd T \<ge> 0 then {terminal_fd T} else {})"


lemma foreground_loop_keeps:
  assumes "foreground_loop K fd grp w = Some (r, w')" and K: "side_calls_keep K P"
  shows "P w' = P w"
proof -
  let ?Q = "\<lambda>K' (fd :: int) (grp :: int) w x. K' = K \<longrightarrow> P (snd x) = P w"
  have "?Q K fd grp w (r, w')"
  proof (rule foreground_loop.raw_induct [where P = ?Q, OF _ assms(1)], goal_cases)
    case (1 loop K' fd grp w x)
    show ?case
    proof
      assume K': "K' = K"
      obtain a w1 where a: "sys_tcgetpgrp K fd w = (a, w1)" by (meson surj_pair)
      obtain b w2 where b: "Job.kill K (- grp) SIGTTIN w1 = (b, w2)" by (meson surj_pair)
      have "P w1 = P w" "P w2 = P w"
        using keepsD [OF side_calls(14) [OF K] a] keepsD [OF side_calls(5) [OF K] b] by simp_all
      then show "P (snd x) = P w"
        using 1(2) 1(1) [of K fd _ w2 x] unfolding K' by (auto simp: a b split: sum.split_asm if_split_asm)
    qed
  qed
  then show ?thesis by simp
qed

lemma terminal_init_fail_fds:
  assumes "api_fds K fds" "terminal_fd T = fd" "fds w = insert fd base" "fd \<notin> base"
    and "terminal_init_fail K T w = ((ok, T'), w')"
  shows "\<not> ok \<and> fds w' = base \<and> terminal_fds T' = {} \<and> terminal_initialized T' = terminal_initialized T \<and> terminal_fd T' = -1 \<and> \<not> shell_modes_valid T'"
  using assms api_fds_close [OF assms(1), of fd w] by (auto simp: terminal_init_fail_def terminal_fds_def)

lemma take_terminal_fds:
  assumes K: "api_fds K fds" and T: "terminal_fd T = fd" "\<not> terminal_initialized T" "0 \<le> fd" and w: "fds w = insert fd base" "fd \<notin> base"
    and take: "take_terminal K T grp old w = Some ((ok, T'), w')"
  shows "fds w' = base \<union> terminal_fds T' \<and> terminal_ok T' \<and> (ok \<longleftrightarrow> terminal_initialized T')"
proof -
  note side = api_fds_laws(2) [OF K]
  obtain o1 w1 where s: "own_group K grp w = (o1, w1)" by (meson surj_pair)
  have w1: "fds w1 = insert fd base"
    using s w(1) by (auto simp: own_group_def dest!: keepsD [OF side_calls(1) [OF side]] split: if_split_asm prod.split_asm sum.split_asm)
  note mask = keeps_snd [OF side_calls(13) [OF side]]
  have failing: ?thesis if "terminal_init_fail K T2 v = ((ok, T'), w')" "terminal_fd T2 = fd" "\<not> terminal_initialized T2" "fds v = insert fd base" for T2 v
    using terminal_init_fail_fds [OF K that(2,4) w(2) that(1)] that(3) by (auto simp: terminal_ok_def)
  show ?thesis
  proof (cases o1)
    case None
    then show ?thesis
      using take s failing [of T "snd (sys_sigprocmask K SIG_SETMASK old w1)"] T w1 mask by (simp add: take_terminal_def)
  next
    case (Some g)
    define T1 where "T1 = T\<lparr>shell_pgid := g\<rparr>"
    have T1: "terminal_fd T1 = fd" "\<not> terminal_initialized T1" using T by (simp_all add: T1_def)
    obtain r w2 where r: "terminal_set_pgrp K T1 g w1 = Some (r, w2)"
      using take Some by (auto simp: take_terminal_def Let_def s T1_def split: Option.bind_split_asm)
    have w2: "fds w2 = insert fd base"
      using r w1 by (auto simp: terminal_set_pgrp_def dest!: keeps_retry [OF side_calls(4) [OF side]])
    obtain m w3 where m: "sys_sigprocmask K SIG_SETMASK old w2 = (m, w3)" by (meson surj_pair)
    have w3: "fds w3 = insert fd base" using keepsD [OF side_calls(13) [OF side] m] w2 by simp
    obtain t w4 where t: "sys_tcgetattr (io K) fd w3 = (t, w4)" by (meson surj_pair)
    have w4: "fds w4 = insert fd base" using keepsD [OF side_calls(7) [OF side] t] w3 by simp
    have "terminal_init_fail K T1 w3 = ((ok, T'), w') \<or> terminal_init_fail K T1 w4 = ((ok, T'), w')
        \<or> ok \<and> w' = w4 \<and> (\<exists>modes. T' = T1\<lparr>shell_modes := modes, shell_modes_valid := True, terminal_initialized := True\<rparr>)"
      using take Some T1(1) r unfolding T1_def
      by (cases r; cases m; cases t) (auto simp: take_terminal_def Let_def s m t)
    then show ?thesis
      using T1 T(3) w4 failing [of T1 w3] failing [of T1 w4] w3 by (auto simp: terminal_fds_def terminal_ok_def)
  qed
qed

lemma terminal_init_fds:
  assumes K: "api_fds K fds" and "terminal_init K T0 w = Some ((ok, T), w')"
  shows "terminal_fds T \<inter> fds w = {} \<and> fds w' = fds w \<union> terminal_fds T \<and> terminal_ok T \<and> (\<not> ok \<longrightarrow> \<not> terminal_initialized T)"
proof -
  note side = api_fds_laws(2) [OF K]
  let ?T = "terminal_reset T0"
  have T: "\<not> terminal_initialized ?T" "terminal_fd ?T = -1" "\<not> shell_modes_valid ?T" by (simp_all add: terminal_reset_def)
  obtain o1 w1 where o1: "sys_open (io K) ''/dev/tty'' (O_RDWR OR O_CLOEXEC) w = (o1, w1)" by (meson surj_pair)
  show ?thesis
  proof (cases "sys_isatty K STDIN_FILENO w \<and> (\<exists>fd. o1 = Inr fd)")
    case False
    have "fds w1 = fds w" if "o1 = Inl e" for e
      using fd_table_open(2) [OF api_fds_laws(1) [OF K]] o1 that by blast
    moreover have "T = ?T \<and> (w' = w \<or> w' = w1 \<and> (\<exists>e. o1 = Inl e))"
      using assms(2) False by (cases o1) (auto simp: terminal_init_def Let_def o1 [simplified] split: if_split_asm)
    ultimately show ?thesis using T by (auto simp: terminal_fds_def terminal_ok_def)
  next
    case True
    then obtain fd where fd: "o1 = Inr fd" by blast
    note w1 = fd_table_open(1) [OF api_fds_laws(1) [OF K] o1 [unfolded fd]]
    let ?T1 = "?T\<lparr>terminal_fd := fd\<rparr>"
    obtain g w2 where g: "foreground_loop K fd (sys_getpgrp K w1) w1 = Some (g, w2)"
      using assms(2) True fd by (auto simp: terminal_init_def Let_def o1 [simplified] split: Option.bind_split_asm)
    have w2: "fds w2 = insert fd (fds w)" using foreground_loop_keeps [OF g side] w1 by simp
    obtain m w3 where m: "sys_sigprocmask K SIG_BLOCK {SIGTTOU} w2 = (m, w3)" by (meson surj_pair)
    have w3: "fds w3 = insert fd (fds w)" using keepsD [OF side_calls(13) [OF side] m] w2 by simp
    consider (fails) v where "terminal_init_fail K ?T1 v = ((ok, T), w')" "fds v = insert fd (fds w)"
      | (taken) grp old where "take_terminal K ?T1 grp old w3 = Some ((ok, T), w')"
      using assms(2) True fd w2 w3 by (cases g; cases m) (auto simp: terminal_init_def Let_def o1 [simplified] g m)
    then show ?thesis
    proof cases
      case fails
      then show ?thesis using terminal_init_fail_fds [OF K _ fails(2) _ fails(1)] w1 T by (simp add: terminal_ok_def)
    next
      case taken
      have "fds w' = fds w \<union> terminal_fds T \<and> terminal_ok T \<and> (ok \<longleftrightarrow> terminal_initialized T)"
        using take_terminal_fds [OF K _ _ _ w3 _ taken] w1 T by simp
      moreover have "terminal_fds T \<subseteq> {fd}"
        using taken by (auto simp: take_terminal_def Let_def terminal_init_fail_def terminal_fds_def
            split: if_split_asm prod.split_asm Option.bind_split_asm sum.split_asm option.split_asm)
      ultimately show ?thesis using w1 by auto
    qed
  qed
qed

lemma terminal_shutdown_fds:
  assumes "api_fds K fds" "terminal_shutdown K T w = Some (T', w')"
  shows "fds w' = fds w - terminal_fds T \<and> T' = terminal_reset T"
  using assms(2) terminal_keeps(4) [OF api_fds_laws(2) [OF assms(1)]] api_fds_close [OF assms(1)]
  by (fastforce simp: terminal_shutdown_def terminal_fds_def split: Option.bind_split_asm if_split_asm)

end
