(* ===== verification/Demo_Process.thy ===== *)
theory Demo_Process
  imports Process_Api
begin

text \<open>
  A small kernel for the concrete runs: its world holds the open descriptors, the children, the next
  process number, the number of unread bytes of the one pipe it has, how often a process has slept, and what is
  left of the open streams.  A child ends as soon as it is waited for, with the exit code given in the world; there
  is no terminal.
\<close>

record demo_world =
  d_fds :: "int list"
  d_kids :: "int list"
  d_next :: nat
  d_unread :: nat
  d_code :: byte
  d_clock :: nat
  d_streams :: "(int \<times> string list) list"

definition d_status :: "demo_world \<Rightarrow> uint32" where
  "d_status w = push_bit 8 (ucast (d_code w))"

definition d_fresh :: "int list \<Rightarrow> int" where
  "d_fresh xs = fold max xs 2 + 1"

definition demo_io :: "demo_world sysio" where
  "demo_io = \<lparr>
     sys_open = (\<lambda>p f w. let fd = d_fresh (d_fds w) in (Inr fd, w\<lparr>d_fds := fd # d_fds w\<rparr>)),
     sys_close = (\<lambda>fd w. (Inr (), w\<lparr>d_fds := filter (\<lambda>x. x \<noteq> fd) (d_fds w)\<rparr>)),
     sys_read = (\<lambda>fd n w. if d_unread w = 0 then (Inl EAGAIN, w)
        else let k = min (Suc (n - 1)) (d_unread w) in (Inr (replicate k 0x47), w\<lparr>d_unread := d_unread w - k\<rparr>)),
     sys_write = (\<lambda>fd bs w. (Inr (length bs), w\<lparr>d_unread := d_unread w + length bs\<rparr>)),
     sys_poll = (\<lambda>fd ev ms w. (Inr None, w)),
     sys_clock_gettime = (\<lambda>w. (Inr (0, 0), w)),
     sys_tcgetattr = (\<lambda>fd w. (Inl EINVAL, w)),
     sys_tcsetattr = (\<lambda>fd a t w. (Inl EINVAL, w)),
     sys_tcflush = (\<lambda>fd q w. (Inl EINVAL, w)),
     ioctl_i2c_slave = (\<lambda>fd a w. (Inl EINVAL, w)),
     ioctl_i2c_quick = (\<lambda>fd w. (Inl EINVAL, w)),
     ioctl_gpio_linehandle = (\<lambda>fd q w. (Inl EINVAL, w)),
     ioctl_gpio_get = (\<lambda>fd w. (Inl EINVAL, w)),
     ioctl_gpio_set = (\<lambda>fd b w. (Inl EINVAL, w))\<rparr>"

definition demo_api :: "demo_world api" where
  "demo_api = \<lparr>
     waitpid_one = (\<lambda>n opts w. if n \<in> set (d_kids w) then (Inr (Some (d_status w)), w\<lparr>d_kids := filter (\<lambda>x. x \<noteq> n) (d_kids w)\<rparr>)
        else (Inl ECHILD, w)),
     waitpid_group = (\<lambda>g opts w. case d_kids w of [] \<Rightarrow> (Inl ECHILD, w)
        | n # ns \<Rightarrow> (Inr (n, d_status w), w\<lparr>d_kids := filter (\<lambda>x. x \<noteq> n) ns\<rparr>)),
     kill = (\<lambda>n sig w. (Inr (), w)),
     nanosleep = (\<lambda>ns w. (Inr (), w\<lparr>d_clock := Suc (d_clock w)\<rparr>)),
     stdout = (\<lambda>s w. w),
     io = demo_io,
     sys_pipe = (\<lambda>w. let a = d_fresh (d_fds w) in (Inr (a, a + 1), w\<lparr>d_fds := a # (a + 1) # d_fds w\<rparr>)),
     sys_fork = (\<lambda>w. let n = max (fold max (d_kids w) 0) (int (d_next w)) + 1 in (Inr n, w\<lparr>d_kids := n # d_kids w, d_next := nat n\<rparr>)),
     sys_execvp = (\<lambda>args w. (None, w)),
     sys_setpgid = (\<lambda>a b w. (Inr (), w)),
     sys_getpid = (\<lambda>w. 1),
     sys_getpgrp = (\<lambda>w. 1),
     sys_getfd = (\<lambda>fd w. (Inr 0, w)),
     sys_setfd = (\<lambda>fd fl w. (Inr (), w)),
     sys_getfl = (\<lambda>fd w. (Inr 0, w)),
     sys_setfl = (\<lambda>fd fl w. (Inr (), w)),
     sys_dupfd = (\<lambda>fd n w. let a = max n (d_fresh (d_fds w)) in (Inr a, w\<lparr>d_fds := a # d_fds w\<rparr>)),
     sys_dup2 = (\<lambda>a b w. (Inr (), w\<lparr>d_fds := b # d_fds w\<rparr>)),
     sys_isatty = (\<lambda>fd w. False),
     sys_tcgetpgrp = (\<lambda>fd w. (Inl EINVAL, w)),
     sys_tcsetpgrp = (\<lambda>fd g w. (Inl EINVAL, w)),
     sys_sigprocmask = (\<lambda>how sigs w. (Inr {}, w)),
     sys_sigaction = (\<lambda>sig d m w. (Inr (), w))\<rparr>"

abbreviation "demo_fds w \<equiv> set (d_fds w)"
abbreviation "demo_kids w \<equiv> set (d_kids w)"

lemma fold_max_ge: "k \<le> fold max xs (k :: int) \<and> (x \<in> set xs \<longrightarrow> x \<le> fold max xs k)"
proof (induction xs arbitrary: k)
  case (Cons y ys)
  show ?case using Cons [of "max y k"] by (auto simp: max_def)
qed simp

lemma d_fresh_fresh: "3 \<le> d_fresh xs" "x \<in> set xs \<Longrightarrow> x < d_fresh xs"
  using fold_max_ge [of 2 xs x] by (auto simp: d_fresh_def)

lemma d_fresh_ge: "0 \<le> d_fresh xs" "0 \<le> d_fresh xs + 1"
  using d_fresh_fresh(1) [of xs] by linarith+

lemma d_fresh_new [simp]: "d_fresh xs \<notin> set xs" "d_fresh xs + 1 \<notin> set xs"
  using d_fresh_fresh(2) [of "d_fresh xs" xs] d_fresh_fresh(2) [of "d_fresh xs + 1" xs] by auto

lemma demo_side_calls:
  "side_calls_keep demo_api demo_fds" "side_calls_keep demo_api demo_kids"
  by (simp_all add: side_calls_keep_def keeps_def demo_api_def demo_io_def Let_def)

lemma demo_fd_table: "fd_table (io demo_api) demo_fds"
  by (auto simp: fd_table_def demo_api_def demo_io_def Let_def d_fresh_ge split: if_split_asm)

lemma demo_dup_new: "max n (d_fresh xs) \<notin> set xs"
  using d_fresh_fresh(2) [of "max n (d_fresh xs)" xs] by linarith

lemma demo_api_fds: "api_fds demo_api demo_fds"
proof -
  have "keeps demo_fds (sys_fork demo_api)" "\<And>a b. keeps demo_fds (waitpid_one demo_api a b)" "\<And>a b. keeps demo_fds (waitpid_group demo_api a b)"
    by (auto simp: keeps_def demo_api_def Let_def split: list.splits)
  moreover have "sys_pipe demo_api w = (r, w') \<Longrightarrow> (case r of
      Inr (a, b) \<Rightarrow> 0 \<le> a \<and> 0 \<le> b \<and> a \<noteq> b \<and> a \<notin> demo_fds w \<and> b \<notin> demo_fds w \<and> demo_fds w' = demo_fds w \<union> {a, b}
    | Inl _ \<Rightarrow> demo_fds w' = demo_fds w)" for w r w'
    using d_fresh_fresh(1) [of "d_fds w"] d_fresh_new [of "d_fds w"] by (auto simp: demo_api_def Let_def)
  moreover have "sys_dupfd demo_api fd n w = (r, w') \<Longrightarrow> (case r of
      Inr a \<Rightarrow> n \<le> a \<and> a \<notin> demo_fds w \<and> demo_fds w' = insert a (demo_fds w) | Inl _ \<Rightarrow> demo_fds w' = demo_fds w)" for fd n w r w'
    using demo_dup_new [of n "d_fds w"] by (auto simp: demo_api_def Let_def)
  moreover have "sys_dup2 demo_api a b w = (r, w') \<Longrightarrow> (case r of
      Inr _ \<Rightarrow> demo_fds w' = insert b (demo_fds w) | Inl _ \<Rightarrow> demo_fds w' = demo_fds w)" for a b w r w'
    by (auto simp: demo_api_def)
  ultimately show ?thesis using demo_fd_table demo_side_calls(1) unfolding api_fds_def by blast
qed

lemma demo_terminated: "terminated (d_status w)"
proof -
  have "(0x7F :: uint32) = mask 7" by (simp add: mask_eq_exp_minus_1)
  then have "d_status w AND 0x7F = take_bit 7 (d_status w)" by (simp only: take_bit_eq_mask)
  also have "\<dots> = 0" by (simp add: d_status_def take_bit_push_bit)
  finally show ?thesis by (simp add: terminated_def WIFEXITED_def)
qed

lemma demo_api_kids: "api_kids demo_api demo_kids"
proof -
  have "sys_fork demo_api w = (r, w') \<Longrightarrow> (case r of
      Inr n \<Rightarrow> 0 < n \<and> n \<notin> demo_kids w \<and> demo_kids w' = insert n (demo_kids w) | Inl _ \<Rightarrow> demo_kids w' = demo_kids w)" for w r w'
    using fold_max_ge [of 0 "d_kids w" "max (fold max (d_kids w) 0) (int (d_next w)) + 1"] by (auto simp: demo_api_def Let_def)
  moreover have "waitpid_one demo_api n opts w = (r, w') \<Longrightarrow> (case r of
          Inr (Some s) \<Rightarrow> demo_kids w' = (if terminated s then demo_kids w - {n} else demo_kids w)
        | Inr None \<Rightarrow> demo_kids w' = demo_kids w
        | Inl e \<Rightarrow> demo_kids w' = demo_kids w \<and> (e = ECHILD \<longrightarrow> n \<notin> demo_kids w))" for n opts w r w'
    by (auto simp: demo_api_def demo_terminated split: if_split_asm)
  moreover have "waitpid_one demo_api n 0 w = (r, w') \<Longrightarrow> r = Inl EINTR \<or> r = Inl ECHILD \<or> (\<exists>s. r = Inr (Some s) \<and> terminated s)" for n w r w'
    by (auto simp: demo_api_def demo_terminated split: if_split_asm)
  moreover have "waitpid_group demo_api g opts w = (r, w') \<Longrightarrow> (case r of
          Inr (n, s) \<Rightarrow> demo_kids w' = (if terminated s then demo_kids w - {n} else demo_kids w)
        | Inl _ \<Rightarrow> demo_kids w' = demo_kids w)" for g opts w r w'
    by (auto simp: demo_api_def demo_terminated split: list.split_asm)
  moreover have "keeps demo_kids (sys_pipe demo_api)" "\<And>fd. keeps demo_kids (sys_close (io demo_api) fd)"
    "\<And>p f. keeps demo_kids (sys_open (io demo_api) p f)" "\<And>a b. keeps demo_kids (sys_dup2 demo_api a b)"
    "\<And>a b. keeps demo_kids (sys_dupfd demo_api a b)"
    by (simp_all add: keeps_def demo_api_def demo_io_def Let_def)
  ultimately show ?thesis using demo_side_calls(2) unfolding api_kids_def by blast
qed

end
