(* ===== verification/Event_Sig.thy ===== *)
theory Event_Sig
  imports Demo_Process
begin

text \<open>
  The self-pipe, \<^verbatim>\<open>src/event.c\<close>, and the signal handling that uses it, \<^verbatim>\<open>src/sig.c\<close>.  The static
  variables are the pair of pipe ends and the pending events; the latter is changed by the handler,
  which runs between any two steps of the program.
\<close>

record event =
  event_read :: int
  event_write :: int

definition event_none :: event where
  "event_none = \<lparr>event_read = -1, event_write = -1\<rparr>"

section \<open>The pipe\<close>

definition event_set_flags :: "('w, 'x) api_scheme \<Rightarrow> int \<Rightarrow> 'w \<Rightarrow> bool \<times> 'w" where
  "event_set_flags K fd w =
     (case sys_getfl K fd w of
        (Inl _, w1) \<Rightarrow> (False, w1)
      | (Inr fl, w1) \<Rightarrow>
          (case sys_setfl K fd (fl OR O_NONBLOCK) w1 of
             (Inl _, w2) \<Rightarrow> (False, w2)
           | (Inr _, w2) \<Rightarrow>
               (case sys_getfd K fd w2 of
                  (Inl _, w3) \<Rightarrow> (False, w3)
                | (Inr flags, w3) \<Rightarrow>
                    (case sys_setfd K fd (flags OR FD_CLOEXEC) w3 of
                       (Inl _, w4) \<Rightarrow> (False, w4)
                     | (Inr _, w4) \<Rightarrow> (True, w4)))))"

definition event_shut :: "('w, 'x) api_scheme \<Rightarrow> event \<Rightarrow> 'w \<Rightarrow> event \<times> 'w" where
  "event_shut K E w =
     (let w1 = (if event_write E \<ge> 0 then close_fd K (event_write E) w else w);
          E1 = (if event_write E \<ge> 0 then E\<lparr>event_write := -1\<rparr> else E)
      in (if event_read E1 \<ge> 0 then E1\<lparr>event_read := -1\<rparr> else E1,
          if event_read E1 \<ge> 0 then close_fd K (event_read E1) w1 else w1))"

definition event_close_in_child :: "('w, 'x) api_scheme \<Rightarrow> event \<Rightarrow> 'w \<Rightarrow> event \<times> 'w" where
  "event_close_in_child K E w = event_shut K E w"

definition event_init :: "('w, 'x) api_scheme \<Rightarrow> event \<Rightarrow> 'w \<Rightarrow> (bool \<times> event) \<times> 'w" where
  "event_init K E w =
     (if event_read E \<ge> 0 \<and> event_write E \<ge> 0 then ((True, E), w)
      else let (E1, w1) = (if event_read E \<ge> 0 \<or> event_write E \<ge> 0 then event_shut K E w else (E, w))
           in case sys_pipe K w1 of
             (Inl _, w2) \<Rightarrow> ((False, event_none), w2)
           | (Inr (a, b), w2) \<Rightarrow>
               let E2 = \<lparr>event_read = a, event_write = b\<rparr>;
                   (ok1, w3) = event_set_flags K a w2;
                   (ok, w4) = (if ok1 then event_set_flags K b w3 else (False, w3))
               in if ok then ((True, E2), w4)
                  else case event_shut K E2 w4 of (E3, w5) \<Rightarrow> ((False, E3), w5))"

definition event_getfd :: "event \<Rightarrow> int" where
  "event_getfd E = event_read E"

text \<open>\<^verbatim>\<open>event_notify\<close>: every result but an interruption ends the loop.\<close>

definition event_notify :: "('w, 'x) api_scheme \<Rightarrow> event \<Rightarrow> 'w \<Rightarrow> 'w option" where
  "event_notify K E w =
     (if event_write E < 0 then Some w
      else do { (_, w') \<leftarrow> retry (sys_write (io K) (event_write E) [0x78]) w; Some w' })"

text \<open>One round of the draining loop: \<open>None\<close> to go on, or the result.\<close>

definition drain_round :: "int + byte list \<Rightarrow> bool option" where
  "drain_round r = (case r of
     Inr bs \<Rightarrow> if bs \<noteq> [] then None else Some False
   | Inl e \<Rightarrow> if e = EINTR then None else if e = EAGAIN then Some True else Some False)"

partial_function (option) drain_loop :: "('w, 'x) api_scheme \<Rightarrow> int \<Rightarrow> 'w \<Rightarrow> (bool \<times> 'w) option" where
  "drain_loop K fd w =
     (case sys_read (io K) fd 64 w of
        (r, w') \<Rightarrow> (case drain_round r of None \<Rightarrow> drain_loop K fd w' | Some ok \<Rightarrow> Some (ok, w')))"

declare drain_loop.simps [code]

definition event_drain :: "('w, 'x) api_scheme \<Rightarrow> event \<Rightarrow> 'w \<Rightarrow> (bool \<times> 'w) option" where
  "event_drain K E w = (if event_read E < 0 then Some (False, w) else drain_loop K (event_read E) w)"

section \<open>Signals\<close>

abbreviation (input) SIGNAL_EVENT_NONE :: uint32 where "SIGNAL_EVENT_NONE \<equiv> 0"
abbreviation (input) SIGNAL_EVENT_CHILD :: uint32 where "SIGNAL_EVENT_CHILD \<equiv> 1"
abbreviation (input) SIGNAL_EVENT_INTERRUPT :: uint32 where "SIGNAL_EVENT_INTERRUPT \<equiv> 2"

definition event_of_signal :: "int \<Rightarrow> uint32" where
  "event_of_signal sig = (if sig = SIGCHLD then SIGNAL_EVENT_CHILD
     else if sig = SIGINT then SIGNAL_EVENT_INTERRUPT else SIGNAL_EVENT_NONE)"

definition signal_handler :: "('w, 'x) api_scheme \<Rightarrow> event \<Rightarrow> int \<Rightarrow> uint32 \<times> 'w \<Rightarrow> (uint32 \<times> 'w) option" where
  "signal_handler K E sig = (\<lambda>(pending_events, w). do {
     w' \<leftarrow> event_notify K E w;
     Some (pending_events OR event_of_signal sig, w') })"

definition set_signal_action :: "('w, 'x) api_scheme \<Rightarrow> int \<Rightarrow> disposition \<Rightarrow> 'w \<Rightarrow> (int + unit) \<times> 'w" where
  "set_signal_action K sig handler w = sys_sigaction K sig handler {SIGINT, SIGCHLD} w"

definition ignore_signal :: "('w, 'x) api_scheme \<Rightarrow> int \<Rightarrow> 'w \<Rightarrow> (int + unit) \<times> 'w" where
  "ignore_signal K sig w = sys_sigaction K sig SIG_IGN {} w"

text \<open>The calls are made in order until one fails.\<close>

fun all_calls :: "('w \<Rightarrow> (int + unit) \<times> 'w) list \<Rightarrow> 'w \<Rightarrow> bool \<times> 'w" where
  "all_calls [] w = (True, w)"
| "all_calls (c # cs) w = (case c w of (Inl _, w') \<Rightarrow> (False, w') | (Inr _, w') \<Rightarrow> all_calls cs w')"

definition signal_init :: "('w, 'x) api_scheme \<Rightarrow> uint32 \<times> 'w \<Rightarrow> bool \<times> uint32 \<times> 'w" where
  "signal_init K = (\<lambda>(_, w).
     case all_calls [set_signal_action K SIGINT Handler, set_signal_action K SIGCHLD Handler, ignore_signal K SIGQUIT,
         ignore_signal K SIGTSTP, ignore_signal K SIGTTIN, ignore_signal K SIGTTOU, ignore_signal K SIGPIPE] w of
       (ok, w') \<Rightarrow> (ok, SIGNAL_EVENT_NONE, w'))"

definition signal_shutdown :: "('w, 'x) api_scheme \<Rightarrow> uint32 \<times> 'w \<Rightarrow> uint32 \<times> 'w" where
  "signal_shutdown K = (\<lambda>(pending_events, w).
     case sys_sigprocmask K SIG_BLOCK {SIGINT, SIGCHLD} w of
       (Inl _, w1) \<Rightarrow> (pending_events, w1)
     | (Inr old, w1) \<Rightarrow>
         let w2 = snd (ignore_signal K SIGINT w1);
             w3 = snd (ignore_signal K SIGCHLD w2)
         in (SIGNAL_EVENT_NONE, snd (sys_sigprocmask K SIG_SETMASK old w3)))"

text \<open>The result and the new pending events.\<close>

definition signal_take_events :: "('w, 'x) api_scheme \<Rightarrow> uint32 \<times> 'w \<Rightarrow> uint32 \<times> uint32 \<times> 'w" where
  "signal_take_events K = (\<lambda>(pending_events, w).
     case sys_sigprocmask K SIG_BLOCK {SIGINT, SIGCHLD} w of
       (Inl _, w1) \<Rightarrow> (SIGNAL_EVENT_NONE, pending_events, w1)
     | (Inr old, w1) \<Rightarrow> (pending_events, SIGNAL_EVENT_NONE, snd (sys_sigprocmask K SIG_SETMASK old w1)))"

definition signal_reset_child :: "('w, 'x) api_scheme \<Rightarrow> 'w \<Rightarrow> 'w" where
  "signal_reset_child K w =
     (let w1 = fold (\<lambda>sig w. snd (sys_sigaction K sig SIG_DFL {} w)) [SIGINT, SIGQUIT, SIGTSTP, SIGTTIN, SIGTTOU, SIGCHLD, SIGPIPE] w
      in snd (sys_sigprocmask K SIG_SETMASK {} w1))"


section \<open>What the event code keeps\<close>

definition event_fds :: "event \<Rightarrow> int set" where
  "event_fds E = {fd. (fd = event_read E \<or> fd = event_write E) \<and> 0 \<le> fd}"

text \<open>Both ends are open, or none is.\<close>

definition event_ok :: "event \<Rightarrow> bool" where
  "event_ok E \<longleftrightarrow> (0 \<le> event_read E \<and> 0 \<le> event_write E \<and> event_read E \<noteq> event_write E) \<or> E = event_none"

lemma event_set_flags_keeps:
  assumes K: "side_calls_keep K P" and "event_set_flags K fd w = (ok, w')"
  shows "P w' = P w"
  using assms(2) by (auto simp: event_set_flags_def dest!: keepsD [OF side_calls(2) [OF K]] keepsD [OF side_calls(3) [OF K]]
      keepsD [OF side_calls(10) [OF K]] keepsD [OF side_calls(11) [OF K]] split: prod.split_asm sum.split_asm)

lemma event_shut_fds:
  assumes "api_fds K fds" "event_shut K E w = (E', w')"
  shows "fds w' = fds w - event_fds E \<and> event_fds E' = {}"
  using assms(2) by (auto simp: event_shut_def Let_def event_fds_def api_fds_close [OF assms(1)] split: if_split_asm)

lemma event_shut_none: "event_ok E \<Longrightarrow> event_shut K E w = (E', w') \<Longrightarrow> E' = event_none"
  by (auto simp: event_shut_def Let_def event_ok_def event_none_def split: if_split_asm)

lemma event_init_fds:
  assumes K: "api_fds K fds" and E: "event_ok E" and init: "event_init K E w = ((ok, E'), w')"
  shows "event_ok E' \<and> (ok \<longleftrightarrow> E' \<noteq> event_none) \<and> fds w' = fds w \<union> (event_fds E' - event_fds E) \<and> (E = event_none \<longrightarrow> event_fds E' \<inter> fds w = {})"
proof (cases "E = event_none")
  case False
  then show ?thesis using E init by (auto simp: event_init_def event_ok_def)
next
  case True
  obtain p w2 where p: "sys_pipe K w = (p, w2)" by (meson surj_pair)
  show ?thesis
  proof (cases p)
    case (Inl e)
    then show ?thesis using init True p api_fds_pipe(2) [OF K, of w e w2]
      by (auto simp: event_init_def event_none_def event_ok_def event_fds_def)
  next
    case (Inr ab)
    obtain a b where ab: "ab = (a, b)" by (cases ab)
    note pipe = api_fds_pipe(1) [OF K p [unfolded Inr ab]]
    obtain ok1 w3 where s1: "event_set_flags K a w2 = (ok1, w3)" by (meson surj_pair)
    obtain ok2 w4 where s2: "(if ok1 then event_set_flags K b w3 else (False, w3)) = (ok2, w4)" by (meson surj_pair)
    let ?E = "\<lparr>event_read = a, event_write = b\<rparr>"
    obtain E5 w5 where s3: "event_shut K ?E w4 = (E5, w5)" by (meson surj_pair)
    note keep = event_set_flags_keeps [OF api_fds_laws(2) [OF K]]
    have fds: "event_fds ?E = {a, b}" using pipe by (auto simp: event_fds_def)
    have w4: "fds w4 = fds w \<union> {a, b}"
      using s2 keep [OF s1] keep [of b w3 ok2 w4] pipe by (auto split: if_split_asm)
    have w5: "fds w5 = fds w" "E5 = event_none"
      using event_shut_fds [OF K s3] event_shut_none [OF _ s3] w4 fds pipe by (auto simp: event_ok_def)
    have res: "(ok, E', w') = (if ok2 then (True, ?E, w4) else (False, E5, w5))"
      using init True p Inr ab s1 s2 s3 by (auto simp: event_init_def event_none_def Let_def split: if_split_asm)
    show ?thesis
    proof (cases ok2)
      case True
      moreover have "event_fds E = {}" using \<open>E = event_none\<close> by (auto simp: event_fds_def event_none_def)
      moreover have "?E \<noteq> event_none" "event_ok ?E" using pipe by (auto simp: event_ok_def event_none_def)
      ultimately show ?thesis using res pipe w4 fds by auto
    next
      case False
      then show ?thesis using res w5 by (auto simp: event_ok_def event_fds_def event_none_def)
    qed
  qed
qed

section \<open>No signal is lost\<close>

text \<open>The pipe between the handler and the event loop, as POSIX describes a non-blocking pipe whose ends
  are both open: \<open>unread\<close> counts the bytes in it, a write of one byte adds one, is refused because the
  pipe is full, or is interrupted; a read takes a positive number of bytes, is refused because the pipe
  is empty, or is interrupted.  The signal mask does not touch the pipe.\<close>

definition pipe_law :: "('w, 'x) api_scheme \<Rightarrow> event \<Rightarrow> ('w \<Rightarrow> nat) \<Rightarrow> bool" where
  "pipe_law K E unread \<longleftrightarrow>
     (\<forall>w r w'. sys_write (io K) (event_write E) [0x78] w = (r, w') \<longrightarrow>
        r = Inr 1 \<and> unread w' = unread w + 1 \<or> r = Inl EAGAIN \<and> 0 < unread w \<and> unread w' = unread w
        \<or> r = Inl EINTR \<and> unread w' = unread w)
   \<and> (\<forall>w r w'. sys_read (io K) (event_read E) 64 w = (r, w') \<longrightarrow>
        (\<exists>bs. r = Inr bs \<and> bs \<noteq> [] \<and> unread w = unread w' + length bs)
        \<or> r = Inl EAGAIN \<and> unread w = 0 \<and> unread w' = 0 \<or> r = Inl EINTR \<and> unread w' = unread w)
   \<and> (\<forall>how sigs w r w'. sys_sigprocmask K how sigs w = (r, w') \<longrightarrow> (\<exists>old. r = Inr old) \<and> unread w' = unread w)"

text \<open>The event loop of \<^verbatim>\<open>shell_run\<close> as seen by the signals: it waits in \<^verbatim>\<open>select\<close>, drains the pipe by one
  read after the other, and takes the pending events.  A signal arrives between any two of these steps;
  it cannot arrive within the handler or within \<^verbatim>\<open>signal_take_events\<close>, which block both signals.  \<open>arrived\<close>
  are the signals since the last take, and \<open>taken\<close> what each take gave, with the signals it stands for.\<close>

datatype loop_phase = Waiting | Draining | Drained

record 'w signal_state =
  phase :: loop_phase
  pending :: uint32
  arrived :: "int list"
  taken :: "(int list \<times> uint32) list"
  world :: 'w

definition events_of :: "int list \<Rightarrow> uint32" where
  "events_of sigs = fold (\<lambda>sig ev. ev OR event_of_signal sig) sigs 0"

inductive signal_step :: "('w, 'x) api_scheme \<Rightarrow> event \<Rightarrow> ('w \<Rightarrow> nat) \<Rightarrow> 'w signal_state \<Rightarrow> 'w signal_state \<Rightarrow> bool"
  for K E unread where
  signal: "signal_handler K E sig (pending s, world s) = Some (p, w) \<Longrightarrow> sig \<in> {SIGINT, SIGCHLD}
    \<Longrightarrow> signal_step K E unread s (s\<lparr>pending := p, arrived := arrived s @ [sig], world := w\<rparr>)"
| wake: "phase s = Waiting \<Longrightarrow> 0 < unread (world s) \<Longrightarrow> signal_step K E unread s (s\<lparr>phase := Draining\<rparr>)"
| drain: "phase s = Draining \<Longrightarrow> sys_read (io K) (event_read E) 64 (world s) = (r, w)
    \<Longrightarrow> signal_step K E unread s (s\<lparr>phase := if drain_round r = None then Draining else Drained, world := w\<rparr>)"
| take: "phase s = Drained \<Longrightarrow> signal_take_events K (pending s, world s) = (ev, p, w)
    \<Longrightarrow> signal_step K E unread s (s\<lparr>phase := Waiting, pending := p, arrived := [], taken := taken s @ [(arrived s, ev)], world := w\<rparr>)"

definition signal_start :: "'w \<Rightarrow> 'w signal_state" where
  "signal_start w = \<lparr>phase = Waiting, pending = SIGNAL_EVENT_NONE, arrived = [], taken = [], world = w\<rparr>"

definition signal_inv :: "('w \<Rightarrow> nat) \<Rightarrow> 'w signal_state \<Rightarrow> bool" where
  "signal_inv unread s \<longleftrightarrow> pending s = events_of (arrived s) \<and> (\<forall>(sigs, ev) \<in> set (taken s). ev = events_of sigs)
     \<and> (phase s = Waiting \<longrightarrow> arrived s \<noteq> [] \<longrightarrow> 0 < unread (world s))"

lemma events_of_simps [simp]: "events_of [] = 0" "events_of (sigs @ [sig]) = events_of sigs OR event_of_signal sig"
  by (simp_all add: events_of_def)

lemma events_of_bits:
  "(events_of sigs AND SIGNAL_EVENT_CHILD \<noteq> 0 \<longleftrightarrow> SIGCHLD \<in> set sigs)
     \<and> (events_of sigs AND SIGNAL_EVENT_INTERRUPT \<noteq> 0 \<longleftrightarrow> SIGINT \<in> set sigs)"
proof (induction sigs rule: rev_induct)
  case (snoc sig sigs)
  have or: "(a OR b) AND m \<noteq> 0 \<longleftrightarrow> a AND m \<noteq> 0 \<or> b AND m \<noteq> 0" for a b m :: uint32
    by (simp add: bit.conj_disj_distrib2 or_eq_0_iff)
  have "event_of_signal sig AND 1 \<noteq> 0 \<longleftrightarrow> sig = SIGCHLD" "event_of_signal sig AND 2 \<noteq> 0 \<longleftrightarrow> sig = SIGINT"
    by (simp_all add: event_of_signal_def)
  with snoc show ?case by (auto simp: or)
qed simp

text \<open>A byte is in the pipe after the handler has run.\<close>

lemma signal_handler_notifies:
  assumes "pipe_law K E unread" "0 \<le> event_write E" "signal_handler K E sig (p, w) = Some (p', w')"
  shows "p' = p OR event_of_signal sig \<and> 0 < unread w'"
proof -
  obtain r where r: "retry (sys_write (io K) (event_write E) [0x78]) w = Some (r, w')" and p: "p' = p OR event_of_signal sig"
    using assms(2,3) by (auto simp: signal_handler_def event_notify_def split: Option.bind_split_asm)
  obtain w1 where w1: "sys_write (io K) (event_write E) [0x78] w1 = (r, w')" using retry_reaches [OF r, where P = "\<lambda>_. True"] by blast
  have "r \<noteq> Inl EINTR" using retry_not_EINTR [OF r] by simp
  with w1 p show ?thesis using assms(1) unfolding pipe_law_def by fastforce
qed

lemma signal_take_law:
  assumes "pipe_law K E unread" "signal_take_events K (p, w) = (ev, p', w')"
  shows "ev = p \<and> p' = 0"
proof -
  obtain r w1 where r: "sys_sigprocmask K SIG_BLOCK {SIGINT, SIGCHLD} w = (r, w1)" by (meson surj_pair)
  then obtain old where "r = Inr old" using assms(1) unfolding pipe_law_def by blast
  with r assms(2) show ?thesis by (auto simp: signal_take_events_def)
qed

lemma signal_inv_step:
  assumes "pipe_law K E unread" "0 \<le> event_write E" "signal_step K E unread s t" "signal_inv unread s"
  shows "signal_inv unread t"
  using assms(3,4)
proof cases
  case (signal sig p w)
  with signal_handler_notifies [OF assms(1,2) signal(2)] assms(4) show ?thesis by (simp add: signal_inv_def)
next
  case (take ev p w)
  with signal_take_law [OF assms(1) take(3)] assms(4) show ?thesis by (simp add: signal_inv_def)
qed (simp_all add: signal_inv_def)

lemma signal_reachable_inv:
  assumes "pipe_law K E unread" "0 \<le> event_write E" "(signal_step K E unread)\<^sup>*\<^sup>* (signal_start w) s"
  shows "signal_inv unread s"
  using assms(3)
proof (induction rule: rtranclp_induct)
  case base
  show ?case by (simp add: signal_inv_def signal_start_def)
next
  case (step s t)
  then show ?case using signal_inv_step [OF assms(1,2)] by blast
qed

text \<open>Draining ends with an empty pipe: every read that is not interrupted takes something away.\<close>

lemma drain_loop_empties:
  assumes law: "pipe_law K E unread" and set: "\<And>w. \<exists>k. settles k (sys_read (io K) (event_read E) 64) w"
  shows "\<exists>w'. drain_loop K (event_read E) w = Some (True, w') \<and> unread w' = 0"
proof (induction "unread w" arbitrary: w rule: less_induct)
  case less
  let ?read = "sys_read (io K) (event_read E) 64"
  have pipe: "?read v = (r, v') \<Longrightarrow> (\<exists>bs. r = Inr bs \<and> bs \<noteq> [] \<and> unread v = unread v' + length bs)
      \<or> r = Inl EAGAIN \<and> unread v = 0 \<and> unread v' = 0 \<or> r = Inl EINTR \<and> unread v' = unread v" for v r v'
    using law unfolding pipe_law_def by blast
  have "settles k ?read v \<Longrightarrow> unread v = unread w \<Longrightarrow> \<exists>w'. drain_loop K (event_read E) v = Some (True, w') \<and> unread w' = 0" for k v
  proof (induction k arbitrary: v)
    case 0
    then show ?case using less pipe [of v "fst (?read v)" "snd (?read v)"]
      by (subst drain_loop.simps) (auto simp: drain_round_def split: prod.splits)
  next
    case (Suc k)
    then show ?case using less pipe [of v "fst (?read v)" "snd (?read v)"]
      by (subst drain_loop.simps) (auto simp: drain_round_def split: prod.splits)
  qed
  then show ?case using set [of w] by blast
qed

text \<open>C4. No signal is lost between the handler and the event loop, however signals interleave with waiting,
  draining and taking: each take reports a child event exactly if a \<^verbatim>\<open>SIGCHLD\<close> arrived since the take
  before it, and an interrupt exactly if a \<^verbatim>\<open>SIGINT\<close> did; while signals have arrived that were not taken
  yet, a waiting loop is woken; and draining returns, with an empty pipe.  The hypotheses are what POSIX
  says of a non-blocking pipe with both ends open, and that a read is not interrupted for ever.\<close>

theorem no_signal_lost:
  assumes "pipe_law K E unread" "0 \<le> event_read E" "0 \<le> event_write E"
    and "\<And>w. \<exists>k. settles k (sys_read (io K) (event_read E) 64) w"
    and "(signal_step K E unread)\<^sup>*\<^sup>* (signal_start w) s"
  shows "(\<forall>(sigs, ev) \<in> set (taken s). (ev AND SIGNAL_EVENT_CHILD \<noteq> 0 \<longleftrightarrow> SIGCHLD \<in> set sigs)
        \<and> (ev AND SIGNAL_EVENT_INTERRUPT \<noteq> 0 \<longleftrightarrow> SIGINT \<in> set sigs))
    \<and> (phase s = Waiting \<and> arrived s \<noteq> [] \<longrightarrow> 0 < unread (world s))
    \<and> (\<exists>w'. event_drain K E (world s) = Some (True, w') \<and> unread w' = 0)"
proof -
  have inv: "signal_inv unread s" by (rule signal_reachable_inv [OF assms(1,3,5)])
  have "\<exists>w'. event_drain K E (world s) = Some (True, w') \<and> unread w' = 0"
    using drain_loop_empties [OF assms(1,4), of "world s"] assms(2) by (simp add: event_drain_def)
  then show ?thesis using inv events_of_bits by (fastforce simp: signal_inv_def)
qed

definition demo_event :: event where
  "demo_event = \<lparr>event_read = 3, event_write = 4\<rparr>"

definition demo_start :: demo_world where
  "demo_start = \<lparr>d_fds = [0, 1, 2, 3, 4], d_kids = [], d_next = 1, d_unread = 0, d_code = 0, d_clock = 0, d_streams = []\<rparr>"

lemma demo_pipe_law: "pipe_law demo_api demo_event d_unread"
  by (auto simp: pipe_law_def demo_api_def demo_io_def Let_def split: if_split_asm)

lemma demo_reads_settle: "\<exists>k. settles k (sys_read (io demo_api) fd n) w"
  by (rule exI [of _ 0]) (simp add: demo_api_def demo_io_def Let_def)

text \<open>A child ends while the shell waits, and an interrupt arrives during the take's round.\<close>

definition demo_signalled :: "demo_world signal_state" where
  "demo_signalled = \<lparr>phase = Waiting, pending = 0, arrived = [], taken = [([SIGCHLD, SIGINT], 3)], world = demo_start\<lparr>d_unread := 1\<rparr>\<rparr>"

lemma demo_signalled_reachable: "(signal_step demo_api demo_event d_unread)\<^sup>*\<^sup>* (signal_start demo_start) demo_signalled"
proof -
  let ?S = "signal_step demo_api demo_event d_unread"
  note defs = signal_start_def signal_handler_def event_notify_def event_of_signal_def demo_event_def demo_api_def demo_io_def
    demo_start_def retry.simps drain_round_def signal_take_events_def demo_signalled_def
  let ?s1 = "(signal_start demo_start)\<lparr>pending := 1, arrived := [SIGCHLD], world := demo_start\<lparr>d_unread := 1\<rparr>\<rparr>"
  let ?s2 = "?s1\<lparr>phase := Draining\<rparr>"
  let ?s3 = "?s2\<lparr>world := demo_start\<rparr>"
  let ?s4 = "?s3\<lparr>phase := Drained\<rparr>"
  let ?s5 = "?s4\<lparr>pending := 3, arrived := [SIGCHLD, SIGINT], world := demo_start\<lparr>d_unread := 1\<rparr>\<rparr>"
  have "?S (signal_start demo_start) ?s1"
    using signal_step.signal [of demo_api demo_event SIGCHLD "signal_start demo_start" 1 "demo_start\<lparr>d_unread := 1\<rparr>" d_unread]
    by (simp add: defs)
  moreover have "?S ?s1 ?s2" using signal_step.wake [of ?s1 d_unread demo_api demo_event] by (simp add: defs)
  moreover have "?S ?s2 ?s3"
    using signal_step.drain [of ?s2 demo_api demo_event "Inr [0x47]" demo_start d_unread] by (simp add: defs)
  moreover have "?S ?s3 ?s4"
    using signal_step.drain [of ?s3 demo_api demo_event "Inl EAGAIN" demo_start d_unread] by (simp add: defs)
  moreover have "?S ?s4 ?s5"
    using signal_step.signal [of demo_api demo_event SIGINT ?s4 3 "demo_start\<lparr>d_unread := 1\<rparr>" d_unread] by (simp add: defs)
  moreover have "?S ?s5 demo_signalled"
    using signal_step.take [of ?s5 demo_api 3 0 "demo_start\<lparr>d_unread := 1\<rparr>" demo_event d_unread] by (simp add: defs)
  ultimately show ?thesis by (meson converse_rtranclp_into_rtranclp rtranclp.rtrancl_refl)
qed

theorem no_signal_lost_witness:
  "taken demo_signalled = [([SIGCHLD, SIGINT], 3)] \<and> (\<exists>w'. event_drain demo_api demo_event (world demo_signalled) = Some (True, w') \<and> d_unread w' = 0)"
  using no_signal_lost [OF demo_pipe_law _ _ demo_reads_settle demo_signalled_reachable]
  by (simp add: demo_event_def demo_signalled_def)

end
