(* ===== verification/Shell_Context.thy ===== *)
theory Shell_Context
  imports Config Device_Manager Terminal Event_Sig
begin

text \<open>
  The shell's state and its set-up, \<^verbatim>\<open>src/shell_context.c\<close>.  \<open>env\<close> adds to the system calls the ones
  that look at the process environment and the file system: \<^verbatim>\<open>getenv\<close>, \<^verbatim>\<open>getcwd\<close>, \<^verbatim>\<open>readlink\<close> of
  \<^verbatim>\<open>/proc/self/exe\<close> (\<open>None\<close> when the call fails), \<^verbatim>\<open>access\<close>, \<^verbatim>\<open>chdir\<close>, the contents of the two
  configuration files, and the texts of \<^verbatim>\<open>strerror\<close>.  The current log level is the static variable of \<^verbatim>\<open>log.c\<close>, kept with the
  context.  \<^verbatim>\<open>input_buffer\<close> is its first \<^verbatim>\<open>input_length\<close> characters.
\<close>

record 'w env = "'w api" +
  sys_getenv :: "string \<Rightarrow> 'w \<Rightarrow> string option"
  sys_getcwd :: "'w \<Rightarrow> string option"
  sys_readlink_exe :: "'w \<Rightarrow> string option"
  sys_access :: "string \<Rightarrow> 'w \<Rightarrow> bool"
  sys_chdir :: "string \<Rightarrow> 'w \<Rightarrow> bool \<times> 'w"
  config_source_of :: "string \<Rightarrow> 'w \<Rightarrow> file_outcome"
  devices_source_of :: "'w \<Rightarrow> string \<Rightarrow> config_source"
  strerror :: "int \<Rightarrow> string"

abbreviation (input) SHELL_CONFIG_PATH_SIZE :: nat where "SHELL_CONFIG_PATH_SIZE \<equiv> 4096"
abbreviation (input) SHELL_INPUT_SIZE :: nat where "SHELL_INPUT_SIZE \<equiv> 4096"

record 'w ShellContext =
  running :: bool
  jobs :: job_manager
  last_exit_status :: int
  shell_config :: MiniShellConfig
  config_file :: string
  device_table :: "'w manager"
  devices_file :: string
  input_buffer :: string
  input_discarding :: bool
  current_level :: Loglevel

section \<open>Paths\<close>

text \<open>The functions return the new path, or \<open>None\<close> for -1; which of them empty the path then is
  written in the callers.  \<^verbatim>\<open>getcwd\<close> with a buffer of \<open>SHELL_CONFIG_PATH_SIZE\<close> fails on longer names.\<close>

definition getcwd_path :: "('w, 'x) env_scheme \<Rightarrow> 'w \<Rightarrow> string option" where
  "getcwd_path K w = (case sys_getcwd K w of None \<Rightarrow> None
     | Some d \<Rightarrow> if length d < SHELL_CONFIG_PATH_SIZE then Some d else None)"

definition format_path :: "string \<Rightarrow> string \<Rightarrow> string option" where
  "format_path d rel = (let p = d @ ''/'' @ rel in if length p \<ge> SHELL_CONFIG_PATH_SIZE then None else Some p)"

definition shell_context_copy_config_path :: "string \<Rightarrow> 'w ShellContext \<Rightarrow> bool \<times> 'w ShellContext" where
  "shell_context_copy_config_path pathname ctx =
     (if pathname = [] then (False, ctx)
      else if length pathname \<ge> SHELL_CONFIG_PATH_SIZE then (False, ctx\<lparr>config_file := []\<rparr>)
      else (True, ctx\<lparr>config_file := pathname\<rparr>))"

definition shell_context_set_environment_config_path ::
  "('w, 'x) env_scheme \<Rightarrow> string \<Rightarrow> 'w \<Rightarrow> 'w ShellContext \<Rightarrow> bool \<times> 'w ShellContext" where
  "shell_context_set_environment_config_path K pathname w ctx =
     (if pathname \<noteq> [] \<and> hd pathname = CHR ''/'' then shell_context_copy_config_path pathname ctx
      else case getcwd_path K w of
        None \<Rightarrow> (False, ctx)
      | Some cwd \<Rightarrow> (case format_path cwd pathname of
          None \<Rightarrow> (False, ctx)
        | Some absolute \<Rightarrow> shell_context_copy_config_path absolute ctx))"

definition shell_context_try_config_path ::
  "('w, 'x) env_scheme \<Rightarrow> string \<Rightarrow> string \<Rightarrow> 'w \<Rightarrow> 'w ShellContext \<Rightarrow> bool \<times> 'w ShellContext" where
  "shell_context_try_config_path K d rel w ctx =
     (case format_path d rel of
        None \<Rightarrow> (False, ctx)
      | Some pathname \<Rightarrow> if \<not> sys_access K pathname w then (False, ctx) else shell_context_copy_config_path pathname ctx)"

text \<open>The directory of the executable: the target of the link, unless it may be truncated, up to its
  last slash (and the slash itself when it is the first character).\<close>

definition executable_directory :: "('w, 'x) env_scheme \<Rightarrow> 'w \<Rightarrow> string option" where
  "executable_directory K w = (case sys_readlink_exe K w of
     None \<Rightarrow> None
   | Some target \<Rightarrow>
       if 0 < length target \<and> length target < SHELL_CONFIG_PATH_SIZE - 1 \<and> CHR ''/'' \<in> set target then
         let before = rev (tl (dropWhile (\<lambda>c. c \<noteq> CHR ''/'') (rev target)))
         in Some (if before = [] then ''/'' else before)
       else None)"

definition shell_context_set_config_path :: "('w, 'x) env_scheme \<Rightarrow> 'w \<Rightarrow> 'w ShellContext \<Rightarrow> bool \<times> 'w ShellContext" where
  "shell_context_set_config_path K w ctx =
     (case sys_getenv K ''MINISHELL_CONFIG'' w of
        Some (c # cs) \<Rightarrow> shell_context_set_environment_config_path K (c # cs) w ctx
      | _ \<Rightarrow>
          let (ok1, ctx1) = (case executable_directory K w of
                None \<Rightarrow> (False, ctx)
              | Some executable \<Rightarrow>
                  (case shell_context_try_config_path K executable ''../config/config.conf'' w ctx of
                     (True, c) \<Rightarrow> (True, c)
                   | (False, c) \<Rightarrow> shell_context_try_config_path K executable ''config/config.conf'' w c));
              (ok2, ctx2) = (if ok1 then (True, ctx1) else case getcwd_path K w of
                None \<Rightarrow> (False, ctx1)
              | Some cwd \<Rightarrow> shell_context_try_config_path K cwd ''config/config.conf'' w ctx1)
          in if ok2 then (True, ctx2) else (False, ctx2\<lparr>config_file := []\<rparr>))"

definition shell_context_devices_path ::
  "('w, 'x) env_scheme \<Rightarrow> string \<Rightarrow> string \<Rightarrow> bool \<Rightarrow> 'w \<Rightarrow> 'w ShellContext \<Rightarrow> bool \<times> 'w ShellContext" where
  "shell_context_devices_path K d rel must_exist w ctx =
     (case format_path d rel of
        None \<Rightarrow> (False, ctx\<lparr>devices_file := []\<rparr>)
      | Some pathname \<Rightarrow> if must_exist \<and> \<not> sys_access K pathname w then (False, ctx\<lparr>devices_file := []\<rparr>)
          else (True, ctx\<lparr>devices_file := pathname\<rparr>))"

definition shell_context_set_devices_path :: "('w, 'x) env_scheme \<Rightarrow> 'w \<Rightarrow> 'w ShellContext \<Rightarrow> bool \<times> 'w ShellContext" where
  "shell_context_set_devices_path K w ctx =
     (case sys_getenv K ''MINISHELL_DEVICES_CONFIG'' w of
        Some (c # cs) \<Rightarrow>
          if c = CHR ''/'' then
            (if length (c # cs) < SHELL_CONFIG_PATH_SIZE then (True, ctx\<lparr>devices_file := c # cs\<rparr>)
             else (False, ctx\<lparr>devices_file := []\<rparr>))
          else (case getcwd_path K w of
            None \<Rightarrow> (False, ctx)
          | Some d \<Rightarrow> shell_context_devices_path K d (c # cs) False w ctx)
      | _ \<Rightarrow>
          let (ok1, ctx1) = (case executable_directory K w of
                None \<Rightarrow> (False, ctx)
              | Some d \<Rightarrow>
                  (case shell_context_devices_path K d ''../config/devices.conf'' True w ctx of
                     (True, c) \<Rightarrow> (True, c)
                   | (False, c) \<Rightarrow> shell_context_devices_path K d ''config/devices.conf'' True w c));
              (ok2, ctx2) = (if ok1 then (True, ctx1) else case getcwd_path K w of
                None \<Rightarrow> (False, ctx1)
              | Some d \<Rightarrow> shell_context_devices_path K d ''config/devices.conf'' True w ctx1)
          in if ok2 then (True, ctx2) else (False, ctx2\<lparr>devices_file := []\<rparr>))"

section \<open>Set-up and tear-down\<close>

text \<open>\<^verbatim>\<open>memset\<close> and the three initialisers.\<close>

definition shell_context_zero :: "Loglevel \<Rightarrow> 'w ShellContext" where
  "shell_context_zero level = \<lparr>running = False, jobs = jobmanager_init, last_exit_status = 0, shell_config = config_init,
     config_file = [], device_table = device_manager_init, devices_file = [], input_buffer = [], input_discarding = False,
     current_level = level\<rparr>"

text \<open>The level a configuration asks for.\<close>

definition config_level :: "MiniShellConfig \<Rightarrow> Loglevel" where
  "config_level c = (if debug c \<noteq> 0 then LOG_DEBUG else LOG_INFO)"

definition shell_context_init :: "('w, 'x) env_scheme \<Rightarrow> (nat \<Rightarrow> bool) \<Rightarrow> Loglevel \<Rightarrow> 'w \<Rightarrow> ('w ShellContext \<times> 'w) option" where
  "shell_context_init K calloc_ok level w =
     (let (found, ctx1) = shell_context_set_config_path K w (shell_context_zero level);
          ctx2 = (if found then ctx1\<lparr>shell_config := snd (config_load (shell_config ctx1) (config_source_of K (config_file ctx1) w))\<rparr>
                  else ctx1);
          ctx3 = ctx2\<lparr>current_level := log_setlevel (config_level (shell_config ctx2)) (current_level ctx2)\<rparr>;
          (found_devices, ctx4) = shell_context_set_devices_path K w ctx3
      in do {
        (m, w1) \<leftarrow> (if found_devices then do {
             (_, m, w1) \<leftarrow> device_manager_load (io K) (devices_source_of K w) calloc_ok (device_table ctx4) (Some (devices_file ctx4)) w;
             Some (m, w1) }
           else Some (device_table ctx4, w));
        Some (ctx4\<lparr>device_table := m, input_buffer := [], input_discarding := False, running := True\<rparr>, w1) })"

definition shell_context_destroy :: "('w, 'x) api_scheme \<Rightarrow> 'w ShellContext \<Rightarrow> 'w \<Rightarrow> ('w ShellContext \<times> 'w) option" where
  "shell_context_destroy K ctx w = do {
     (m, w1) \<leftarrow> job_shutdown K (jobs ctx) w;
     (t, w2) \<leftarrow> device_manager_destroy (device_table ctx) w1;
     Some (ctx\<lparr>running := False, jobs := m, device_table := t\<rparr>, w2) }"


section \<open>A concrete environment\<close>

definition demo_env :: "demo_world env" where
  "demo_env = api.extend demo_api (env.fields (\<lambda>name w. None) (\<lambda>w. Some ''/root'') (\<lambda>w. Some ''/opt/minishell/bin/minishell'')
     (\<lambda>p w. True) (\<lambda>p w. (True, w)) (\<lambda>p w. File (''max_job = 2'' @ [NL]) False False) (\<lambda>w. demo_source) (\<lambda>e. ''error''))"

lemma demo_env_sel:
  "waitpid_one demo_env = waitpid_one demo_api" "waitpid_group demo_env = waitpid_group demo_api" "Job.kill demo_env = Job.kill demo_api"
  "nanosleep demo_env = nanosleep demo_api" "stdout demo_env = stdout demo_api" "io demo_env = io demo_api"
  "sys_pipe demo_env = sys_pipe demo_api" "sys_fork demo_env = sys_fork demo_api" "sys_execvp demo_env = sys_execvp demo_api"
  "sys_setpgid demo_env = sys_setpgid demo_api" "sys_getfd demo_env = sys_getfd demo_api" "sys_setfd demo_env = sys_setfd demo_api"
  "sys_getfl demo_env = sys_getfl demo_api" "sys_setfl demo_env = sys_setfl demo_api" "sys_dupfd demo_env = sys_dupfd demo_api"
  "sys_dup2 demo_env = sys_dup2 demo_api" "sys_isatty demo_env = sys_isatty demo_api" "sys_tcgetpgrp demo_env = sys_tcgetpgrp demo_api"
  "sys_tcsetpgrp demo_env = sys_tcsetpgrp demo_api" "sys_sigprocmask demo_env = sys_sigprocmask demo_api"
  "sys_sigaction demo_env = sys_sigaction demo_api"
  by (simp_all add: demo_env_def demo_api_def api.defs env.defs)

lemma demo_env_laws:
  "side_calls_keep demo_env demo_fds" "side_calls_keep demo_env demo_kids" "api_fds demo_env demo_fds" "api_kids demo_env demo_kids"
  using demo_side_calls demo_api_fds demo_api_kids by (simp_all add: side_calls_keep_def api_fds_def api_kids_def demo_env_sel)

end
