(* ===== verification/Executor.thy ===== *)
theory Executor
  imports Shell_Context Command
begin

text \<open>
  Running external commands, \<^verbatim>\<open>src/executor.c\<close>.  \<^verbatim>\<open>fork\<close> splits the functions in two: the parent's
  part is \<open>execute_single\<close> and \<open>execute_pipeline\<close>, the child's part the \<open>child_\<close> functions, which work on
  the child's own world and end in an exit status or in the program they execute.  \<open>T\<close> and \<open>E\<close> are the
  static variables of \<^verbatim>\<open>terminal.c\<close> and \<^verbatim>\<open>event.c\<close>, which nothing here changes in the parent.  A job is
  handled through the pointer \<^verbatim>\<open>job\<close> to the table's first entry.  \<open>mem 0\<close> is whether the allocation of
  the job succeeds and \<open>mem (i + 1)\<close> that of its \<open>i\<close>-th process.
\<close>

abbreviation (input) MAX_PIPELINE :: nat where "MAX_PIPELINE \<equiv> 64"

section \<open>System call wrappers\<close>

definition setpgid_child :: "('w, 'x) api_scheme \<Rightarrow> int \<Rightarrow> 'w \<Rightarrow> ((int + unit) \<times> 'w) option" where
  "setpgid_child K grp w = retry (sys_setpgid K 0 grp) w"

definition setpgid_parent :: "('w, 'x) api_scheme \<Rightarrow> int \<Rightarrow> int \<Rightarrow> 'w \<Rightarrow> ((int + unit) \<times> 'w) option" where
  "setpgid_parent K n grp w = do {
     (r, w') \<leftarrow> retry (sys_setpgid K n grp) w;
     Some (case r of Inl e \<Rightarrow> if e = EACCES \<or> e = ESRCH then Inr () else Inl e | Inr _ \<Rightarrow> Inr (), w') }"

definition set_cloexec :: "('w, 'x) api_scheme \<Rightarrow> int \<Rightarrow> 'w \<Rightarrow> (int + unit) \<times> 'w" where
  "set_cloexec K fd w = (case sys_getfd K fd w of
     (Inl e, w1) \<Rightarrow> (Inl e, w1)
   | (Inr flags, w1) \<Rightarrow> sys_setfd K fd (flags OR FD_CLOEXEC) w1)"

definition startup_gate_create :: "('w, 'x) api_scheme \<Rightarrow> 'w \<Rightarrow> (int + int \<times> int) \<times> 'w" where
  "startup_gate_create K w = (case sys_pipe K w of
     (Inl e, w1) \<Rightarrow> (Inl e, w1)
   | (Inr (a, b), w1) \<Rightarrow>
       (case set_cloexec K a w1 of
          (Inl e, w2) \<Rightarrow> (Inl e, close_fd K b (close_fd K a w2))
        | (Inr _, w2) \<Rightarrow>
            (case set_cloexec K b w2 of
               (Inl e, w3) \<Rightarrow> (Inl e, close_fd K b (close_fd K a w3))
             | (Inr _, w3) \<Rightarrow> (Inr (a, b), w3))))"

definition child_block_startup_signals :: "('w, 'x) api_scheme \<Rightarrow> 'w \<Rightarrow> 'w" where
  "child_block_startup_signals K w = snd (sys_sigprocmask K SIG_BLOCK {SIGINT, SIGQUIT, SIGTSTP, SIGTTIN, SIGTTOU} w)"

definition startup_gate_wait :: "('w, 'x) api_scheme \<Rightarrow> int \<Rightarrow> 'w \<Rightarrow> (bool \<times> 'w) option" where
  "startup_gate_wait K fd w = do {
     (r, w') \<leftarrow> retry (sys_read (io K) fd 1) w;
     Some (case r of Inr (value # _) \<Rightarrow> value = 0x47 | _ \<Rightarrow> False, w') }"

fun startup_gate_release :: "('w, 'x) api_scheme \<Rightarrow> int \<Rightarrow> nat \<Rightarrow> 'w \<Rightarrow> (bool \<times> 'w) option" where
  "startup_gate_release K fd 0 w = Some (True, w)"
| "startup_gate_release K fd (Suc count) w = do {
     (r, w') \<leftarrow> retry (sys_write (io K) fd [0x47]) w;
     if r = Inr 1 then startup_gate_release K fd count w' else Some (False, w') }"

definition reap_pid :: "('w, 'x) api_scheme \<Rightarrow> int \<Rightarrow> 'w \<Rightarrow> 'w option" where
  "reap_pid K n w = (if n \<le> 0 then Some w else do { (_, w') \<leftarrow> retry (waitpid_one K n 0) w; Some w' })"

definition rollback_single :: "('w, 'x) api_scheme \<Rightarrow> int \<Rightarrow> 'w \<Rightarrow> 'w option" where
  "rollback_single K n w =
     (if n \<le> 0 then Some w
      else let w1 = snd (Job.kill K (- n) SIGKILL w);
               w2 = snd (Job.kill K n SIGKILL w1)
           in reap_pid K n w2)"

fun kill_each :: "('w, 'x) api_scheme \<Rightarrow> int list \<Rightarrow> 'w \<Rightarrow> 'w" where
  "kill_each K [] w = w"
| "kill_each K (n # ns) w = kill_each K ns (if n \<le> 0 then w else snd (Job.kill K n SIGKILL w))"

fun reap_each :: "('w, 'x) api_scheme \<Rightarrow> int list \<Rightarrow> 'w \<Rightarrow> 'w option" where
  "reap_each K [] w = Some w"
| "reap_each K (n # ns) w = do { w' \<leftarrow> reap_pid K n w; reap_each K ns w' }"

definition rollback_pipeline :: "('w, 'x) api_scheme \<Rightarrow> int \<Rightarrow> int list \<Rightarrow> 'w \<Rightarrow> 'w option" where
  "rollback_pipeline K grp pids w =
     (let w1 = (if grp > 0 then snd (Job.kill K (- grp) SIGKILL w) else w)
      in reap_each K pids (kill_each K pids w1))"

definition check_job_limit :: "'w ShellContext \<Rightarrow> int" where
  "check_job_limit ctx = (if job_count_active (jobs ctx) \<ge> max_job (shell_config ctx) then MiniShell_ERR_JOB else MiniShell_OK)"

section \<open>The child\<close>

definition redirect_fd :: "('w, 'x) api_scheme \<Rightarrow> int \<Rightarrow> int \<Rightarrow> 'w \<Rightarrow> (int \<times> 'w) option" where
  "redirect_fd K fd target w =
     (if fd = target then Some (MiniShell_OK, w)
      else do {
        (r, w1) \<leftarrow> retry (sys_dup2 K fd target) w;
        case r of
          Inl _ \<Rightarrow> Some (MiniShell_ERR_DUP2, w1)
        | Inr _ \<Rightarrow> Some (MiniShell_OK, close_fd K fd w1) })"

text \<open>One of the two parts of \<^verbatim>\<open>setredirect\<close>.\<close>

definition setredirect_to :: "('w, 'x) api_scheme \<Rightarrow> string \<Rightarrow> uint32 \<Rightarrow> int \<Rightarrow> 'w \<Rightarrow> (int \<times> 'w) option" where
  "setredirect_to K name flags target w =
     (case sys_open (io K) name flags w of
        (Inl _, w1) \<Rightarrow> Some (MiniShell_ERR_OPEN, w1)
      | (Inr fd, w1) \<Rightarrow> do {
          (r, w2) \<leftarrow> redirect_fd K fd target w1;
          if r \<noteq> MiniShell_OK then Some (MiniShell_ERR_DUP2, if fd \<noteq> target then close_fd K fd w2 else w2)
          else Some (MiniShell_OK, w2) })"

definition output_flags :: "redirection \<Rightarrow> uint32" where
  "output_flags red = (if append red then O_WRONLY OR O_CREAT OR O_APPEND else O_WRONLY OR O_CREAT OR O_TRUNC)"

definition setredirect :: "('w, 'x) api_scheme \<Rightarrow> command \<Rightarrow> 'w \<Rightarrow> (int \<times> 'w) option" where
  "setredirect K com w = do {
     (r, w1) \<leftarrow> (case output_file (redirect com) of
         None \<Rightarrow> Some (MiniShell_OK, w)
       | Some name \<Rightarrow> setredirect_to K name (output_flags (redirect com)) STDOUT_FILENO w);
     if r \<noteq> MiniShell_OK then Some (r, w1)
     else (case input_file (redirect com) of
         None \<Rightarrow> Some (MiniShell_OK, w1)
       | Some name \<Rightarrow> setredirect_to K name O_RDONLY STDIN_FILENO w1) }"

text \<open>How a child ends: \<^verbatim>\<open>_exit\<close>, or the program it became.\<close>

datatype child_end = Exited int | Became "string list"

definition exec_status_from_errno :: "int \<Rightarrow> int" where
  "exec_status_from_errno error = (if error = ENOENT then 127 else 126)"

definition run_process :: "('w, 'x) api_scheme \<Rightarrow> command \<Rightarrow> 'w \<Rightarrow> child_end \<times> 'w" where
  "run_process K com w = (case sys_execvp K (argv com) w of
     (None, w') \<Rightarrow> (Became (argv com), w')
   | (Some e, w') \<Rightarrow> (Exited (exec_status_from_errno e), w'))"

text \<open>The result is whether the child goes on; otherwise it has called \<^verbatim>\<open>_exit(1)\<close>.\<close>

definition child_prepare_before_gate ::
  "('w, 'x) api_scheme \<Rightarrow> event \<Rightarrow> int \<Rightarrow> int \<Rightarrow> int \<Rightarrow> 'w manager \<Rightarrow> 'w \<Rightarrow> (bool \<times> 'w) option" where
  "child_prepare_before_gate K E gate_read gate_write grp devs w = do {
     let w1 = child_block_startup_signals K (close_fd K gate_write w);
     (r, w2) \<leftarrow> setpgid_child K grp w1;
     if r \<noteq> Inr () then Some (False, w2)
     else do {
       let w3 = snd (event_close_in_child K E w2);
       (c, _, w4) \<leftarrow> device_manager_close_all devs w3;
       if c \<noteq> Inr () then Some (False, w4)
       else do {
         (go, w5) \<leftarrow> startup_gate_wait K gate_read w4;
         if \<not> go then Some (False, w5)
         else Some (True, signal_reset_child K (close_fd K gate_read w5)) } } }"

definition child_run :: "('w, 'x) api_scheme \<Rightarrow> command \<Rightarrow> 'w \<Rightarrow> (child_end \<times> 'w) option" where
  "child_run K com w = do {
     (r, w1) \<leftarrow> setredirect K com w;
     if r \<noteq> MiniShell_OK then Some (Exited 1, w1) else Some (run_process K com w1) }"

definition child_single :: "('w, 'x) api_scheme \<Rightarrow> event \<Rightarrow> 'w manager \<Rightarrow> int \<times> int \<Rightarrow> command \<Rightarrow> 'w \<Rightarrow> (child_end \<times> 'w) option" where
  "child_single K E devs = (\<lambda>(gate_read, gate_write) com w. do {
     (go, w1) \<leftarrow> child_prepare_before_gate K E gate_read gate_write 0 devs w;
     if \<not> go then Some (Exited 1, w1) else child_run K com w1 })"

text \<open>\<open>pipe_fd\<close> is the read end of the pipe to the previous command, and \<open>pipefd\<close> the pipe to the next
  command, if there is one.\<close>

definition child_pipeline ::
  "('w, 'x) api_scheme \<Rightarrow> event \<Rightarrow> 'w manager \<Rightarrow> int \<times> int \<Rightarrow> int \<Rightarrow> int \<Rightarrow> (int \<times> int) option \<Rightarrow> command \<Rightarrow> 'w \<Rightarrow> (child_end \<times> 'w) option" where
  "child_pipeline K E devs = (\<lambda>(gate_read, gate_write) grp pipe_fd pipefd com w. do {
     (go, w1) \<leftarrow> child_prepare_before_gate K E gate_read gate_write (if grp = 0 then sys_getpid K w else grp) devs w;
     if \<not> go then Some (Exited 1, w1)
     else do {
       (r1, w2) \<leftarrow> (if pipe_fd \<ge> 0 then redirect_fd K pipe_fd STDIN_FILENO w1 else Some (MiniShell_OK, w1));
       if r1 \<noteq> MiniShell_OK then Some (Exited 1, w2)
       else do {
         (r2, w3) \<leftarrow> (case pipefd of Some (_, b) \<Rightarrow> redirect_fd K b STDOUT_FILENO w2 | None \<Rightarrow> Some (MiniShell_OK, w2));
         if r2 \<noteq> MiniShell_OK then Some (Exited 1, w3)
         else child_run K com (case pipefd of Some (a, _) \<Rightarrow> close_fd K a w3 | None \<Rightarrow> w3) } } })"


section \<open>The parent\<close>

text \<open>The job behind the pointer: the first of the table.\<close>

definition head_job :: "'w ShellContext \<Rightarrow> job" where
  "head_job ctx = hd (jobs_head (jobs ctx))"

definition put_head :: "job \<Rightarrow> 'w ShellContext \<Rightarrow> 'w ShellContext" where
  "put_head j ctx = ctx\<lparr>jobs := (jobs ctx)\<lparr>jobs_head := j # tl (jobs_head (jobs ctx))\<rparr>\<rparr>"

definition drop_job :: "int \<Rightarrow> 'w ShellContext \<Rightarrow> 'w ShellContext" where
  "drop_job grp ctx = ctx\<lparr>jobs := job_remove (jobs ctx) grp\<rparr>"

text \<open>What a stopped job had set on the terminal.\<close>

definition save_modes :: "('w, 'x) api_scheme \<Rightarrow> terminal \<Rightarrow> job \<Rightarrow> 'w \<Rightarrow> (job \<times> 'w) option" where
  "save_modes K T j w = do {
     (r, w') \<leftarrow> terminal_get_modes K T w;
     Some (case r of
         Inr (Some modes) \<Rightarrow> j\<lparr>terminal_modes := modes, terminal_modes_valid := True\<rparr>
       | Inr None \<Rightarrow> j\<lparr>terminal_modes_valid := True\<rparr>
       | Inl _ \<Rightarrow> j, w') }"

definition stopped_line :: "job \<Rightarrow> string" where
  "stopped_line j = NL # ''['' @ dec_int (id_of j) @ '']+ Stopped '' @ cmdline j @ [NL]"

definition finish_foreground_job ::
  "('w, 'x) api_scheme \<Rightarrow> terminal \<Rightarrow> 'w ShellContext \<Rightarrow> bool \<Rightarrow> 'w \<Rightarrow> ((int \<times> 'w ShellContext) \<times> 'w) option" where
  "finish_foreground_job K T ctx terminal_active w = do {
     (j, w1) \<leftarrow> (if terminal_active \<and> status (head_job ctx) = JOB_STOPPED then save_modes K T (head_job ctx) w
                 else Some (head_job ctx, w));
     let ctx1 = put_head j ctx;
     (r, w2) \<leftarrow> (if terminal_active then terminal_restore K T w1 else Some (Inr (), w1));
     if r \<noteq> Inr () then Some ((MiniShell_ERR_UNKNOWN, ctx1\<lparr>running := False\<rparr>), w2)
     else if status j = JOB_STOPPED then Some ((MiniShell_OK, ctx1), stdout K (stopped_line j) w2)
     else if status j \<noteq> JOB_DONE then Some ((MiniShell_ERR_UNKNOWN, ctx1), w2)
     else Some ((if job_exit_status j < 0 then MiniShell_ERR_UNKNOWN else job_exit_status j, drop_job (pgid j) ctx1), w2) }"

text \<open>The common end of \<^verbatim>\<open>execute_single\<close> and \<^verbatim>\<open>execute_pipeline\<close>, from the job with all its processes on:
  the terminal, the gate, and the wait.  \<open>rollback\<close> is the rollback function of the two.\<close>

definition start_job ::
  "('w, 'x) api_scheme \<Rightarrow> terminal \<Rightarrow> bool \<Rightarrow> int \<Rightarrow> nat \<Rightarrow> ('w \<Rightarrow> 'w option) \<Rightarrow> int \<Rightarrow> 'w ShellContext \<Rightarrow> 'w
     \<Rightarrow> ((int \<times> 'w ShellContext) \<times> 'w) option" where
  "start_job K T in_background grp count rollback gate_write ctx w = do {
     let terminal_active = terminal_is_initialized T;
     (f, w1) \<leftarrow> (if \<not> in_background \<and> terminal_active then terminal_set_foreground K T grp w else Some (Inr (), w));
     if f \<noteq> Inr () then do {
       w2 \<leftarrow> rollback (close_fd K gate_write w1);
       (_, w3) \<leftarrow> terminal_restore K T w2;
       Some ((MiniShell_ERR_UNKNOWN, drop_job grp ctx), w3) }
     else do {
       (released, w2) \<leftarrow> startup_gate_release K gate_write count w1;
       let w3 = close_fd K gate_write w2;
       if \<not> released then do {
         w4 \<leftarrow> rollback w3;
         (_, w5) \<leftarrow> (if \<not> in_background \<and> terminal_active then terminal_restore K T w4 else Some (Inr (), w4));
         Some ((MiniShell_ERR_UNKNOWN, drop_job grp ctx), w5) }
       else if in_background then Some ((MiniShell_OK, ctx), w3)
       else do {
         ((r, j), w4) \<leftarrow> job_wait_foreground K (head_job ctx) w3;
         let ctx1 = put_head j ctx;
         if r < 0 then do {
           w5 \<leftarrow> rollback w4;
           (_, w6) \<leftarrow> (if terminal_active then terminal_restore K T w5 else Some (Inr (), w5));
           Some ((MiniShell_ERR_UNKNOWN, drop_job grp ctx1), w6) }
         else finish_foreground_job K T ctx1 terminal_active w4 } } }"

fun add_processes :: "(nat \<Rightarrow> bool) \<Rightarrow> nat \<Rightarrow> job \<Rightarrow> int list \<Rightarrow> job option" where
  "add_processes mem i j [] = Some j"
| "add_processes mem i j (n # ns) = do { j' \<leftarrow> process_add (mem (Suc i)) j n; add_processes mem (Suc i) j' ns }"

text \<open>The job and its processes; \<open>None\<close> when an allocation fails, then nothing of it is in the table.\<close>

definition add_job :: "(nat \<Rightarrow> bool) \<Rightarrow> int \<Rightarrow> string \<Rightarrow> int list \<Rightarrow> 'w ShellContext \<Rightarrow> bool \<times> 'w ShellContext" where
  "add_job mem grp name pids ctx = (case job_add (mem 0) (jobs ctx) grp name of
     None \<Rightarrow> (False, ctx)
   | Some m \<Rightarrow>
       let ctx1 = ctx\<lparr>jobs := m\<rparr>
       in case add_processes mem 0 (head_job ctx1) pids of
            None \<Rightarrow> (False, drop_job grp ctx1)
          | Some j \<Rightarrow> (True, put_head j ctx1))"

definition execute_single ::
  "('w, 'x) api_scheme \<Rightarrow> terminal \<Rightarrow> (nat \<Rightarrow> bool) \<Rightarrow> command \<Rightarrow> 'w ShellContext \<Rightarrow> 'w \<Rightarrow> ((int \<times> 'w ShellContext) \<times> 'w) option" where
  "execute_single K T mem com ctx w =
     (case startup_gate_create K w of
        (Inl _, w1) \<Rightarrow> Some ((MiniShell_ERR_PIPE, ctx), w1)
      | (Inr (gate_read, gate_write), w1) \<Rightarrow>
          (case sys_fork K w1 of
             (Inl _, w2) \<Rightarrow> Some ((MiniShell_ERR_FORK, ctx), close_fd K gate_write (close_fd K gate_read w2))
           | (Inr n, w2) \<Rightarrow> do {
               (r, w3) \<leftarrow> setpgid_parent K n n (close_fd K gate_read w2);
               if r \<noteq> Inr () then do {
                 w4 \<leftarrow> rollback_single K n (close_fd K gate_write w3);
                 Some ((MiniShell_ERR_UNKNOWN, ctx), w4) }
               else case add_job mem n (hd (argv com)) [n] ctx of
                 (False, ctx1) \<Rightarrow> do {
                   w4 \<leftarrow> rollback_single K n (close_fd K gate_write w3);
                   Some ((MiniShell_ERR_JOB, ctx1), w4) }
               | (True, ctx1) \<Rightarrow> start_job K T (background com) n 1 (rollback_single K n) gate_write ctx1 w3 }))"

definition close_some :: "('w, 'x) api_scheme \<Rightarrow> int \<Rightarrow> 'w \<Rightarrow> 'w" where
  "close_some K fd w = (if fd \<ge> 0 then close_fd K fd w else w)"

text \<open>The error exits of the loop of \<^verbatim>\<open>execute_pipeline\<close>.\<close>

definition pipeline_abort ::
  "('w, 'x) api_scheme \<Rightarrow> int \<times> int \<Rightarrow> (int \<times> int) option \<Rightarrow> int \<Rightarrow> int \<Rightarrow> int list \<Rightarrow> 'w \<Rightarrow> 'w option" where
  "pipeline_abort K gate pipefd pipe_fd grp pids w =
     (let w1 = (case pipefd of Some (a, b) \<Rightarrow> close_fd K b (close_fd K a w) | None \<Rightarrow> w);
          w2 = close_some K pipe_fd w1
      in rollback_pipeline K grp pids (close_fd K (snd gate) (close_fd K (fst gate) w2)))"

text \<open>The pipe to the next command, when there is one.\<close>

definition next_pipe :: "('w, 'x) api_scheme \<Rightarrow> command list \<Rightarrow> 'w \<Rightarrow> (int + (int \<times> int) option) \<times> 'w" where
  "next_pipe K rest w = (if rest = [] then (Inr None, w) else
     case sys_pipe K w of (Inl e, w1) \<Rightarrow> (Inl e, w1) | (Inr ab, w1) \<Rightarrow> (Inr (Some ab), w1))"

text \<open>After a child has been started: the ends the parent does not need, and the next \<^verbatim>\<open>pipe_fd\<close>.\<close>

definition advance_pipe :: "('w, 'x) api_scheme \<Rightarrow> int \<Rightarrow> (int \<times> int) option \<Rightarrow> 'w \<Rightarrow> int \<times> 'w" where
  "advance_pipe K pipe_fd pipefd w = (case pipefd of
     Some (a, b) \<Rightarrow> (a, close_fd K b (close_some K pipe_fd w)) | None \<Rightarrow> (-1, close_some K pipe_fd w))"

fun pipeline_loop ::
  "('w, 'x) api_scheme \<Rightarrow> int \<times> int \<Rightarrow> int \<Rightarrow> int \<Rightarrow> int list \<Rightarrow> command list \<Rightarrow> 'w \<Rightarrow> ((int + int \<times> int \<times> int list) \<times> 'w) option" where
  "pipeline_loop K gate pipe_fd grp pids [] w = Some (Inr (pipe_fd, grp, pids), w)"
| "pipeline_loop K gate pipe_fd grp pids (current # rest) w =
     (if length pids \<ge> MAX_PIPELINE then do {
        w1 \<leftarrow> pipeline_abort K gate None pipe_fd grp pids w;
        Some (Inl MiniShell_ERR_UNKNOWN, w1) }
      else case next_pipe K rest w of
        (Inl _, w1) \<Rightarrow> do { w2 \<leftarrow> pipeline_abort K gate None pipe_fd grp pids w1; Some (Inl MiniShell_ERR_PIPE, w2) }
      | (Inr pipefd, w1) \<Rightarrow>
          (case sys_fork K w1 of
             (Inl _, w2) \<Rightarrow> do { w3 \<leftarrow> pipeline_abort K gate pipefd pipe_fd grp pids w2; Some (Inl MiniShell_ERR_FORK, w3) }
           | (Inr n, w2) \<Rightarrow>
               let pids' = pids @ [n]; grp' = (if grp = 0 then n else grp)
               in do {
                 (r, w3) \<leftarrow> setpgid_parent K n grp' w2;
                 if r \<noteq> Inr () then do {
                   w4 \<leftarrow> pipeline_abort K gate pipefd pipe_fd grp' pids' w3;
                   Some (Inl MiniShell_ERR_UNKNOWN, w4) }
                 else case advance_pipe K pipe_fd pipefd w3 of
                   (pipe_fd', w4) \<Rightarrow> pipeline_loop K gate pipe_fd' grp' pids' rest w4 }))"

text \<open>\<open>coms\<close> is the chain from \<^verbatim>\<open>com\<close> on.\<close>

definition execute_pipeline ::
  "('w, 'x) api_scheme \<Rightarrow> terminal \<Rightarrow> (nat \<Rightarrow> bool) \<Rightarrow> command list \<Rightarrow> 'w ShellContext \<Rightarrow> 'w \<Rightarrow> ((int \<times> 'w ShellContext) \<times> 'w) option" where
  "execute_pipeline K T mem coms ctx w =
     (case startup_gate_create K w of
        (Inl _, w1) \<Rightarrow> Some ((MiniShell_ERR_PIPE, ctx), w1)
      | (Inr gate, w1) \<Rightarrow> do {
          (s, w2) \<leftarrow> pipeline_loop K gate (-1) 0 [] coms w1;
          case s of
            Inl code \<Rightarrow> Some ((code, ctx), w2)
          | Inr (pipe_fd, grp, pids) \<Rightarrow>
              let w3 = close_fd K (fst gate) (close_some K pipe_fd w2)
              in case add_job mem grp (hd (argv (hd coms))) pids ctx of
                (False, ctx1) \<Rightarrow> do {
                  w4 \<leftarrow> rollback_pipeline K grp pids (close_fd K (snd gate) w3);
                  Some ((MiniShell_ERR_JOB, ctx1), w4) }
              | (True, ctx1) \<Rightarrow>
                  start_job K T (background (hd coms)) grp (length pids) (rollback_pipeline K grp pids) (snd gate) ctx1 w3 })"

definition execute_command ::
  "('w, 'x) api_scheme \<Rightarrow> terminal \<Rightarrow> (nat \<Rightarrow> bool) \<Rightarrow> command list \<Rightarrow> 'w ShellContext \<Rightarrow> 'w \<Rightarrow> ((int \<times> 'w ShellContext) \<times> 'w) option" where
  "execute_command K T mem coms ctx w =
     (if coms = [] then Some ((MiniShell_ERR_UNKNOWN, ctx), w)
      else if check_job_limit ctx \<noteq> MiniShell_OK then Some ((check_job_limit ctx, ctx), w)
      else if tl coms \<noteq> [] then execute_pipeline K T mem coms ctx w
      else execute_single K T mem (hd coms) ctx w)"

end
