(* ===== verification/Executor_Safe.thy ===== *)
theory Executor_Safe
  imports Executor
begin

text \<open>
  What running a command does to the shell: its descriptors are as before on every path, every child is
  reaped or recorded in the job table, and the outcomes as seen in the job table and the result.
\<close>

section \<open>Calls that touch neither descriptors nor children\<close>

lemma set_cloexec_keeps:
  assumes K: "side_calls_keep K P" and "set_cloexec K fd w = (r, w')"
  shows "P w' = P w"
  using assms(2) by (auto simp: set_cloexec_def dest!: keepsD [OF side_calls(2) [OF K]] keepsD [OF side_calls(3) [OF K]]
      split: prod.split_asm sum.split_asm)

lemma setpgid_parent_keeps:
  assumes K: "side_calls_keep K P" and "setpgid_parent K n g w = Some (r, w')"
  shows "P w' = P w"
  using assms(2) by (auto simp: setpgid_parent_def dest!: keeps_retry [OF side_calls(1) [OF K]] split: Option.bind_split_asm)

lemma startup_gate_release_keeps:
  assumes K: "side_calls_keep K P"
  shows "startup_gate_release K fd n w = Some (ok, w') \<Longrightarrow> P w' = P w"
proof (induction n arbitrary: w)
  case (Suc n)
  obtain r w1 where r: "retry (sys_write (io K) fd [0x47]) w = Some (r, w1)"
    using Suc.prems by (auto split: Option.bind_split_asm)
  have "P w1 = P w" by (rule keeps_retry [OF side_calls(6) [OF K] r])
  then show ?case using Suc.prems Suc.IH [of w1] r by (auto split: if_split_asm)
qed simp

lemma kill_keeps: "side_calls_keep K P \<Longrightarrow> P (snd (Job.kill K n sig w)) = P w"
  by (rule keeps_snd [OF side_calls(5)])

lemma kill_each_keeps: "side_calls_keep K P \<Longrightarrow> P (kill_each K ns w) = P w"
  by (induction ns arbitrary: w) (simp_all add: kill_keeps)

lemma save_modes_keeps: "side_calls_keep K P \<Longrightarrow> save_modes K T j w = Some (j', w') \<Longrightarrow> P w' = P w"
  by (auto simp: save_modes_def split: Option.bind_split_asm dest: terminal_keeps(2))

lemma save_modes_job:
  assumes "save_modes K T j w = Some (j', w')"
  shows "same_job j j' \<and> status j' = status j \<and> processes j' = processes j \<and> (in_sync j \<longrightarrow> in_sync j')"
  using assms by (auto simp: save_modes_def same_job_def in_sync_def split: Option.bind_split_asm sum.split_asm option.split_asm)

lemma restore_keeps:
  assumes "side_calls_keep K P" "(if active then terminal_restore K T w else Some (Inr (), w)) = Some (r, w')"
  shows "P w' = P w"
  using assms terminal_keeps(4) [OF assms(1)] by (auto split: if_split_asm)

lemma finish_foreground_keeps:
  assumes K: "side_calls_keep K P" and fin: "finish_foreground_job K T ctx active w = Some ((code, ctx'), w')"
  shows "P w' = P w"
proof -
  obtain j w1 where j: "(if active \<and> status (head_job ctx) = JOB_STOPPED then save_modes K T (head_job ctx) w
      else Some (head_job ctx, w)) = Some (j, w1)"
    using fin by (auto simp: finish_foreground_job_def split: Option.bind_split_asm)
  obtain r w2 where r: "(if active then terminal_restore K T w1 else Some (Inr (), w1)) = Some (r, w2)"
    using fin j by (auto simp: finish_foreground_job_def Let_def split: Option.bind_split_asm)
  have "P w1 = P w" using j save_modes_keeps [OF K] by (auto split: if_split_asm)
  moreover have "P w2 = P w1" by (rule restore_keeps [OF K r])
  moreover have "w' = w2 \<or> w' = stdout K (stopped_line j) w2"
    using fin unfolding finish_foreground_job_def Let_def j Option.bind.simps prod.case r by (auto split: if_split_asm)
  ultimately show ?thesis using side_calls(9) [OF K] by metis
qed

section \<open>The wait loop\<close>

lemma wait_foreground_world:
  assumes ret: "job_wait_foreground K j w = Some ((r, j'), w')" and init: "R j w"
    and fails: "\<And>j w e w'. R j w \<Longrightarrow> waitpid_group K (pgid j) WUNTRACED w = (Inl e, w') \<Longrightarrow> R j w'"
    and other: "\<And>j w n s w'. R j w \<Longrightarrow> waitpid_group K (pgid j) WUNTRACED w = (Inr (n, s), w') \<Longrightarrow> process_find j n = None \<Longrightarrow> R j w'"
    and mine: "\<And>j w n s w'. R j w \<Longrightarrow> waitpid_group K (pgid j) WUNTRACED w = (Inr (n, s), w') \<Longrightarrow> R (apply_to_job n s j) w'"
  shows "R j' w' \<and> (r = 0 \<or> r = -1)"
proof (cases "pgid j \<le> 0")
  case True
  then show ?thesis using ret init by (auto simp: job_wait_foreground_def)
next
  case False
  let ?Q = "\<lambda>K' j w (x :: (int \<times> job) \<times> _). K' = K \<longrightarrow> R j w \<longrightarrow> R (snd (fst x)) (snd x) \<and> (fst (fst x) = 0 \<or> fst (fst x) = -1)"
  have loop: "wait_foreground_loop K j w = Some ((r, j'), w')" using ret False by (simp add: job_wait_foreground_def)
  have "?Q K j w ((r, j'), w')"
  proof (rule wait_foreground_loop.raw_induct [where P = ?Q, OF _ loop], goal_cases)
    case (1 loop K' j w x)
    show ?case
    proof (intro impI)
      assume K': "K' = K" and Rj: "R j w"
      obtain a w1 where a: "waitpid_group K (pgid j) WUNTRACED w = (a, w1)" by (meson surj_pair)
      show "R (snd (fst x)) (snd x) \<and> (fst (fst x) = 0 \<or> fst (fst x) = -1)"
      proof (cases a)
        case (Inl e)
        then show ?thesis using 1(1) [of K j w1 x] 1(2) fails [OF Rj a [unfolded Inl]] Rj unfolding K' by (auto simp: a split: if_split_asm)
      next
        case (Inr ns)
        obtain n s where ns: "ns = (n, s)" by (cases ns)
        note a' = a [unfolded Inr ns]
        show ?thesis using 1(1) [of K "apply_to_job n s j" w1 x] 1(2) other [OF Rj a'] mine [OF Rj a'] Rj
          unfolding K' by (auto simp: a' apply_to_job_def split: if_split_asm)
      qed
    qed
  qed
  with init show ?thesis by simp
qed

section \<open>Descriptors\<close>

lemma gate_create_fds:
  assumes K: "api_fds K fds" and g: "startup_gate_create K w = (r, w')"
  shows "r = Inr (a, b) \<Longrightarrow> 0 \<le> a \<and> 0 \<le> b \<and> a \<noteq> b \<and> a \<notin> fds w \<and> b \<notin> fds w \<and> fds w' = fds w \<union> {a, b}"
    and "r = Inl e \<Longrightarrow> fds w' = fds w"
proof -
  obtain p w1 where p: "sys_pipe K w = (p, w1)" by (meson surj_pair)
  have "(\<exists>a b. r = Inr (a, b) \<and> 0 \<le> a \<and> 0 \<le> b \<and> a \<noteq> b \<and> a \<notin> fds w \<and> b \<notin> fds w \<and> fds w' = fds w \<union> {a, b})
      \<or> (\<exists>e. r = Inl e) \<and> fds w' = fds w"
  proof (cases p)
    case (Inl e)
    then show ?thesis using g p api_fds_pipe(2) [OF K p [unfolded Inl]] by (auto simp: startup_gate_create_def)
  next
    case (Inr ab)
    obtain a b where ab: "ab = (a, b)" by (cases ab)
    note pipe = api_fds_pipe(1) [OF K p [unfolded Inr ab]]
    obtain r2 w2 where s2: "set_cloexec K a w1 = (r2, w2)" by (meson surj_pair)
    obtain r3 w3 where s3: "set_cloexec K b w2 = (r3, w3)" by (meson surj_pair)
    have "fds w2 = fds w1" "fds w3 = fds w1"
      using set_cloexec_keeps [OF api_fds_laws(2) [OF K] s2] set_cloexec_keeps [OF api_fds_laws(2) [OF K] s3] by simp_all
    then show ?thesis using g p Inr ab s2 s3 pipe
      by (auto simp: startup_gate_create_def api_fds_close [OF K] split: sum.split_asm)
  qed
  then show "r = Inr (a, b) \<Longrightarrow> 0 \<le> a \<and> 0 \<le> b \<and> a \<noteq> b \<and> a \<notin> fds w \<and> b \<notin> fds w \<and> fds w' = fds w \<union> {a, b}"
    "r = Inl e \<Longrightarrow> fds w' = fds w" by auto
qed

lemma reap_pid_fds: "api_fds K fds \<Longrightarrow> reap_pid K n w = Some w' \<Longrightarrow> fds w' = fds w"
  by (auto simp: reap_pid_def dest: keeps_retry [OF api_fds_laws(4)] split: if_split_asm Option.bind_split_asm)

lemma reap_each_fds: "api_fds K fds \<Longrightarrow> reap_each K ns w = Some w' \<Longrightarrow> fds w' = fds w"
  by (induction ns arbitrary: w) (fastforce dest: reap_pid_fds split: Option.bind_split_asm)+

text \<open>A rollback ends by waiting for the children, in a world that differs from the first one only by signals sent.\<close>

lemma rollback_reaps:
  assumes "side_calls_keep K P"
  shows "rollback_single K n w = Some w' \<Longrightarrow> \<exists>v. P v = P w \<and> reap_pid K n v = Some w'"
    and "rollback_pipeline K g ns w = Some w' \<Longrightarrow> \<exists>v. P v = P w \<and> reap_each K ns v = Some w'"
proof -
  let ?v = "snd (Job.kill K n SIGKILL (snd (Job.kill K (- n) SIGKILL w)))"
  have "P ?v = P w" by (simp add: kill_keeps [OF assms])
  then show "\<exists>v. P v = P w \<and> reap_pid K n v = Some w'" if "rollback_single K n w = Some w'"
    using that by (cases "n \<le> 0") (auto simp: rollback_single_def reap_pid_def Let_def)
  let ?u = "kill_each K ns (if g > 0 then snd (Job.kill K (- g) SIGKILL w) else w)"
  have "P ?u = P w" by (simp add: kill_keeps [OF assms] kill_each_keeps [OF assms])
  moreover have "reap_each K ns ?u = Some w'" if "rollback_pipeline K g ns w = Some w'"
    using that by (simp add: rollback_pipeline_def Let_def)
  ultimately show "\<exists>v. P v = P w \<and> reap_each K ns v = Some w'" if "rollback_pipeline K g ns w = Some w'"
    using that by blast
qed

lemma rollback_fds:
  assumes K: "api_fds K fds"
  shows "rollback_single K n w = Some w' \<Longrightarrow> fds w' = fds w" "rollback_pipeline K g ns w = Some w' \<Longrightarrow> fds w' = fds w"
  using rollback_reaps [OF api_fds_laws(2) [OF K]] reap_pid_fds [OF K] reap_each_fds [OF K] by metis+

lemma wait_foreground_fds:
  assumes K: "api_fds K fds" and wt: "job_wait_foreground K j w = Some ((r, j'), w')"
  shows "fds w' = fds w"
proof -
  have "fds v' = fds w" if "fds v = fds w" "waitpid_group K g WUNTRACED v = (x, v')" for g v x v'
    using keepsD [OF api_fds_laws(5) [OF K] that(2)] that(1) by simp
  then show ?thesis using wait_foreground_world [OF wt, where R = "\<lambda>_ v. fds v = fds w"] by blast
qed

section \<open>The ways through \<open>start_job\<close>\<close>

text \<open>\<open>P\<close> is anything the terminal calls and the gate do not change.\<close>

lemma start_job_cases:
  assumes K: "side_calls_keep K P"
    and start: "start_job K T bg grp count rollback gw ctx w = Some ((code, ctx'), w')"
  obtains (rolled_back) v u where "P v = P w" "rollback (close_fd K gw v) = Some u" "P w' = P u"
      "code = MiniShell_ERR_UNKNOWN" "ctx' = drop_job grp ctx"
  | (in_background) v where "bg" "P v = P w" "w' = close_fd K gw v" "code = MiniShell_OK" "ctx' = ctx"
  | (wait_failed) v r j v' u where "\<not> bg" "P v = P w" "job_wait_foreground K (head_job ctx) (close_fd K gw v) = Some ((r, j), v')" "r < 0"
      "rollback v' = Some u" "P w' = P u" "code = MiniShell_ERR_UNKNOWN" "ctx' = drop_job grp (put_head j ctx)"
  | (waited) v r j v' where "\<not> bg" "P v = P w" "job_wait_foreground K (head_job ctx) (close_fd K gw v) = Some ((r, j), v')" "\<not> r < 0"
      "finish_foreground_job K T (put_head j ctx) (terminal_is_initialized T) v' = Some ((code, ctx'), w')"
proof -
  let ?act = "terminal_is_initialized T"
  obtain f w1 where f: "(if \<not> bg \<and> ?act then terminal_set_foreground K T grp w else Some (Inr (), w)) = Some (f, w1)"
    using start by (fastforce simp: start_job_def Let_def split: Option.bind_split_asm)
  have w1: "P w1 = P w" using f terminal_keeps(1) [OF K] by (auto split: if_split_asm)
  show thesis
  proof (cases "f = Inr ()")
    case False
    then obtain u where u: "rollback (close_fd K gw w1) = Some u"
      using start unfolding start_job_def Let_def f by (auto split: Option.bind_split_asm)
    then obtain x where x: "terminal_restore K T u = Some (x, w')" and res: "code = -1" "ctx' = drop_job grp ctx"
      using start False unfolding start_job_def Let_def f by (auto split: Option.bind_split_asm)
    show thesis using rolled_back [OF w1 u] terminal_keeps(4) [OF K x] res by simp
  next
    case True
    obtain ok w2 where rel: "startup_gate_release K gw count w1 = Some (ok, w2)"
      using start True unfolding start_job_def Let_def f by (auto split: Option.bind_split_asm)
    have w2: "P w2 = P w" using startup_gate_release_keeps [OF K rel] w1 by simp
    show thesis
    proof (cases ok)
      case False
      then obtain u where u: "rollback (close_fd K gw w2) = Some u"
        using start True rel unfolding start_job_def Let_def f by (auto split: Option.bind_split_asm)
      then obtain x where x: "(if \<not> bg \<and> ?act then terminal_restore K T u else Some (Inr (), u)) = Some (x, w')"
        and res: "code = -1" "ctx' = drop_job grp ctx"
        using start True rel False unfolding start_job_def Let_def f by (fastforce split: Option.bind_split_asm)
      show thesis using rolled_back [OF w2 u] restore_keeps [OF K x] res by simp
    next
      case ok: True
      show thesis
      proof (cases bg)
        case True
        then show thesis using in_background [OF True w2] start \<open>f = Inr ()\<close> rel ok unfolding start_job_def Let_def f by simp
      next
        case False
        obtain r j v' where wt: "job_wait_foreground K (head_job ctx) (close_fd K gw w2) = Some ((r, j), v')"
          using start \<open>f = Inr ()\<close> rel ok False unfolding start_job_def Let_def f by (auto split: Option.bind_split_asm)
        show thesis
        proof (cases "r < 0")
          case True
          then obtain u where u: "rollback v' = Some u"
            using start \<open>f = Inr ()\<close> rel ok False wt unfolding start_job_def Let_def f by (auto split: Option.bind_split_asm)
          then obtain x where x: "(if ?act then terminal_restore K T u else Some (Inr (), u)) = Some (x, w')"
            and res: "code = -1" "ctx' = drop_job grp (put_head j ctx)"
            using start \<open>f = Inr ()\<close> rel ok False wt True unfolding start_job_def Let_def f by (fastforce split: Option.bind_split_asm)
          show thesis using wait_failed [OF False w2 wt True u] restore_keeps [OF K x] res by simp
        next
          case r: False
          then show thesis using waited [OF False w2 wt r] start \<open>f = Inr ()\<close> rel ok False wt unfolding start_job_def Let_def f by simp
        qed
      qed
    qed
  qed
qed

lemma start_job_fds:
  assumes K: "api_fds K fds" and rb: "\<And>v v'. rollback v = Some v' \<Longrightarrow> fds v' = fds v"
    and start: "start_job K T bg grp count rollback gw ctx w = Some ((code, ctx'), w')"
  shows "fds w' = fds w - {gw}"
  using api_fds_laws(2) [OF K] start
proof (cases rule: start_job_cases)
  case (rolled_back v u)
  then show ?thesis using rb [of "close_fd K gw v" u] by (simp add: api_fds_close [OF K])
next
  case (in_background v)
  then show ?thesis by (simp add: api_fds_close [OF K])
next
  case (wait_failed v r j v' u)
  then show ?thesis using rb [of v' u] wait_foreground_fds [OF K wait_failed(3)] by (simp add: api_fds_close [OF K])
next
  case (waited v r j v')
  then show ?thesis using wait_foreground_fds [OF K waited(3)] finish_foreground_keeps [OF api_fds_laws(2) [OF K] waited(5)]
    by (simp add: api_fds_close [OF K])
qed

lemma execute_single_fds:
  assumes K: "api_fds K fds" and ex: "execute_single K T mem com ctx w = Some ((code, ctx'), w')"
  shows "fds w' = fds w"
proof -
  obtain g w1 where g: "startup_gate_create K w = (g, w1)" by (meson surj_pair)
  note close = api_fds_close [OF K]
  show ?thesis
  proof (cases g)
    case (Inl e)
    then show ?thesis using ex g gate_create_fds(2) [OF K g Inl] by (simp add: execute_single_def)
  next
    case (Inr ab)
    obtain a b where ab: "ab = (a, b)" by (cases ab)
    note gate = gate_create_fds(1) [OF K g, unfolded Inr ab, OF refl]
    obtain p w2 where p: "sys_fork K w1 = (p, w2)" by (meson surj_pair)
    have w2: "fds w2 = fds w \<union> {a, b}" using keepsD [OF api_fds_laws(3) [OF K] p] gate by simp
    show ?thesis
    proof (cases p)
      case (Inl e)
      then show ?thesis using ex g p \<open>g = Inr ab\<close> ab w2 gate by (auto simp: execute_single_def close)
    next
      case pid: (Inr n)
      obtain s w3 where s: "setpgid_parent K n n (close_fd K a w2) = Some (s, w3)"
        using ex g p Inr ab pid by (auto simp: execute_single_def split: Option.bind_split_asm)
      have w3: "fds w3 = fds w \<union> {b}" using setpgid_parent_keeps [OF api_fds_laws(2) [OF K] s] w2 gate by (auto simp: close)
      obtain ok ctx1 where j: "add_job mem n (hd (argv com)) [n] ctx = (ok, ctx1)" by (meson surj_pair)
      have rolled: "rollback_single K n (close_fd K b w3) = Some w' \<Longrightarrow> fds w' = fds w"
        using rollback_fds(1) [OF K, of n "close_fd K b w3" w'] w3 gate by (auto simp: close)
      show ?thesis
      proof (cases "s = Inr () \<and> ok")
        case True
        then have "start_job K T (background com) n 1 (rollback_single K n) b ctx1 w3 = Some ((code, ctx'), w')"
          using ex by (simp add: execute_single_def g p Inr ab pid s j)
        from start_job_fds [OF K rollback_fds(1) [OF K] this] show ?thesis using w3 gate by auto
      next
        case False
        then have "rollback_single K n (close_fd K b w3) = Some w'"
          using ex by (auto simp: execute_single_def g p Inr ab pid s j split: if_split_asm Option.bind_split_asm bool.split_asm)
        then show ?thesis by (rule rolled)
      qed
    qed
  qed
qed


text \<open>In the pipeline the parent holds the gate and the read end of the last pipe.\<close>

definition held :: "int \<Rightarrow> int set" where
  "held fd = (if fd \<ge> 0 then {fd} else {})"

definition pipe_ends :: "(int \<times> int) option \<Rightarrow> int set" where
  "pipe_ends pipefd = (case pipefd of Some (a, b) \<Rightarrow> {a, b} | None \<Rightarrow> {})"

lemma close_some_fds: "api_fds K fds \<Longrightarrow> fds (close_some K fd w) = fds w - held fd"
  by (simp add: close_some_def held_def api_fds_close)

lemma pipeline_abort_fds:
  assumes K: "api_fds K fds" and ab: "pipeline_abort K gate pipefd pf grp pids w = Some w'"
  shows "fds w' = fds w - pipe_ends pipefd - held pf - {fst gate, snd gate}"
  using ab by (auto simp: pipeline_abort_def Let_def api_fds_close [OF K] close_some_fds [OF K] pipe_ends_def
      dest!: rollback_fds(2) [OF K] split: option.split_asm)

lemma next_pipe_fds:
  assumes K: "api_fds K fds" and np: "next_pipe K rest w = (r, w')"
  shows "r = Inl e \<Longrightarrow> fds w' = fds w"
    and "r = Inr pipefd \<Longrightarrow> fds w' = fds w \<union> pipe_ends pipefd \<and> pipe_ends pipefd \<inter> fds w = {}
      \<and> (\<forall>a b. pipefd = Some (a, b) \<longrightarrow> 0 \<le> a \<and> a \<noteq> b)"
proof -
  show "r = Inl e \<Longrightarrow> fds w' = fds w"
    using np api_fds_pipe(2) [OF K] by (auto simp: next_pipe_def split: if_split_asm prod.split_asm sum.split_asm)
  show "r = Inr pipefd \<Longrightarrow> fds w' = fds w \<union> pipe_ends pipefd \<and> pipe_ends pipefd \<inter> fds w = {}
      \<and> (\<forall>a b. pipefd = Some (a, b) \<longrightarrow> 0 \<le> a \<and> a \<noteq> b)"
    using np api_fds_pipe(1) [OF K, of w _ _ w']
    by (auto simp: next_pipe_def pipe_ends_def split: if_split_asm prod.split_asm sum.split_asm)
qed

lemma advance_pipe_fds:
  assumes K: "api_fds K fds" and ap: "advance_pipe K pf pipefd w = (pf', w')" and "\<forall>a b. pipefd = Some (a, b) \<longrightarrow> 0 \<le> a"
  shows "held pf' = fst ` set_option pipefd" "fds w' = fds w - held pf - snd ` set_option pipefd"
  using ap assms(3) by (auto simp: advance_pipe_def held_def api_fds_close [OF K] close_some_fds [OF K] split: option.split_asm)

lemma pipeline_loop_fds:
  assumes K: "api_fds K fds" and gate: "fst gate \<notin> base" "snd gate \<notin> base"
  shows "pipeline_loop K gate pf grp pids coms w = Some (r, w')
    \<Longrightarrow> fds w = base \<union> {fst gate, snd gate} \<union> held pf \<Longrightarrow> held pf \<inter> (base \<union> {fst gate, snd gate}) = {}
    \<Longrightarrow> (case r of Inl _ \<Rightarrow> fds w' = base
        | Inr (pf', _) \<Rightarrow> fds w' = base \<union> {fst gate, snd gate} \<union> held pf' \<and> held pf' \<inter> (base \<union> {fst gate, snd gate}) = {})"
proof (induction coms arbitrary: pf grp pids w)
  case (Cons current rest)
  note w = Cons.prems(2,3)
  have aborts: "fds w' = base" if "pipeline_abort K gate pipefd pf grp1 pids1 v = Some w'" "fds v = fds w \<union> pipe_ends pipefd"
      "pipe_ends pipefd \<inter> fds w = {}" for pipefd grp1 pids1 v
    using pipeline_abort_fds [OF K that(1)] that(2,3) w gate by auto
  obtain q w1 where q: "next_pipe K rest w = (q, w1)" by (meson surj_pair)
  obtain p w2 where p: "sys_fork K w1 = (p, w2)" by (meson surj_pair)
  have w2: "fds w2 = fds w1" by (rule keepsD [OF api_fds_laws(3) [OF K] p])
  show ?case
  proof (cases "length pids \<ge> 64 \<or> (\<exists>e. q = Inl e)")
    case True
    then obtain v code where "pipeline_abort K gate None pf grp pids v = Some w'" "r = Inl code" "fds v = fds w"
      using Cons.prems(1) q next_pipe_fds(1) [OF K q] by (auto split: if_split_asm Option.bind_split_asm)
    with aborts [of None grp pids v] show ?thesis by (simp add: pipe_ends_def)
  next
    case False
    then obtain pipefd where pf: "q = Inr pipefd" and n64: "\<not> length pids \<ge> 64" by (cases q) auto
    note ends = next_pipe_fds(2) [OF K q pf]
    show ?thesis
    proof (cases p)
      case (Inl e)
      then obtain code where "pipeline_abort K gate pipefd pf grp pids w2 = Some w'" "r = Inl code"
        using Cons.prems(1) n64 by (auto simp: q pf p split: Option.bind_split_asm)
      with aborts [of pipefd grp pids w2] ends w2 show ?thesis by simp
    next
      case (Inr n)
      let ?grp = "if grp = 0 then n else grp"
      obtain s w3 where s: "setpgid_parent K n ?grp w2 = Some (s, w3)"
        using Cons.prems(1) n64 by (auto simp: q pf p Inr Let_def split: Option.bind_split_asm)
      have w3: "fds w3 = fds w \<union> pipe_ends pipefd"
        using setpgid_parent_keeps [OF api_fds_laws(2) [OF K] s] w2 ends by simp
      show ?thesis
      proof (cases "s = Inr ()")
        case False
        then obtain code where "pipeline_abort K gate pipefd pf ?grp (pids @ [n]) w3 = Some w'" "r = Inl code"
          using Cons.prems(1) n64 by (auto simp: q pf p Inr s Let_def split: Option.bind_split_asm)
        with aborts [OF _ w3] ends show ?thesis by fastforce
      next
        case True
        obtain pf' w4 where a: "advance_pipe K pf pipefd w3 = (pf', w4)" by (meson surj_pair)
        have loop: "pipeline_loop K gate pf' ?grp (pids @ [n]) rest w4 = Some (r, w')"
          using Cons.prems(1) n64 True by (simp add: q pf p Inr s a Let_def)
        have adv: "held pf' = fst ` set_option pipefd" "fds w4 = fds w3 - held pf - snd ` set_option pipefd"
          using advance_pipe_fds [OF K a] ends by blast+
        have "fds w4 = base \<union> {fst gate, snd gate} \<union> held pf' \<and> held pf' \<inter> (base \<union> {fst gate, snd gate}) = {}"
        proof (cases pipefd)
          case None
          then show ?thesis using adv w w3 by (auto simp: pipe_ends_def)
        next
          case (Some ab)
          then show ?thesis using adv w w3 ends by (cases ab) (auto simp: pipe_ends_def)
        qed
        then show ?thesis using Cons.IH [OF loop] by blast
      qed
    qed
  qed
qed auto

lemma execute_pipeline_fds:
  assumes K: "api_fds K fds" and ex: "execute_pipeline K T mem coms ctx w = Some ((code, ctx'), w')"
  shows "fds w' = fds w"
proof -
  obtain g w1 where g: "startup_gate_create K w = (g, w1)" by (meson surj_pair)
  show ?thesis
  proof (cases g)
    case (Inl e)
    then show ?thesis using ex g gate_create_fds(2) [OF K g Inl] by (simp add: execute_pipeline_def)
  next
    case (Inr gate)
    have gate: "fst gate \<noteq> snd gate" "fst gate \<notin> fds w" "snd gate \<notin> fds w" "fds w1 = fds w \<union> {fst gate, snd gate}"
      using gate_create_fds(1) [OF K g, of "fst gate" "snd gate"] Inr by simp_all
    obtain s w2 where s: "pipeline_loop K gate (-1) 0 [] coms w1 = Some (s, w2)"
      using ex g Inr by (auto simp: execute_pipeline_def split: Option.bind_split_asm)
    note loop = pipeline_loop_fds [OF K gate(2,3) s]
    show ?thesis
    proof (cases s)
      case (Inl c)
      then show ?thesis using ex g Inr s loop gate by (simp add: execute_pipeline_def held_def)
    next
      case res: (Inr t)
      obtain pf grp pids where t: "t = (pf, grp, pids)" by (cases t)
      have w2: "fds w2 = fds w \<union> {fst gate, snd gate} \<union> held pf" "held pf \<inter> (fds w \<union> {fst gate, snd gate}) = {}"
        using loop res t gate by (simp_all add: held_def)
      let ?w3 = "close_fd K (fst gate) (close_some K pf w2)"
      have w3: "fds ?w3 = fds w \<union> {snd gate}" using w2 gate by (auto simp: api_fds_close [OF K] close_some_fds [OF K])
      obtain ok ctx1 where j: "add_job mem grp (hd (argv (hd coms))) pids ctx = (ok, ctx1)" by (meson surj_pair)
      show ?thesis
      proof (cases ok)
        case True
        then have "start_job K T (background (hd coms)) grp (length pids) (rollback_pipeline K grp pids) (snd gate) ctx1 ?w3 = Some ((code, ctx'), w')"
          using ex by (simp add: execute_pipeline_def g Inr s res t j Let_def)
        from start_job_fds [OF K rollback_fds(2) [OF K] this] show ?thesis using w3 gate by auto
      next
        case False
        then have "rollback_pipeline K grp pids (close_fd K (snd gate) ?w3) = Some w'"
          using ex by (auto simp: execute_pipeline_def g Inr s res t j Let_def split: Option.bind_split_asm)
        from rollback_fds(2) [OF K this] show ?thesis using w3 gate by (auto simp: api_fds_close [OF K])
      qed
    qed
  qed
qed


section \<open>Children\<close>

text \<open>The processes of a job that have not ended, as far as the table knows.\<close>

definition live_pids :: "job \<Rightarrow> int set" where
  "live_pids j = pid ` {p \<in> set (processes j). pstatus p \<noteq> PROCESS_DONE}"

definition live_jobs :: "job list \<Rightarrow> int set" where
  "live_jobs js = (\<Union>j \<in> set js. live_pids j)"

text \<open>Every child of the shell is a process of a job in the table that has not ended: none is forgotten.\<close>

definition accounted :: "('w \<Rightarrow> int set) \<Rightarrow> job_manager \<Rightarrow> 'w \<Rightarrow> bool" where
  "accounted kids m w \<longleftrightarrow> kids w \<subseteq> live_jobs (jobs_head m)"

lemma live_jobs_Cons [simp]: "live_jobs [] = {}" "live_jobs (j # js) = live_pids j \<union> live_jobs js"
  by (simp_all add: live_jobs_def)

lemma live_pids_subset: "live_pids j \<subseteq> set (map pid (processes j))"
  by (auto simp: live_pids_def)

lemma live_pids_same: "processes j' = processes j \<Longrightarrow> live_pids j' = live_pids j"
  by (simp add: live_pids_def)

lemma live_pids_done: "in_sync j \<Longrightarrow> processes j \<noteq> [] \<Longrightarrow> status j = JOB_DONE \<Longrightarrow> live_pids j = {}"
  using in_sync_status(2) [of j] by (auto simp: live_pids_def)

lemma live_upd_process:
  assumes "\<And>p. pid (f p) = pid p" "x \<noteq> n \<or> (\<forall>p. pstatus p \<noteq> PROCESS_DONE \<longrightarrow> pstatus (f p) \<noteq> PROCESS_DONE)"
  shows "x \<in> pid ` {p \<in> set ps. pstatus p \<noteq> PROCESS_DONE} \<Longrightarrow> x \<in> pid ` {p \<in> set (upd_process n f ps). pstatus p \<noteq> PROCESS_DONE}"
proof (induction ps)
  case (Cons p ps)
  show ?case
  proof (cases "pid p = x \<and> pstatus p \<noteq> PROCESS_DONE")
    case True
    then show ?thesis using assms by (cases "pid p = n") (force simp: image_iff)+
  next
    case False
    then have "x \<in> pid ` {p \<in> set ps. pstatus p \<noteq> PROCESS_DONE}" using Cons.prems by auto
    then show ?thesis using Cons.IH by (cases "pid p = n") (auto simp: image_iff)
  qed
qed simp

lemma apply_wait_status_live:
  "\<not> terminated s \<Longrightarrow> pstatus p \<noteq> PROCESS_DONE \<Longrightarrow> pstatus (process_apply_wait_status p s) \<noteq> PROCESS_DONE"
  by (auto simp: process_apply_wait_status_def terminated_def Let_def)

lemma live_pids_apply: "live_pids j - (if terminated s then {n} else {}) \<subseteq> live_pids (apply_to_job n s j)"
proof
  fix x
  assume x: "x \<in> live_pids j - (if terminated s then {n} else {})"
  then have "x \<in> pid ` {p \<in> set (upd_process n (\<lambda>p. process_apply_wait_status p s) (processes j)). pstatus p \<noteq> PROCESS_DONE}"
    by (intro live_upd_process) (auto simp: live_pids_def apply_wait_status_live split: if_split_asm)
  then show "x \<in> live_pids (apply_to_job n s j)" by (simp add: live_pids_def apply_to_job_def)
qed

lemma wait_foreground_kids:
  assumes K: "api_kids K kids" and wt: "job_wait_foreground K j w = Some ((r, j'), w')" and w: "kids w \<subseteq> live_pids j \<union> X"
  shows "kids w' \<subseteq> live_pids j' \<union> X"
proof -
  note group = api_kids_waitpid_group [OF K]
  have mine: "kids v' \<subseteq> live_pids (apply_to_job n s i) \<union> X"
    if "kids v \<subseteq> live_pids i \<union> X" "waitpid_group K (pgid i) WUNTRACED v = (Inr (n, s), v')" for i v n s v'
    using that(1) group(1) [OF that(2)] live_pids_apply [of i s n] by (auto split: if_split_asm)
  have other: "kids v' \<subseteq> live_pids i \<union> X"
    if "kids v \<subseteq> live_pids i \<union> X" "waitpid_group K (pgid i) WUNTRACED v = (Inr (n, s), v')" for i v n s v'
    using that(1) group(1) [OF that(2)] by (auto split: if_split_asm)
  show ?thesis
    using wait_foreground_world [OF wt, where R = "\<lambda>j v. kids v \<subseteq> live_pids j \<union> X", OF w _ other mine] group(2) by simp
qed

lemma reap_pid_kids:
  assumes K: "api_kids K kids" and "0 < n" "reap_pid K n w = Some w'"
  shows "kids w' = kids w - {n}"
proof -
  obtain r where r: "retry (waitpid_one K n 0) w = Some (r, w')"
    using assms(2,3) by (auto simp: reap_pid_def split: Option.bind_split_asm)
  obtain w1 where "kids w1 = kids w" "waitpid_one K n 0 w1 = (r, w')"
    using retry_reaches [OF r, where P = "\<lambda>v. kids v = kids w"] api_kids_waitpid(4) [OF K] by metis
  then show ?thesis using api_kids_waitpid_block [OF K _ retry_not_EINTR [OF r]] by metis
qed

lemma reap_each_kids:
  assumes K: "api_kids K kids"
  shows "list_all (\<lambda>n. 0 < n) ns \<Longrightarrow> reap_each K ns w = Some w' \<Longrightarrow> kids w' = kids w - set ns"
proof (induction ns arbitrary: w)
  case (Cons n ns)
  then obtain w1 where "reap_pid K n w = Some w1" "reap_each K ns w1 = Some w'" by (auto split: Option.bind_split_asm)
  then show ?case using Cons reap_pid_kids [OF K, of n w w1] by auto
qed simp

lemma rollback_kids:
  assumes K: "api_kids K kids"
  shows "0 < n \<Longrightarrow> rollback_single K n w = Some w' \<Longrightarrow> kids w' = kids w - {n}"
    and "list_all (\<lambda>n. 0 < n) ns \<Longrightarrow> rollback_pipeline K g ns w = Some w' \<Longrightarrow> kids w' = kids w - set ns"
proof -
  note rolls = rollback_reaps [OF api_kids_laws(1) [OF K]]
  show "0 < n \<Longrightarrow> rollback_single K n w = Some w' \<Longrightarrow> kids w' = kids w - {n}"
    using rolls(1) reap_pid_kids [OF K] by metis
  show "list_all (\<lambda>n. 0 < n) ns \<Longrightarrow> rollback_pipeline K g ns w = Some w' \<Longrightarrow> kids w' = kids w - set ns"
    using rolls(2) reap_each_kids [OF K] by metis
qed

lemma drop_job_head: "jobs_head (jobs ctx) = j # js \<Longrightarrow> pgid j = grp \<Longrightarrow> 0 < grp \<Longrightarrow> jobs_head (jobs (drop_job grp ctx)) = js"
  by (simp add: drop_job_def job_remove_def)

lemma put_head_sel [simp]: "jobs_head (jobs (put_head j ctx)) = j # tl (jobs_head (jobs ctx))" "head_job (put_head j ctx) = j"
  by (simp_all add: put_head_def head_job_def)

text \<open>How a foreground job is finished, once it does not run any more.\<close>

lemma finish_foreground_outcome:
  assumes fin: "finish_foreground_job K T ctx active w = Some ((code, ctx'), w')"
    and head: "jobs_head (jobs ctx) = j # js" "0 < pgid j"
  obtains j' where "same_job j j'" "status j' = status j" "processes j' = processes j" "in_sync j \<Longrightarrow> in_sync j'"
    "active \<and> code = MiniShell_ERR_UNKNOWN \<and> ctx' = (put_head j' ctx)\<lparr>running := False\<rparr>
     \<or> status j = JOB_STOPPED \<and> code = MiniShell_OK \<and> ctx' = put_head j' ctx
     \<or> status j = JOB_RUNNING \<and> code = MiniShell_ERR_UNKNOWN \<and> ctx' = put_head j' ctx
     \<or> status j = JOB_DONE \<and> code = (if job_exit_status j < 0 then MiniShell_ERR_UNKNOWN else job_exit_status j)
       \<and> ctx' = ctx\<lparr>jobs := (jobs ctx)\<lparr>jobs_head := js\<rparr>\<rparr>"
proof -
  obtain j' w1 where j: "(if active \<and> status (head_job ctx) = JOB_STOPPED then save_modes K T (head_job ctx) w
      else Some (head_job ctx, w)) = Some (j', w1)"
    using fin by (auto simp: finish_foreground_job_def split: Option.bind_split_asm)
  have hd: "head_job ctx = j" using head by (simp add: head_job_def)
  have j': "same_job j j' \<and> status j' = status j \<and> processes j' = processes j \<and> (in_sync j \<longrightarrow> in_sync j')"
    using j save_modes_job [of K T j w j' w1] unfolding hd by (auto split: if_split_asm)
  obtain r w2 where r: "(if active then terminal_restore K T w1 else Some (Inr (), w1)) = Some (r, w2)"
    using fin j by (auto simp: finish_foreground_job_def Let_def split: Option.bind_split_asm)
  have ex: "job_exit_status j' = job_exit_status j" using j' by (simp add: job_exit_status_def job_last_process_def)
  have drop: "drop_job (pgid j') (put_head j' ctx) = ctx\<lparr>jobs := (jobs ctx)\<lparr>jobs_head := js\<rparr>\<rparr>"
    using head j' by (simp add: drop_job_def put_head_def job_remove_def same_job_def)
  have act: "r \<noteq> Inr () \<Longrightarrow> active" using r by (auto split: if_split_asm)
  show thesis
    using that [of j'] j' fin act unfolding finish_foreground_job_def Let_def j Option.bind.simps prod.case r
    by (cases "status j") (auto simp: ex drop split: if_split_asm)
qed


section \<open>A new job\<close>

definition new_process :: "int \<Rightarrow> process" where
  "new_process n = \<lparr>pid = n, pstatus = PROCESS_RUNNING, wait_status = 0, wait_status_valid = False\<rparr>"

lemma pid_new_process [simp]: "pid (new_process n) = n"
  by (simp add: new_process_def)

definition new_job :: "job_manager \<Rightarrow> int \<Rightarrow> string \<Rightarrow> int list \<Rightarrow> job" where
  "new_job m grp name pids = job_init\<lparr>id_of := nextid m, pgid := grp, cmdline := take 127 name, processes := map new_process pids\<rparr>"

lemma new_job_sel [simp]:
  "pgid (new_job m grp name pids) = grp" "map pid (processes (new_job m grp name pids)) = pids"
  "status (new_job m grp name pids) = JOB_RUNNING" "processes (new_job m grp name pids) = map new_process pids"
  by (simp_all add: new_job_def job_init_def new_process_def comp_def)

lemma live_pids_new_job [simp]: "live_pids (new_job m grp name pids) = set pids"
proof -
  have "{p \<in> set (map new_process pids). pstatus p \<noteq> PROCESS_DONE} = new_process ` set pids" by (auto simp: new_process_def)
  then show ?thesis by (simp add: live_pids_def image_image new_process_def)
qed

lemma new_job_in_sync: "in_sync (new_job m grp name pids)"
  by (cases pids) (auto simp: in_sync_def status_of_def new_process_def)

lemma add_processes_spec:
  "add_processes mem i j ns = Some j' \<Longrightarrow> j' = j\<lparr>processes := processes j @ map new_process ns\<rparr> \<and> list_all (\<lambda>n. 0 < n) ns"
proof (induction ns arbitrary: i j)
  case (Cons n ns)
  then have n: "0 < n" and "add_processes mem (Suc i) (j\<lparr>processes := processes j @ [new_process n]\<rparr>) ns = Some j'"
    by (auto simp: process_add_def new_process_def split: if_split_asm)
  from Cons.IH [OF this(2)] n show ?case by simp
qed simp

definition push_job :: "job \<Rightarrow> 'w ShellContext \<Rightarrow> 'w ShellContext" where
  "push_job j ctx = ctx\<lparr>jobs := (jobs ctx)\<lparr>jobs_head := j # jobs_head (jobs ctx), nextid := nextid (jobs ctx) + 1\<rparr>\<rparr>"

text \<open>All that may differ is the next job number.\<close>

definition same_table :: "'w ShellContext \<Rightarrow> 'w ShellContext \<Rightarrow> bool" where
  "same_table ctx ctx' \<longleftrightarrow> (\<exists>n. ctx' = ctx\<lparr>jobs := (jobs ctx)\<lparr>nextid := n\<rparr>\<rparr>)"

lemma same_table_refl [simp]: "same_table ctx ctx"
  unfolding same_table_def by (rule exI [of _ "nextid (jobs ctx)"]) simp

lemma same_table_heads: "same_table ctx ctx' \<Longrightarrow> jobs_head (jobs ctx') = jobs_head (jobs ctx)"
  by (auto simp: same_table_def)

lemma push_job_sel [simp]: "jobs_head (jobs (push_job j ctx)) = j # jobs_head (jobs ctx)" "head_job (push_job j ctx) = j"
  "put_head i (push_job j ctx) = push_job i ctx"
  by (simp_all add: push_job_def head_job_def put_head_def)

lemma drop_pushed: "pgid j = grp \<Longrightarrow> 0 < grp \<Longrightarrow> same_table ctx (drop_job grp (push_job j ctx))"
  unfolding same_table_def by (rule exI [of _ "nextid (jobs ctx) + 1"]) (simp add: drop_job_def push_job_def job_remove_def)

lemma add_job_spec:
  assumes "add_job mem grp name pids ctx = (ok, ctx1)"
  shows "ok \<Longrightarrow> ctx1 = push_job (new_job (jobs ctx) grp name pids) ctx \<and> 0 < grp \<and> list_all (\<lambda>n. 0 < n) pids"
    and "\<not> ok \<Longrightarrow> same_table ctx ctx1"
proof -
  show "ok \<Longrightarrow> ctx1 = push_job (new_job (jobs ctx) grp name pids) ctx \<and> 0 < grp \<and> list_all (\<lambda>n. 0 < n) pids"
    using assms by (auto simp: add_job_def job_add_def Let_def head_job_def put_head_def push_job_def new_job_def job_init_def
        dest!: add_processes_spec split: option.split_asm if_split_asm)
  show "\<not> ok \<Longrightarrow> same_table ctx ctx1"
  proof -
    assume "\<not> ok"
    then consider "ctx1 = ctx" | j where "ctx1 = drop_job grp (push_job j ctx)" "pgid j = grp" "0 < grp"
      using assms by (auto simp: add_job_def job_add_def Let_def push_job_def split: option.split_asm if_split_asm)
    then show ?thesis by cases (simp_all add: drop_pushed)
  qed
qed

section \<open>Outcomes\<close>

text \<open>What can come of a job with the processes \<open>pids\<close> in the group \<open>grp\<close>: it was rolled back; it runs in the
  background; it was stopped; it has ended, and the result is the exit status of its last process; or the
  terminal could not be taken back, and the shell ends.\<close>

definition job_outcome :: "terminal \<Rightarrow> bool \<Rightarrow> job \<Rightarrow> 'w ShellContext \<Rightarrow> int \<Rightarrow> 'w ShellContext \<Rightarrow> bool" where
  "job_outcome T bg j ctx code ctx' \<longleftrightarrow>
     code < 0 \<and> same_table ctx ctx'
   \<or> bg \<and> code = MiniShell_OK \<and> ctx' = push_job j ctx
   \<or> \<not> bg \<and> (\<exists>j'. same_job j j' \<and> in_sync j' \<and>
        (status j' = JOB_STOPPED \<and> code = MiniShell_OK \<and> ctx' = push_job j' ctx
         \<or> status j' = JOB_DONE \<and> same_table ctx ctx' \<and> code = job_exit_status j' \<and> 0 \<le> code \<and> code \<le> 255
         \<or> terminal_is_initialized T \<and> code = MiniShell_ERR_UNKNOWN \<and> ctx' = (push_job j' ctx)\<lparr>running := False\<rparr>))"

lemma start_job_outcome:
  assumes start: "start_job K T bg grp count rollback gw (push_job j ctx) w = Some ((code, ctx'), w')"
    and j: "pgid j = grp" "0 < grp" "in_sync j"
  shows "job_outcome T bg j ctx code ctx'"
proof -
  have "side_calls_keep K (\<lambda>_. ())" by (simp add: side_calls_keep_def keeps_def)
  then show ?thesis using start
  proof (cases rule: start_job_cases)
    case (rolled_back v u)
    then show ?thesis using drop_pushed [OF j(1,2), of ctx] unfolding job_outcome_def by simp
  next
    case (in_background v)
    then show ?thesis by (simp add: job_outcome_def)
  next
    case (wait_failed v r i v' u)
    then have "pgid i = grp" using job_wait_foreground_same [OF wait_failed(3)] j by (simp add: same_job_def)
    from drop_pushed [OF this j(2), of ctx] show ?thesis using wait_failed unfolding job_outcome_def by simp
  next
    case (waited v r i v')
    have i: "same_job j i" "in_sync i" "r = 0 \<Longrightarrow> status i \<noteq> JOB_RUNNING"
      using job_wait_foreground_same [OF waited(3)] j by simp_all
    have "r = 0 \<or> r = -1" using wait_foreground_world [OF waited(3), where R = "\<lambda>_ _. True"] by simp
    then have st: "status i \<noteq> JOB_RUNNING" using i(3) waited(4) by auto
    have grp: "0 < pgid i" using i(1) j by (simp add: same_job_def)
    have head: "jobs_head (jobs (push_job i ctx)) = i # jobs_head (jobs ctx)" by simp
    from waited(5) have fin: "finish_foreground_job K T (push_job i ctx) (terminal_is_initialized T) v' = Some ((code, ctx'), w')" by simp
    have table: "same_table ctx ((push_job i ctx)\<lparr>jobs := (jobs (push_job i ctx))\<lparr>jobs_head := jobs_head (jobs ctx)\<rparr>\<rparr>)"
      unfolding same_table_def by (rule exI [of _ "nextid (jobs ctx) + 1"]) (simp add: push_job_def)
    from fin head grp show ?thesis
    proof (cases rule: finish_foreground_outcome)
      case (1 i')
      have ex: "job_exit_status i' = job_exit_status i" using 1(3) by (simp add: job_exit_status_def job_last_process_def)
      have i': "same_job j i'" "in_sync i'" using i 1(1,4) same_job_trans by blast+
      consider "terminal_is_initialized T" "code = -1" "ctx' = (push_job i' ctx)\<lparr>running := False\<rparr>"
        | "status i' = JOB_STOPPED" "code = 0" "ctx' = push_job i' ctx"
        | "status i' = JOB_DONE" "code = (if job_exit_status i' < 0 then -1 else job_exit_status i')" "same_table ctx ctx'"
        using 1(2,5) st ex table by auto
      then show ?thesis
      proof cases
        case 3
        then show ?thesis using i' waited(1) job_exit_status_cases [of i'] unfolding job_outcome_def by (auto split: if_split_asm)
      qed (use i' waited(1) in \<open>auto simp: job_outcome_def\<close>)
    qed
  qed
qed


section \<open>No child is forgotten\<close>

lemma start_job_kids:
  assumes K: "api_kids K kids" and rb: "\<And>v v'. rollback v = Some v' \<Longrightarrow> kids v' = kids v - set pids"
    and start: "start_job K T bg grp count rollback gw (push_job j ctx) w = Some ((code, ctx'), w')"
    and j: "pgid j = grp" "0 < grp" "in_sync j" "map pid (processes j) = pids" "pids \<noteq> []" "live_pids j = set pids"
    and w: "kids w \<subseteq> set pids \<union> live_jobs (jobs_head (jobs ctx))"
  shows "accounted kids (jobs ctx') w'"
proof -
  let ?X = "live_jobs (jobs_head (jobs ctx))"
  have shut: "kids (close_fd K fd v) = kids v" for fd v by (rule keeps_snd [OF api_kids_laws(3) [OF K]])
  have dropped: "jobs_head (jobs (drop_job grp (push_job i ctx))) = jobs_head (jobs ctx)" if "pgid i = grp" for i
    using same_table_heads [OF drop_pushed [OF that j(2)]] .
  have waits: "same_job j i \<and> in_sync i \<and> kids v' \<subseteq> live_pids i \<union> ?X"
    if "job_wait_foreground K (head_job (push_job j ctx)) (close_fd K gw v) = Some ((r, i), v')" "kids v = kids w" for v r i v'
    using job_wait_foreground_same [OF that(1)] wait_foreground_kids [OF K that(1), of ?X] w j that(2) by (simp add: shut)
  show ?thesis using api_kids_laws(1) [OF K] start
  proof (cases rule: start_job_cases)
    case (rolled_back v u)
    then show ?thesis using rb [OF rolled_back(2)] w dropped [OF j(1)] by (auto simp: accounted_def shut)
  next
    case (in_background v)
    then show ?thesis using w j(6) by (simp add: accounted_def shut)
  next
    case (wait_failed v r i v' u)
    have i: "pgid i = grp" "map pid (processes i) = pids" "kids v' \<subseteq> live_pids i \<union> ?X"
      using waits [OF wait_failed(3,2)] j by (simp_all add: same_job_def)
    have "kids u \<subseteq> ?X" using rb [OF wait_failed(5)] i live_pids_subset [of i] by auto
    then show ?thesis using wait_failed dropped [OF i(1)] by (simp add: accounted_def)
  next
    case (waited v r i v')
    have i: "same_job j i" "in_sync i" "kids v' \<subseteq> live_pids i \<union> ?X" using waits [OF waited(3,2)] by simp_all
    have ne: "processes i \<noteq> []" "0 < pgid i" using i(1) j by (auto simp: same_job_def)
    have w': "kids w' \<subseteq> live_pids i \<union> ?X" using finish_foreground_keeps [OF api_kids_laws(1) [OF K] waited(5)] i(3) by simp
    from waited(5) have fin: "finish_foreground_job K T (push_job i ctx) (terminal_is_initialized T) v' = Some ((code, ctx'), w')" by simp
    have head: "jobs_head (jobs (push_job i ctx)) = i # jobs_head (jobs ctx)" by simp
    from fin head ne(2) show ?thesis
    proof (cases rule: finish_foreground_outcome)
      case (1 i')
      have "live_pids i' = live_pids i" by (rule live_pids_same [OF 1(3)])
      then have "jobs_head (jobs ctx') = i' # jobs_head (jobs ctx) \<Longrightarrow> ?thesis" using w' by (simp add: accounted_def)
      moreover have "status i = JOB_DONE \<Longrightarrow> jobs_head (jobs ctx') = jobs_head (jobs ctx) \<Longrightarrow> ?thesis"
        using w' live_pids_done [OF i(2) ne(1)] by (simp add: accounted_def)
      ultimately show ?thesis using 1(5) by auto
    qed
  qed
qed

lemma gate_create_kids:
  assumes K: "api_kids K kids" and "startup_gate_create K w = (r, w')"
  shows "kids w' = kids w"
proof -
  have shut: "kids (close_fd K fd v) = kids v" for fd v by (rule keeps_snd [OF api_kids_laws(3) [OF K]])
  show ?thesis
    using assms(2) by (auto simp: startup_gate_create_def shut dest!: keepsD [OF api_kids_laws(2) [OF K]]
        set_cloexec_keeps [OF api_kids_laws(1) [OF K]] split: prod.split_asm sum.split_asm)
qed

lemma execute_single_kids:
  assumes K: "api_kids K kids" and acc: "accounted kids (jobs ctx) w"
    and ex: "execute_single K T mem com ctx w = Some ((code, ctx'), w')"
  shows "accounted kids (jobs ctx') w'"
proof -
  have shut: "kids (close_fd K fd v) = kids v" for fd v by (rule keeps_snd [OF api_kids_laws(3) [OF K]])
  have unchanged: ?thesis if "same_table ctx ctx'" "kids w' \<subseteq> kids w"
    using acc that same_table_heads [OF that(1)] by (auto simp: accounted_def)
  obtain g w1 where g: "startup_gate_create K w = (g, w1)" by (meson surj_pair)
  have w1: "kids w1 = kids w" by (rule gate_create_kids [OF K g])
  show ?thesis
  proof (cases g)
    case (Inl e)
    then show ?thesis using ex g unchanged w1 by (simp add: execute_single_def)
  next
    case (Inr gate)
    obtain a b where gate: "gate = (a, b)" by (cases gate)
    obtain p w2 where p: "sys_fork K w1 = (p, w2)" by (meson surj_pair)
    show ?thesis
    proof (cases p)
      case (Inl e)
      then show ?thesis using ex unchanged w1 api_kids_laws(7) [OF K p [unfolded Inl]] by (auto simp: execute_single_def g \<open>g = Inr gate\<close> gate p shut)
    next
      case n: (Inr n)
      note fork = api_kids_laws(8) [OF K p [unfolded n]]
      obtain s w3 where s: "setpgid_parent K n n (close_fd K a w2) = Some (s, w3)"
        using ex by (auto simp: execute_single_def g Inr gate p n split: Option.bind_split_asm)
      have w3: "kids w3 = insert n (kids w)"
        using setpgid_parent_keeps [OF api_kids_laws(1) [OF K] s] fork w1 by (simp add: shut)
      obtain ok ctx1 where j: "add_job mem n (hd (argv com)) [n] ctx = (ok, ctx1)" by (meson surj_pair)
      note rb = rollback_kids(1) [OF K conjunct1 [OF fork]]
      show ?thesis
      proof (cases "s = Inr () \<and> ok")
        case True
        then have "start_job K T (background com) n 1 (rollback_single K n) b (push_job (new_job (jobs ctx) n (hd (argv com)) [n]) ctx) w3 = Some ((code, ctx'), w')"
          using ex add_job_spec(1) [OF j] by (simp add: execute_single_def g p Inr gate n s j)
        then show ?thesis
          by (rule start_job_kids [OF K _ _ _ _ _ _ _ _, where pids = "[n]", rotated])
            (use fork w3 acc rb in \<open>auto simp: new_job_in_sync accounted_def\<close>)
      next
        case False
        then have "same_table ctx ctx'" "rollback_single K n (close_fd K b w3) = Some w'"
          using ex add_job_spec(2) [OF j]
          by (auto simp: execute_single_def g p Inr gate n s j split: if_split_asm Option.bind_split_asm bool.split_asm)
        then show ?thesis using unchanged rb [of "close_fd K b w3" w'] w3 by (auto simp: shut)
      qed
    qed
  qed
qed

lemma pipeline_loop_kids:
  assumes K: "api_kids K kids"
  shows "pipeline_loop K gate pf grp pids coms w = Some (r, w') \<Longrightarrow> kids w \<subseteq> base \<union> set pids \<Longrightarrow> list_all (\<lambda>n. 0 < n) pids
    \<Longrightarrow> grp = (if pids = [] then 0 else hd pids)
    \<Longrightarrow> (case r of Inl code \<Rightarrow> code < 0 \<and> kids w' \<subseteq> base
        | Inr (_, grp', pids') \<Rightarrow> kids w' \<subseteq> base \<union> set pids' \<and> list_all (\<lambda>n. 0 < n) pids' \<and> length pids' = length pids + length coms
            \<and> grp' = (if pids' = [] then 0 else hd pids'))"
proof (induction coms arbitrary: pf grp pids w)
  case (Cons current rest)
  have shut: "kids (close_fd K fd v) = kids v" "kids (close_some K fd v) = kids v" for fd v
    using keeps_snd [OF api_kids_laws(3) [OF K]] by (simp_all add: close_some_def)
  have aborts: "kids w' \<subseteq> base" if "pipeline_abort K gate pipefd pf grp1 pids1 v = Some w'" "kids v \<subseteq> base \<union> set pids1"
      "list_all (\<lambda>n. 0 < n) pids1" for pipefd grp1 pids1 v
    using that(1,2) by (auto simp: pipeline_abort_def Let_def shut dest!: rollback_kids(2) [OF K that(3)] split: option.split_asm)
  obtain q w1 where q: "next_pipe K rest w = (q, w1)" by (meson surj_pair)
  have w1: "kids w1 = kids w"
    using q keeps_snd [OF api_kids_laws(2) [OF K], of w] by (auto simp: next_pipe_def split: if_split_asm prod.split_asm sum.split_asm)
  obtain p w2 where p: "sys_fork K w1 = (p, w2)" by (meson surj_pair)
  show ?case
  proof (cases "length pids \<ge> 64 \<or> (\<exists>e. q = Inl e) \<or> (\<exists>e. p = Inl e)")
    case True
    then obtain pipefd v code where "pipeline_abort K gate pipefd pf grp pids v = Some w'" "r = Inl code" "code < 0" "kids v = kids w"
      using Cons.prems(1) w1 api_kids_laws(7) [OF K, of w1 _ w2]
      by (cases q; cases p) (auto simp: q p split: if_split_asm Option.bind_split_asm)
    then show ?thesis using aborts Cons.prems(2,3) by auto
  next
    case False
    then obtain pipefd n where pf: "q = Inr pipefd" and n: "p = Inr n" and n64: "\<not> length pids \<ge> 64" by (cases q; cases p) auto
    note fork = api_kids_laws(8) [OF K p [unfolded n]]
    let ?grp = "if grp = 0 then n else grp"
    have pids': "list_all (\<lambda>n. 0 < n) (pids @ [n])" "?grp = hd (pids @ [n])"
      using Cons.prems(3,4) fork by (cases pids; auto)+
    obtain s w3 where s: "setpgid_parent K n ?grp w2 = Some (s, w3)"
      using Cons.prems(1) n64 by (auto simp: q pf p n Let_def split: Option.bind_split_asm)
    have w3: "kids w3 \<subseteq> base \<union> set (pids @ [n])"
      using setpgid_parent_keeps [OF api_kids_laws(1) [OF K] s] fork w1 Cons.prems(2) by auto
    show ?thesis
    proof (cases "s = Inr ()")
      case False
      then obtain code where "pipeline_abort K gate pipefd pf ?grp (pids @ [n]) w3 = Some w'" "r = Inl code" "code < 0"
        using Cons.prems(1) n64 by (auto simp: q pf p n s Let_def split: Option.bind_split_asm)
      then show ?thesis using aborts [OF _ w3 pids'(1)] by simp
    next
      case True
      obtain pf' w4 where a: "advance_pipe K pf pipefd w3 = (pf', w4)" by (meson surj_pair)
      have w4: "kids w4 = kids w3" using a by (auto simp: advance_pipe_def shut split: option.split_asm)
      have loop: "pipeline_loop K gate pf' ?grp (pids @ [n]) rest w4 = Some (r, w')"
        using Cons.prems(1) n64 True by (simp add: q pf p n s a Let_def)
      show ?thesis using Cons.IH [OF loop] w3 w4 pids' by (auto split: sum.split_asm)
    qed
  qed
next
  case Nil
  then have "r = Inr (pf, grp, pids)" "w' = w" by simp_all
  with Nil show ?case by simp
qed


lemma execute_pipeline_kids:
  assumes K: "api_kids K kids" and acc: "accounted kids (jobs ctx) w" and "coms \<noteq> []"
    and ex: "execute_pipeline K T mem coms ctx w = Some ((code, ctx'), w')"
  shows "accounted kids (jobs ctx') w'
    \<and> (code < 0 \<and> same_table ctx ctx' \<or> (\<exists>pids. length pids = length coms \<and> list_all (\<lambda>n. 0 < n) pids
        \<and> job_outcome T (background (hd coms)) (new_job (jobs ctx) (hd pids) (hd (argv (hd coms))) pids) ctx code ctx'))"
proof -
  have shut: "kids (close_fd K fd v) = kids v" "kids (close_some K fd v) = kids v" for fd v
    using keeps_snd [OF api_kids_laws(3) [OF K]] by (simp_all add: close_some_def)
  have unchanged: ?thesis if "same_table ctx ctx'" "code < 0" "kids w' \<subseteq> kids w"
    using acc that same_table_heads [OF that(1)] by (auto simp: accounted_def)
  obtain g w1 where g: "startup_gate_create K w = (g, w1)" by (meson surj_pair)
  have w1: "kids w1 = kids w" by (rule gate_create_kids [OF K g])
  show ?thesis
  proof (cases g)
    case (Inl e)
    then show ?thesis using ex g unchanged w1 by (auto simp: execute_pipeline_def)
  next
    case (Inr gate)
    obtain s w2 where s: "pipeline_loop K gate (-1) 0 [] coms w1 = Some (s, w2)"
      using ex g Inr by (auto simp: execute_pipeline_def split: Option.bind_split_asm)
    note loop = pipeline_loop_kids [OF K s, of "kids w"]
    show ?thesis
    proof (cases s)
      case (Inl c)
      then have "c < 0" "kids w2 \<subseteq> kids w" using loop w1 by simp_all
      then show ?thesis using ex unchanged by (auto simp: execute_pipeline_def g Inr s Inl)
    next
      case res: (Inr t)
      obtain pf grp pids where t: "t = (pf, grp, pids)" by (cases t)
      have pids: "kids w2 \<subseteq> kids w \<union> set pids" "list_all (\<lambda>n. 0 < n) pids" "length pids = length coms" "pids \<noteq> []" "grp = hd pids"
        using loop res t w1 \<open>coms \<noteq> []\<close> by (auto split: if_split_asm)
      let ?w3 = "close_fd K (fst gate) (close_some K pf w2)" and ?j = "new_job (jobs ctx) grp (hd (argv (hd coms))) pids"
      have w3: "kids ?w3 \<subseteq> set pids \<union> live_jobs (jobs_head (jobs ctx))" using pids(1) acc by (auto simp: shut accounted_def)
      obtain ok ctx1 where j: "add_job mem grp (hd (argv (hd coms))) pids ctx = (ok, ctx1)" by (meson surj_pair)
      note rb = rollback_kids(2) [OF K pids(2)]
      show ?thesis
      proof (cases ok)
        case True
        note spec = add_job_spec(1) [OF j True]
        have start: "start_job K T (background (hd coms)) grp (length pids) (rollback_pipeline K grp pids) (snd gate) (push_job ?j ctx) ?w3 = Some ((code, ctx'), w')"
          using ex True spec by (simp add: execute_pipeline_def g Inr s res t j Let_def)
        have "accounted kids (jobs ctx') w'"
          by (rule start_job_kids [OF K rb start _ _ new_job_in_sync _ pids(4) _ w3]) (use spec in \<open>simp_all add: comp_def\<close>)
        moreover have "job_outcome T (background (hd coms)) ?j ctx code ctx'"
          using start_job_outcome [OF start _ _ new_job_in_sync] spec by simp
        ultimately show ?thesis using pids by blast
      next
        case False
        then have "same_table ctx ctx'" "rollback_pipeline K grp pids (close_fd K (snd gate) ?w3) = Some w'" "code < 0"
          using ex add_job_spec(2) [OF j] by (auto simp: execute_pipeline_def g Inr s res t j Let_def split: Option.bind_split_asm)
        then show ?thesis using unchanged rb [of grp "close_fd K (snd gate) ?w3" w'] pids(1) by (auto simp: shut)
      qed
    qed
  qed
qed

lemma execute_single_outcome:
  assumes K: "api_kids K kids" and ex: "execute_single K T mem com ctx w = Some ((code, ctx'), w')"
  shows "code < 0 \<and> same_table ctx ctx'
    \<or> (\<exists>n. 0 < n \<and> job_outcome T (background com) (new_job (jobs ctx) n (hd (argv com)) [n]) ctx code ctx')"
proof -
  obtain g w1 where g: "startup_gate_create K w = (g, w1)" by (meson surj_pair)
  obtain p w2 where p: "sys_fork K w1 = (p, w2)" by (meson surj_pair)
  show ?thesis
  proof (cases "(\<exists>e. g = Inl e) \<or> (\<exists>e. p = Inl e)")
    case True
    then show ?thesis using ex by (cases g; cases p) (auto simp: execute_single_def g p)
  next
    case False
    then obtain a b n where gn: "g = Inr (a, b)" "p = Inr n" by (cases g; cases p) auto
    obtain s w3 where s: "setpgid_parent K n n (close_fd K a w2) = Some (s, w3)"
      using ex by (auto simp: execute_single_def g gn p split: Option.bind_split_asm)
    obtain ok ctx1 where j: "add_job mem n (hd (argv com)) [n] ctx = (ok, ctx1)" by (meson surj_pair)
    show ?thesis
    proof (cases "s = Inr () \<and> ok")
      case True
      then have "start_job K T (background com) n 1 (rollback_single K n) b (push_job (new_job (jobs ctx) n (hd (argv com)) [n]) ctx) w3 = Some ((code, ctx'), w')"
        using ex add_job_spec(1) [OF j] by (simp add: execute_single_def g gn p s j)
      from start_job_outcome [OF this _ _ new_job_in_sync] show ?thesis using add_job_spec(1) [OF j] True by auto
    next
      case False
      then have "same_table ctx ctx'" "code < 0"
        using ex add_job_spec(2) [OF j]
        by (auto simp: execute_single_def g p gn s j split: if_split_asm Option.bind_split_asm bool.split_asm)
      then show ?thesis by simp
    qed
  qed
qed

section \<open>Starting a command in the background returns\<close>

definition starts_settle :: "('w, 'x) api_scheme \<Rightarrow> bool" where
  "starts_settle K \<longleftrightarrow> (\<forall>a b w. \<exists>k. settles k (sys_setpgid K a b) w) \<and> (\<forall>fd bs w. \<exists>k. settles k (sys_write (io K) fd bs) w)
     \<and> (\<forall>n w. \<exists>k. settles k (waitpid_one K n 0) w)"

lemma starts_settle_retry:
  assumes "starts_settle K"
  shows "\<exists>r w'. retry (sys_setpgid K a b) w = Some (r, w')" "\<exists>r w'. retry (sys_write (io K) fd bs) w = Some (r, w')"
    "\<exists>r w'. retry (waitpid_one K n 0) w = Some (r, w')"
  using assms unfolding starts_settle_def by (meson retry_settles)+

lemma setpgid_parent_returns: "starts_settle K \<Longrightarrow> \<exists>r w'. setpgid_parent K n g w = Some (r, w')"
  using starts_settle_retry(1) [of K n g w] by (auto simp: setpgid_parent_def)

lemma gate_release_returns: "starts_settle K \<Longrightarrow> \<exists>ok w'. startup_gate_release K fd n w = Some (ok, w')"
proof (induction n arbitrary: w)
  case (Suc n)
  obtain r w1 where "retry (sys_write (io K) fd [0x47]) w = Some (r, w1)" using starts_settle_retry(2) [OF Suc.prems] by blast
  then show ?case using Suc.IH [of w1] Suc.prems by auto
qed auto

lemma reap_pid_returns: "starts_settle K \<Longrightarrow> \<exists>w'. reap_pid K n w = Some w'"
  using starts_settle_retry(3) [of K n w] by (auto simp: reap_pid_def)

lemma reap_each_returns: "starts_settle K \<Longrightarrow> \<exists>w'. reap_each K ns w = Some w'"
proof (induction ns arbitrary: w)
  case (Cons n ns)
  obtain w1 where "reap_pid K n w = Some w1" using reap_pid_returns [OF Cons.prems] by blast
  then show ?case using Cons.IH [of w1] Cons.prems by simp
qed simp

lemma rollback_returns:
  assumes "starts_settle K"
  shows "\<exists>w'. rollback_single K n w = Some w'" "\<exists>w'. rollback_pipeline K g ns w = Some w'" "\<exists>w'. pipeline_abort K gate pipefd pf g ns w = Some w'"
  using reap_pid_returns [OF assms] reap_each_returns [OF assms]
  by (auto simp: rollback_single_def rollback_pipeline_def pipeline_abort_def Let_def)

lemma pipeline_loop_returns: "starts_settle K \<Longrightarrow> \<exists>r w'. pipeline_loop K gate pf grp pids coms w = Some (r, w')"
proof (induction coms arbitrary: pf grp pids w)
  case (Cons current rest)
  obtain q w1 where q: "next_pipe K rest w = (q, w1)" by (meson surj_pair)
  obtain p w2 where p: "sys_fork K w1 = (p, w2)" by (meson surj_pair)
  have ab: "\<exists>w'. pipeline_abort K gate pipefd pf g ns v = Some w'" for pipefd g ns v by (rule rollback_returns(3) [OF Cons.prems])
  show ?case
  proof (cases "length pids \<ge> 64 \<or> (\<exists>e. q = Inl e) \<or> (\<exists>e. p = Inl e)")
    case True
    then show ?thesis using ab [of None grp pids] ab [of _ grp pids w2] by (cases q; cases p) (auto simp: q p, (metis bind.bind_lunit)+)
  next
    case False
    then obtain pipefd n where pf: "q = Inr pipefd" and n: "p = Inr n" and n64: "\<not> length pids \<ge> 64" by (cases q; cases p) auto
    let ?grp = "if grp = 0 then n else grp"
    obtain s w3 where s: "setpgid_parent K n ?grp w2 = Some (s, w3)" using setpgid_parent_returns [OF Cons.prems] by blast
    obtain pf' w4 where a: "advance_pipe K pf pipefd w3 = (pf', w4)" by (meson surj_pair)
    obtain w5 where "pipeline_abort K gate pipefd pf ?grp (pids @ [n]) w3 = Some w5" using ab by blast
    then show ?thesis using n64 Cons.IH [OF Cons.prems, of pf' ?grp "pids @ [n]" w4] by (simp add: q pf p n s a Let_def)
  qed
qed simp

lemma start_job_returns:
  assumes K: "starts_settle K" and rb: "\<And>v. \<exists>v'. rollback v = Some v'"
  shows "\<exists>r w'. start_job K T True grp count rollback gw ctx w = Some (r, w')"
proof -
  obtain ok w1 where ok: "startup_gate_release K gw count w = Some (ok, w1)" using gate_release_returns [OF K] by blast
  then show ?thesis using rb [of "close_fd K gw w1"] by (cases ok) (auto simp: start_job_def Let_def)
qed


section \<open>Properties\<close>

text \<open>Whatever happens while a command or a pipeline is run (any of the system calls may fail at any point,
  memory may run out, the terminal may be lost), the shell's open descriptors are the same afterwards: the
  gate and all the pipes are closed on every path.\<close>

theorem execute_command_descriptors:
  assumes "api_fds K fds" and "execute_command K T mem coms ctx w = Some ((code, ctx'), w')"
  shows "fds w' = fds w"
  using assms(2) execute_single_fds [OF assms(1)] execute_pipeline_fds [OF assms(1)]
  by (auto simp: execute_command_def split: if_split_asm)

definition demo_ctx :: "demo_world ShellContext" where
  "demo_ctx = (shell_context_zero LOG_INFO)\<lparr>running := True\<rparr>"

definition demo_terminal :: terminal where
  "demo_terminal = \<lparr>shell_pgid = -1, terminal_fd = -1, terminal_initialized = False, shell_modes_valid = False, shell_modes = termios_zero\<rparr>"

definition demo_chain :: "bool \<Rightarrow> command list" where
  "demo_chain bg = [command_init\<lparr>argv := [''ls''], background := bg\<rparr>, command_init\<lparr>argv := [''wc'', ''-l'']\<rparr>]"

definition demo_quiet :: "byte \<Rightarrow> demo_world" where
  "demo_quiet code = \<lparr>d_fds = [0, 1, 2], d_kids = [], d_next = 1, d_unread = 0, d_code = code, d_clock = 0, d_streams = []\<rparr>"

definition demo_run :: "bool \<Rightarrow> byte \<Rightarrow> ((int \<times> demo_world ShellContext) \<times> demo_world) option" where
  "demo_run bg code = execute_command demo_api demo_terminal (\<lambda>_. True) (demo_chain bg) demo_ctx (demo_quiet code)"



lemma demo_run_results:
  "map_option (\<lambda>((c, x), w). (c, length (jobs_head (jobs x)), d_fds w, d_kids w)) (demo_run False 7) = Some (7, 0, [0, 1, 2], [])"
  "map_option (\<lambda>((c, x), w). (c, map (\<lambda>j. (pgid j, map pid (processes j))) (jobs_head (jobs x)), d_fds w, d_kids w)) (demo_run True 7)
     = Some (0, [(2, [2, 3])], [0, 1, 2], [3, 2])"
  by code_simp+

lemma demo_run_foreground: "\<exists>ctx' w'. demo_run False 7 = Some ((7, ctx'), w')"
  using demo_run_results(1) by (auto simp: map_option_case split: option.split_asm)

lemma demo_run_background: "\<exists>ctx' w' j. demo_run True 7 = Some ((0, ctx'), w') \<and> jobs_head (jobs ctx') = [j] \<and> d_kids w' = [3, 2]"
  using demo_run_results(2) by (auto simp: map_option_case split: option.split_asm)

theorem execute_command_descriptors_witness:
  "\<exists>ctx' w'. demo_run False 7 = Some ((7, ctx'), w') \<and> set (d_fds w') = {0, 1, 2}"
proof -
  obtain ctx' w' where r: "demo_run False 7 = Some ((7, ctx'), w')" using demo_run_foreground by blast
  from execute_command_descriptors [OF demo_api_fds r [unfolded demo_run_def]] r show ?thesis by (simp add: demo_quiet_def)
qed

text \<open>C2. No child is ever forgotten: if every child of the shell is a process of a job in the table that has not
  ended, then this is so again after any command or pipeline was run, whatever failed in between: a child
  that did not become part of a job has been killed and reaped, and a job leaves the table only when all
  its processes are gone.\<close>

theorem execute_command_children:
  assumes "api_kids K kids" and "accounted kids (jobs ctx) w"
    and "execute_command K T mem coms ctx w = Some ((code, ctx'), w')"
  shows "accounted kids (jobs ctx') w'"
  using assms(2,3) execute_single_kids [OF assms(1,2)] execute_pipeline_kids [OF assms(1,2)]
  by (auto simp: execute_command_def split: if_split_asm)

theorem execute_command_children_witness:
  "\<exists>ctx' w'. demo_run True 7 = Some ((0, ctx'), w') \<and> set (d_kids w') = {2, 3} \<and> accounted demo_kids (jobs ctx') w'"
proof -
  obtain ctx' w' j where r: "demo_run True 7 = Some ((0, ctx'), w')" "d_kids w' = [3, 2]" using demo_run_background by blast
  have "accounted demo_kids (jobs demo_ctx) (demo_quiet 7)" by (simp add: accounted_def demo_quiet_def)
  from execute_command_children [OF demo_api_kids this r(1) [unfolded demo_run_def]] r show ?thesis by auto
qed


lemma demo_room: "\<not> job_count_active (jobs demo_ctx) \<ge> max_job (shell_config demo_ctx)"
  by code_simp


lemma execute_single_returns:
  assumes K: "starts_settle K" and bg: "background (hd coms)"
  shows "\<exists>x. execute_single K T mem (hd coms) ctx w = Some x"
proof -
  obtain g w1 where g: "startup_gate_create K w = (g, w1)" by (meson surj_pair)
  obtain p w2 where p: "sys_fork K w1 = (p, w2)" by (meson surj_pair)
  show ?thesis
  proof (cases "(\<exists>e. g = Inl e) \<or> (\<exists>e. p = Inl e)")
    case True
    then show ?thesis by (cases g; cases p) (auto simp: execute_single_def g p)
  next
    case False
    then obtain a b n where gn: "g = Inr (a, b)" "p = Inr n" by (cases g; cases p) auto
    obtain s w3 where s: "setpgid_parent K n n (close_fd K a w2) = Some (s, w3)" using setpgid_parent_returns [OF K] by blast
    obtain ok ctx1 where j: "add_job mem n (hd (argv (hd coms))) [n] ctx = (ok, ctx1)" by (meson surj_pair)
    obtain w4 where "rollback_single K n (close_fd K b w3) = Some w4" using rollback_returns(1) [OF K] by blast
    then show ?thesis
      using start_job_returns [OF K, where rollback = "rollback_single K n", OF rollback_returns(1) [OF K], of T n 1 b ctx1 w3] bg by (cases ok) (auto simp: execute_single_def g gn p s j)
  qed
qed

lemma execute_pipeline_returns:
  assumes K: "starts_settle K" and bg: "background (hd coms)"
  shows "\<exists>x. execute_pipeline K T mem coms ctx w = Some x"
proof -
  obtain g w1 where g: "startup_gate_create K w = (g, w1)" by (meson surj_pair)
  show ?thesis
  proof (cases g)
    case (Inl e)
    then show ?thesis by (simp add: execute_pipeline_def g)
  next
    case (Inr gate)
    obtain s w2 where s: "pipeline_loop K gate (-1) 0 [] coms w1 = Some (s, w2)" using pipeline_loop_returns [OF K] by blast
    show ?thesis
    proof (cases s)
      case (Inr t)
      obtain pf grp pids where t: "t = (pf, grp, pids)" by (cases t)
      let ?w3 = "close_fd K (fst gate) (close_some K pf w2)"
      obtain ok ctx1 where j: "add_job mem grp (hd (argv (hd coms))) pids ctx = (ok, ctx1)" by (meson surj_pair)
      obtain w4 where "rollback_pipeline K grp pids (close_fd K (snd gate) ?w3) = Some w4" using rollback_returns(2) [OF K] by blast
      then show ?thesis
        using start_job_returns [OF K, where rollback = "rollback_pipeline K grp pids", OF rollback_returns(2) [OF K],
          of T grp "length pids" "snd gate" ctx1 ?w3] bg
        by (cases ok) (auto simp: execute_pipeline_def g \<open>g = Inr gate\<close> s Inr t j Let_def)
    qed (simp add: execute_pipeline_def g \<open>g = Inr gate\<close> s)
  qed
qed

text \<open>C12. Starting a command or a pipeline in the background always returns to the prompt, also on every failure
  path with its rollback, provided no single system call is interrupted for ever.\<close>

theorem execute_background_returns:
  assumes K: "starts_settle K" and bg: "background (hd coms)"
  shows "\<exists>code ctx' w'. execute_command K T mem coms ctx w = Some ((code, ctx'), w')"
  using execute_single_returns [OF assms, of T mem ctx w] execute_pipeline_returns [OF assms, of T mem ctx w]
  by (auto simp: execute_command_def)

lemma demo_starts_settle: "starts_settle demo_api"
proof -
  have "settles 0 (sys_setpgid demo_api a b) w" "settles 0 (sys_write (io demo_api) fd bs) w" "settles 0 (waitpid_one demo_api n 0) w" for a b fd bs n w
    by (simp_all add: demo_api_def demo_io_def)
  then show ?thesis unfolding starts_settle_def by blast
qed

theorem execute_background_returns_witness: "\<exists>code ctx' w'. demo_run True 7 = Some ((code, ctx'), w')"
proof -
  have "background (hd (demo_chain True))" by (simp add: demo_chain_def)
  from execute_background_returns [OF demo_starts_settle this] show ?thesis unfolding demo_run_def by blast
qed

end
