(* ===== verification/Cmd_Device.thy ===== *)
theory Cmd_Device
  imports Shell_Context Command Uart_Protocol
begin

text \<open>
  The shell command \<^verbatim>\<open>device\<close>, \<^verbatim>\<open>src/cmd_device.c\<close>.  A handler takes the command and the shell's state and
  gives the result code, the new state and the new world; \<open>None\<close> when it does not return.  A device is
  its slot in the table.  Lines on standard error are left out.
\<close>

type_synonym 'w handler = "command \<Rightarrow> 'w ShellContext \<Rightarrow> 'w \<Rightarrow> ((int \<times> 'w ShellContext) \<times> 'w) option"

abbreviation (input) DEVICE_COMMAND_BUFFER_SIZE :: nat where "DEVICE_COMMAND_BUFFER_SIZE \<equiv> 256"
abbreviation (input) DEVICE_COMMAND_TIMEOUT_MS :: int where "DEVICE_COMMAND_TIMEOUT_MS \<equiv> 1000"

section \<open>Formats\<close>

text \<open>\<^verbatim>\<open>%-ns\<close> and \<^verbatim>\<open>%02x\<close>.\<close>

definition pad_right :: "nat \<Rightarrow> string \<Rightarrow> string" where
  "pad_right n s = s @ replicate (n - length s) CHR '' ''"

definition hex_digit :: "nat \<Rightarrow> char" where
  "hex_digit n = (if n < 10 then digit n else char_of (87 + n))"

fun hex :: "nat \<Rightarrow> string" where
  "hex n = (if n < 16 then [hex_digit n] else hex (n div 16) @ [hex_digit (n mod 16)])"

declare hex.simps [simp del]

definition hex2 :: "nat \<Rightarrow> string" where
  "hex2 n = (if n < 16 then CHR ''0'' # hex n else hex n)"

section \<open>Helpers\<close>

definition device_usage_text :: string where
  "device_usage_text =
     ''usage:'' @ [NL] @
     ''  device list'' @ [NL] @
     ''  device info|open|close <name>'' @ [NL] @
     ''  device read <name> [count]'' @ [NL] @
     ''  device write <name> <byte ...>'' @ [NL] @
     ''  device ping|status <uart>'' @ [NL] @
     ''  device heartbeat <uart> <number>'' @ [NL] @
     ''  device led <uart|led> on|off'' @ [NL] @
     ''  device led <led> trigger <trigger>'' @ [NL] @
     ''  device oled <oled> clear|refresh|on|off'' @ [NL] @
     ''  device oled <oled> text <x> <y> <text ...>'' @ [NL] @
     ''  device reload'' @ [NL]"

definition device_usage :: "('w, 'x) api_scheme \<Rightarrow> 'w ShellContext \<Rightarrow> 'w \<Rightarrow> ((int \<times> 'w ShellContext) \<times> 'w) option" where
  "device_usage K ctx w = Some ((MiniShell_ERR_PARSE, ctx), stdout K device_usage_text w)"

definition device_command_error :: "'w ShellContext \<Rightarrow> 'w \<Rightarrow> ((int \<times> 'w ShellContext) \<times> 'w) option" where
  "device_command_error ctx w = Some ((MiniShell_ERR_UNKNOWN, ctx), w)"

definition print_ok :: "('w, 'x) api_scheme \<Rightarrow> string \<Rightarrow> 'w ShellContext \<Rightarrow> 'w \<Rightarrow> ((int \<times> 'w ShellContext) \<times> 'w) option" where
  "print_ok K line ctx w = Some ((MiniShell_OK, ctx), stdout K line w)"

definition device_number :: "string \<Rightarrow> nat \<Rightarrow> nat \<Rightarrow> nat option" where
  "device_number s maximum base =
     (if s = [] \<or> hd s = CHR ''-'' \<or> hd s = CHR ''+'' then None
      else case strtoul base s of (value, rest, erange) \<Rightarrow>
        if erange \<or> rest = s \<or> rest \<noteq> [] \<or> value > maximum then None else Some value)"

text \<open>The device behind the pointer.\<close>

definition device_at :: "nat \<Rightarrow> 'w ShellContext \<Rightarrow> (backend_context, 'w) Device" where
  "device_at i ctx = devices (device_table ctx) ! i"

definition put_device :: "nat \<Rightarrow> (backend_context, 'w) Device \<Rightarrow> 'w ShellContext \<Rightarrow> 'w ShellContext" where
  "put_device i d ctx = ctx\<lparr>device_table := (device_table ctx)\<lparr>devices := (devices (device_table ctx))[i := d]\<rparr>\<rparr>"

abbreviation "device_name d \<equiv> name_of (config d)"

section \<open>The subcommands\<close>

definition device_list_line :: "(backend_context, 'w) Device \<Rightarrow> string" where
  "device_list_line d = pad_right 16 (device_name d) @ '' '' @ pad_right 6 (device_type_string (type_of (config d))) @ '' ''
     @ device_state_string (dstate d) @ [NL]"

definition device_command_list :: "('w, 'x) api_scheme \<Rightarrow> 'w ShellContext \<Rightarrow> 'w \<Rightarrow> ((int \<times> 'w ShellContext) \<times> 'w) option" where
  "device_command_list K ctx w =
     (if devices (device_table ctx) = [] then print_ok K (''no devices configured'' @ [NL]) ctx w
      else print_ok K (''Name             Type   State'' @ [NL] @ concat (map device_list_line (devices (device_table ctx)))) ctx w)"

definition device_info_text :: "('w, 'x) env_scheme \<Rightarrow> (backend_context, 'w) Device \<Rightarrow> string" where
  "device_info_text K d =
     (let cfg = config d; line = (\<lambda>label value. label @ value @ [NL]) in
      line ''Name           : '' (name_of cfg) @
      line ''Type           : '' (device_type_string (type_of cfg)) @
      line ''State          : '' (device_state_string (dstate d)) @
      line ''Opened         : '' (dec_int (if opened d then 1 else 0)) @
      line ''Enabled        : '' (dec_int (enabled cfg)) @
      line ''Last Error     : '' (if last_errno d \<noteq> 0 then strerror K (last_errno d) else ''none'') @
      (if type_of cfg = DEVICE_LED then line ''LED Name       : '' (led_name cfg) else line ''Path           : '' (path cfg)) @
      (case type_of cfg of
         DEVICE_UART \<Rightarrow> line ''Baudrate       : '' (dec_int (baudrate cfg))
       | DEVICE_I2C \<Rightarrow> line ''Address        : 0x'' (hex2 (unat (address cfg)))
       | DEVICE_OLED \<Rightarrow> line ''Address        : 0x'' (hex2 (unat (address cfg)))
       | DEVICE_GPIO \<Rightarrow> line ''Offset         : '' (dec (unat (offset cfg))) @
           line ''Direction      : '' (if gpio_output cfg \<noteq> 0 then ''output'' else ''input'') @
           line ''Bias           : '' (dec_int (bias cfg))
       | DEVICE_LED \<Rightarrow> []))"

definition device_command_info :: "('w, 'x) env_scheme \<Rightarrow> nat \<Rightarrow> 'w ShellContext \<Rightarrow> 'w \<Rightarrow> ((int \<times> 'w ShellContext) \<times> 'w) option" where
  "device_command_info K i ctx w = print_ok K (device_info_text K (device_at i ctx)) ctx w"

definition bytes_line :: "byte list \<Rightarrow> string" where
  "bytes_line bs = concat (map (\<lambda>(k, b). (if k = 0 then [] else '' '') @ hex2 (unat b)) (enumerate 0 bs)) @ [NL]"

text \<open>The end of \<^verbatim>\<open>device_command_read\<close>: the read itself, of \<open>count\<close> bytes.\<close>

definition device_read_bytes :: "('w, 'x) api_scheme \<Rightarrow> nat \<Rightarrow> nat \<Rightarrow> 'w ShellContext \<Rightarrow> 'w \<Rightarrow> ((int \<times> 'w ShellContext) \<times> 'w) option" where
  "device_read_bytes K i count ctx w = do {
     ((r, d), w1) \<leftarrow> device_read (device_at i ctx) True count w;
     case r of
       Inl _ \<Rightarrow> device_command_error (put_device i d ctx) w1
     | Inr bs \<Rightarrow> print_ok K (bytes_line bs) (put_device i d ctx) w1 }"

definition device_command_read :: "('w, 'x) api_scheme \<Rightarrow> nat \<Rightarrow> 'w handler" where
  "device_command_read K i cmd ctx w =
     (let d = device_at i ctx; t = type_of (config d) in
      if t = DEVICE_GPIO \<or> t = DEVICE_LED then
        (if argc cmd \<noteq> 3 then device_usage K ctx w
         else do {
           ((r, d1), w1) \<leftarrow> device_read d True 4 w;
           case r of
             Inl _ \<Rightarrow> device_command_error (put_device i d1 ctx) w1
           | Inr bs \<Rightarrow> print_ok K (dec_int (bytes_int bs) @ [NL]) (put_device i d1 ctx) w1 })
      else if t \<noteq> DEVICE_UART \<and> t \<noteq> DEVICE_I2C \<or> argc cmd > 4 then device_usage K ctx w
      else case (if argc cmd = 4 then device_number (argv cmd ! 3) DEVICE_COMMAND_BUFFER_SIZE 0 else Some 16) of
        None \<Rightarrow> device_usage K ctx w
      | Some count \<Rightarrow>
          if count = 0 then device_usage K ctx w
          else if t = DEVICE_UART then do {
            ((ready, d1), w1) \<leftarrow> device_control d (DEVICE_CONTROL_UART_WAIT (Some DEVICE_COMMAND_TIMEOUT_MS)) w;
            case ready of
              Inl _ \<Rightarrow> device_command_error (put_device i d1 ctx) w1
            | Inr n \<Rightarrow> if n = 0 then device_command_error (put_device i (d1\<lparr>last_errno := ETIMEDOUT\<rparr>) ctx) w1
                       else device_read_bytes K i count (put_device i d1 ctx) w1 }
          else device_read_bytes K i count ctx w)"

text \<open>The bytes of a \<^verbatim>\<open>write\<close>; \<open>None\<close> when an argument is not a byte.\<close>

fun device_bytes :: "string list \<Rightarrow> byte list option" where
  "device_bytes [] = Some []"
| "device_bytes (a # as) = do { n \<leftarrow> device_number a 255 0; bs \<leftarrow> device_bytes as; Some (of_nat n # bs) }"

definition device_command_write :: "('w, 'x) api_scheme \<Rightarrow> nat \<Rightarrow> 'w handler" where
  "device_command_write K i cmd ctx w =
     (let d = device_at i ctx; t = type_of (config d) in
      if argc cmd < 4 then device_usage K ctx w
      else if t = DEVICE_GPIO \<or> t = DEVICE_LED then
        (if argc cmd \<noteq> 4 then device_usage K ctx w
         else case device_number (argv cmd ! 3) 1 0 of
           None \<Rightarrow> device_usage K ctx w
         | Some number \<Rightarrow> do {
             ((r, d1), w1) \<leftarrow> device_write d (Some (int_bytes (int number))) w;
             case r of
               Inl _ \<Rightarrow> device_command_error (put_device i d1 ctx) w1
             | Inr _ \<Rightarrow> print_ok K (device_name d @ '': '' @ dec number @ [NL]) (put_device i d1 ctx) w1 })
      else if t \<noteq> DEVICE_UART \<and> t \<noteq> DEVICE_I2C then device_usage K ctx w
      else if argc cmd - 3 > DEVICE_COMMAND_BUFFER_SIZE then device_usage K ctx w
      else case device_bytes (drop 3 (argv cmd)) of
        None \<Rightarrow> device_usage K ctx w
      | Some bytes \<Rightarrow> do {
          ((r, d1), w1) \<leftarrow>
            (if t = DEVICE_UART then device_control d
                 (DEVICE_CONTROL_UART_WRITE_ALL (Some \<lparr>data = Some bytes, timeout_ms = DEVICE_COMMAND_TIMEOUT_MS\<rparr>)) w
             else device_write d (Some bytes) w);
          case r of
            Inl _ \<Rightarrow> device_command_error (put_device i d1 ctx) w1
          | Inr _ \<Rightarrow> print_ok K (device_name d @ '': wrote '' @ dec (argc cmd - 3) @ '' bytes'' @ [NL]) (put_device i d1 ctx) w1 })"

definition device_command_uart :: "('w, 'x) api_scheme \<Rightarrow> nat \<Rightarrow> string \<Rightarrow> 'w ShellContext \<Rightarrow> 'w \<Rightarrow> ((int \<times> 'w ShellContext) \<times> 'w) option" where
  "device_command_uart K i request ctx w =
     (if type_of (config (device_at i ctx)) \<noteq> DEVICE_UART then device_usage K ctx w
      else do {
        (((r, reply), d1), w1) \<leftarrow>
          uart_protocol_request (io K) (device_at i ctx) (Some request) (Some []) UART_PROTOCOL_LINE_SIZE DEVICE_COMMAND_TIMEOUT_MS w;
        case r of
          Inl _ \<Rightarrow> device_command_error (put_device i d1 ctx) w1
        | Inr _ \<Rightarrow> print_ok K (the reply @ [NL]) (put_device i d1 ctx) w1 })"

text \<open>A control request and the line it prints.\<close>

definition device_command_control :: "('w, 'x) api_scheme \<Rightarrow> nat \<Rightarrow> DeviceControl \<Rightarrow> string \<Rightarrow> 'w ShellContext \<Rightarrow> 'w \<Rightarrow> ((int \<times> 'w ShellContext) \<times> 'w) option" where
  "device_command_control K i request line ctx w = do {
     ((r, d1), w1) \<leftarrow> device_control (device_at i ctx) request w;
     case r of
       Inl _ \<Rightarrow> device_command_error (put_device i d1 ctx) w1
     | Inr _ \<Rightarrow> print_ok K line (put_device i d1 ctx) w1 }"

definition device_command_led :: "('w, 'x) api_scheme \<Rightarrow> nat \<Rightarrow> 'w handler" where
  "device_command_led K i cmd ctx w =
     (let d = device_at i ctx; t = type_of (config d); action = argv cmd ! 3; name = device_name d in
      if argc cmd < 4 then device_usage K ctx w
      else if t = DEVICE_UART \<and> argc cmd = 4 \<and> action = ''on'' then device_command_uart K i ''LED ON'' ctx w
      else if t = DEVICE_UART \<and> argc cmd = 4 \<and> action = ''off'' then device_command_uart K i ''LED OFF'' ctx w
      else if t \<noteq> DEVICE_LED then device_usage K ctx w
      else if action = ''on'' \<and> argc cmd = 4 then
        device_command_control K i DEVICE_CONTROL_LED_ON (name @ '': '' @ action @ [NL]) ctx w
      else if action = ''off'' \<and> argc cmd = 4 then
        device_command_control K i DEVICE_CONTROL_LED_OFF (name @ '': '' @ action @ [NL]) ctx w
      else if action = ''trigger'' \<and> argc cmd = 5 then
        device_command_control K i (DEVICE_CONTROL_LED_TRIGGER (Some (argv cmd ! 4))) (name @ '': '' @ action @ ''='' @ argv cmd ! 4 @ [NL]) ctx w
      else device_usage K ctx w)"

text \<open>The words of a text joined by spaces; \<open>None\<close> when they do not fit the buffer.\<close>

fun join_words :: "string \<Rightarrow> bool \<Rightarrow> string list \<Rightarrow> string option" where
  "join_words acc first [] = Some acc"
| "join_words acc first (a # as) =
     (let written = (if first then a else '' '' @ a)
      in if length written \<ge> DEVICE_COMMAND_BUFFER_SIZE - length acc then None else join_words (acc @ written) False as)"

definition device_command_oled :: "('w, 'x) api_scheme \<Rightarrow> nat \<Rightarrow> 'w handler" where
  "device_command_oled K i cmd ctx w =
     (let d = device_at i ctx; action = argv cmd ! 3; line = device_name d @ '': '' @ action @ [NL] in
      if type_of (config d) \<noteq> DEVICE_OLED \<or> argc cmd < 4 then device_usage K ctx w
      else if argc cmd = 4 \<and> action = ''clear'' then device_command_control K i DEVICE_CONTROL_OLED_CLEAR line ctx w
      else if argc cmd = 4 \<and> action = ''refresh'' then device_command_control K i DEVICE_CONTROL_OLED_REFRESH line ctx w
      else if argc cmd = 4 \<and> action = ''on'' then device_command_control K i DEVICE_CONTROL_OLED_ON line ctx w
      else if argc cmd = 4 \<and> action = ''off'' then device_command_control K i DEVICE_CONTROL_OLED_OFF line ctx w
      else if argc cmd \<ge> 7 \<and> action = ''text'' then
        (case (device_number (argv cmd ! 4) 127 0, device_number (argv cmd ! 5) 63 0) of
           (Some x, Some y) \<Rightarrow>
             (case join_words [] True (drop 6 (argv cmd)) of
                None \<Rightarrow> device_usage K ctx w
              | Some acc \<Rightarrow> device_command_control K i
                  (DEVICE_CONTROL_OLED_TEXT (Some \<lparr>text_x = int x, text_y = int y, text_string = Some acc\<rparr>)) line ctx w)
         | _ \<Rightarrow> device_usage K ctx w)
      else device_usage K ctx w)"

section \<open>The command\<close>

definition device_command_reload :: "('w, 'x) env_scheme \<Rightarrow> (nat \<Rightarrow> bool) \<Rightarrow> 'w ShellContext \<Rightarrow> 'w \<Rightarrow> ((int \<times> 'w ShellContext) \<times> 'w) option" where
  "device_command_reload K calloc_ok ctx w =
     (if devices_file ctx = [] then device_command_error ctx w
      else do {
        (r, m, w1) \<leftarrow> device_manager_load (io K) (devices_source_of K w) calloc_ok (device_table ctx) (Some (devices_file ctx)) w;
        let ctx1 = ctx\<lparr>device_table := m\<rparr>;
        case r of
          Inl _ \<Rightarrow> device_command_error ctx1 w1
        | Inr _ \<Rightarrow> print_ok K (''devices config reloaded'' @ [NL]) ctx1 w1 })"

definition device_command_switch :: "('w, 'x) api_scheme \<Rightarrow> nat \<Rightarrow> bool \<Rightarrow> 'w ShellContext \<Rightarrow> 'w \<Rightarrow> ((int \<times> 'w ShellContext) \<times> 'w) option" where
  "device_command_switch K i on ctx w = do {
     ((r, d1), w1) \<leftarrow> (if on then device_open (device_at i ctx) w else device_close (device_at i ctx) w);
     case r of
       Inl _ \<Rightarrow> device_command_error (put_device i d1 ctx) w1
     | Inr _ \<Rightarrow> print_ok K (device_name d1 @ '': '' @ device_state_string (dstate d1) @ [NL]) (put_device i d1 ctx) w1 }"

definition cmd_device :: "('w, 'x) env_scheme \<Rightarrow> (nat \<Rightarrow> bool) \<Rightarrow> 'w handler" where
  "cmd_device K calloc_ok cmd ctx w =
     (let action = argv cmd ! 1 in
      if argc cmd < 2 then device_usage K ctx w
      else if action = ''list'' \<and> argc cmd = 2 then device_command_list K ctx w
      else if action = ''reload'' \<and> argc cmd = 2 then device_command_reload K calloc_ok ctx w
      else if argc cmd < 3 then device_usage K ctx w
      else case device_manager_find (device_table ctx) (Some (argv cmd ! 2)) of
        None \<Rightarrow> Some ((MiniShell_ERR_UNKNOWN, ctx), w)
      | Some i \<Rightarrow>
          if action = ''info'' \<and> argc cmd = 3 then device_command_info K i ctx w
          else if (action = ''open'' \<or> action = ''close'') \<and> argc cmd = 3 then device_command_switch K i (action = ''open'') ctx w
          else if action = ''read'' then device_command_read K i cmd ctx w
          else if action = ''write'' then device_command_write K i cmd ctx w
          else if action = ''ping'' \<and> argc cmd = 3 then device_command_uart K i ''PING'' ctx w
          else if action = ''status'' \<and> argc cmd = 3 then device_command_uart K i ''STATUS'' ctx w
          else if action = ''heartbeat'' \<and> argc cmd = 4 then
            (case device_number (argv cmd ! 3) 0xFFFFFFFF 10 of
               None \<Rightarrow> device_usage K ctx w
             | Some number \<Rightarrow> device_command_uart K i (''HEARTBEAT '' @ dec number) ctx w)
          else if action = ''led'' then device_command_led K i cmd ctx w
          else if action = ''oled'' then device_command_oled K i cmd ctx w
          else device_usage K ctx w)"


section \<open>What a command does to a device\<close>

text \<open>Calls on one device, with what the protocol and the command write into it directly, and looks at the
  clock.\<close>

inductive device_session :: "('w, 'x) sysio_scheme \<Rightarrow> ('c, 'w) Device \<Rightarrow> 'w \<Rightarrow> ('c, 'w) Device \<Rightarrow> 'w \<Rightarrow> bool"
  for K d w where
  ses_start: "device_session K d w d w"
| ses_open: "device_session K d w d1 w1 \<Longrightarrow> device_open d1 w1 = Some ((r, d2), w2) \<Longrightarrow> device_session K d w d2 w2"
| ses_read: "device_session K d w d1 w1 \<Longrightarrow> device_read d1 b n w1 = Some ((r1, d2), w2) \<Longrightarrow> device_session K d w d2 w2"
| ses_write: "device_session K d w d1 w1 \<Longrightarrow> device_write d1 bs w1 = Some ((r, d2), w2) \<Longrightarrow> device_session K d w d2 w2"
| ses_control: "device_session K d w d1 w1 \<Longrightarrow> device_control d1 q w1 = Some ((r, d2), w2) \<Longrightarrow> device_session K d w d2 w2"
| ses_close: "device_session K d w d1 w1 \<Longrightarrow> device_close d1 w1 = Some ((r, d2), w2) \<Longrightarrow> device_session K d w d2 w2"
| ses_errno: "device_session K d w d1 w1 \<Longrightarrow> device_session K d w (d1\<lparr>last_errno := e\<rparr>) w1"
| ses_broken: "device_session K d w d1 w1 \<Longrightarrow> enabled (config d1) \<noteq> 0 \<Longrightarrow> device_session K d w (d1\<lparr>dstate := DEVICE_ERROR\<rparr>) w1"
| ses_clock: "device_session K d w d1 w1 \<Longrightarrow> sys_clock_gettime K w1 = (t, w2) \<Longrightarrow> device_session K d w d1 w2"

lemma device_session_config: "device_session K d w d' w' \<Longrightarrow> config d' = config d"
  by (induction rule: device_session.induct) (auto dest: device_steps_config)

lemma device_run_backend:
  fixes K :: "('w, 'x) sysio_scheme"
  assumes "device_run d w d' w'" and K: "fd_table K fds" and "backend_device K d \<and> bk.balanced fds base d w"
  shows "backend_device K d' \<and> bk.balanced fds base d' w'"
proof -
  have cfg: "config d' = config d" by (rule device_run_config [OF assms(1)])
  have "bk.safe TYPE('x) K (type_of (config d)) d" "bk.balanced fds base d w" using assms(3) by (simp_all add: backend_device_safe)
  from bk.run_balanced [OF assms(1) K this] show ?thesis by (simp add: backend_device_safe cfg)
qed

lemma device_session_balanced:
  fixes K :: "('w, 'x) sysio_scheme"
  assumes "device_session K d w d' w'" and K: "fd_table K fds" and "backend_device K d" "bk.balanced fds base d w"
  shows "backend_device K d' \<and> bk.balanced fds base d' w'"
  using assms(1)
proof (induction rule: device_session.induct)
  case ses_start
  show ?case using assms(3,4) by simp
next
  case (ses_open d1 w1 r d2 w2)
  show ?case by (rule device_run_backend [OF run_open [OF run_start ses_open.hyps(2)] K ses_open.IH])
next
  case (ses_read d1 w1 b n r d2 w2)
  show ?case by (rule device_run_backend [OF run_read [OF run_start ses_read.hyps(2)] K ses_read.IH])
next
  case (ses_write d1 w1 bs r d2 w2)
  show ?case by (rule device_run_backend [OF run_write [OF run_start ses_write.hyps(2)] K ses_write.IH])
next
  case (ses_control d1 w1 q r d2 w2)
  show ?case by (rule device_run_backend [OF run_control [OF run_start ses_control.hyps(2)] K ses_control.IH])
next
  case (ses_close d1 w1 r d2 w2)
  show ?case by (rule device_run_backend [OF run_close [OF run_start ses_close.hyps(2)] K ses_close.IH])
next
  case (ses_errno d1 w1 e)
  then show ?case by (simp add: backend_device_def device_ok_def bk.balanced_def)
next
  case (ses_broken d1 w1)
  then show ?case by (auto simp: backend_device_def device_ok_def bk.balanced_def)
next
  case (ses_clock d1 w1 t w2)
  have "fds w2 = fds w1" using fd_table_keep(8) [OF K ses_clock.hyps(2)] .
  with ses_clock.IH show ?case by (simp add: bk.balanced_def)
qed

text \<open>The session of the device in slot \<open>i\<close> keeps the whole table in order.\<close>

lemma session_table:
  fixes K :: "('w, 'x) sysio_scheme"
  assumes K: "fd_table K fds" and t: "table_ok K m" "table_balanced fds base m w" and i: "i < length (devices m)"
    and ses: "device_session K (devices m ! i) w d w'"
  shows "table_ok K (m\<lparr>devices := (devices m)[i := d]\<rparr>) \<and> table_balanced fds base (m\<lparr>devices := (devices m)[i := d]\<rparr>) w'"
proof -
  have ok: "backend_device K (devices m ! i)" using t(1) i by (simp add: table_ok_def list_all_length)
  have own: "own_fds (priv (devices m ! i)) \<subseteq> fds w" using t(2) i by (auto simp: table_balanced_def owned_def)
  have "bk.balanced fds (fds w - own_fds (priv (devices m ! i))) (devices m ! i) w" using own by (auto simp: bk.balanced_def)
  then have "backend_device K d" using device_session_balanced [OF ses K ok] by blast
  then show ?thesis
    using table_update [OF t i _ device_session_config [OF ses]] device_session_balanced [OF ses K ok] by blast
qed

lemma device_session_trans: "device_session K d1 w1 d2 w2 \<Longrightarrow> device_session K d w d1 w1 \<Longrightarrow> device_session K d w d2 w2"
  by (induction rule: device_session.induct) (blast intro: device_session.intros)+

lemma monotonic_session: "device_session K d w d1 w1 \<Longrightarrow> monotonic_ms K w1 = (t, w2) \<Longrightarrow> device_session K d w d1 w2"
  by (auto simp: monotonic_ms_def intro: ses_clock split: prod.split_asm sum.split_asm)

lemma remaining_session: "device_session K d w d1 w1 \<Longrightarrow> remaining_ms K deadline w1 = (t, w2) \<Longrightarrow> device_session K d w d1 w2"
  by (auto simp: remaining_ms_def Let_def intro: monotonic_session split: prod.split_asm sum.split_asm if_split_asm)

lemma device_read_enabled: "device_read d b n w = Some ((Inr bs, d'), w') \<Longrightarrow> enabled (config d') \<noteq> 0"
  using device_steps_config(2) [of d b n w "Inr bs" d' w']
  by (auto simp: device_read_def device_ready_def device_failure_def split: if_split_asm option.split_asm)

lemma receive_loop_session:
  assumes "receive_loop K deadline line cr d w = Some ((r, d'), w')"
  shows "device_session K d w d' w'"
proof -
  let ?Q = "\<lambda>K' (deadline :: int) (line :: string) (cr :: bool) d w x. K' = K \<longrightarrow> device_session K d w (snd (fst x)) (snd x)"
  have "?Q K deadline line cr d w ((r, d'), w')"
  proof (rule receive_loop.raw_induct [where P = ?Q, OF _ assms], goal_cases)
    case (1 loop K' deadline line cr d w x)
    show ?case
    proof
      assume K': "K' = K"
      have IH: "loop K deadline line cr d w = Some x \<Longrightarrow> device_session K d w (snd (fst x)) (snd x)" for line cr d w
        using 1(1) by blast
      obtain t w1 where t: "remaining_ms K deadline w = (t, w1)" by (meson surj_pair)
      have s1: "device_session K d w d w1" by (rule remaining_session [OF ses_start t])
      show "device_session K d w (snd (fst x)) (snd x)"
      proof (cases t)
        case (Inl e)
        then show ?thesis using 1(2) s1 unfolding K' by (auto simp: t)
      next
        case (Inr timeout)
        obtain ready d1 w2 where c: "device_control d (DEVICE_CONTROL_UART_WAIT (Some timeout)) w1 = Some ((ready, d1), w2)"
          using 1(2) unfolding K' by (auto simp: t Inr split: Option.bind_split_asm)
        have s2: "device_session K d w d1 w2" by (rule ses_control [OF s1 c])
        show ?thesis
        proof (cases "\<exists>n. ready = Inr n \<and> n \<noteq> 0")
          case False
          then show ?thesis using 1(2) s2 unfolding K' by (auto simp: t Inr c split: sum.split_asm)
        next
          case True
          obtain result d2 w3 where rd: "device_read d1 True 1 w2 = Some ((result, d2), w3)"
            using 1(2) True unfolding K' by (auto simp: t Inr c split: Option.bind_split_asm)
          have s3: "device_session K d w d2 w3" by (rule ses_read [OF s2 rd])
          have more: "loop K deadline line' cr' d2 w3 = Some x \<Longrightarrow> ?thesis" for line' cr'
            by (rule device_session_trans [OF IH s3])
          show ?thesis
          proof (cases result)
            case (Inl e)
            then show ?thesis using 1(2) True s3 more unfolding K' by (auto simp: t \<open>t = Inr timeout\<close> c rd [unfolded One_nat_def] split: if_split_asm)
          next
            case bs: (Inr bs)
            show ?thesis
            proof (cases bs)
              case Nil
              have "enabled (config d2) \<noteq> 0" by (rule device_read_enabled [OF rd [unfolded bs]])
              from ses_broken [OF s3 this] show ?thesis
                using 1(2) True bs Nil unfolding K' by (auto simp: t Inr c rd [unfolded One_nat_def])
            next
              case (Cons b rest)
              then show ?thesis using 1(2) True bs s3 more unfolding K'
                by (auto simp: t Inr c rd [unfolded One_nat_def] split: line_step.split_asm)
            qed
          qed
        qed
      qed
    qed
  qed
  then show ?thesis by simp
qed


lemma exchange_session:
  assumes ex: "exchange K deadline packet d w = Some ((r, d'), w')"
  shows "device_session K d w d' w'"
proof -
  obtain f d1 w1 where f: "device_control d DEVICE_CONTROL_UART_FLUSH w = Some ((f, d1), w1)"
    using ex by (auto simp: exchange_def split: Option.bind_split_asm)
  have s1: "device_session K d w d1 w1" by (rule ses_control [OF ses_start f])
  obtain t w2 where t: "remaining_ms K deadline w1 = (t, w2)" by (meson surj_pair)
  have s2: "device_session K d w d1 w2" by (rule remaining_session [OF s1 t])
  show ?thesis
  proof (cases "\<exists>n m. f = Inr n \<and> t = Inr m")
    case False
    then show ?thesis using ex s1 s2 by (auto simp: exchange_def f t split: sum.split_asm)
  next
    case True
    then obtain n timeout where ft: "f = Inr n" "t = Inr timeout" by blast
    obtain wr d2 w3 where wr: "device_control d1 (DEVICE_CONTROL_UART_WRITE_ALL (Some \<lparr>data = Some packet, timeout_ms = timeout\<rparr>)) w2
        = Some ((wr, d2), w3)"
      using ex by (auto simp: exchange_def f t ft split: Option.bind_split_asm)
    have s3: "device_session K d w d2 w3" by (rule ses_control [OF s2 wr])
    show ?thesis
    proof (cases wr)
      case (Inl e)
      then show ?thesis using ex s3 by (auto simp: exchange_def f t ft wr)
    next
      case (Inr k)
      obtain line d3 w4 where l: "receive_loop K deadline [] False d2 w3 = Some ((line, d3), w4)"
        using ex by (auto simp: exchange_def f t ft wr Inr split: Option.bind_split_asm)
      have s4: "device_session K d w d3 w4" by (rule device_session_trans [OF receive_loop_session [OF l] s3])
      obtain u w5 where u: "remaining_ms K deadline w4 = (u, w5)" by (meson surj_pair)
      have "device_session K d w d3 w5" by (rule remaining_session [OF s4 u])
      then show ?thesis using ex s4 by (auto simp: exchange_def f t ft wr Inr l u split: sum.split_asm)
    qed
  qed
qed

lemma uart_request_session:
  assumes rq: "uart_protocol_request K d request reply n timeout w = Some (((r, reply'), d'), w')"
  shows "device_session K d w d' w'"
proof -
  obtain d1 where d1: "request_body K d request reply n timeout w = Some (((r, reply'), d1), w')" "d' = protocol_result d1 r"
    using rq by (auto simp: uart_protocol_request_def split: Option.bind_split_asm)
  obtain m w1 where m: "monotonic_ms K w = (m, w1)" by (meson surj_pair)
  have s1: "device_session K d w d w1" by (rule monotonic_session [OF ses_start m])
  have "device_session K d w d1 w'"
    using d1(1) s1
    by (auto simp: request_body_def m ses_start split: if_split_asm sum.split_asm prod.split_asm Option.bind_split_asm
        dest!: exchange_session dest: device_session_trans)
  then show ?thesis unfolding d1(2) protocol_result_def by (rule ses_errno)
qed

section \<open>The effect of the command\<close>

definition slot_effect :: "('w, 'x) api_scheme \<Rightarrow> nat \<Rightarrow> 'w ShellContext \<Rightarrow> 'w \<Rightarrow> 'w ShellContext \<Rightarrow> 'w \<Rightarrow> bool" where
  "slot_effect K i ctx w ctx' w' \<longleftrightarrow>
     (\<exists>d v. device_session (io K) (device_at i ctx) w d v \<and> ctx' = put_device i d ctx \<and> (w' = v \<or> (\<exists>s. w' = stdout K s v)))"

lemma put_device_simps [simp]:
  "put_device i (device_at i ctx) ctx = ctx" "put_device i d' (put_device i d ctx) = put_device i d' ctx"
  "i < length (devices (device_table ctx)) \<Longrightarrow> device_at i (put_device i d ctx) = d"
  "length (devices (device_table (put_device i d ctx))) = length (devices (device_table ctx))"
  by (simp_all add: put_device_def device_at_def)

lemma slot_effect_none: "slot_effect K i ctx w ctx w" "slot_effect K i ctx w ctx (stdout K s w)"
  unfolding slot_effect_def using ses_start put_device_simps(1) by metis+

lemma slot_effect_session:
  "device_session (io K) (device_at i ctx) w d v \<Longrightarrow> slot_effect K i ctx w (put_device i d ctx) v"
  "device_session (io K) (device_at i ctx) w d v \<Longrightarrow> slot_effect K i ctx w (put_device i d ctx) (stdout K s v)"
  unfolding slot_effect_def by blast+

abbreviation "command_code code \<equiv> code \<in> {MiniShell_OK, MiniShell_ERR_UNKNOWN, MiniShell_ERR_PARSE}"

lemmas end_defs = device_usage_def device_command_error_def print_ok_def

lemma device_read_bytes_effect:
  assumes "device_read_bytes K i count ctx w = Some ((code, ctx'), w')"
  shows "command_code code \<and> slot_effect K i ctx w ctx' w'"
  using assms by (auto simp: device_read_bytes_def end_defs intro!: slot_effect_session dest!: ses_read [OF ses_start]
      split: Option.bind_split_asm sum.split_asm)

lemma slot_effect_trans:
  assumes "device_session (io K) (device_at i ctx) w d v" "slot_effect K i (put_device i d ctx) v ctx' w'"
    "i < length (devices (device_table ctx))"
  shows "slot_effect K i ctx w ctx' w'"
  using assms device_session_trans [OF _ assms(1)] unfolding slot_effect_def by fastforce

lemma device_command_read_effect:
  assumes cmd: "device_command_read K i cmd ctx w = Some ((code, ctx'), w')" and i: "i < length (devices (device_table ctx))"
  shows "command_code code \<and> slot_effect K i ctx w ctx' w'"
proof -
  let ?d = "device_at i ctx"
  have number: "slot_effect K i ctx w (put_device i d1 ctx) w1" "slot_effect K i ctx w (put_device i d1 ctx) (stdout K s w1)"
    if "device_read ?d True 4 w = Some ((r, d1), w1)" for r d1 w1 s
    using slot_effect_session [OF ses_read [OF ses_start that]] by blast+
  have wait: "slot_effect K i ctx w (put_device i d1 ctx) w1" "slot_effect K i ctx w (put_device i (d1\<lparr>last_errno := e\<rparr>) ctx) w1"
    if "device_control ?d q w = Some ((r, d1), w1)" for q r d1 w1 e
    using slot_effect_session(1) [OF ses_control [OF ses_start that]]
      slot_effect_session(1) [OF ses_errno [OF ses_control [OF ses_start that]]] by blast+
  have bytes: "command_code code \<and> slot_effect K i ctx w ctx' w'"
    if "device_control ?d q w = Some ((r, d1), w1)" "device_read_bytes K i count (put_device i d1 ctx) w1 = Some ((code, ctx'), w')" for q r d1 w1 count
    using device_read_bytes_effect [OF that(2)] slot_effect_trans [OF ses_control [OF ses_start that(1)] _ i] by blast
  show ?thesis
    using cmd unfolding device_command_read_def Let_def
    by (auto simp: end_defs slot_effect_none number wait dest: bytes device_read_bytes_effect
        split: if_split_asm option.split_asm Option.bind_split_asm sum.split_asm)
qed


lemma device_command_write_effect:
  assumes cmd: "device_command_write K i cmd ctx w = Some ((code, ctx'), w')"
  shows "command_code code \<and> slot_effect K i ctx w ctx' w'"
proof -
  let ?d = "device_at i ctx"
  have wr: "slot_effect K i ctx w (put_device i d1 ctx) w1" "slot_effect K i ctx w (put_device i d1 ctx) (stdout K s w1)"
    if "device_write ?d bs w = Some ((r, d1), w1)" for bs r d1 w1 s
    using slot_effect_session [OF ses_write [OF ses_start that]] by blast+
  have ct: "slot_effect K i ctx w (put_device i d1 ctx) w1" "slot_effect K i ctx w (put_device i d1 ctx) (stdout K s w1)"
    if "device_control ?d q w = Some ((r, d1), w1)" for q r d1 w1 s
    using slot_effect_session [OF ses_control [OF ses_start that]] by blast+
  show ?thesis
    using cmd unfolding device_command_write_def Let_def
    by (auto simp: end_defs slot_effect_none wr ct split: if_split_asm option.split_asm Option.bind_split_asm sum.split_asm)
qed

lemma device_command_uart_effect:
  assumes cmd: "device_command_uart K i request ctx w = Some ((code, ctx'), w')"
  shows "command_code code \<and> slot_effect K i ctx w ctx' w'"
proof -
  have rq: "slot_effect K i ctx w (put_device i d1 ctx) w1" "slot_effect K i ctx w (put_device i d1 ctx) (stdout K s w1)"
    if "uart_protocol_request (io K) (device_at i ctx) q p n t w = Some (((r, p'), d1), w1)" for q p n t r p' d1 w1 s
    using slot_effect_session [OF uart_request_session [OF that]] by blast+
  show ?thesis
    using cmd unfolding device_command_uart_def
    by (auto simp: end_defs slot_effect_none rq split: if_split_asm Option.bind_split_asm sum.split_asm)
qed

lemma device_command_control_effect:
  assumes cmd: "device_command_control K i request line ctx w = Some ((code, ctx'), w')"
  shows "command_code code \<and> slot_effect K i ctx w ctx' w'"
  using cmd by (auto simp: device_command_control_def end_defs intro!: slot_effect_session dest!: ses_control [OF ses_start]
      split: Option.bind_split_asm sum.split_asm)

lemma device_command_switch_effect:
  assumes cmd: "device_command_switch K i on ctx w = Some ((code, ctx'), w')"
  shows "command_code code \<and> slot_effect K i ctx w ctx' w'"
  using cmd by (auto simp: device_command_switch_def end_defs intro!: slot_effect_session
      dest!: ses_open [OF ses_start] ses_close [OF ses_start] split: Option.bind_split_asm sum.split_asm if_split_asm)

lemma device_command_usage_effect:
  "device_usage K ctx w = Some ((code, ctx'), w') \<Longrightarrow> command_code code \<and> slot_effect K i ctx w ctx' w'"
  "device_command_info K' j ctx w = Some ((code, ctx'), w') \<Longrightarrow> command_code code \<and> slot_effect K' i ctx w ctx' w'"
  by (auto simp: end_defs device_command_info_def slot_effect_none)

lemma device_command_led_effect:
  "device_command_led K i cmd ctx w = Some ((code, ctx'), w') \<Longrightarrow> command_code code \<and> slot_effect K i ctx w ctx' w'"
  unfolding device_command_led_def Let_def
  by (auto split: if_split_asm dest: device_command_usage_effect(1) device_command_uart_effect device_command_control_effect)

lemma device_command_oled_effect:
  "device_command_oled K i cmd ctx w = Some ((code, ctx'), w') \<Longrightarrow> command_code code \<and> slot_effect K i ctx w ctx' w'"
  unfolding device_command_oled_def Let_def
  by (auto split: if_split_asm option.split_asm dest: device_command_usage_effect(1) device_command_control_effect)

lemma device_find_slot: "device_manager_find m (Some name) = Some i \<Longrightarrow> i < length (devices m)"
  by (auto simp: device_manager_find_def find_slot_index)

text \<open>The command prints, loads the table anew, or works on one device.\<close>

lemma cmd_device_cases:
  assumes cmd: "cmd_device K calloc_ok cmd ctx w = Some ((code, ctx'), w')"
  obtains (printed) s where "command_code code" "ctx' = ctx" "w' = w \<or> w' = stdout K s w"
  | (reloaded) r m v s where "command_code code" "device_manager_load (io K) (devices_source_of K w) calloc_ok (device_table ctx) (Some (devices_file ctx)) w = Some (r, m, v)"
      "ctx' = ctx\<lparr>device_table := m\<rparr>" "w' = v \<or> w' = stdout K s v"
  | (worked) i where "command_code code" "i < length (devices (device_table ctx))" "slot_effect K i ctx w ctx' w'"
proof -
  consider (a) "device_usage K ctx w = Some ((code, ctx'), w')" | (b) "device_command_list K ctx w = Some ((code, ctx'), w')"
    | (c) "device_command_reload K calloc_ok ctx w = Some ((code, ctx'), w')"
    | (d) "device_manager_find (device_table ctx) (Some (argv cmd ! 2)) = None" "Some ((MiniShell_ERR_UNKNOWN, ctx), w) = Some ((code, ctx'), w')"
    | (e) i where "device_manager_find (device_table ctx) (Some (argv cmd ! 2)) = Some i" "\<not> argc cmd < 3"
    using cmd unfolding cmd_device_def Let_def by (auto split: if_split_asm option.split_asm)
  then show thesis
  proof cases
    case a
    then show thesis using printed by (fastforce simp: device_usage_def)
  next
    case b
    then show thesis using printed by (fastforce simp: device_command_list_def print_ok_def split: if_split_asm)
  next
    case c
    then show thesis using printed reloaded by (fastforce simp: device_command_reload_def end_defs Let_def split: if_split_asm Option.bind_split_asm sum.split_asm)
  next
    case d
    then show thesis using printed by auto
  next
    case e
    have i: "i < length (devices (device_table ctx))" by (rule device_find_slot [OF e(1)])
    have "code \<in> {0, -1, -7} \<and> slot_effect K i ctx w ctx' w' \<or> ctx' = ctx \<and> (\<exists>r m v s. code \<in> {0, -1, -7} \<and> w' = stdout K s w)
        \<or> device_command_reload K calloc_ok ctx w = Some ((code, ctx'), w')"
      using cmd e unfolding cmd_device_def Let_def
      by (auto simp: e(1) device_command_list_def print_ok_def split: if_split_asm option.split_asm
          dest: device_command_usage_effect device_command_uart_effect device_command_led_effect device_command_oled_effect
            device_command_switch_effect device_command_write_effect device_command_read_effect [OF _ i])
    then show thesis using worked i printed reloaded
      by (fastforce simp: device_command_reload_def end_defs Let_def split: if_split_asm Option.bind_split_asm sum.split_asm)
  qed
qed


lemma cmd_device_table:
  assumes K: "fd_table (io K) fds" and out: "\<And>s w. fds (stdout K s w) = fds w"
    and t: "table_ok (io K) (device_table ctx)" "table_balanced fds base (device_table ctx) w"
    and cmd: "cmd_device K calloc_ok cmd ctx w = Some ((code, ctx'), w')"
  shows "table_ok (io K) (device_table ctx') \<and> table_balanced fds base (device_table ctx') w'
    \<and> command_code code \<and> (\<exists>m. ctx' = ctx\<lparr>device_table := m\<rparr>)"
proof -
  have shown: "table_balanced fds base m v'" if "table_balanced fds base m v" "v' = v \<or> (\<exists>s. v' = stdout K s v)" for m v v'
    using that out by (auto simp: table_balanced_def)
  from cmd show ?thesis
  proof (cases rule: cmd_device_cases)
    case (printed s)
    have "ctx = ctx\<lparr>device_table := device_table ctx\<rparr>" by simp
    with printed t shown [OF t(2), of w'] show ?thesis by blast
  next
    case (reloaded r m v s)
    have "table_ok (io K) m \<and> table_balanced fds base m v"
      by (rule manager_run_table [OF run_load [OF run_init reloaded(2)] K t])
    then show ?thesis using reloaded shown [of m v w'] by auto
  next
    case (worked i)
    then obtain d v where d: "device_session (io K) (device_at i ctx) w d v" "ctx' = put_device i d ctx" "w' = v \<or> (\<exists>s. w' = stdout K s v)"
      by (auto simp: slot_effect_def)
    have "table_ok (io K) (device_table ctx') \<and> table_balanced fds base (device_table ctx') v"
      using session_table [OF K t worked(2) d(1) [unfolded device_at_def]] d(2) by (simp add: put_device_def)
    then show ?thesis using worked(1) d shown [of _ v w'] by (auto simp: put_device_def)
  qed
qed

lemma unat_uint32_bound: "unat (h :: uint32) \<le> 0xFFFFFFFF"
  using unsigned_less [of h, where 'a = nat] by simp

lemma device_number_dec: "n \<le> m \<Longrightarrow> n \<le> ULONG_MAX \<Longrightarrow> device_number (dec n) m 10 = Some n"
proof -
  assume n: "n \<le> m" "n \<le> ULONG_MAX"
  have "\<not> isdigit (CHR ''-'')" "\<not> isdigit (CHR ''+'')" by code_simp+
  then have "hd (dec n) \<noteq> CHR ''-''" "hd (dec n) \<noteq> CHR ''+''" using hd_dec [of n] by metis+
  moreover have "[] \<noteq> dec n" using dec_not_Nil [of n] by metis
  ultimately show ?thesis using strtoul10_dec [OF n(2)] n(1) by (simp add: device_number_def)
qed

definition demo_reload_ctx :: "demo_world ShellContext" where
  "demo_reload_ctx = (shell_context_zero LOG_INFO)\<lparr>running := True, devices_file := ''devices.conf''\<rparr>"

section \<open>Properties\<close>

text \<open>C23. Every \<^verbatim>\<open>device\<close> command keeps the device table in order: whatever the subcommand, its arguments and the
  outcome of the calls below it, the devices are at most 16, valid, with different names and in consistent
  states, the open descriptors are those of the rest of the process and one for each device that holds one,
  only the table has changed in the shell's state, and the code is 0, a parse error or the unknown error.\<close>

theorem cmd_device_keeps_table:
  assumes "fd_table (io K) fds" "\<And>s w. fds (stdout K s w) = fds w"
    and "table_ok (io K) (device_table ctx)" "table_balanced fds base (device_table ctx) w"
    and "cmd_device K calloc_ok cmd ctx w = Some ((code, ctx'), w')"
  shows "table_ok (io K) (device_table ctx') \<and> table_balanced fds base (device_table ctx') w'
    \<and> command_code code \<and> (\<exists>m. ctx' = ctx\<lparr>device_table := m\<rparr>)"
  using cmd_device_table [OF assms] by blast

theorem cmd_device_keeps_table_witness:
  "\<exists>ctx' w'. cmd_device demo_env (\<lambda>_. True) (command_init\<lparr>argv := [''device'', ''reload'']\<rparr>) demo_reload_ctx demo_start = Some ((0, ctx'), w')
     \<and> length (devices (device_table ctx')) = 2 \<and> table_ok demo_io (device_table ctx')"
proof -
  have "map_option (\<lambda>((c, x), w). (c, length (devices (device_table x))))
      (cmd_device demo_env (\<lambda>_. True) (command_init\<lparr>argv := [''device'', ''reload'']\<rparr>) demo_reload_ctx demo_start) = Some (0, 2)"
    by code_simp
  then obtain ctx' w' where r: "cmd_device demo_env (\<lambda>_. True) (command_init\<lparr>argv := [''device'', ''reload'']\<rparr>) demo_reload_ctx demo_start
      = Some ((0, ctx'), w')" "length (devices (device_table ctx')) = 2" by auto
  have io: "io demo_env = demo_io" by (simp add: demo_env_sel demo_api_def)
  have "device_table demo_reload_ctx = device_manager_init" by (simp add: demo_reload_ctx_def shell_context_zero_def)
  then have t: "table_ok (io demo_env) (device_table demo_reload_ctx)" "table_balanced demo_fds (demo_fds demo_start) (device_table demo_reload_ctx) demo_start"
    by (simp_all add: init_table)
  have "fd_table (io demo_env) demo_fds" using demo_fd_table by (simp add: demo_env_sel)
  from cmd_device_keeps_table [OF this side_calls(9) [OF demo_env_laws(1)] t r(1)] show ?thesis using r io by auto
qed

text \<open>A heartbeat typed at the prompt reaches the protocol as that heartbeat: for every 32-bit number, the
  command \<^verbatim>\<open>device heartbeat <uart> <number>\<close> sends the request with exactly this number, which the protocol
  accepts as such; the other requests of the command are accepted too, and none of them is longer than the
  command's own buffer of 64 bytes or the protocol's line.\<close>

theorem cmd_device_requests:
  assumes "device_manager_find (device_table ctx) (Some name) = Some i" "type_of (config (device_at i ctx)) = DEVICE_UART"
    and "argv cmd = [''device'', ''heartbeat'', name, dec (unat h)]"
  shows "cmd_device K calloc_ok cmd ctx w = device_command_uart K i (''HEARTBEAT '' @ dec (unat h)) ctx w
    \<and> parse_request (''HEARTBEAT '' @ dec (unat h)) = Inr (UART_REQUEST_HEARTBEAT, h)
    \<and> length (''HEARTBEAT '' @ dec (unat h)) < 64
    \<and> list_all (\<lambda>r. \<exists>q. parse_request r = Inr (q, 0)) [''PING'', ''STATUS'', ''LED ON'', ''LED OFF'']"
proof -
  have len: "length (dec (unat h)) \<le> 10"
    using unsigned_less [of h, where 'a = nat] by (intro length_dec) simp_all
  have "cmd_device K calloc_ok cmd ctx w = device_command_uart K i (''HEARTBEAT '' @ dec (unat h)) ctx w"
    using assms device_number_dec [of "unat h" "0xFFFFFFFF"] unat_uint32_bound [of h]
    by (simp add: cmd_device_def argc_def)
  moreover have "parse_request (''HEARTBEAT '' @ dec (unat h)) = Inr (UART_REQUEST_HEARTBEAT, h)"
    by (simp add: parse_request_def starts_def parse_unsigned_dec)
  moreover have "list_all (\<lambda>r. \<exists>q. parse_request r = Inr (q, 0)) [''PING'', ''STATUS'', ''LED ON'', ''LED OFF'']"
    by (simp add: parse_request_def)
  ultimately show ?thesis using len by simp
qed

definition demo_uart_ctx :: "demo_world ShellContext" where
  "demo_uart_ctx = demo_reload_ctx\<lparr>device_table := \<lparr>devices = [projr (device_backend_init demo_io True (hd demo_configs))]\<rparr>\<rparr>"

theorem cmd_device_requests_witness:
  "cmd_device demo_env (\<lambda>_. True) (command_init\<lparr>argv := [''device'', ''heartbeat'', name_of (hd demo_configs), dec (unat (7 :: uint32))]\<rparr>) demo_uart_ctx demo_start
     = device_command_uart demo_env 0 ''HEARTBEAT 7'' demo_uart_ctx demo_start"
proof -
  have "device_manager_find (device_table demo_uart_ctx) (Some (name_of (hd demo_configs))) = Some 0"
    "type_of (config (device_at 0 demo_uart_ctx)) = DEVICE_UART" "dec (unat (7 :: uint32)) = ''7''" by code_simp+
  then show ?thesis
    using cmd_device_requests [of demo_uart_ctx "name_of (hd demo_configs)" 0
        "command_init\<lparr>argv := [''device'', ''heartbeat'', name_of (hd demo_configs), dec (unat (7 :: uint32))]\<rparr>" 7 demo_env "\<lambda>_. True" demo_start]
    by simp
qed

end
