(* ===== verification/File_Streams.thy ===== *)
theory File_Streams
  imports Shell_Context Sysfs_Io Complex_Main
begin

text \<open>
  What the monitors and reports use of the C library beside the system calls: streams, directories, the host's
  name, and the conversion of floating-point numbers.  A stream and a directory are known by their descriptor.
  A line that \<^verbatim>\<open>fgets\<close> gives is the C string in the buffer; \<^verbatim>\<open>fscanf\<close> with \<open>n\<close> \<^verbatim>\<open>%lf\<close> conversions gives the
  numbers up to the first failure.  A \<^verbatim>\<open>double\<close> is the rational number it stands for, so that
  rounding in arithmetic is left out; \<open>printf_f d\<close> is the conversion \<^verbatim>\<open>%.<d>f\<close>.
\<close>

record 'w files = "'w env" +
  c_fopen :: "string \<Rightarrow> 'w \<Rightarrow> (int + int) \<times> 'w"
  c_fgets :: "int \<Rightarrow> nat \<Rightarrow> 'w \<Rightarrow> string option \<times> 'w"
  c_fread :: "int \<Rightarrow> nat \<Rightarrow> 'w \<Rightarrow> string \<times> 'w"
  c_fscanf_lf :: "int \<Rightarrow> nat \<Rightarrow> 'w \<Rightarrow> rat list \<times> 'w"
  c_fscanf_ld :: "int \<Rightarrow> 'w \<Rightarrow> int option \<times> 'w"
  c_fclose :: "int \<Rightarrow> 'w \<Rightarrow> 'w"
  c_opendir :: "string \<Rightarrow> 'w \<Rightarrow> (int + int) \<times> 'w"
  c_readdir :: "int \<Rightarrow> 'w \<Rightarrow> string option \<times> 'w"
  c_closedir :: "int \<Rightarrow> 'w \<Rightarrow> 'w"
  c_exists :: "string \<Rightarrow> 'w \<Rightarrow> bool"
  c_uname :: "'w \<Rightarrow> (string \<times> string) option"
  c_gethostname :: "'w \<Rightarrow> string option"
  c_nprocessors :: "'w \<Rightarrow> int"
  printf_f :: "nat \<Rightarrow> rat \<Rightarrow> string"

section \<open>Loops over lines and over directory entries\<close>

text \<open>The loop \<^verbatim>\<open>while (fgets(line, size, fp))\<close>: the body acts on what was collected.\<close>

partial_function (option) line_loop :: "('w, 'x) files_scheme \<Rightarrow> int \<Rightarrow> nat \<Rightarrow> (string \<Rightarrow> 'a \<Rightarrow> 'a) \<Rightarrow> 'a \<Rightarrow> 'w \<Rightarrow> ('a \<times> 'w) option" where
  "line_loop K fp n body acc w =
     (case c_fgets K fp n w of
        (None, w1) \<Rightarrow> Some (acc, w1)
      | (Some line, w1) \<Rightarrow> line_loop K fp n body (body line acc) w1)"

declare line_loop.simps [code]

text \<open>The loop over \<^verbatim>\<open>readdir\<close>; the body says whether it goes on.\<close>

partial_function (option) dir_loop ::
  "('w, 'x) files_scheme \<Rightarrow> int \<Rightarrow> (string \<Rightarrow> 'a \<Rightarrow> 'w \<Rightarrow> ((bool \<times> 'a) \<times> 'w) option) \<Rightarrow> 'a \<Rightarrow> 'w \<Rightarrow> ('a \<times> 'w) option" where
  "dir_loop K dir body acc w =
     (case c_readdir K dir w of
        (None, w1) \<Rightarrow> Some (acc, w1)
      | (Some name, w1) \<Rightarrow> do {
          ((go, acc1), w2) \<leftarrow> body name acc w1;
          if go then dir_loop K dir body acc1 w2 else Some (acc1, w2) })"

declare dir_loop.simps [code]

text \<open>A stream that is read to the end, and a directory; \<open>None\<close> when it cannot be opened.\<close>

definition with_lines :: "('w, 'x) files_scheme \<Rightarrow> string \<Rightarrow> nat \<Rightarrow> (string \<Rightarrow> 'a \<Rightarrow> 'a) \<Rightarrow> 'a \<Rightarrow> 'w \<Rightarrow> ('a option \<times> 'w) option" where
  "with_lines K name n body acc w = (case c_fopen K name w of
     (Inl _, w1) \<Rightarrow> Some (None, w1)
   | (Inr fp, w1) \<Rightarrow> do { (a, w2) \<leftarrow> line_loop K fp n body acc w1; Some (Some a, c_fclose K fp w2) })"

definition with_dir ::
  "('w, 'x) files_scheme \<Rightarrow> string \<Rightarrow> (string \<Rightarrow> 'a \<Rightarrow> 'w \<Rightarrow> ((bool \<times> 'a) \<times> 'w) option) \<Rightarrow> 'a \<Rightarrow> 'w \<Rightarrow> ('a option \<times> 'w) option" where
  "with_dir K base body acc w = (case c_opendir K base w of
     (Inl _, w1) \<Rightarrow> Some (None, w1)
   | (Inr dir, w1) \<Rightarrow> do { (a, w2) \<leftarrow> dir_loop K dir body acc w1; Some (Some a, c_closedir K dir w2) })"

section \<open>Text\<close>

text \<open>\<^verbatim>\<open>copy_text\<close> of the monitors, into a buffer of \<open>n\<close> bytes; and the one that stops at the end of the line.\<close>

definition copy_text :: "nat \<Rightarrow> string \<Rightarrow> string" where
  "copy_text n s = take (n - 1) s"

definition until_newline :: "string \<Rightarrow> string" where
  "until_newline s = takeWhile (\<lambda>c. c \<noteq> CR \<and> c \<noteq> NL) s"

definition skip_blanks :: "string \<Rightarrow> string" where
  "skip_blanks s = dropWhile (\<lambda>c. c = CHR '' '' \<or> c = CHR 0x09) s"

definition build_path :: "string \<Rightarrow> string \<Rightarrow> string \<Rightarrow> string option" where
  "build_path base name attr = (let p = base @ ''/'' @ name @ ''/'' @ attr in if length p \<ge> 512 then None else Some p)"

text \<open>\<^verbatim>\<open>strncmp\<close> with the length of \<open>p\<close>: whether it matches, and the rest.\<close>

definition after_prefix :: "string \<Rightarrow> string \<Rightarrow> string option" where
  "after_prefix p s = (if take (length p) s = p then Some (drop (length p) s) else None)"

text \<open>The conversion \<^verbatim>\<open>%lu\<close> (or \<^verbatim>\<open>%llu\<close>) of \<^verbatim>\<open>sscanf\<close>: the number as \<^verbatim>\<open>strtoul\<close> reads it, and the rest.\<close>

definition scan_ulong :: "string \<Rightarrow> (nat \<times> string) option" where
  "scan_ulong s = (case strtoul 10 s of (v, rest, _) \<Rightarrow> if rest = s then None else Some (v, rest))"

text \<open>\<open>n\<close> such conversions separated by blanks, up to the first that fails.\<close>

fun scan_ulongs :: "nat \<Rightarrow> string \<Rightarrow> nat list" where
  "scan_ulongs 0 s = []"
| "scan_ulongs (Suc n) s = (case scan_ulong s of None \<Rightarrow> [] | Some (v, rest) \<Rightarrow> v # scan_ulongs n rest)"

definition is_pid_name :: "string \<Rightarrow> bool" where
  "is_pid_name s \<longleftrightarrow> s \<noteq> [] \<and> list_all isdigit s"

definition or_na :: "string \<Rightarrow> string" where
  "or_na s = (if s = [] then ''N/A'' else s)"

section \<open>Attributes read into a buffer\<close>

text \<open>\<^verbatim>\<open>sysfs_read_text\<close> once more, with what it leaves in a buffer that was zero before, also when it fails:
  some callers do not look at the result.\<close>

partial_function (option) buffer_loop ::
  "('w, 'x) sysio_scheme \<Rightarrow> int \<Rightarrow> nat \<Rightarrow> byte list \<Rightarrow> 'w \<Rightarrow> ((int option \<times> byte list) \<times> 'w) option" where
  "buffer_loop K fd limit acc w =
     (if length acc \<ge> limit then Some ((None, acc), w)
      else case sys_read K fd (limit - length acc) w of
        (Inl e, w') \<Rightarrow> if e = EINTR then buffer_loop K fd limit acc w' else Some ((Some e, acc), w')
      | (Inr bs, w') \<Rightarrow> if bs = [] then Some ((None, acc), w') else buffer_loop K fd limit (acc @ bs) w')"

declare buffer_loop.simps [code]

definition read_attribute :: "('w, 'x) sysio_scheme \<Rightarrow> string \<Rightarrow> nat \<Rightarrow> 'w \<Rightarrow> (((int + unit) \<times> string) \<times> 'w) option" where
  "read_attribute K p n w =
     (if n < 2 then Some ((Inl EINVAL, []), w)
      else case sys_open K p (O_RDONLY OR O_CLOEXEC) w of
        (Inl e, w1) \<Rightarrow> Some ((Inl e, []), w1)
      | (Inr fd, w1) \<Rightarrow> do {
          ((r, bs), w2) \<leftarrow> buffer_loop K fd (n - 1) [] w1;
          let text = cstr (map byte_char bs);
          case r of
            Some e \<Rightarrow> Some ((Inl e, text), snd (sys_close K fd w2))
          | None \<Rightarrow>
              (case sys_close K fd w2 of
                 (Inl e, w3) \<Rightarrow> Some ((Inl e, text), w3)
               | (Inr _, w3) \<Rightarrow> Some ((Inr (), cstr (strip_newlines (map byte_char bs))), w3)) })"

text \<open>An attribute of a directory entry; nothing is read when its path is too long.\<close>

definition text_attribute :: "('w, 'x) sysio_scheme \<Rightarrow> string \<Rightarrow> string \<Rightarrow> string \<Rightarrow> nat \<Rightarrow> 'w \<Rightarrow> (string \<times> 'w) option" where
  "text_attribute K base name attr n w = (case build_path base name attr of
     None \<Rightarrow> Some ([], w)
   | Some p \<Rightarrow> do { ((_, text), w1) \<leftarrow> read_attribute K p n w; Some (text, w1) })"

definition number_attribute ::
  "(string \<Rightarrow> 'w \<Rightarrow> ((int + 'n) \<times> 'w) option) \<Rightarrow> string \<Rightarrow> string \<Rightarrow> string \<Rightarrow> 'w \<Rightarrow> ('n option \<times> 'w) option" where
  "number_attribute read base name attr w = (case build_path base name attr of
     None \<Rightarrow> Some (None, w)
   | Some p \<Rightarrow> do { (r, w1) \<leftarrow> read p w; Some (case r of Inr v \<Rightarrow> Some v | Inl _ \<Rightarrow> None, w1) })"

section \<open>Descriptors\<close>

text \<open>Opening a stream or a directory takes a fresh descriptor, closing it gives it back, and the other calls
  take none.\<close>

definition files_fds :: "('w, 'x) files_scheme \<Rightarrow> ('w \<Rightarrow> int set) \<Rightarrow> bool" where
  "files_fds K fds \<longleftrightarrow> api_fds K fds
     \<and> (\<forall>p w r w'. c_fopen K p w = (r, w') \<longrightarrow> (case r of Inr h \<Rightarrow> h \<notin> fds w \<and> fds w' = insert h (fds w) | Inl _ \<Rightarrow> fds w' = fds w))
     \<and> (\<forall>p w r w'. c_opendir K p w = (r, w') \<longrightarrow> (case r of Inr h \<Rightarrow> h \<notin> fds w \<and> fds w' = insert h (fds w) | Inl _ \<Rightarrow> fds w' = fds w))
     \<and> (\<forall>h w. fds (c_fclose K h w) = fds w - {h}) \<and> (\<forall>h w. fds (c_closedir K h w) = fds w - {h})
     \<and> (\<forall>h n. keeps fds (c_fgets K h n)) \<and> (\<forall>h n. keeps fds (c_fread K h n)) \<and> (\<forall>h n. keeps fds (c_fscanf_lf K h n))
     \<and> (\<forall>h. keeps fds (c_fscanf_ld K h)) \<and> (\<forall>h. keeps fds (c_readdir K h))"

lemma files_fds_laws:
  assumes "files_fds K fds"
  shows "api_fds K fds" "fd_table (io K) fds" "side_calls_keep K fds"
    "fds (c_fclose K h w) = fds w - {h}" "fds (c_closedir K h w) = fds w - {h}" "keeps fds (c_fgets K h n)" "keeps fds (c_fread K h n)"
    "keeps fds (c_fscanf_lf K h n)" "keeps fds (c_fscanf_ld K h)" "keeps fds (c_readdir K h)"
  using assms api_fds_laws(1,2) [of K fds] by (simp_all add: files_fds_def)

lemma files_fds_open:
  assumes "files_fds K fds"
  shows "c_fopen K p w = (Inr h, w') \<Longrightarrow> h \<notin> fds w \<and> fds w' = insert h (fds w)" "c_fopen K p w = (Inl e, w') \<Longrightarrow> fds w' = fds w"
    "c_opendir K p w = (Inr h, w') \<Longrightarrow> h \<notin> fds w \<and> fds w' = insert h (fds w)" "c_opendir K p w = (Inl e, w') \<Longrightarrow> fds w' = fds w"
proof -
  have law: "\<forall>p w r w'. c_fopen K p w = (r, w') \<longrightarrow> (case r of Inr h \<Rightarrow> h \<notin> fds w \<and> fds w' = insert h (fds w) | Inl _ \<Rightarrow> fds w' = fds w)"
    "\<forall>p w r w'. c_opendir K p w = (r, w') \<longrightarrow> (case r of Inr h \<Rightarrow> h \<notin> fds w \<and> fds w' = insert h (fds w) | Inl _ \<Rightarrow> fds w' = fds w)"
    using assms unfolding files_fds_def by - (elim conjE, assumption)+
  show "c_fopen K p w = (Inr h, w') \<Longrightarrow> h \<notin> fds w \<and> fds w' = insert h (fds w)" "c_fopen K p w = (Inl e, w') \<Longrightarrow> fds w' = fds w"
    using law(1) [rule_format, of p w "Inr h" w'] law(1) [rule_format, of p w "Inl e" w'] by simp_all
  show "c_opendir K p w = (Inr h, w') \<Longrightarrow> h \<notin> fds w \<and> fds w' = insert h (fds w)" "c_opendir K p w = (Inl e, w') \<Longrightarrow> fds w' = fds w"
    using law(2) [rule_format, of p w "Inr h" w'] law(2) [rule_format, of p w "Inl e" w'] by simp_all
qed

text \<open>The loops and the shapes around them keep the descriptors if their bodies do.\<close>

lemma line_loop_inv:
  assumes "line_loop K fp n body acc w = Some (a, w')" and K: "\<And>h n. keeps P (c_fgets K h n)"
    and body: "\<And>line acc. I acc \<Longrightarrow> I (body line acc)"
  shows "P w' = P w \<and> (I acc \<longrightarrow> I a)"
proof -
  let ?Q = "\<lambda>K' (fp :: int) (n :: nat) b acc w x. K' = K \<longrightarrow> b = body \<longrightarrow> P (snd x) = P w \<and> (I acc \<longrightarrow> I (fst x))"
  have "?Q K fp n body acc w (a, w')"
  proof (rule line_loop.raw_induct [where P = ?Q, OF _ assms(1)], goal_cases)
    case (1 loop K' fp n b acc w x)
    obtain r v where r: "c_fgets K fp n w = (r, v)" by (meson surj_pair)
    show ?case using 1 keepsD [OF K r] body by (cases x) (auto simp: r split: option.split_asm)
  qed
  then show ?thesis by simp
qed

lemma dir_loop_inv:
  assumes "dir_loop K dir body acc w = Some (a, w')"
    and body: "\<And>name acc v go acc1 v1. body name acc v = Some ((go, acc1), v1) \<Longrightarrow> I acc v \<Longrightarrow> I acc1 v1"
    and read: "\<And>acc w r v. c_readdir K dir w = (r, v) \<Longrightarrow> I acc w \<Longrightarrow> I acc v" and "I acc w"
  shows "I a w'"
proof -
  let ?Q = "\<lambda>K' d b acc w x. K' = K \<longrightarrow> d = dir \<longrightarrow> b = body \<longrightarrow> I acc w \<longrightarrow> I (fst x) (snd x)"
  have "?Q K dir body acc w (a, w')"
  proof (rule dir_loop.raw_induct [where P = ?Q, OF _ assms(1)], goal_cases)
    case (1 loop K' d b acc w x)
    show ?case
    proof (intro impI)
      assume p: "K' = K" "d = dir" "b = body" "I acc w"
      obtain r v where r: "c_readdir K dir w = (r, v)" by (meson surj_pair)
      have v: "I acc v" by (rule read [OF r p(4)])
      show "I (fst x) (snd x)"
      proof (cases r)
        case None
        then show ?thesis using 1(2) p r v by auto
      next
        case (Some name)
        obtain go acc1 v1 where b1: "body name acc v = Some ((go, acc1), v1)"
          using 1(2) p r Some by (auto split: Option.bind_split_asm)
        note v1 = body [OF b1 v]
        show ?thesis
        proof (cases go)
          case True
          then have "loop K dir body acc1 v1 = Some (fst x, snd x)" using 1(2) p r Some b1 by simp
          from 1(1) [OF this] v1 show ?thesis by simp
        next
          case False
          then show ?thesis using 1(2) p r Some b1 v1 by auto
        qed
      qed
    qed
  qed
  with assms(4) show ?thesis by simp
qed

lemma with_lines_inv:
  assumes K: "files_fds K fds" and run: "with_lines K name n body acc w = Some (a, w')"
    and body: "\<And>line acc. I acc \<Longrightarrow> I (body line acc)" and "I acc"
  shows "fds w' = fds w \<and> (\<forall>x. a = Some x \<longrightarrow> I x)"
proof -
  obtain r w1 where r: "c_fopen K name w = (r, w1)" by (meson surj_pair)
  show ?thesis
  proof (cases r)
    case (Inl e)
    then show ?thesis using run r files_fds_open(2) [OF K, of name w e w1] by (auto simp: with_lines_def)
  next
    case (Inr h)
    then obtain b w2 where b: "line_loop K h n body acc w1 = Some (b, w2)" "w' = c_fclose K h w2" "a = Some b"
      using run r by (auto simp: with_lines_def split: Option.bind_split_asm)
    have "fds w2 = fds w1 \<and> (I acc \<longrightarrow> I b)" by (rule line_loop_inv [OF b(1) files_fds_laws(6) [OF K]]) (rule body)
    then show ?thesis using files_fds_open(1) [OF K r [unfolded Inr]] b(2,3) files_fds_laws(4) [OF K] assms(4) by simp
  qed
qed

lemma with_lines_fds: "files_fds K fds \<Longrightarrow> with_lines K name n body acc w = Some (a, w') \<Longrightarrow> fds w' = fds w"
  using with_lines_inv [of K fds name n body acc w a w' "\<lambda>_. True"] by simp

text \<open>An invariant of what a directory gives, beside the descriptors.\<close>

lemma with_dir_inv:
  assumes K: "files_fds K fds" and run: "with_dir K base body acc w = Some (a, w')"
    and body: "\<And>name acc v go acc1 v1. body name acc v = Some ((go, acc1), v1) \<Longrightarrow> fds v1 = fds v \<and> (I acc \<longrightarrow> I acc1)" and "I acc"
  shows "fds w' = fds w \<and> (\<forall>x. a = Some x \<longrightarrow> I x)"
proof -
  obtain r w1 where r: "c_opendir K base w = (r, w1)" by (meson surj_pair)
  show ?thesis
  proof (cases r)
    case (Inl e)
    then show ?thesis using run r files_fds_open(4) [OF K, of base w e w1] by (auto simp: with_dir_def)
  next
    case (Inr h)
    then obtain b w2 where b: "dir_loop K h body acc w1 = Some (b, w2)" "w' = c_closedir K h w2" "a = Some b"
      using run r by (auto simp: with_dir_def split: Option.bind_split_asm)
    have "I b \<and> fds w2 = fds w1"
      by (rule dir_loop_inv [OF b(1), where I = "\<lambda>a v. I a \<and> fds v = fds w1"])
        (use body assms(4) keepsD [OF files_fds_laws(10) [OF K]] in auto)
    then show ?thesis using files_fds_open(3) [OF K r [unfolded Inr]] b(2,3) files_fds_laws(5) [OF K] by simp
  qed
qed

lemma buffer_loop_inv:
  assumes "buffer_loop K fd limit acc w = Some ((r, bs), w')"
    and step: "\<And>acc w r w'. sys_read K fd (limit - length acc) w = (r, w') \<Longrightarrow> length acc < limit \<Longrightarrow> I acc w
      \<Longrightarrow> I (case r of Inl _ \<Rightarrow> acc | Inr bs \<Rightarrow> acc @ bs) w'"
    and "I acc w"
  shows "I bs w'"
proof -
  let ?Q = "\<lambda>K' d lim acc w x. K' = K \<longrightarrow> d = fd \<longrightarrow> lim = limit \<longrightarrow> I acc w \<longrightarrow> I (snd (fst x)) (snd x)"
  have "?Q K fd limit acc w ((r, bs), w')"
  proof (rule buffer_loop.raw_induct [where P = ?Q, OF _ assms(1)], goal_cases)
    case (1 loop K' d lim acc w x)
    show ?case
    proof (intro impI)
      assume p: "K' = K" "d = fd" "lim = limit" "I acc w"
      obtain r w1 where r: "sys_read K fd (limit - length acc) w = (r, w1)" by (meson surj_pair)
      let ?acc = "case r of Inl _ \<Rightarrow> acc | Inr bs \<Rightarrow> acc @ bs"
      have I1: "length acc < limit \<Longrightarrow> I ?acc w1" using step [OF r] p(4) by blast
      have "snd (fst x) = acc \<and> snd x = w \<or> length acc < limit \<and> (snd (fst x) = ?acc \<and> snd x = w1 \<or> loop K fd limit ?acc w1 = Some x)"
        using 1(2) unfolding p(1-3) by (auto simp: r split: if_split_asm sum.split_asm)
      then show "I (snd (fst x)) (snd x)" using I1 p(4) 1(1) [of K fd limit ?acc w1 x] by auto
    qed
  qed
  with assms(3) show ?thesis by simp
qed

lemma read_attribute_fds:
  assumes K: "fd_table K fds" and run: "read_attribute K p n w = Some (r, w')"
  shows "fds w' = fds w"
proof -
  obtain o1 w1 where o1: "sys_open K p (O_RDONLY OR O_CLOEXEC) w = (o1, w1)" by (meson surj_pair)
  show ?thesis
  proof (cases "n < 2 \<or> (\<exists>e. o1 = Inl e)")
    case True
    then show ?thesis using run fd_table_open(2) [OF K] o1 by (auto simp: read_attribute_def split: if_splits sum.splits)
  next
    case False
    then obtain fd where fd: "o1 = Inr fd" by (cases o1) auto
    obtain e bs w2 where b: "buffer_loop K fd (n - 1) [] w1 = Some ((e, bs), w2)"
      using run False o1 fd by (auto simp: read_attribute_def split: Option.bind_splits)
    have "fds w2 = fds w1"
      by (rule buffer_loop_inv [OF b, where I = "\<lambda>_ v. fds v = fds w1"]) (use fd_table_keep(1) [OF K] in auto)
    note w2 = open_close_fds [OF K o1 [unfolded fd] this]
    have "w' = snd (sys_close K fd w2)"
      using run False o1 fd b by (auto simp: read_attribute_def Let_def split: sum.splits prod.splits option.splits)
    with w2 show ?thesis by simp
  qed
qed

lemma length_cstr_bytes: "length (cstr (map byte_char bs)) \<le> length bs" "length (cstr (strip_newlines (map byte_char bs))) \<le> length bs"
  using length_cstr [of "map byte_char bs"] length_cstr [of "strip_newlines (map byte_char bs)"] length_strip_newlines [of "map byte_char bs"] by simp_all

lemma read_attribute_fits:
  assumes "posix K" and run: "read_attribute K p n w = Some ((r, s), w')"
  shows "length s \<le> n - 1"
proof (cases "s = []")
  case False
  then obtain fd w1 e bs w2 where b: "buffer_loop K fd (n - 1) [] w1 = Some ((e, bs), w2)"
    "s = cstr (map byte_char bs) \<or> s = cstr (strip_newlines (map byte_char bs))"
    using run by (auto simp: read_attribute_def Let_def split: if_split_asm sum.split_asm prod.split_asm option.split_asm Option.bind_split_asm)
  have "length b \<le> n" if "sys_read K fd n w = (Inr b, w')" for n w b w'
    using assms(1) that unfolding posix_def by blast
  then have "length bs \<le> n - 1"
    using buffer_loop_inv [OF b(1), where I = "\<lambda>acc _. length acc \<le> n - 1"] by (fastforce split: sum.splits)
  then show ?thesis using b(2) length_cstr_bytes [of bs] by (metis le_trans)
qed simp

lemma attribute_fds:
  assumes K: "fd_table K fds"
  shows "text_attribute K base name attr n w = Some (s, w') \<Longrightarrow> fds w' = fds w"
    and "(\<And>p w r w'. read p w = Some (r, w') \<Longrightarrow> fds w' = fds w) \<Longrightarrow> number_attribute read base name attr w = Some (v, w') \<Longrightarrow> fds w' = fds w"
proof -
  show "text_attribute K base name attr n w = Some (s, w') \<Longrightarrow> fds w' = fds w"
    by (auto simp: text_attribute_def dest: read_attribute_fds [OF K] split: option.split_asm Option.bind_split_asm)
  show "(\<And>p w r w'. read p w = Some (r, w') \<Longrightarrow> fds w' = fds w) \<Longrightarrow> number_attribute read base name attr w = Some (v, w') \<Longrightarrow> fds w' = fds w"
    by (auto simp: number_attribute_def split: option.split_asm Option.bind_split_asm)
qed

lemma number_attribute_fds:
  assumes K: "fd_table K fds"
  shows "number_attribute (sysfs_read_long K) base name attr w = Some (l, w') \<Longrightarrow> fds w' = fds w"
    and "number_attribute (sysfs_read_ulong K) base name attr w = Some (u, w') \<Longrightarrow> fds w' = fds w"
    and "number_attribute (sysfs_read_ull K) base name attr w = Some (u, w') \<Longrightarrow> fds w' = fds w"
proof -
  note numbers = sysfs_read_numbers_fds [OF K]
  show "number_attribute (sysfs_read_long K) base name attr w = Some (l, w') \<Longrightarrow> fds w' = fds w"
    by (rule attribute_fds(2) [OF K, of "sysfs_read_long K"]) (auto dest: numbers)
  show "number_attribute (sysfs_read_ulong K) base name attr w = Some (u, w') \<Longrightarrow> fds w' = fds w"
    by (rule attribute_fds(2) [OF K, of "sysfs_read_ulong K"]) (auto dest: numbers)
  show "number_attribute (sysfs_read_ull K) base name attr w = Some (u, w') \<Longrightarrow> fds w' = fds w"
    by (rule attribute_fds(2) [OF K, of "sysfs_read_ull K"]) (auto dest: numbers)
qed




text \<open>A stream that was opened, used, and closed.\<close>

lemma stream_fds: "files_fds K fds \<Longrightarrow> c_fopen K p w = (Inr fp, w1) \<Longrightarrow> fds w2 = fds w1 \<Longrightarrow> fds (c_fclose K fp w2) = fds w"
  using files_fds_open(1) [of K fds p w fp w1] by (auto simp: files_fds_laws(4))

lemma stdout_fds: "files_fds K fds \<Longrightarrow> fds (stdout K s w) = fds w"
  by (rule side_calls(9) [OF files_fds_laws(3)])

end
