(* ===== verification/Demo_Files.thy ===== *)
theory Demo_Files
  imports File_Streams
begin

text \<open>
  Streams and directories for the concrete runs: a few files of \<^verbatim>\<open>/proc\<close> with their lines, and directories with
  their entries.  The processor has 100 units of time between two looks at it, 75 of them idle.
\<close>

definition demo_stat :: "nat \<Rightarrow> string" where
  "demo_stat t = ''cpu  '' @ dec (10 + 20 * t) @ '' 0 '' @ dec (5 + 5 * t) @ '' '' @ dec (100 + 75 * t) @ '' 0 0 0 0'' @ [NL]"

definition demo_status :: "string \<Rightarrow> nat \<Rightarrow> string list" where
  "demo_status name kb = [''Name:'' @ [CHR 0x09] @ name @ [NL], ''State:'' @ [CHR 0x09] @ ''S (sleeping)'' @ [NL],
     ''VmRSS:'' @ [CHR 0x09] @ '' '' @ dec kb @ '' kB'' @ [NL], ''Threads:'' @ [CHR 0x09] @ ''2'' @ [NL]]"

definition demo_file :: "nat \<Rightarrow> string \<Rightarrow> string list option" where
  "demo_file t = map_of [
     (''/proc/stat'', [demo_stat t]),
     (''/proc/meminfo'', [''MemTotal:        1000 kB'' @ [NL], ''MemFree:          200 kB'' @ [NL], ''MemAvailable:     250 kB'' @ [NL]]),
     (''/proc/loadavg'', [''1 2 3'']), (''/proc/uptime'', [''90061'']),
     (''/proc/12/status'', demo_status ''sshd'' 900), (''/proc/7/status'', demo_status ''init'' 100)]"

definition demo_dir :: "string \<Rightarrow> string list option" where
  "demo_dir = map_of [(''/proc'', [''.'', ''12'', ''self'', ''7'']), (''/sys/class/thermal'', [''thermal_zone1'', ''cooling_device0'', ''thermal_zone0''])]"

definition d_open :: "string list option \<Rightarrow> demo_world \<Rightarrow> (int + int) \<times> demo_world" where
  "d_open items w = (case items of
     None \<Rightarrow> (Inl ENOENT, w)
   | Some xs \<Rightarrow> let fd = d_fresh (d_fds w) in (Inr fd, w\<lparr>d_fds := fd # d_fds w, d_streams := (fd, xs) # d_streams w\<rparr>))"

definition d_items :: "int \<Rightarrow> demo_world \<Rightarrow> string list" where
  "d_items fd w = (case map_of (d_streams w) fd of Some xs \<Rightarrow> xs | None \<Rightarrow> [])"

definition d_next_item :: "int \<Rightarrow> demo_world \<Rightarrow> string option \<times> demo_world" where
  "d_next_item fd w = (case d_items fd w of [] \<Rightarrow> (None, w) | x # xs \<Rightarrow> (Some x, w\<lparr>d_streams := (fd, xs) # d_streams w\<rparr>))"

definition d_close :: "int \<Rightarrow> demo_world \<Rightarrow> demo_world" where
  "d_close fd w = w\<lparr>d_fds := filter (\<lambda>x. x \<noteq> fd) (d_fds w)\<rparr>"

definition demo_streams :: "demo_world files" where
  "demo_streams = env.extend demo_env (files.fields (\<lambda>p w. d_open (demo_file (d_clock w) p) w) (\<lambda>fd n. d_next_item fd)
     (\<lambda>fd n w. (take n (concat (d_items fd w)), w)) (\<lambda>fd n w. (map of_nat (scan_ulongs n (concat (d_items fd w))), w))
     (\<lambda>fd w. (map_option (int \<circ> fst) (scan_ulong (concat (d_items fd w))), w)) d_close
     (\<lambda>p w. d_open (demo_dir p) w) d_next_item d_close (\<lambda>p w. False) (\<lambda>w. Some (''6.1.0'', ''aarch64'')) (\<lambda>w. Some ''board'') (\<lambda>w. 4)
     (\<lambda>n x. dec_int \<lfloor>x\<rfloor>))"

declare demo_streams_def [code]

lemma demo_streams_sel:
  "waitpid_one demo_streams = waitpid_one demo_env" "waitpid_group demo_streams = waitpid_group demo_env" "Job.kill demo_streams = Job.kill demo_env"
  "nanosleep demo_streams = nanosleep demo_env" "stdout demo_streams = stdout demo_env" "io demo_streams = io demo_env"
  "sys_pipe demo_streams = sys_pipe demo_env" "sys_fork demo_streams = sys_fork demo_env" "sys_setpgid demo_streams = sys_setpgid demo_env"
  "sys_getfd demo_streams = sys_getfd demo_env" "sys_setfd demo_streams = sys_setfd demo_env" "sys_getfl demo_streams = sys_getfl demo_env"
  "sys_setfl demo_streams = sys_setfl demo_env" "sys_dupfd demo_streams = sys_dupfd demo_env" "sys_dup2 demo_streams = sys_dup2 demo_env"
  "sys_tcgetpgrp demo_streams = sys_tcgetpgrp demo_env" "sys_tcsetpgrp demo_streams = sys_tcsetpgrp demo_env"
  "sys_sigprocmask demo_streams = sys_sigprocmask demo_env" "sys_sigaction demo_streams = sys_sigaction demo_env"
  "c_fopen demo_streams = (\<lambda>p w. d_open (demo_file (d_clock w) p) w)" "c_opendir demo_streams = (\<lambda>p w. d_open (demo_dir p) w)"
  "c_fclose demo_streams = d_close" "c_closedir demo_streams = d_close" "c_fgets demo_streams = (\<lambda>fd n. d_next_item fd)" "c_readdir demo_streams = d_next_item"
  "c_fread demo_streams = (\<lambda>fd n w. (take n (concat (d_items fd w)), w))"
  "c_fscanf_lf demo_streams = (\<lambda>fd n w. (map of_nat (scan_ulongs n (concat (d_items fd w))), w))"
  "c_fscanf_ld demo_streams = (\<lambda>fd w. (map_option (int \<circ> fst) (scan_ulong (concat (d_items fd w))), w))"
  by (simp_all add: demo_streams_def demo_env_def demo_api_def api.defs env.defs files.defs)

text \<open>The laws of the streams, for this kernel and every extension of it.\<close>

lemma demo_stream_laws:
  "c_fopen demo_streams p w = (r, w') \<longrightarrow> (case r of Inr h \<Rightarrow> h \<notin> demo_fds w \<and> demo_fds w' = insert h (demo_fds w) | Inl _ \<Rightarrow> demo_fds w' = demo_fds w)"
  "c_opendir demo_streams p w = (r, w') \<longrightarrow> (case r of Inr h \<Rightarrow> h \<notin> demo_fds w \<and> demo_fds w' = insert h (demo_fds w) | Inl _ \<Rightarrow> demo_fds w' = demo_fds w)"
  "demo_fds (c_fclose demo_streams h w) = demo_fds w - {h}" "demo_fds (c_closedir demo_streams h w) = demo_fds w - {h}"
  "keeps demo_fds (c_fgets demo_streams h n)" "keeps demo_fds (c_fread demo_streams h n)" "keeps demo_fds (c_fscanf_lf demo_streams h n)"
  "keeps demo_fds (c_fscanf_ld demo_streams h)" "keeps demo_fds (c_readdir demo_streams h)"
  by (auto simp: demo_streams_sel d_open_def Let_def d_close_def keeps_def d_next_item_def split: option.split list.split)

lemma demo_streams_fds: "files_fds demo_streams demo_fds"
proof -
  have "api_fds demo_streams demo_fds"
    using demo_env_laws(1,3) by (simp add: side_calls_keep_def api_fds_def demo_streams_sel)
  then show ?thesis using demo_stream_laws by (simp add: files_fds_def)
qed

end
