(* ===== verification/Monitors.thy ===== *)
theory Monitors
  imports Demo_Files "HOL-Library.Char_ord" "HOL-Library.List_Lexorder"
begin

text \<open>
  The thermal, network and process monitors, \<^verbatim>\<open>src/thermal_monitor.c\<close>, \<^verbatim>\<open>src/network_monitor.c\<close> and
  \<^verbatim>\<open>src/process_monitor.c\<close>.  A result is \<open>Inl\<close> of the code or \<open>Inr\<close> of what was collected; a bounded array with its
  count is a list, and a value with its \<^verbatim>\<open>has_\<close> flag an option.  Strings are ordered as \<^verbatim>\<open>strcmp\<close> orders them; where
  \<^verbatim>\<open>qsort\<close> may arrange equal keys as it likes, they keep their order.
\<close>

section \<open>Thermal zones\<close>

record ThermalRuntimeInfo =
  thermal_name :: string
  thermal_type :: string
  temperature :: "rat option"

abbreviation (input) THERMAL_MONITOR_MAX_ZONES :: nat where "THERMAL_MONITOR_MAX_ZONES \<equiv> 16"

definition degrees :: "int \<Rightarrow> rat" where
  "degrees t = of_int t / 1000"

definition thermal_entry ::
  "('w, 'x) files_scheme \<Rightarrow> string \<Rightarrow> string \<Rightarrow> ThermalRuntimeInfo list \<Rightarrow> 'w \<Rightarrow> ((bool \<times> ThermalRuntimeInfo list) \<times> 'w) option" where
  "thermal_entry K base name zones w =
     (if after_prefix ''thermal_zone'' name = None then Some ((True, zones), w)
      else if length zones \<ge> THERMAL_MONITOR_MAX_ZONES then Some ((False, zones), w)
      else do {
        (kind, w1) \<leftarrow> text_attribute (io K) base name ''type'' 64 w;
        (t, w2) \<leftarrow> number_attribute (sysfs_read_long (io K)) base name ''temp'' w1;
        Some ((True, zones @ [\<lparr>thermal_name = copy_text 64 name, thermal_type = kind, temperature = map_option degrees t\<rparr>]), w2) })"

definition thermal_monitor_collect_from :: "('w, 'x) files_scheme \<Rightarrow> string \<Rightarrow> 'w \<Rightarrow> ((int + ThermalRuntimeInfo list) \<times> 'w) option" where
  "thermal_monitor_collect_from K base w =
     (if base = [] then Some (Inl MiniShell_ERR_UNKNOWN, w)
      else do {
        (r, w1) \<leftarrow> with_dir K base (thermal_entry K base) [] w;
        Some (case r of None \<Rightarrow> Inl MiniShell_ERR_OPEN | Some zones \<Rightarrow> Inr (sort_key thermal_name zones), w1) })"

definition thermal_monitor_collect :: "('w, 'x) files_scheme \<Rightarrow> 'w \<Rightarrow> ((int + ThermalRuntimeInfo list) \<times> 'w) option" where
  "thermal_monitor_collect K w = thermal_monitor_collect_from K ''/sys/class/thermal'' w"

definition hotter :: "ThermalRuntimeInfo option \<Rightarrow> ThermalRuntimeInfo \<Rightarrow> ThermalRuntimeInfo option" where
  "hotter hottest info = (case temperature info of
     None \<Rightarrow> hottest
   | Some t \<Rightarrow> (case hottest of None \<Rightarrow> Some info | Some h \<Rightarrow> if t > the (temperature h) then Some info else hottest))"

definition thermal_monitor_hottest :: "ThermalRuntimeInfo list \<Rightarrow> ThermalRuntimeInfo option" where
  "thermal_monitor_hottest zones = foldl hotter None zones"

section \<open>Network interfaces\<close>

record NetworkRuntimeInfo =
  net_name :: string
  net_state :: string
  rx_bytes :: "nat option"
  tx_bytes :: "nat option"

abbreviation (input) NETWORK_MONITOR_MAX_INTERFACES :: nat where "NETWORK_MONITOR_MAX_INTERFACES \<equiv> 16"

definition network_entry ::
  "('w, 'x) files_scheme \<Rightarrow> string \<Rightarrow> string \<Rightarrow> NetworkRuntimeInfo list \<Rightarrow> 'w \<Rightarrow> ((bool \<times> NetworkRuntimeInfo list) \<times> 'w) option" where
  "network_entry K base name nets w =
     (if name \<noteq> [] \<and> hd name = CHR ''.'' then Some ((True, nets), w)
      else if length nets \<ge> NETWORK_MONITOR_MAX_INTERFACES then Some ((False, nets), w)
      else do {
        (st, w1) \<leftarrow> text_attribute (io K) base name ''operstate'' 32 w;
        (rx, w2) \<leftarrow> number_attribute (sysfs_read_ull (io K)) base name ''statistics/rx_bytes'' w1;
        (tx, w3) \<leftarrow> number_attribute (sysfs_read_ull (io K)) base name ''statistics/tx_bytes'' w2;
        Some ((True, nets @ [\<lparr>net_name = copy_text 64 name, net_state = st, rx_bytes = rx, tx_bytes = tx\<rparr>]), w3) })"

definition network_monitor_collect_from :: "('w, 'x) files_scheme \<Rightarrow> string \<Rightarrow> 'w \<Rightarrow> ((int + NetworkRuntimeInfo list) \<times> 'w) option" where
  "network_monitor_collect_from K base w =
     (if base = [] then Some (Inl MiniShell_ERR_UNKNOWN, w)
      else do {
        (r, w1) \<leftarrow> with_dir K base (network_entry K base) [] w;
        Some (case r of None \<Rightarrow> Inl MiniShell_ERR_OPEN | Some nets \<Rightarrow> Inr (sort_key net_name nets), w1) })"

definition network_monitor_collect :: "('w, 'x) files_scheme \<Rightarrow> 'w \<Rightarrow> ((int + NetworkRuntimeInfo list) \<times> 'w) option" where
  "network_monitor_collect K w = network_monitor_collect_from K ''/sys/class/net'' w"

definition network_monitor_primary :: "NetworkRuntimeInfo list \<Rightarrow> NetworkRuntimeInfo option" where
  "network_monitor_primary nets =
     (if nets = [] then None
      else case find (\<lambda>i. net_name i \<noteq> ''lo'' \<and> net_state i = ''up'') nets of
        Some i \<Rightarrow> Some i
      | None \<Rightarrow> (case find (\<lambda>i. net_name i \<noteq> ''lo'') nets of Some i \<Rightarrow> Some i | None \<Rightarrow> Some (hd nets)))"

section \<open>Processes\<close>

record ProcessInfo =
  info_pid :: int
  info_name :: string
  info_state :: char
  rss_kb :: nat
  threads :: uint32

definition copy_status_text :: "nat \<Rightarrow> string \<Rightarrow> string" where
  "copy_status_text n s = take (n - 1) (until_newline (skip_blanks s))"

definition status_line :: "string \<Rightarrow> ProcessInfo \<Rightarrow> ProcessInfo" where
  "status_line line info =
     (case after_prefix ''Name:'' line of
        Some text \<Rightarrow> info\<lparr>info_name := copy_status_text 64 text\<rparr>
      | None \<Rightarrow> (case after_prefix ''State:'' line of
          Some text \<Rightarrow> (case skip_blanks text of [] \<Rightarrow> info | c # _ \<Rightarrow> info\<lparr>info_state := c\<rparr>)
        | None \<Rightarrow> (case after_prefix ''VmRSS:'' line of
            Some text \<Rightarrow> (case scan_ulong text of Some (v, _) \<Rightarrow> info\<lparr>rss_kb := v\<rparr> | None \<Rightarrow> info)
          | None \<Rightarrow> (case after_prefix ''Threads:'' line of
              Some text \<Rightarrow> (case scan_ulong text of Some (v, _) \<Rightarrow> info\<lparr>threads := of_nat v\<rparr> | None \<Rightarrow> info)
            | None \<Rightarrow> info))))"

definition process_monitor_get :: "('w, 'x) files_scheme \<Rightarrow> int \<Rightarrow> 'w \<Rightarrow> ((int + ProcessInfo) \<times> 'w) option" where
  "process_monitor_get K n w =
     (if n \<le> 0 then Some (Inl MiniShell_ERR_UNKNOWN, w)
      else do {
        (r, w1) \<leftarrow> with_lines K (''/proc/'' @ dec_int n @ ''/status'') 256 status_line
          \<lparr>info_pid = n, info_name = [], info_state = CHR ''?'', rss_kb = 0, threads = 0\<rparr> w;
        Some (case r of
            None \<Rightarrow> Inl MiniShell_ERR_OPEN
          | Some info \<Rightarrow> if info_name info = [] then Inl MiniShell_ERR_UNKNOWN else Inr info, w1) })"

text \<open>The array that grows: whether the last \<^verbatim>\<open>realloc\<close> succeeded, the entries, the capacity, and the number of
  allocations so far; \<open>mem\<close> says which allocations succeed.\<close>

definition process_entry ::
  "('w, 'x) files_scheme \<Rightarrow> (nat \<Rightarrow> bool) \<Rightarrow> string \<Rightarrow> bool \<times> ProcessInfo list \<times> nat \<times> nat \<Rightarrow> 'w
     \<Rightarrow> ((bool \<times> bool \<times> ProcessInfo list \<times> nat \<times> nat) \<times> 'w) option" where
  "process_entry K mem name = (\<lambda>(ok, ps, capacity, k) w.
     if \<not> is_pid_name name then Some ((True, ok, ps, capacity, k), w)
     else case strtol10 name of (n, rest, erange) \<Rightarrow>
       if erange \<or> rest \<noteq> [] \<or> n \<le> 0 \<or> n > INT_MAX then Some ((True, ok, ps, capacity, k), w)
       else do {
         (r, w1) \<leftarrow> process_monitor_get K n w;
         Some (case r of
             Inl _ \<Rightarrow> (True, ok, ps, capacity, k)
           | Inr info \<Rightarrow>
               if length ps \<noteq> capacity then (True, ok, ps @ [info], capacity, k)
               else if mem k then (True, ok, ps @ [info], capacity * 2, Suc k)
               else (False, False, ps, capacity, Suc k), w1) })"

definition process_monitor_collect :: "('w, 'x) files_scheme \<Rightarrow> (nat \<Rightarrow> bool) \<Rightarrow> 'w \<Rightarrow> ((int + ProcessInfo list) \<times> 'w) option" where
  "process_monitor_collect K mem w = (case c_opendir K ''/proc'' w of
     (Inl _, w1) \<Rightarrow> Some (Inl MiniShell_ERR_OPEN, w1)
   | (Inr dir, w1) \<Rightarrow>
       if \<not> mem 0 then Some (Inl MiniShell_ERR_MEMORY, c_closedir K dir w1)
       else do {
         ((ok, ps, _), w2) \<leftarrow> dir_loop K dir (process_entry K mem) (True, [], 64, 1) w1;
         Some (if ok then Inr (sort_key info_pid ps) else Inl MiniShell_ERR_MEMORY, c_closedir K dir w2) })"

section \<open>Descriptors\<close>

lemma thermal_entry_fds:
  assumes K: "fd_table (io K) fds" and "thermal_entry K base name zs w = Some ((go, zs'), w')"
  shows "fds w' = fds w \<and> (length zs \<le> 16 \<longrightarrow> length zs' \<le> 16)"
  using assms(2) attribute_fds(1) [OF K] number_attribute_fds(1) [OF K]
  by (fastforce simp: thermal_entry_def split: if_split_asm Option.bind_split_asm)

lemma network_entry_fds:
  assumes K: "fd_table (io K) fds" and "network_entry K base name ns w = Some ((go, ns'), w')"
  shows "fds w' = fds w \<and> (length ns \<le> 16 \<longrightarrow> length ns' \<le> 16)"
  using assms(2) attribute_fds(1) [OF K] number_attribute_fds(3) [OF K]
  by (fastforce simp: network_entry_def split: if_split_asm Option.bind_split_asm)

lemma monitor_collect_fds:
  assumes K: "files_fds K fds"
  shows "thermal_monitor_collect_from K base w = Some (r, w') \<Longrightarrow> fds w' = fds w \<and> (\<forall>zs. r = Inr zs \<longrightarrow> length zs \<le> 16 \<and> sorted (map thermal_name zs))"
    and "network_monitor_collect_from K base w = Some (r', w') \<Longrightarrow> fds w' = fds w \<and> (\<forall>ns. r' = Inr ns \<longrightarrow> length ns \<le> 16 \<and> sorted (map net_name ns))"
proof -
  show "thermal_monitor_collect_from K base w = Some (r, w') \<Longrightarrow> fds w' = fds w \<and> (\<forall>zs. r = Inr zs \<longrightarrow> length zs \<le> 16 \<and> sorted (map thermal_name zs))"
    using with_dir_inv [OF K, of base "thermal_entry K base" "[]" w _ w' "\<lambda>zs. length zs \<le> 16"] thermal_entry_fds [OF files_fds_laws(2) [OF K]]
    by (fastforce simp: thermal_monitor_collect_from_def split: if_split_asm Option.bind_split_asm option.split_asm)
  show "network_monitor_collect_from K base w = Some (r', w') \<Longrightarrow> fds w' = fds w \<and> (\<forall>ns. r' = Inr ns \<longrightarrow> length ns \<le> 16 \<and> sorted (map net_name ns))"
    using with_dir_inv [OF K, of base "network_entry K base" "[]" w _ w' "\<lambda>ns. length ns \<le> 16"] network_entry_fds [OF files_fds_laws(2) [OF K]]
    by (fastforce simp: network_monitor_collect_from_def split: if_split_asm Option.bind_split_asm option.split_asm)
qed

definition process_info_ok :: "ProcessInfo \<Rightarrow> bool" where
  "process_info_ok p \<longleftrightarrow> 1 \<le> info_pid p \<and> info_pid p \<le> INT_MAX \<and> info_name p \<noteq> [] \<and> length (info_name p) < 64 \<and> CR \<notin> set (info_name p) \<and> NL \<notin> set (info_name p)"

lemma copy_status_text_ok: "length (copy_status_text 64 s) < 64" "CR \<notin> set (copy_status_text 64 s)" "NL \<notin> set (copy_status_text 64 s)"
  by (auto simp: copy_status_text_def until_newline_def dest!: in_set_takeD set_takeWhileD)

lemma process_get:
  assumes K: "files_fds K fds" and g: "process_monitor_get K n w = Some (r, w')"
  shows "fds w' = fds w \<and> (\<forall>p. r = Inr p \<longrightarrow> 0 < n \<and> info_pid p = n \<and> (n \<le> INT_MAX \<longrightarrow> process_info_ok p))"
proof (cases "n \<le> 0")
  case True
  then show ?thesis using g by (auto simp: process_monitor_get_def)
next
  case False
  let ?I = "\<lambda>p. info_pid p = n \<and> length (info_name p) < 64 \<and> CR \<notin> set (info_name p) \<and> NL \<notin> set (info_name p)"
  have body: "?I (status_line line p)" if "?I p" for line p
    using that by (auto simp: status_line_def copy_status_text_ok split: option.split list.split)
  obtain x where x: "with_lines K (''/proc/'' @ dec_int n @ ''/status'') 256 status_line
      \<lparr>info_pid = n, info_name = [], info_state = CHR ''?'', rss_kb = 0, threads = 0\<rparr> w = Some (x, w')"
    "r = (case x of None \<Rightarrow> Inl MiniShell_ERR_OPEN | Some info \<Rightarrow> if info_name info = [] then Inl MiniShell_ERR_UNKNOWN else Inr info)"
    using g False by (auto simp: process_monitor_get_def split: Option.bind_split_asm)
  from with_lines_inv [OF K x(1), where I = ?I, OF body] x(2) False show ?thesis
    by (auto simp: process_info_ok_def split: option.split_asm if_split_asm)
qed

lemma process_entry_inv:
  assumes K: "files_fds K fds" and e: "process_entry K mem name (ok, ps, capacity, k) w = Some ((go, ok', ps', rest), w')"
  shows "fds w' = fds w \<and> (list_all process_info_ok ps \<longrightarrow> list_all process_info_ok ps')"
proof -
  obtain n t er where n: "strtol10 name = (n, t, er)" by (metis prod_cases3)
  show ?thesis
  proof (cases "\<not> is_pid_name name \<or> er \<or> t \<noteq> [] \<or> n \<le> 0 \<or> n > INT_MAX")
    case True
    then show ?thesis using e n by (auto simp: process_entry_def split: if_split_asm)
  next
    case False
    then obtain r where r: "process_monitor_get K n w = Some (r, w')"
      using e n by (auto simp: process_entry_def split: Option.bind_split_asm)
    show ?thesis using e n False r process_get [OF K r]
      by (auto simp: process_entry_def split: sum.split_asm if_split_asm)
  qed
qed

lemma process_collect_fds:
  assumes K: "files_fds K fds" and c: "process_monitor_collect K mem w = Some (r, w')"
  shows "fds w' = fds w \<and> (\<forall>ps. r = Inr ps \<longrightarrow> sorted (map info_pid ps) \<and> list_all process_info_ok ps)"
proof -
  obtain d w1 where d: "c_opendir K ''/proc'' w = (d, w1)" by (meson surj_pair)
  show ?thesis
  proof (cases d)
    case (Inl e)
    then show ?thesis using c d files_fds_open(4) [OF K, of "''/proc''" w e w1] by (auto simp: process_monitor_collect_def)
  next
    case (Inr h)
    note op = files_fds_open(3) [OF K d [unfolded Inr]]
    show ?thesis
    proof (cases "mem 0")
      case False
      then show ?thesis using c d Inr op files_fds_laws(5) [OF K] by (auto simp: process_monitor_collect_def)
    next
      case True
      obtain ok ps x w2 where l: "dir_loop K h (process_entry K mem) (True, [], 64, 1) w1 = Some ((ok, ps, x), w2)"
        "w' = c_closedir K h w2" "r = (if ok then Inr (sort_key info_pid ps) else Inl MiniShell_ERR_MEMORY)"
        using c d Inr True by (auto simp: process_monitor_collect_def split: Option.bind_split_asm)
      let ?I = "\<lambda>(ok, ps, rest) v. fds v = fds w1 \<and> list_all process_info_ok ps"
      have "?I (ok, ps, x) w2"
        by (rule dir_loop_inv [OF l(1), where I = ?I])
          (use keepsD [OF files_fds_laws(10) [OF K]] in \<open>auto dest!: process_entry_inv [OF K]\<close>)
      then show ?thesis using l(2,3) op files_fds_laws(5) [OF K] by (auto simp: list_all_iff)
    qed
  qed
qed

section \<open>The hottest zone\<close>

text \<open>\<open>h\<close> is the hottest of \<open>zones\<close>.\<close>

definition hottest_of :: "ThermalRuntimeInfo list \<Rightarrow> ThermalRuntimeInfo option \<Rightarrow> bool" where
  "hottest_of zones h = (case h of
     None \<Rightarrow> (\<forall>z \<in> set zones. temperature z = None)
   | Some z \<Rightarrow> z \<in> set zones \<and> (\<exists>t. temperature z = Some t \<and> (\<forall>y \<in> set zones. \<forall>u. temperature y = Some u \<longrightarrow> u \<le> t)))"

lemma hotter_step:
  assumes "hottest_of zones h" shows "hottest_of (zones @ [z]) (hotter h z)"
proof (cases "temperature z")
  case None
  then show ?thesis using assms by (auto simp: hotter_def hottest_of_def split: option.split_asm)
next
  case t: (Some t)
  show ?thesis
  proof (cases h)
    case None
    then show ?thesis using assms t by (auto simp: hotter_def hottest_of_def)
  next
    case (Some y)
    then obtain u where u: "temperature y = Some u" "y \<in> set zones" "\<forall>x \<in> set zones. \<forall>v. temperature x = Some v \<longrightarrow> v \<le> u"
      using assms by (auto simp: hottest_of_def)
    show ?thesis
    proof (cases "t > u")
      case True
      then have "v \<le> t" if "x \<in> set zones" "temperature x = Some v" for x v using u(3) that by fastforce
      then show ?thesis using t Some u True by (auto simp: hotter_def hottest_of_def)
    next
      case False
      then show ?thesis using t Some u by (auto simp: hotter_def hottest_of_def)
    qed
  qed
qed

lemma hottest_foldl: "hottest_of zones (thermal_monitor_hottest zones)"
proof (induction zones rule: rev_induct)
  case Nil
  show ?case by (simp add: thermal_monitor_hottest_def hottest_of_def)
next
  case (snoc z zones)
  then show ?case using hotter_step by (simp add: thermal_monitor_hottest_def)
qed

lemma find_SomeD: "find P xs = Some x \<Longrightarrow> x \<in> set xs \<and> P x"
  by (auto simp: find_Some_iff)

lemma find_NoneD: "find P xs = None \<Longrightarrow> \<forall>x \<in> set xs. \<not> P x"
  by (auto simp: find_None_iff)

definition primary_of :: "NetworkRuntimeInfo list \<Rightarrow> NetworkRuntimeInfo \<Rightarrow> bool" where
  "primary_of nets i \<longleftrightarrow> i \<in> set nets
     \<and> (net_state i = ''up'' \<and> net_name i \<noteq> ''lo'' \<or> (\<forall>j \<in> set nets. net_name j = ''lo'' \<or> net_state j \<noteq> ''up''))
     \<and> (net_name i \<noteq> ''lo'' \<or> (\<forall>j \<in> set nets. net_name j = ''lo''))"

lemma primary_network: "case network_monitor_primary nets of None \<Rightarrow> nets = [] | Some i \<Rightarrow> primary_of nets i"
proof (cases "nets = []")
  case True
  then show ?thesis by (simp add: network_monitor_primary_def)
next
  case False
  then have "hd nets \<in> set nets" by simp
  with False show ?thesis
    by (cases "find (\<lambda>i. net_name i \<noteq> ''lo'' \<and> net_state i = ''up'') nets"; cases "find (\<lambda>i. net_name i \<noteq> ''lo'') nets")
      (auto simp: network_monitor_primary_def primary_of_def dest!: find_SomeD find_NoneD)
qed

end
