(* ===== verification/Runtime_Monitor.thy ===== *)
theory Runtime_Monitor
  imports Monitors Cmd_Device
begin

text \<open>
  System load, \<^verbatim>\<open>src/runtime_monitor.c\<close>, and the snapshot of all monitors, \<^verbatim>\<open>src/runtime_snapshot.c\<close>.  The counters of \<^verbatim>\<open>/proc/stat\<close> are 64-bit words,
  percentages the exact quotients.
\<close>

section \<open>Processor time\<close>

record CpuSnapshot =
  cpu_total :: "64 word"
  cpu_idle :: "64 word"

text \<open>The fields that \<^verbatim>\<open>sscanf\<close> converts, and the snapshot they make; a missing field is 0.\<close>

definition cpu_fields :: "string \<Rightarrow> 64 word list" where
  "cpu_fields line = (case after_prefix ''cpu'' line of None \<Rightarrow> [] | Some text \<Rightarrow> map of_nat (scan_ulongs 8 text))"

definition cpu_snapshot :: "string \<Rightarrow> int + CpuSnapshot" where
  "cpu_snapshot line =
     (let fs = cpu_fields line; f = (\<lambda>i. if i < length fs then fs ! i else 0);
          total = f 0 + f 1 + f 2 + f 3 + f 4 + f 5 + f 6 + f 7
      in if length fs < 4 \<or> total = 0 then Inl MiniShell_ERR_UNKNOWN
         else Inr \<lparr>cpu_total = total, cpu_idle = f 3 + f 4\<rparr>)"

definition read_cpu_snapshot :: "('w, 'x) files_scheme \<Rightarrow> 'w \<Rightarrow> (int + CpuSnapshot) \<times> 'w" where
  "read_cpu_snapshot K w = (case c_fopen K ''/proc/stat'' w of
     (Inl _, w1) \<Rightarrow> (Inl MiniShell_ERR_OPEN, w1)
   | (Inr fp, w1) \<Rightarrow> (case c_fgets K fp 256 w1 of
       (None, w2) \<Rightarrow> (Inl MiniShell_ERR_UNKNOWN, c_fclose K fp w2)
     | (Some line, w2) \<Rightarrow> (cpu_snapshot line, c_fclose K fp w2)))"

partial_function (option) wait_cpu_sample_for :: "('w, 'x) kernel_scheme \<Rightarrow> nat \<Rightarrow> 'w \<Rightarrow> (int \<times> 'w) option" where
  "wait_cpu_sample_for K ns w = (case nanosleep K ns w of
     (Inr _, w1) \<Rightarrow> Some (MiniShell_OK, w1)
   | (Inl (e, rest), w1) \<Rightarrow> if e \<noteq> EINTR then Some (MiniShell_ERR_UNKNOWN, w1) else wait_cpu_sample_for K rest w1)"

declare wait_cpu_sample_for.simps [code]

definition wait_cpu_sample :: "('w, 'x) kernel_scheme \<Rightarrow> 'w \<Rightarrow> (int \<times> 'w) option" where
  "wait_cpu_sample K w = wait_cpu_sample_for K 100000000 w"

text \<open>What two snapshots say.\<close>

definition cpu_usage_of :: "CpuSnapshot \<Rightarrow> CpuSnapshot \<Rightarrow> int + rat" where
  "cpu_usage_of first second =
     (if cpu_total second \<le> cpu_total first \<or> cpu_idle second < cpu_idle first then Inl MiniShell_ERR_UNKNOWN
      else let total_delta = cpu_total second - cpu_total first; idle_delta = cpu_idle second - cpu_idle first
           in if idle_delta > total_delta then Inl MiniShell_ERR_UNKNOWN
              else Inr (of_nat (unat (total_delta - idle_delta)) * 100 / of_nat (unat total_delta)))"

definition read_cpu :: "('w, 'x) files_scheme \<Rightarrow> 'w \<Rightarrow> ((int + rat) \<times> 'w) option" where
  "read_cpu K w = (case read_cpu_snapshot K w of
     (Inl code, w1) \<Rightarrow> Some (Inl code, w1)
   | (Inr first, w1) \<Rightarrow> do {
       (code, w2) \<leftarrow> wait_cpu_sample K w1;
       if code \<noteq> MiniShell_OK then Some (Inl code, w2)
       else case read_cpu_snapshot K w2 of
         (Inl code, w3) \<Rightarrow> Some (Inl code, w3)
       | (Inr second, w3) \<Rightarrow> Some (cpu_usage_of first second, w3) })"

section \<open>Memory, load, uptime and processes\<close>

text \<open>\<^verbatim>\<open>total\<close> and \<^verbatim>\<open>available\<close> of \<^verbatim>\<open>/proc/meminfo\<close>.\<close>

definition memory_line :: "string \<Rightarrow> nat \<times> nat \<Rightarrow> nat \<times> nat" where
  "memory_line line = (\<lambda>(total, available).
     case Option.bind (after_prefix ''MemTotal:'' line) scan_ulong of
       Some (v, _) \<Rightarrow> (v, available)
     | None \<Rightarrow> (case Option.bind (after_prefix ''MemAvailable:'' line) scan_ulong of
         Some (v, _) \<Rightarrow> (total, v)
       | None \<Rightarrow> (total, available)))"

definition memory_usage_of :: "nat \<times> nat \<Rightarrow> int + rat" where
  "memory_usage_of = (\<lambda>(total, available).
     if total = 0 \<or> available > total then Inl MiniShell_ERR_UNKNOWN else Inr (of_nat (total - available) * 100 / of_nat total))"

definition read_memory :: "('w, 'x) files_scheme \<Rightarrow> 'w \<Rightarrow> ((int + rat) \<times> 'w) option" where
  "read_memory K w = do {
     (r, w1) \<leftarrow> with_lines K ''/proc/meminfo'' 256 memory_line (0, 0) w;
     Some (case r of None \<Rightarrow> Inl MiniShell_ERR_OPEN | Some m \<Rightarrow> memory_usage_of m, w1) }"

definition read_numbers :: "('w, 'x) files_scheme \<Rightarrow> string \<Rightarrow> nat \<Rightarrow> 'w \<Rightarrow> (int + rat list) \<times> 'w" where
  "read_numbers K name n w = (case c_fopen K name w of
     (Inl _, w1) \<Rightarrow> (Inl MiniShell_ERR_OPEN, w1)
   | (Inr fp, w1) \<Rightarrow> (case c_fscanf_lf K fp n w1 of
       (xs, w2) \<Rightarrow> (if length xs = n then Inr xs else Inl MiniShell_ERR_UNKNOWN, c_fclose K fp w2)))"

definition read_load :: "('w, 'x) files_scheme \<Rightarrow> 'w \<Rightarrow> (int + rat list) \<times> 'w" where
  "read_load K w = read_numbers K ''/proc/loadavg'' 3 w"

definition read_uptime :: "('w, 'x) files_scheme \<Rightarrow> 'w \<Rightarrow> (int + rat list) \<times> 'w" where
  "read_uptime K w = read_numbers K ''/proc/uptime'' 1 w"

definition count_process :: "string \<Rightarrow> uint32 \<Rightarrow> 'w \<Rightarrow> ((bool \<times> uint32) \<times> 'w) option" where
  "count_process name n w = Some ((True, if is_pid_name name then n + 1 else n), w)"

definition read_process_count :: "('w, 'x) files_scheme \<Rightarrow> 'w \<Rightarrow> ((int + uint32) \<times> 'w) option" where
  "read_process_count K w = do {
     (r, w1) \<leftarrow> with_dir K ''/proc'' count_process 0 w;
     Some (case r of None \<Rightarrow> Inl MiniShell_ERR_OPEN | Some n \<Rightarrow> Inr n, w1) }"

record RuntimeMonitor =
  cpu_usage :: rat
  memory_usage :: rat
  load_average :: "rat list"
  process_count :: uint32
  uptime :: rat

definition runtime_monitor_collect :: "('w, 'x) files_scheme \<Rightarrow> 'w \<Rightarrow> ((int + RuntimeMonitor) \<times> 'w) option" where
  "runtime_monitor_collect K w = do {
     (cpu, w1) \<leftarrow> read_cpu K w;
     case cpu of Inl code \<Rightarrow> Some (Inl code, w1) | Inr usage \<Rightarrow> do {
       (mem, w2) \<leftarrow> read_memory K w1;
       case mem of Inl code \<Rightarrow> Some (Inl code, w2) | Inr used \<Rightarrow>
         (case read_load K w2 of (Inl code, w3) \<Rightarrow> Some (Inl code, w3) | (Inr load, w3) \<Rightarrow>
           (case read_uptime K w3 of (Inl code, w4) \<Rightarrow> Some (Inl code, w4) | (Inr up, w4) \<Rightarrow> do {
             (procs, w5) \<leftarrow> read_process_count K w4;
             Some (case procs of Inl code \<Rightarrow> Inl code
               | Inr n \<Rightarrow> Inr \<lparr>cpu_usage = usage, memory_usage = used, load_average = load, process_count = n, uptime = hd up\<rparr>, w5) })) } }"

section \<open>The snapshot\<close>

abbreviation (input) RUNTIME_SNAPSHOT_SOURCE_SYSTEM :: uint32 where "RUNTIME_SNAPSHOT_SOURCE_SYSTEM \<equiv> 1"
abbreviation (input) RUNTIME_SNAPSHOT_SOURCE_THERMAL :: uint32 where "RUNTIME_SNAPSHOT_SOURCE_THERMAL \<equiv> 2"
abbreviation (input) RUNTIME_SNAPSHOT_SOURCE_NETWORK :: uint32 where "RUNTIME_SNAPSHOT_SOURCE_NETWORK \<equiv> 4"

record RuntimeSnapshot =
  runtime :: RuntimeMonitor
  thermal :: "ThermalRuntimeInfo list"
  network :: "NetworkRuntimeInfo list"
  available_sources :: uint32
  failed_sources :: uint32

text \<open>The bit that \<open>source\<close> has in one of the two sets, according to the result.\<close>

definition mark_source :: "uint32 \<Rightarrow> int + 'a \<Rightarrow> uint32 \<times> uint32 \<Rightarrow> uint32 \<times> uint32" where
  "mark_source source r = (\<lambda>(available, failed). case r of Inr _ \<Rightarrow> (available OR source, failed) | Inl _ \<Rightarrow> (available, failed OR source))"

definition collected :: "int + 'a list \<Rightarrow> 'a list" where
  "collected r = (case r of Inr xs \<Rightarrow> xs | Inl _ \<Rightarrow> [])"

definition runtime_snapshot_collect :: "('w, 'x) files_scheme \<Rightarrow> 'w \<Rightarrow> ((int + RuntimeSnapshot) \<times> 'w) option" where
  "runtime_snapshot_collect K w = do {
     (sys, w1) \<leftarrow> runtime_monitor_collect K w;
     case sys of
       Inl code \<Rightarrow> Some (Inl code, w1)
     | Inr m \<Rightarrow> do {
         (zones, w2) \<leftarrow> thermal_monitor_collect K w1;
         (nets, w3) \<leftarrow> network_monitor_collect K w2;
         let (available, failed) = mark_source RUNTIME_SNAPSHOT_SOURCE_NETWORK nets
           (mark_source RUNTIME_SNAPSHOT_SOURCE_THERMAL zones (RUNTIME_SNAPSHOT_SOURCE_SYSTEM, 0));
         Some (Inr \<lparr>runtime = m, thermal = collected zones, network = collected nets,
           available_sources = available, failed_sources = failed\<rparr>, w3) } }"

definition runtime_snapshot_hottest_thermal :: "RuntimeSnapshot \<Rightarrow> ThermalRuntimeInfo option" where
  "runtime_snapshot_hottest_thermal s =
     (if available_sources s AND RUNTIME_SNAPSHOT_SOURCE_THERMAL = 0 then None else thermal_monitor_hottest (thermal s))"

definition runtime_snapshot_primary_network :: "RuntimeSnapshot \<Rightarrow> NetworkRuntimeInfo option" where
  "runtime_snapshot_primary_network s =
     (if available_sources s AND RUNTIME_SNAPSHOT_SOURCE_NETWORK = 0 then None else network_monitor_primary (network s))"


section \<open>Descriptors and bounds\<close>

lemma read_cpu_snapshot_fds:
  assumes K: "files_fds K fds" and "read_cpu_snapshot K w = (r, w')"
  shows "fds w' = fds w"
  using assms(2) stream_fds [OF K] files_fds_open(2) [OF K] keepsD [OF files_fds_laws(6) [OF K]]
  by (fastforce simp: read_cpu_snapshot_def split: option.split_asm sum.split_asm prod.split_asm)

lemma wait_cpu_sample_keeps:
  assumes K: "\<And>n. keeps P (nanosleep K n)" and run: "wait_cpu_sample_for K ns w = Some (c, w')"
  shows "P w' = P w"
proof -
  let ?Q = "\<lambda>K' (ns :: nat) w x. K' = K \<longrightarrow> P (snd x) = P w"
  have "?Q K ns w (c, w')"
  proof (rule wait_cpu_sample_for.raw_induct [where P = ?Q, OF _ run], goal_cases)
    case (1 loop K' ns w x)
    obtain r v where r: "nanosleep K ns w = (r, v)" by (meson surj_pair)
    show ?case using 1 keepsD [OF K r] by (cases x) (auto simp: r split: sum.split_asm prod.split_asm if_split_asm)
  qed
  then show ?thesis by simp
qed

lemma read_numbers_fds:
  assumes K: "files_fds K fds" and "read_numbers K name n w = (r, w')"
  shows "fds w' = fds w"
  using assms(2) stream_fds [OF K] files_fds_open(2) [OF K] keepsD [OF files_fds_laws(8) [OF K]]
  by (fastforce simp: read_numbers_def split: sum.split_asm prod.split_asm)

lemma percent_of:
  assumes "0 < b" "a \<le> b"
  shows "0 \<le> (of_nat a * 100 / of_nat b :: rat) \<and> (of_nat a * 100 / of_nat b :: rat) \<le> 100"
proof -
  have "(of_nat a :: rat) \<le> of_nat b" using assms(2) by simp
  then show ?thesis using assms(1) by (simp add: divide_le_eq)
qed

text \<open>A percentage that is computed lies between 0 and 100.\<close>

lemma cpu_usage_bounds:
  assumes "cpu_usage_of first second = Inr x"
  shows "0 \<le> x \<and> x \<le> 100"
proof -
  define t where "t = cpu_total second - cpu_total first"
  define i where "i = cpu_idle second - cpu_idle first"
  have lt: "cpu_total first < cpu_total second" and it: "i \<le> t"
    and x: "x = of_nat (unat (t - i)) * 100 / of_nat (unat t)"
    using assms by (auto simp: cpu_usage_of_def Let_def t_def i_def split: if_split_asm)
  have "t \<noteq> 0" using lt by (auto simp: t_def)
  then have "0 < unat t" by (simp add: unat_gt_0)
  moreover have "unat (t - i) \<le> unat t" unfolding unat_sub [OF it] by (rule diff_le_self)
  ultimately show ?thesis unfolding x by (rule percent_of)
qed

lemma memory_usage_bounds: "memory_usage_of m = Inr x \<Longrightarrow> 0 \<le> x \<and> x \<le> 100"
  by (cases m) (auto simp: memory_usage_of_def divide_le_eq split: if_split_asm)

definition percentage :: "rat \<Rightarrow> bool" where
  "percentage x \<longleftrightarrow> 0 \<le> x \<and> x \<le> 100"

definition monitor_ok :: "RuntimeMonitor \<Rightarrow> bool" where
  "monitor_ok m \<longleftrightarrow> percentage (cpu_usage m) \<and> percentage (memory_usage m) \<and> length (load_average m) = 3"

lemma read_cpu_ok:
  assumes K: "files_fds K fds" and run: "read_cpu K w = Some (r, w')"
  shows "fds w' = fds w \<and> (\<forall>x. r = Inr x \<longrightarrow> percentage x)"
proof -
  obtain a w1 where a: "read_cpu_snapshot K w = (a, w1)" by (meson surj_pair)
  note w1 = read_cpu_snapshot_fds [OF K a]
  show ?thesis
  proof (cases a)
    case (Inl e)
    then show ?thesis using run a w1 by (auto simp: read_cpu_def)
  next
    case (Inr first)
    obtain c w2 where c: "wait_cpu_sample K w1 = Some (c, w2)"
      using run by (auto simp: read_cpu_def a Inr split: Option.bind_split_asm)
    have w2: "fds w2 = fds w1"
      by (rule wait_cpu_sample_keeps [OF _ c [unfolded wait_cpu_sample_def]]) (use files_fds_laws(3) [OF K] in \<open>simp add: side_calls_keep_def\<close>)
    obtain b w3 where b: "read_cpu_snapshot K w2 = (b, w3)" by (meson surj_pair)
    note w3 = read_cpu_snapshot_fds [OF K b]
    have "w' = w2 \<or> w' = w3" "\<forall>x. r = Inr x \<longrightarrow> (\<exists>second. cpu_usage_of first second = Inr x)"
      using run by (auto simp: read_cpu_def a Inr c b split: if_split_asm sum.split_asm)
    then show ?thesis using w1 w2 w3 cpu_usage_bounds by (auto simp: percentage_def)
  qed
qed

lemma read_rest_ok:
  assumes K: "files_fds K fds"
  shows "read_memory K w = Some (m, w') \<Longrightarrow> fds w' = fds w \<and> (\<forall>x. m = Inr x \<longrightarrow> percentage x)"
    and "read_load K w = (l, w') \<Longrightarrow> fds w' = fds w \<and> (\<forall>x. l = Inr x \<longrightarrow> length x = 3)"
    and "read_uptime K w = (l, w') \<Longrightarrow> fds w' = fds w"
    and "read_process_count K w = Some (n, w') \<Longrightarrow> fds w' = fds w"
proof -
  show "read_memory K w = Some (m, w') \<Longrightarrow> fds w' = fds w \<and> (\<forall>x. m = Inr x \<longrightarrow> percentage x)"
    using memory_usage_bounds
    by (fastforce simp: read_memory_def percentage_def dest: with_lines_fds [OF K] split: Option.bind_split_asm option.split_asm)
  show "read_load K w = (l, w') \<Longrightarrow> fds w' = fds w \<and> (\<forall>x. l = Inr x \<longrightarrow> length x = 3)"
    using read_numbers_fds [OF K]
    by (fastforce simp: read_load_def read_numbers_def split: sum.split_asm prod.split_asm if_split_asm)
  show "read_uptime K w = (l, w') \<Longrightarrow> fds w' = fds w"
    unfolding read_uptime_def by (rule read_numbers_fds [OF K])
  show "read_process_count K w = Some (n, w') \<Longrightarrow> fds w' = fds w"
    using with_dir_inv [OF K, of "''/proc''" count_process 0 w _ w' "\<lambda>_. True"]
    by (auto simp: read_process_count_def count_process_def split: Option.bind_split_asm)
qed

lemma runtime_monitor_ok:
  assumes K: "files_fds K fds" and run: "runtime_monitor_collect K w = Some (r, w')"
  shows "fds w' = fds w \<and> (\<forall>m. r = Inr m \<longrightarrow> monitor_ok m)"
proof -
  obtain c w1 where c: "read_cpu K w = Some (c, w1)"
    using run by (auto simp: runtime_monitor_collect_def split: Option.bind_split_asm)
  note cpu = read_cpu_ok [OF K c]
  show ?thesis
  proof (cases c)
    case (Inl e)
    then show ?thesis using run c cpu by (auto simp: runtime_monitor_collect_def)
  next
    case (Inr usage)
    obtain m w2 where m: "read_memory K w1 = Some (m, w2)"
      using run c Inr by (auto simp: runtime_monitor_collect_def split: Option.bind_split_asm)
    note mem = read_rest_ok(1) [OF K m]
    obtain l w3 where l: "read_load K w2 = (l, w3)" by (meson surj_pair)
    note load = read_rest_ok(2) [OF K l]
    obtain u w4 where u: "read_uptime K w3 = (u, w4)" by (meson surj_pair)
    note up = read_rest_ok(3) [OF K u]
    have "w' = w2 \<or> w' = w3 \<or> w' = w4 \<or> (\<exists>n. read_process_count K w4 = Some (n, w'))"
      using run by (auto simp: runtime_monitor_collect_def c Inr m l u split: sum.split_asm Option.bind_split_asm)
    then have "fds w' = fds w" using cpu mem load up read_rest_ok(4) [OF K, of w4 _ w'] by auto
    moreover have "\<forall>x. r = Inr x \<longrightarrow> monitor_ok x"
      using run cpu mem load Inr
      by (auto simp: runtime_monitor_collect_def c m l u monitor_ok_def split: sum.split_asm Option.bind_split_asm)
    ultimately show ?thesis by simp
  qed
qed


text \<open>A snapshot: the system is always a source, each of the other two is either available or failed, a list is
  empty unless its source is available, and is sorted.\<close>

definition snapshot_ok :: "RuntimeSnapshot \<Rightarrow> bool" where
  "snapshot_ok s \<longleftrightarrow> monitor_ok (runtime s)
     \<and> available_sources s OR failed_sources s = 7 \<and> available_sources s AND failed_sources s = 0 \<and> available_sources s AND 1 = 1
     \<and> (available_sources s AND 2 = 0 \<longrightarrow> thermal s = []) \<and> (available_sources s AND 4 = 0 \<longrightarrow> network s = [])
     \<and> length (thermal s) \<le> 16 \<and> length (network s) \<le> 16 \<and> sorted (map thermal_name (thermal s)) \<and> sorted (map net_name (network s))"

lemma runtime_snapshot_fds:
  assumes K: "files_fds K fds" and run: "runtime_snapshot_collect K w = Some (r, w')"
  shows "fds w' = fds w \<and> (\<forall>s. r = Inr s \<longrightarrow> snapshot_ok s)"
proof -
  obtain m w1 where m: "runtime_monitor_collect K w = Some (m, w1)"
    using run by (auto simp: runtime_snapshot_collect_def split: Option.bind_split_asm)
  note mon = runtime_monitor_ok [OF K m]
  show ?thesis
  proof (cases m)
    case (Inl e)
    then show ?thesis using run m mon by (auto simp: runtime_snapshot_collect_def)
  next
    case (Inr info)
    obtain z w2 where z: "thermal_monitor_collect K w1 = Some (z, w2)"
      using run m Inr by (auto simp: runtime_snapshot_collect_def split: Option.bind_split_asm)
    obtain n where n: "network_monitor_collect K w2 = Some (n, w')"
      using run by (auto simp: runtime_snapshot_collect_def m Inr z split: Option.bind_split_asm prod.split_asm)
    note zs = monitor_collect_fds(1) [OF K z [unfolded thermal_monitor_collect_def]]
    note ns = monitor_collect_fds(2) [OF K n [unfolded network_monitor_collect_def]]
    have r: "r = Inr (let (available, failed) = mark_source 4 n (mark_source 2 z (1, 0))
      in \<lparr>runtime = info, thermal = collected z, network = collected n, available_sources = available, failed_sources = failed\<rparr>)"
      using run by (auto simp: runtime_snapshot_collect_def m Inr z n split: prod.split_asm)
    have "snapshot_ok s" if "r = Inr s" for s
      using that mon Inr zs ns unfolding r
      by (cases z; cases n) (auto simp: mark_source_def collected_def snapshot_ok_def)
    then show ?thesis using mon zs ns by simp
  qed
qed

end
