(* ===== verification/Cmd_Runtime.thy ===== *)
theory Cmd_Runtime
  imports Runtime_Monitor
begin

text \<open>
  The commands \<^verbatim>\<open>monitor\<close> and \<^verbatim>\<open>psinfo\<close>, \<^verbatim>\<open>src/commands/cmd_runtime.c\<close>.  What a function prints with several calls
  is one text; messages on standard error are left out.
\<close>

section \<open>Texts\<close>

definition two_digits :: "nat \<Rightarrow> string" where
  "two_digits n = (if n < 10 then CHR ''0'' # dec n else dec n)"

definition clock_text :: "nat \<Rightarrow> string" where
  "clock_text total_seconds =
     (let days = total_seconds div 86400; hours = (total_seconds mod 86400) div 3600;
          minutes = (total_seconds mod 3600) div 60; seconds = total_seconds mod 60
      in (if days > 0 then dec days @ ''d '' else []) @ two_digits hours @ '':'' @ two_digits minutes @ '':'' @ two_digits seconds)"

text \<open>The conversion to \<^verbatim>\<open>unsigned long long\<close> cuts the fraction off.\<close>

definition print_uptime :: "rat \<Rightarrow> string" where
  "print_uptime seconds = clock_text (nat \<lfloor>seconds\<rfloor>)"

definition bytes_text :: "string \<Rightarrow> nat option \<Rightarrow> string" where
  "bytes_text label n = label @ (case n of Some v \<Rightarrow> dec v | None \<Rightarrow> ''N/A'') @ [NL]"

definition print_runtime_snapshot :: "('w, 'x) files_scheme \<Rightarrow> RuntimeSnapshot \<Rightarrow> string" where
  "print_runtime_snapshot K s =
     (let m = runtime s
      in [NL] @ ''========== Runtime Monitor =========='' @ [NL]
       @ ''CPU Usage       : '' @ printf_f K 1 (cpu_usage m) @ '' %'' @ [NL]
       @ ''Memory Usage    : '' @ printf_f K 1 (memory_usage m) @ '' %'' @ [NL]
       @ ''Load Average    : '' @ printf_f K 2 (load_average m ! 0) @ '' '' @ printf_f K 2 (load_average m ! 1) @ '' ''
           @ printf_f K 2 (load_average m ! 2) @ [NL]
       @ ''Temperature     : '' @ (case runtime_snapshot_hottest_thermal s of
           Some t \<Rightarrow> printf_f K 1 (the (temperature t)) @ '' C'' @ (if thermal_type t \<noteq> [] then '' ('' @ thermal_type t @ '')'' else [])
         | None \<Rightarrow> ''N/A'') @ [NL]
       @ ''Process Count   : '' @ dec (unat (process_count m)) @ [NL]
       @ (case runtime_snapshot_primary_network s of
           Some n \<Rightarrow> ''Network         : '' @ net_name n @ '' ('' @ or_na (net_state n) @ '')'' @ [NL]
             @ bytes_text ''RX Bytes        : '' (rx_bytes n) @ bytes_text ''TX Bytes        : '' (tx_bytes n)
         | None \<Rightarrow> ''Network         : N/A'' @ [NL] @ bytes_text ''RX Bytes        : '' None @ bytes_text ''TX Bytes        : '' None)
       @ ''Uptime          : '' @ print_uptime (uptime m) @ [NL]
       @ ''====================================='' @ [NL, NL])"

definition print_process_info :: "ProcessInfo \<Rightarrow> string" where
  "print_process_info p =
     [NL] @ ''========== Process Information =========='' @ [NL, NL]
     @ ''PID             : '' @ dec_int (info_pid p) @ [NL]
     @ ''Name            : '' @ info_name p @ [NL]
     @ ''State           : '' @ [info_state p, NL]
     @ ''RSS             : '' @ dec (rss_kb p) @ '' KB'' @ [NL]
     @ ''Threads         : '' @ dec (unat (threads p)) @ [NL, NL]
     @ ''========================================='' @ [NL, NL]"

definition process_row :: "string list \<Rightarrow> string" where
  "process_row cs = pad_right 8 (cs ! 0) @ '' '' @ pad_right 24 (cs ! 1) @ '' '' @ pad_right 7 (cs ! 2) @ '' '' @ pad_right 12 (cs ! 3)
     @ '' '' @ pad_right 8 (cs ! 4) @ [NL]"

definition print_process_list :: "ProcessInfo list \<Rightarrow> string" where
  "print_process_list ps =
     (if ps = [] then ''no processes found'' @ [NL]
      else [NL] @ ''========== Process Information =========='' @ [NL, NL]
        @ process_row [''PID'', ''NAME'', ''STATE'', ''RSS(KB)'', ''THREADS'']
        @ replicate 64 CHR ''-'' @ [NL]
        @ concat (map (\<lambda>p. process_row [dec_int (info_pid p), info_name p, [info_state p], dec (rss_kb p), dec (unat (threads p))]) ps)
        @ [NL] @ ''Total: '' @ dec (length ps) @ '' processes'' @ [NL] @ ''========================================='' @ [NL, NL])"

definition psinfo_usage :: string where
  "psinfo_usage = ''usage:'' @ [NL] @ ''  psinfo'' @ [NL] @ ''  psinfo <pid>'' @ [NL]"

section \<open>Commands\<close>

definition parse_pid :: "string \<Rightarrow> int option" where
  "parse_pid text = (case strtol10 text of (n, rest, erange) \<Rightarrow>
     if erange \<or> rest \<noteq> [] \<or> n \<le> 0 \<or> n > INT_MAX then None else Some n)"

definition cmd_monitor :: "('w, 'x) files_scheme \<Rightarrow> 'w handler" where
  "cmd_monitor K cmd ctx w =
     (if argc cmd \<noteq> 1 then Some ((MiniShell_ERR_PARSE, ctx), w)
      else do {
        (r, w1) \<leftarrow> runtime_snapshot_collect K w;
        case r of
          Inl code \<Rightarrow> Some ((code, ctx), w1)
        | Inr s \<Rightarrow> print_ok K (print_runtime_snapshot K s) ctx w1 })"

definition cmd_psinfo :: "('w, 'x) files_scheme \<Rightarrow> (nat \<Rightarrow> bool) \<Rightarrow> 'w handler" where
  "cmd_psinfo K mem cmd ctx w =
     (if argc cmd < 1 \<or> argc cmd > 2 then Some ((MiniShell_ERR_PARSE, ctx), stdout K psinfo_usage w)
      else if argc cmd = 2 then
        (case parse_pid (argv cmd ! 1) of
           None \<Rightarrow> Some ((MiniShell_ERR_PARSE, ctx), w)
         | Some n \<Rightarrow> do {
             (r, w1) \<leftarrow> process_monitor_get K n w;
             case r of
               Inl code \<Rightarrow> Some ((code, ctx), w1)
             | Inr p \<Rightarrow> print_ok K (print_process_info p) ctx w1 })
      else do {
        (r, w1) \<leftarrow> process_monitor_collect K mem w;
        case r of
          Inl code \<Rightarrow> Some ((code, ctx), w1)
        | Inr ps \<Rightarrow> print_ok K (print_process_list ps) ctx w1 })"


section \<open>The commands change nothing in the shell\<close>

lemma cmd_runtime_fds:
  assumes K: "files_fds K fds"
  shows "cmd_monitor K cmd ctx w = Some ((code, ctx'), w') \<Longrightarrow> ctx' = ctx \<and> fds w' = fds w"
    and "cmd_psinfo K mem cmd ctx w = Some ((code, ctx'), w') \<Longrightarrow> ctx' = ctx \<and> fds w' = fds w"
proof -
  show "cmd_monitor K cmd ctx w = Some ((code, ctx'), w') \<Longrightarrow> ctx' = ctx \<and> fds w' = fds w"
    using runtime_snapshot_fds [OF K, of w]
    by (fastforce simp: cmd_monitor_def print_ok_def stdout_fds [OF K] split: if_split_asm sum.split_asm Option.bind_split_asm)
  show "cmd_psinfo K mem cmd ctx w = Some ((code, ctx'), w') \<Longrightarrow> ctx' = ctx \<and> fds w' = fds w"
    using process_get [OF K, of _ w] process_collect_fds [OF K, of mem w]
    by (fastforce simp: cmd_psinfo_def print_ok_def stdout_fds [OF K]
        split: if_split_asm sum.split_asm option.split_asm Option.bind_split_asm)
qed

text \<open>The process number of an argument.\<close>

lemma parse_pid_range: "parse_pid s = Some n \<Longrightarrow> 0 < n \<and> n \<le> INT_MAX"
  by (auto simp: parse_pid_def split: prod.split_asm if_split_asm)

end
