(* ===== verification/Hardware_Info.thy ===== *)
theory Hardware_Info
  imports Monitors Cmd_Device
begin

text \<open>
  What the shell reports of the hardware, \<^verbatim>\<open>src/hardware_info.c\<close>: thermal zones, processor frequencies,
  network interfaces and LEDs, collected from \<^verbatim>\<open>/sys\<close>, and the text that is printed.  The representation is that
  of the monitors.
\<close>

section \<open>Data\<close>

record ThermalZoneInfo =
  zone_name :: string
  zone_type :: string
  zone_temperature :: "rat option"

record CpuFreqPolicyInfo =
  policy_name :: string
  affected_cpus :: string
  driver :: string
  governor :: string
  current_khz :: "nat option"
  scaling_min_khz :: "nat option"
  scaling_max_khz :: "nat option"
  hardware_min_khz :: "nat option"
  hardware_max_khz :: "nat option"

record NetworkInterfaceInfo =
  interface_name :: string
  interface_state :: string
  interface_address :: string
  mtu :: "nat option"

record LedInfo =
  led_info_name :: string
  led_brightness :: "int option"
  led_max_brightness :: "int option"
  led_trigger :: string

record HardwareInfo =
  thermal_zones :: "ThermalZoneInfo list"
  cpu_policies :: "CpuFreqPolicyInfo list"
  network_interfaces :: "NetworkInterfaceInfo list"
  leds :: "LedInfo list"

abbreviation (input) HARDWARE_MAX :: nat where "HARDWARE_MAX \<equiv> 16"

section \<open>Collecting\<close>

text \<open>The active trigger is the one in brackets.\<close>

definition bracketed :: "string \<Rightarrow> string option" where
  "bracketed line = (case dropWhile (\<lambda>c. c \<noteq> CHR ''['') line of
     [] \<Rightarrow> None
   | _ # r \<Rightarrow> let t = takeWhile (\<lambda>c. c \<noteq> CHR '']'') r in if t = r \<or> t = [] then None else Some t)"

definition read_led_trigger :: "('w, 'x) sysio_scheme \<Rightarrow> string \<Rightarrow> nat \<Rightarrow> 'w \<Rightarrow> (string option \<times> 'w) option" where
  "read_led_trigger K p n w = do {
     (r, w1) \<leftarrow> sysfs_read_text K p 2048 w;
     Some (case r of Inl _ \<Rightarrow> None | Inr line \<Rightarrow> map_option (copy_text n) (bracketed line), w1) }"

definition led_trigger_attribute :: "('w, 'x) sysio_scheme \<Rightarrow> string \<Rightarrow> string \<Rightarrow> 'w \<Rightarrow> (string \<times> 'w) option" where
  "led_trigger_attribute K base name w = (case build_path base name ''trigger'' of
     None \<Rightarrow> Some ([], w)
   | Some p \<Rightarrow> do { (t, w1) \<leftarrow> read_led_trigger K p 64 w; Some (case t of None \<Rightarrow> [] | Some s \<Rightarrow> s, w1) })"

text \<open>A zone without a readable type is skipped.\<close>

definition collect_zone ::
  "('w, 'x) files_scheme \<Rightarrow> string \<Rightarrow> ThermalZoneInfo list \<Rightarrow> 'w \<Rightarrow> ((bool \<times> ThermalZoneInfo list) \<times> 'w) option" where
  "collect_zone K name zones w =
     (let base = ''/sys/class/thermal'' in
      if after_prefix ''thermal_zone'' name = None then Some ((True, zones), w)
      else if length zones \<ge> HARDWARE_MAX then Some ((False, zones), w)
      else case build_path base name ''type'' of
        None \<Rightarrow> Some ((True, zones), w)
      | Some p \<Rightarrow> do {
          (kind, w1) \<leftarrow> sysfs_read_text (io K) p 64 w;
          case kind of
            Inl _ \<Rightarrow> Some ((True, zones), w1)
          | Inr k \<Rightarrow> do {
              (t, w2) \<leftarrow> number_attribute (sysfs_read_long (io K)) base name ''temp'' w1;
              Some ((True, zones @ [\<lparr>zone_name = copy_text 64 name, zone_type = k, zone_temperature = map_option degrees t\<rparr>]), w2) } })"

definition collect_policy ::
  "('w, 'x) files_scheme \<Rightarrow> string \<Rightarrow> CpuFreqPolicyInfo list \<Rightarrow> 'w \<Rightarrow> ((bool \<times> CpuFreqPolicyInfo list) \<times> 'w) option" where
  "collect_policy K name policies w =
     (let base = ''/sys/devices/system/cpu/cpufreq'' in
      if after_prefix ''policy'' name = None then Some ((True, policies), w)
      else if length policies \<ge> HARDWARE_MAX then Some ((False, policies), w)
      else do {
        let text = text_attribute (io K) base name;
        let number = number_attribute (sysfs_read_ulong (io K)) base name;
        (cpus, w1) \<leftarrow> text ''affected_cpus'' 64 w;
        (drv, w2) \<leftarrow> text ''scaling_driver'' 64 w1;
        (gov, w3) \<leftarrow> text ''scaling_governor'' 64 w2;
        (cur, w4) \<leftarrow> number ''scaling_cur_freq'' w3;
        (smin, w5) \<leftarrow> number ''scaling_min_freq'' w4;
        (smax, w6) \<leftarrow> number ''scaling_max_freq'' w5;
        (hmin, w7) \<leftarrow> number ''cpuinfo_min_freq'' w6;
        (hmax, w8) \<leftarrow> number ''cpuinfo_max_freq'' w7;
        Some ((True, policies @ [\<lparr>policy_name = copy_text 32 name, affected_cpus = cpus, driver = drv, governor = gov, current_khz = cur,
          scaling_min_khz = smin, scaling_max_khz = smax, hardware_min_khz = hmin, hardware_max_khz = hmax\<rparr>]), w8) })"

definition collect_interface ::
  "('w, 'x) files_scheme \<Rightarrow> string \<Rightarrow> NetworkInterfaceInfo list \<Rightarrow> 'w \<Rightarrow> ((bool \<times> NetworkInterfaceInfo list) \<times> 'w) option" where
  "collect_interface K name nets w =
     (let base = ''/sys/class/net'' in
      if name \<noteq> [] \<and> hd name = CHR ''.'' then Some ((True, nets), w)
      else if length nets \<ge> HARDWARE_MAX then Some ((False, nets), w)
      else do {
        (st, w1) \<leftarrow> text_attribute (io K) base name ''operstate'' 32 w;
        (adr, w2) \<leftarrow> text_attribute (io K) base name ''address'' 64 w1;
        (m, w3) \<leftarrow> number_attribute (sysfs_read_ulong (io K)) base name ''mtu'' w2;
        Some ((True, nets @ [\<lparr>interface_name = copy_text 64 name, interface_state = st, interface_address = adr, mtu = m\<rparr>]), w3) })"

definition collect_led ::
  "('w, 'x) files_scheme \<Rightarrow> string \<Rightarrow> LedInfo list \<Rightarrow> 'w \<Rightarrow> ((bool \<times> LedInfo list) \<times> 'w) option" where
  "collect_led K name infos w =
     (let base = ''/sys/class/leds'' in
      if name \<noteq> [] \<and> hd name = CHR ''.'' then Some ((True, infos), w)
      else if length infos \<ge> HARDWARE_MAX then Some ((False, infos), w)
      else do {
        (b, w1) \<leftarrow> number_attribute (sysfs_read_long (io K)) base name ''brightness'' w;
        (m, w2) \<leftarrow> number_attribute (sysfs_read_long (io K)) base name ''max_brightness'' w1;
        (t, w3) \<leftarrow> led_trigger_attribute (io K) base name w2;
        Some ((True, infos @ [\<lparr>led_info_name = copy_text 64 name, led_brightness = b, led_max_brightness = m, led_trigger = t\<rparr>]), w3) })"

text \<open>Nothing is collected from a directory that cannot be opened.\<close>

definition collect_dir ::
  "('w, 'x) files_scheme \<Rightarrow> string \<Rightarrow> (string \<Rightarrow> 'a list \<Rightarrow> 'w \<Rightarrow> ((bool \<times> 'a list) \<times> 'w) option) \<Rightarrow> 'w \<Rightarrow> ('a list \<times> 'w) option" where
  "collect_dir K base body w = do {
     (r, w1) \<leftarrow> with_dir K base body [] w;
     Some (case r of None \<Rightarrow> [] | Some xs \<Rightarrow> xs, w1) }"

definition collect_thermal :: "('w, 'x) files_scheme \<Rightarrow> 'w \<Rightarrow> (ThermalZoneInfo list \<times> 'w) option" where
  "collect_thermal K w = collect_dir K ''/sys/class/thermal'' (collect_zone K) w"

definition collect_cpu_frequency :: "('w, 'x) files_scheme \<Rightarrow> 'w \<Rightarrow> (CpuFreqPolicyInfo list \<times> 'w) option" where
  "collect_cpu_frequency K w = collect_dir K ''/sys/devices/system/cpu/cpufreq'' (collect_policy K) w"

definition collect_network :: "('w, 'x) files_scheme \<Rightarrow> 'w \<Rightarrow> (NetworkInterfaceInfo list \<times> 'w) option" where
  "collect_network K w = collect_dir K ''/sys/class/net'' (collect_interface K) w"

definition collect_leds :: "('w, 'x) files_scheme \<Rightarrow> 'w \<Rightarrow> (LedInfo list \<times> 'w) option" where
  "collect_leds K w = collect_dir K ''/sys/class/leds'' (collect_led K) w"

definition hardware_info_collect :: "('w, 'x) files_scheme \<Rightarrow> 'w \<Rightarrow> (HardwareInfo \<times> 'w) option" where
  "hardware_info_collect K w = do {
     (zones, w1) \<leftarrow> collect_thermal K w;
     (policies, w2) \<leftarrow> collect_cpu_frequency K w1;
     (nets, w3) \<leftarrow> collect_network K w2;
     (infos, w4) \<leftarrow> collect_leds K w3;
     Some (\<lparr>thermal_zones = zones, cpu_policies = policies, network_interfaces = nets, leds = infos\<rparr>, w4) }"

section \<open>Printing\<close>

definition list_or_na :: "('a \<Rightarrow> string) \<Rightarrow> 'a list \<Rightarrow> string" where
  "list_or_na f xs = (if xs = [] then ''  N/A'' @ [NL] else concat (map f xs))"

definition print_thermal :: "('w, 'x) files_scheme \<Rightarrow> HardwareInfo \<Rightarrow> string" where
  "print_thermal K info = ''Thermal Zones:'' @ [NL] @ list_or_na (\<lambda>z. ''  '' @ pad_right 14 (zone_name z) @ '' '' @ pad_right 20 (or_na (zone_type z)) @ '' ''
     @ (case zone_temperature z of Some t \<Rightarrow> printf_f K 1 t @ '' C'' | None \<Rightarrow> ''N/A'') @ [NL]) (thermal_zones info)"

definition mhz :: "('w, 'x) files_scheme \<Rightarrow> nat \<Rightarrow> string" where
  "mhz K khz = printf_f K 1 (of_nat khz / 1000)"

definition mhz_range :: "('w, 'x) files_scheme \<Rightarrow> nat option \<Rightarrow> nat option \<Rightarrow> string" where
  "mhz_range K low high = (case (low, high) of (Some a, Some b) \<Rightarrow> mhz K a @ '' - '' @ mhz K b @ '' MHz'' | _ \<Rightarrow> ''N/A'')"

definition print_cpu_frequency :: "('w, 'x) files_scheme \<Rightarrow> HardwareInfo \<Rightarrow> string" where
  "print_cpu_frequency K info = [NL] @ ''CPU Frequency:'' @ [NL] @ list_or_na (\<lambda>p. ''  '' @ policy_name p @ [NL]
     @ ''    CPUs     : '' @ or_na (affected_cpus p) @ [NL]
     @ ''    Driver   : '' @ or_na (driver p) @ [NL]
     @ ''    Governor : '' @ or_na (governor p) @ [NL]
     @ ''    Current  : '' @ (case current_khz p of Some k \<Rightarrow> mhz K k @ '' MHz'' | None \<Rightarrow> ''N/A'') @ [NL]
     @ ''    Policy   : '' @ mhz_range K (scaling_min_khz p) (scaling_max_khz p) @ [NL]
     @ ''    Hardware : '' @ mhz_range K (hardware_min_khz p) (hardware_max_khz p) @ [NL]) (cpu_policies info)"

definition print_network :: "HardwareInfo \<Rightarrow> string" where
  "print_network info = [NL] @ ''Network:'' @ [NL] @ list_or_na (\<lambda>n. ''  '' @ interface_name n @ [NL]
     @ ''    State : '' @ or_na (interface_state n) @ [NL]
     @ ''    MAC   : '' @ or_na (interface_address n) @ [NL]
     @ ''    MTU   : '' @ (case mtu n of Some v \<Rightarrow> dec v | None \<Rightarrow> ''N/A'') @ [NL]) (network_interfaces info)"

definition print_leds :: "HardwareInfo \<Rightarrow> string" where
  "print_leds info = [NL] @ ''LEDs:'' @ [NL] @ list_or_na (\<lambda>l. ''  '' @ led_info_name l @ [NL]
     @ ''    Brightness : '' @ (case (led_brightness l, led_max_brightness l) of
         (Some b, Some m) \<Rightarrow> dec_int b @ ''/'' @ dec_int m | _ \<Rightarrow> ''N/A'') @ [NL]
     @ ''    Trigger    : '' @ or_na (led_trigger l) @ [NL]) (leds info)"

definition hardware_info_print :: "('w, 'x) files_scheme \<Rightarrow> HardwareInfo \<Rightarrow> string" where
  "hardware_info_print K info = [NL] @ ''========== Hardware =========='' @ [NL]
     @ print_thermal K info @ print_cpu_frequency K info @ print_network info @ print_leds info @ [NL]"

section \<open>Descriptors and bounds\<close>

lemma collect_dir_fds:
  assumes K: "files_fds K fds" and run: "collect_dir K base body w = Some (xs, w')"
    and body: "\<And>name acc v go acc1 v1. body name acc v = Some ((go, acc1), v1) \<Longrightarrow> fds v1 = fds v \<and> (length acc \<le> 16 \<longrightarrow> length acc1 \<le> 16)"
  shows "fds w' = fds w \<and> length xs \<le> 16"
proof -
  obtain r where r: "with_dir K base body [] w = Some (r, w')" "xs = (case r of None \<Rightarrow> [] | Some xs \<Rightarrow> xs)"
    using run by (auto simp: collect_dir_def split: Option.bind_split_asm)
  from with_dir_inv [OF K r(1), where I = "\<lambda>xs. length xs \<le> 16", OF body] r(2) show ?thesis by (auto split: option.split)
qed

lemma led_trigger_fds:
  assumes K: "fd_table (io K) fds" and "led_trigger_attribute (io K) base name w = Some (s, w')"
  shows "fds w' = fds w"
  using assms(2) sysfs_read_text_fds [OF K]
  by (fastforce simp: led_trigger_attribute_def read_led_trigger_def split: option.split_asm Option.bind_split_asm)

lemma collect_entries_fds:
  assumes K: "fd_table (io K) fds"
  shows "collect_zone K name zs w = Some ((go, zs'), w') \<Longrightarrow> fds w' = fds w \<and> (length zs \<le> 16 \<longrightarrow> length zs' \<le> 16)"
    and "collect_interface K name ns w = Some ((go, ns'), w') \<Longrightarrow> fds w' = fds w \<and> (length ns \<le> 16 \<longrightarrow> length ns' \<le> 16)"
    and "collect_led K name ls w = Some ((go, ls'), w') \<Longrightarrow> fds w' = fds w \<and> (length ls \<le> 16 \<longrightarrow> length ls' \<le> 16)"
proof -
  note tx = attribute_fds(1) [OF K] and num = number_attribute_fds [OF K]
  show "collect_zone K name zs w = Some ((go, zs'), w') \<Longrightarrow> fds w' = fds w \<and> (length zs \<le> 16 \<longrightarrow> length zs' \<le> 16)"
    using sysfs_read_text_fds [OF K] num(1)
    by (fastforce simp: collect_zone_def Let_def split: if_split_asm option.split_asm Option.bind_split_asm sum.split_asm)
  show "collect_interface K name ns w = Some ((go, ns'), w') \<Longrightarrow> fds w' = fds w \<and> (length ns \<le> 16 \<longrightarrow> length ns' \<le> 16)"
    using tx num(2) by (fastforce simp: collect_interface_def Let_def split: if_split_asm Option.bind_split_asm)
  show "collect_led K name ls w = Some ((go, ls'), w') \<Longrightarrow> fds w' = fds w \<and> (length ls \<le> 16 \<longrightarrow> length ls' \<le> 16)"
    using led_trigger_fds [OF K] num(1) by (fastforce simp: collect_led_def Let_def split: if_split_asm Option.bind_split_asm)
qed

lemma collect_policy_fds:
  assumes K: "fd_table (io K) fds" and run: "collect_policy K name ps w = Some ((go, ps'), w')"
  shows "fds w' = fds w \<and> (length ps \<le> 16 \<longrightarrow> length ps' \<le> 16)"
proof (cases "after_prefix ''policy'' name = None \<or> length ps \<ge> 16")
  case True
  then show ?thesis using run by (auto simp: collect_policy_def Let_def split: if_split_asm)
next
  case False
  let ?base = "''/sys/devices/system/cpu/cpufreq''"
  note tx = attribute_fds(1) [OF K, of ?base name] and num = number_attribute_fds(2) [OF K, of ?base name]
  obtain a b c d e f g h w1 w2 w3 w4 w5 w6 w7 p where "text_attribute (io K) ?base name ''affected_cpus'' 64 w = Some (a, w1)"
    "text_attribute (io K) ?base name ''scaling_driver'' 64 w1 = Some (b, w2)" "text_attribute (io K) ?base name ''scaling_governor'' 64 w2 = Some (c, w3)"
    "number_attribute (sysfs_read_ulong (io K)) ?base name ''scaling_cur_freq'' w3 = Some (d, w4)"
    "number_attribute (sysfs_read_ulong (io K)) ?base name ''scaling_min_freq'' w4 = Some (e, w5)"
    "number_attribute (sysfs_read_ulong (io K)) ?base name ''scaling_max_freq'' w5 = Some (f, w6)"
    "number_attribute (sysfs_read_ulong (io K)) ?base name ''cpuinfo_min_freq'' w6 = Some (g, w7)"
    "number_attribute (sysfs_read_ulong (io K)) ?base name ''cpuinfo_max_freq'' w7 = Some (h, w')" "ps' = ps @ [p]"
    using run False by (auto simp: collect_policy_def Let_def split: Option.bind_split_asm)
  then show ?thesis using False by (simp add: tx(1) num(1))
qed

lemma hardware_collect_fds:
  assumes K: "files_fds K fds" and run: "hardware_info_collect K w = Some (info, w')"
  shows "fds w' = fds w \<and> length (thermal_zones info) \<le> 16 \<and> length (cpu_policies info) \<le> 16
    \<and> length (network_interfaces info) \<le> 16 \<and> length (leds info) \<le> 16"
proof -
  note t = files_fds_laws(2) [OF K]
  obtain zs w1 ps w2 ns w3 ls where r: "collect_thermal K w = Some (zs, w1)" "collect_cpu_frequency K w1 = Some (ps, w2)"
    "collect_network K w2 = Some (ns, w3)" "collect_leds K w3 = Some (ls, w')"
    "info = \<lparr>thermal_zones = zs, cpu_policies = ps, network_interfaces = ns, leds = ls\<rparr>"
    using run by (auto simp: hardware_info_collect_def split: Option.bind_split_asm)
  show ?thesis
    using collect_dir_fds [OF K r(1) [unfolded collect_thermal_def] collect_entries_fds(1) [OF t]]
      collect_dir_fds [OF K r(2) [unfolded collect_cpu_frequency_def] collect_policy_fds [OF t]]
      collect_dir_fds [OF K r(3) [unfolded collect_network_def] collect_entries_fds(2) [OF t]]
      collect_dir_fds [OF K r(4) [unfolded collect_leds_def] collect_entries_fds(3) [OF t]] r(5) by simp
qed

end
