(* ===== verification/System_Info.thy ===== *)
theory System_Info
  imports Monitors Cmd_Device
begin

text \<open>
  What the shell reports of the system, \<^verbatim>\<open>src/system_info.c\<close>, and of the device tree,
  \<^verbatim>\<open>src/device_tree.c\<close>.
\<close>

section \<open>The system\<close>

record SystemInfo =
  board :: string
  kernel_release :: string
  hostname :: string
  architecture :: string
  cpu_model :: string
  cpu_cores :: int
  mem_total :: nat
  mem_available :: nat
  system_uptime :: rat
  soc_temperature :: "rat option"

text \<open>\<^verbatim>\<open>copy_text\<close> of this file stops at the end of the line.\<close>

definition copy_line :: "nat \<Rightarrow> string \<Rightarrow> string" where
  "copy_line n s = take (n - 1) (until_newline s)"

text \<open>The value of a line \<open>key : value\<close> of \<^verbatim>\<open>/proc/cpuinfo\<close>; an empty value is none.\<close>

definition cpuinfo_value :: "string \<Rightarrow> string \<Rightarrow> nat \<Rightarrow> string option" where
  "cpuinfo_value line key n =
     (case dropWhile (\<lambda>c. c \<noteq> CHR '':'') line of
        [] \<Rightarrow> None
      | _ # text \<Rightarrow>
          if rev (skip_blanks (rev (takeWhile (\<lambda>c. c \<noteq> CHR '':'') line))) \<noteq> key then None
          else let v = copy_line n (skip_blanks text) in if v = [] then None else Some v)"

definition cpu_keys :: "(string \<times> nat) list" where
  "cpu_keys = [(''model name'', 0), (''Model'', 1), (''Hardware'', 2), (''Processor'', 3)]"

text \<open>The best line so far: the model and its rank.\<close>

definition cpu_key :: "string \<Rightarrow> string \<times> nat \<Rightarrow> string \<times> nat \<Rightarrow> string \<times> nat" where
  "cpu_key line = (\<lambda>(key, rank) (model, best_rank).
     if rank \<ge> best_rank then (model, best_rank)
     else case cpuinfo_value line key 128 of None \<Rightarrow> (model, best_rank) | Some candidate \<Rightarrow> (copy_line 128 candidate, rank))"

definition cpu_line :: "string \<Rightarrow> string \<times> nat \<Rightarrow> string \<times> nat" where
  "cpu_line line best = fold (cpu_key line) cpu_keys best"

definition get_cpu_info :: "('w, 'x) files_scheme \<Rightarrow> 'w \<Rightarrow> ((int + string \<times> int) \<times> 'w) option" where
  "get_cpu_info K w = do {
     (r, w1) \<leftarrow> with_lines K ''/proc/cpuinfo'' 256 cpu_line ([], 100) w;
     Some (case r of None \<Rightarrow> Inl MiniShell_ERR_OPEN | Some (model, _) \<Rightarrow> Inr (model, max 0 (c_nprocessors K w1)), w1) }"

text \<open>\<^verbatim>\<open>got_total\<close> and \<^verbatim>\<open>got_available\<close> as options.\<close>

definition mem_line :: "string \<Rightarrow> nat option \<times> nat option \<Rightarrow> nat option \<times> nat option" where
  "mem_line line = (\<lambda>(total, available).
     case after_prefix ''MemTotal:'' line of
       Some text \<Rightarrow> (case scan_ulong text of Some (v, _) \<Rightarrow> (Some v, available) | None \<Rightarrow> (total, available))
     | None \<Rightarrow> (case after_prefix ''MemAvailable:'' line of
         Some text \<Rightarrow> (case scan_ulong text of Some (v, _) \<Rightarrow> (total, Some v) | None \<Rightarrow> (total, available))
       | None \<Rightarrow> (total, available)))"

definition get_mem_info :: "('w, 'x) files_scheme \<Rightarrow> 'w \<Rightarrow> ((int + nat \<times> nat) \<times> 'w) option" where
  "get_mem_info K w = do {
     (r, w1) \<leftarrow> with_lines K ''/proc/meminfo'' 256 mem_line (None, None) w;
     Some (case r of
         None \<Rightarrow> Inl MiniShell_ERR_OPEN
       | Some (Some tot, Some available) \<Rightarrow> Inr (tot div 1024, available div 1024)
       | Some _ \<Rightarrow> Inl MiniShell_ERR_UNKNOWN, w1) }"

definition get_uptime_info :: "('w, 'x) files_scheme \<Rightarrow> 'w \<Rightarrow> (int + rat) \<times> 'w" where
  "get_uptime_info K w = (case c_fopen K ''/proc/uptime'' w of
     (Inl _, w1) \<Rightarrow> (Inl MiniShell_ERR_OPEN, w1)
   | (Inr fp, w1) \<Rightarrow> (case c_fscanf_lf K fp 1 w1 of
       (xs, w2) \<Rightarrow> (case xs of [x] \<Rightarrow> Inr x | _ \<Rightarrow> Inl MiniShell_ERR_UNKNOWN, c_fclose K fp w2)))"

text \<open>The paths here have their own buffers of 256 bytes.\<close>

definition thermal_path :: "string \<Rightarrow> string \<Rightarrow> string option" where
  "thermal_path name attr = (let p = ''/sys/class/thermal/'' @ name @ ''/'' @ attr in if length p \<ge> 256 then None else Some p)"

text \<open>The first line of a zone's type, and its temperature.\<close>

definition zone_kind :: "('w, 'x) files_scheme \<Rightarrow> string \<Rightarrow> 'w \<Rightarrow> string option \<times> 'w" where
  "zone_kind K name w = (case thermal_path name ''type'' of
     None \<Rightarrow> (None, w)
   | Some p \<Rightarrow> (case c_fopen K p w of
       (Inl _, w1) \<Rightarrow> (None, w1)
     | (Inr fp, w1) \<Rightarrow> (case c_fgets K fp 64 w1 of (l, w2) \<Rightarrow> (map_option until_newline l, c_fclose K fp w2))))"

definition zone_degrees :: "('w, 'x) files_scheme \<Rightarrow> string \<Rightarrow> 'w \<Rightarrow> rat option \<times> 'w" where
  "zone_degrees K name w = (case thermal_path name ''temp'' of
     None \<Rightarrow> (None, w)
   | Some p \<Rightarrow> (case c_fopen K p w of
       (Inl _, w1) \<Rightarrow> (None, w1)
     | (Inr fp, w1) \<Rightarrow> (case c_fscanf_ld K fp w1 of (t, w2) \<Rightarrow> (map_option degrees t, c_fclose K fp w2))))"

definition soc_entry :: "('w, 'x) files_scheme \<Rightarrow> string \<Rightarrow> rat option \<Rightarrow> 'w \<Rightarrow> ((bool \<times> rat option) \<times> 'w) option" where
  "soc_entry K name soc w =
     (if after_prefix ''thermal_zone'' name = None then Some ((True, soc), w)
      else case zone_kind K name w of
        (kind, w1) \<Rightarrow>
          if kind \<noteq> Some ''soc-thermal'' then Some ((True, soc), w1)
          else (case zone_degrees K name w1 of
            (None, w2) \<Rightarrow> Some ((True, soc), w2)
          | (Some t, w2) \<Rightarrow> Some ((False, Some t), w2)))"

definition get_thermal_info :: "('w, 'x) files_scheme \<Rightarrow> 'w \<Rightarrow> (rat option \<times> 'w) option" where
  "get_thermal_info K w = do {
     (r, w1) \<leftarrow> with_dir K ''/sys/class/thermal'' (soc_entry K) None w;
     Some (case r of None \<Rightarrow> None | Some t \<Rightarrow> t, w1) }"

definition read_device_tree_model :: "('w, 'x) files_scheme \<Rightarrow> nat \<Rightarrow> 'w \<Rightarrow> string \<times> 'w" where
  "read_device_tree_model K n w = (case c_fopen K ''/proc/device-tree/model'' w of
     (Inl _, w1) \<Rightarrow> ([], w1)
   | (Inr fp, w1) \<Rightarrow> (case c_fread K fp (n - 1) w1 of (s, w2) \<Rightarrow> (until_newline (cstr s), c_fclose K fp w2)))"

definition get_board_info :: "('w, 'x) files_scheme \<Rightarrow> 'w \<Rightarrow> string \<times> 'w" where
  "get_board_info K w = read_device_tree_model K 128 w"

definition system_info_collect :: "('w, 'x) files_scheme \<Rightarrow> 'w \<Rightarrow> ((int + SystemInfo) \<times> 'w) option" where
  "system_info_collect K w =
     (case (c_uname K w, c_gethostname K w) of
        (Some (release, machine), Some host) \<Rightarrow>
          (case get_board_info K w of
             (model, w1) \<Rightarrow> do {
               (cpu, w2) \<leftarrow> get_cpu_info K w1;
               case cpu of Inl code \<Rightarrow> Some (Inl code, w2) | Inr (cpu_name, cores) \<Rightarrow> do {
                 (mem, w3) \<leftarrow> get_mem_info K w2;
                 case mem of Inl code \<Rightarrow> Some (Inl code, w3) | Inr (tot, available) \<Rightarrow>
                   (case get_uptime_info K w3 of (Inl code, w4) \<Rightarrow> Some (Inl code, w4) | (Inr up, w4) \<Rightarrow> do {
                     (soc, w5) \<leftarrow> get_thermal_info K w4;
                     Some (Inr \<lparr>board = model, kernel_release = copy_line 64 release, hostname = take 63 host, architecture = copy_line 32 machine,
                       cpu_model = cpu_name, cpu_cores = cores, mem_total = tot, mem_available = available, system_uptime = up,
                       soc_temperature = soc\<rparr>, w5) }) } })
      | _ \<Rightarrow> Some (Inl MiniShell_ERR_UNKNOWN, w))"

definition system_info_print :: "('w, 'x) files_scheme \<Rightarrow> SystemInfo \<Rightarrow> string" where
  "system_info_print K info =
     [NL] @ ''========== System =========='' @ [NL]
     @ ''Board            : '' @ or_na (board info) @ [NL]
     @ ''Kernel           : '' @ kernel_release info @ [NL]
     @ ''Hostname         : '' @ hostname info @ [NL]
     @ ''Architecture     : '' @ architecture info @ [NL]
     @ ''CPU Model        : '' @ or_na (cpu_model info) @ [NL]
     @ ''CPU Cores        : '' @ (if cpu_cores info > 0 then dec_int (cpu_cores info) else ''N/A'') @ [NL]
     @ ''SoC Temperature  : '' @ (case soc_temperature info of Some t \<Rightarrow> printf_f K 1 t @ '' C'' | None \<Rightarrow> ''N/A'') @ [NL]
     @ ''Memory Total     : '' @ dec (mem_total info) @ '' MB'' @ [NL]
     @ ''Memory Available : '' @ dec (mem_available info) @ '' MB'' @ [NL]
     @ ''Uptime           : '' @ printf_f K 2 (system_uptime info) @ '' seconds'' @ [NL, NL]"

section \<open>The device tree\<close>

record DeviceTreeInfo =
  available :: bool
  dt_model :: string
  dt_compatible :: "string list"
  bootargs :: string

abbreviation (input) DEVICE_TREE_MAX_COMPATIBLE :: nat where "DEVICE_TREE_MAX_COMPATIBLE \<equiv> 8"

text \<open>Nothing when the property cannot be read, or is empty.\<close>

definition read_property :: "('w, 'x) files_scheme \<Rightarrow> string \<Rightarrow> nat \<Rightarrow> 'w \<Rightarrow> string \<times> 'w" where
  "read_property K p n w = (case c_fopen K p w of
     (Inl _, w1) \<Rightarrow> ([], w1)
   | (Inr fp, w1) \<Rightarrow> (case c_fread K fp n w1 of (s, w2) \<Rightarrow> (s, c_fclose K fp w2)))"

definition copy_property_text :: "nat \<Rightarrow> string \<Rightarrow> string" where
  "copy_property_text n s = take (n - 1) (takeWhile (\<lambda>c. c \<noteq> NUL \<and> c \<noteq> CR \<and> c \<noteq> NL) s)"

definition collect_model :: "('w, 'x) files_scheme \<Rightarrow> 'w \<Rightarrow> string \<times> 'w" where
  "collect_model K w = (case read_property K ''/proc/device-tree/model'' 256 w of (s, w1) \<Rightarrow> (copy_property_text 128 s, w1))"

text \<open>The items of a list of strings, each ended by a NUL; empty ones are left out.\<close>

function compatible_items :: "nat \<Rightarrow> string \<Rightarrow> string list" where
  "compatible_items n [] = []"
| "compatible_items n (c # cs) =
     (if n = 0 then []
      else let item = takeWhile (\<lambda>c. c \<noteq> NUL) (c # cs); rest = drop 1 (dropWhile (\<lambda>c. c \<noteq> NUL) (c # cs))
           in if item = [] then compatible_items n rest else take 127 item # compatible_items (n - 1) rest)"
  by pat_completeness auto
termination
  by (relation "measure (length \<circ> snd)") (auto simp: length_dropWhile_le le_imp_less_Suc less_Suc_eq_le intro: le_trans [OF diff_le_self])

definition collect_compatible :: "('w, 'x) files_scheme \<Rightarrow> 'w \<Rightarrow> string list \<times> 'w" where
  "collect_compatible K w = (case read_property K ''/proc/device-tree/compatible'' 1024 w of
     (s, w1) \<Rightarrow> (compatible_items DEVICE_TREE_MAX_COMPATIBLE s, w1))"

definition collect_bootargs :: "('w, 'x) files_scheme \<Rightarrow> 'w \<Rightarrow> string \<times> 'w" where
  "collect_bootargs K w = (case read_property K ''/proc/device-tree/chosen/bootargs'' 1024 w of (s, w1) \<Rightarrow> (copy_property_text 1024 s, w1))"

definition device_tree_collect :: "('w, 'x) files_scheme \<Rightarrow> 'w \<Rightarrow> DeviceTreeInfo \<times> 'w" where
  "device_tree_collect K w =
     (if \<not> c_exists K ''/proc/device-tree'' w then (\<lparr>available = False, dt_model = [], dt_compatible = [], bootargs = []\<rparr>, w)
      else case collect_model K w of (m, w1) \<Rightarrow> (case collect_compatible K w1 of (cs, w2) \<Rightarrow> (case collect_bootargs K w2 of (b, w3) \<Rightarrow>
        (\<lparr>available = True, dt_model = m, dt_compatible = cs, bootargs = b\<rparr>, w3))))"

definition device_tree_print :: "DeviceTreeInfo \<Rightarrow> string" where
  "device_tree_print info =
     [NL] @ ''======= Device Tree ======='' @ [NL]
     @ (if \<not> available info then ''Status           : unavailable'' @ [NL, NL]
        else ''Model            : '' @ or_na (dt_model info) @ [NL]
          @ ''Compatible       :'' @ (if dt_compatible info = [] then '' N/A'' @ [NL]
              else [NL] @ concat (map (\<lambda>c. ''  '' @ c @ [NL]) (dt_compatible info)))
          @ ''Boot Args        : '' @ or_na (bootargs info) @ [NL, NL])"

section \<open>Descriptors\<close>

lemma read_property_fds: "files_fds K fds \<Longrightarrow> read_property K p n w = (s, w') \<Longrightarrow> fds w' = fds w"
  using files_fds_open(1,2) [of K fds p w] keepsD [OF files_fds_laws(7)]
  by (fastforce simp: read_property_def files_fds_laws(4) split: sum.split_asm prod.split_asm)

lemma device_tree_fds:
  assumes K: "files_fds K fds" and d: "device_tree_collect K w = (info, w')"
  shows "fds w' = fds w"
proof -
  obtain a w1 where a: "read_property K ''/proc/device-tree/model'' 256 w = (a, w1)" by (meson surj_pair)
  obtain b w2 where b: "read_property K ''/proc/device-tree/compatible'' 1024 w1 = (b, w2)" by (meson surj_pair)
  obtain c w3 where c: "read_property K ''/proc/device-tree/chosen/bootargs'' 1024 w2 = (c, w3)" by (meson surj_pair)
  have "w' = w \<or> w' = w3" using d
    by (auto simp: device_tree_collect_def collect_model_def collect_compatible_def collect_bootargs_def a b c split: if_split_asm)
  then show ?thesis using read_property_fds [OF K a] read_property_fds [OF K b] read_property_fds [OF K c] by auto
qed


text \<open>The reports of the system take no descriptor.\<close>

lemma zone_fds:
  assumes K: "files_fds K fds"
  shows "zone_kind K name w = (k, w') \<Longrightarrow> fds w' = fds w" and "zone_degrees K name w = (t, w') \<Longrightarrow> fds w' = fds w"
proof -
  show "zone_kind K name w = (k, w') \<Longrightarrow> fds w' = fds w"
    using stream_fds [OF K] files_fds_open(2) [OF K] keepsD [OF files_fds_laws(6) [OF K]]
    by (fastforce simp: zone_kind_def split: option.split_asm sum.split_asm prod.split_asm)
  show "zone_degrees K name w = (t, w') \<Longrightarrow> fds w' = fds w"
    using stream_fds [OF K] files_fds_open(2) [OF K] keepsD [OF files_fds_laws(9) [OF K]]
    by (fastforce simp: zone_degrees_def split: option.split_asm sum.split_asm prod.split_asm)
qed

lemma soc_entry_fds:
  assumes K: "files_fds K fds" and e: "soc_entry K name soc w = Some ((go, soc'), w')"
  shows "fds w' = fds w"
proof -
  obtain k w1 where k: "zone_kind K name w = (k, w1)" by (meson surj_pair)
  obtain t w2 where t: "zone_degrees K name w1 = (t, w2)" by (meson surj_pair)
  have "w' = w \<or> w' = w1 \<or> w' = w2" using e by (auto simp: soc_entry_def k t split: if_split_asm option.split_asm)
  then show ?thesis using zone_fds(1) [OF K k] zone_fds(2) [OF K t] by auto
qed

lemma system_parts_fds:
  assumes K: "files_fds K fds"
  shows "get_board_info K w = (b, w') \<Longrightarrow> fds w' = fds w" and "get_cpu_info K w = Some (c, w') \<Longrightarrow> fds w' = fds w"
    and "get_mem_info K w = Some (m, w') \<Longrightarrow> fds w' = fds w" and "get_uptime_info K w = (u, w') \<Longrightarrow> fds w' = fds w"
    and "get_thermal_info K w = Some (t, w') \<Longrightarrow> fds w' = fds w"
proof -
  show "get_board_info K w = (b, w') \<Longrightarrow> fds w' = fds w"
    using stream_fds [OF K] files_fds_open(2) [OF K] keepsD [OF files_fds_laws(7) [OF K]]
    by (fastforce simp: get_board_info_def read_device_tree_model_def split: sum.split_asm prod.split_asm)
  show "get_cpu_info K w = Some (c, w') \<Longrightarrow> fds w' = fds w"
    by (auto simp: get_cpu_info_def dest: with_lines_fds [OF K] split: Option.bind_split_asm)
  show "get_mem_info K w = Some (m, w') \<Longrightarrow> fds w' = fds w"
    by (auto simp: get_mem_info_def dest: with_lines_fds [OF K] split: Option.bind_split_asm)
  show "get_uptime_info K w = (u, w') \<Longrightarrow> fds w' = fds w"
    using stream_fds [OF K] files_fds_open(2) [OF K] keepsD [OF files_fds_laws(8) [OF K]]
    by (fastforce simp: get_uptime_info_def split: sum.split_asm prod.split_asm)
  show "get_thermal_info K w = Some (t, w') \<Longrightarrow> fds w' = fds w"
    using with_dir_inv [OF K, of "''/sys/class/thermal''" "soc_entry K" None w _ w' "\<lambda>_. True"] soc_entry_fds [OF K]
    by (fastforce simp: get_thermal_info_def split: Option.bind_split_asm)
qed

lemma system_info_fds:
  assumes K: "files_fds K fds" and run: "system_info_collect K w = Some (r, w')"
  shows "fds w' = fds w"
proof -
  obtain b w1 where b: "get_board_info K w = (b, w1)" by (meson surj_pair)
  have w1: "fds w1 = fds w" by (rule system_parts_fds(1) [OF K b])
  have "fds w' = fds w1 \<or> fds w' = fds w"
    using run system_parts_fds [OF K]
    by (fastforce simp: system_info_collect_def b split: option.split_asm prod.split_asm sum.split_asm Option.bind_split_asm)
  then show ?thesis using w1 by simp
qed

end
