(* ===== verification/Builtin.thy ===== *)
theory Builtin
  imports Executor_Safe Cmd_Device Cmd_Runtime Hardware_Info System_Info
begin

text \<open>
  The builtin commands, \<^verbatim>\<open>src/builtin.c\<close>, and their table, \<^verbatim>\<open>src/builtin_table.c\<close>.  \<open>host\<close> adds what the
  shell uses beside: the standard output stream (\<^verbatim>\<open>fflush\<close>, \<^verbatim>\<open>ferror\<close>, \<^verbatim>\<open>clearerr\<close>)
  and \<^verbatim>\<open>select\<close> on the event pipe and standard input, the signals that are handled before the next call of
  \<^verbatim>\<open>select\<close>, and which of the next allocations succeed.  \<open>T\<close> is the state of the terminal.
\<close>

record 'w host = "'w files" +
  sys_fflush :: "'w \<Rightarrow> (int + unit) \<times> 'w"
  sys_ferror :: "'w \<Rightarrow> bool"
  sys_clearerr :: "'w \<Rightarrow> 'w"
  sys_select :: "int \<Rightarrow> 'w \<Rightarrow> (int + bool \<times> bool) \<times> 'w"
  sys_signals :: "'w \<Rightarrow> int list \<times> 'w"
  sys_alloc :: "'w \<Rightarrow> nat \<Rightarrow> bool"

section \<open>Commands on the shell itself\<close>

definition chdir_result :: "('w, 'x) env_scheme \<Rightarrow> string \<Rightarrow> 'w ShellContext \<Rightarrow> 'w \<Rightarrow> ((int \<times> 'w ShellContext) \<times> 'w) option" where
  "chdir_result K target ctx w = (case sys_chdir K target w of
     (ok, w1) \<Rightarrow> Some ((if ok then MiniShell_OK else MiniShell_ERR_UNKNOWN, ctx), w1))"

definition builtin_cd :: "('w, 'x) env_scheme \<Rightarrow> 'w handler" where
  "builtin_cd K cmd ctx w =
     (if argc cmd < 2 then
        (case sys_getenv K ''HOME'' w of
           None \<Rightarrow> Some ((MiniShell_ERR_UNKNOWN, ctx), w)
         | Some home \<Rightarrow> chdir_result K home ctx w)
      else chdir_result K (argv cmd ! 1) ctx w)"

definition builtin_pwd :: "('w, 'x) env_scheme \<Rightarrow> 'w handler" where
  "builtin_pwd K cmd ctx w = (case sys_getcwd K w of
     None \<Rightarrow> Some ((MiniShell_ERR_UNKNOWN, ctx), w)
   | Some cwd \<Rightarrow> print_ok K (cwd @ [NL]) ctx w)"

definition builtin_exit :: "'w handler" where
  "builtin_exit cmd ctx w = Some ((last_exit_status ctx, ctx\<lparr>running := False\<rparr>), w)"

text \<open>The names of the table, in its order.\<close>

definition builtin_names :: "string list" where
  "builtin_names = [''cd'', ''pwd'', ''exit'', ''jobs'', ''help'', ''status'', ''sysinfo'', ''monitor'', ''psinfo'', ''dtinfo'',
     ''hwinfo'', ''led'', ''fg'', ''bg'', ''reload'', ''device'']"

definition builtin_count :: nat where
  "builtin_count = length builtin_names"

definition builtin_get :: "nat \<Rightarrow> string option" where
  "builtin_get i = (if i \<ge> builtin_count then None else Some (builtin_names ! i))"

definition builtin_help :: "('w, 'x) env_scheme \<Rightarrow> 'w handler" where
  "builtin_help K cmd ctx w = print_ok K (''Builtin commands are:'' @ [NL]
     @ concat (map (\<lambda>i. case builtin_get i of Some name \<Rightarrow> '' '' @ name @ [NL] | None \<Rightarrow> []) [0..<builtin_count])) ctx w"

definition builtin_jobs :: "('w, 'x) env_scheme \<Rightarrow> 'w handler" where
  "builtin_jobs K cmd ctx w = print_ok K (job_list (jobs ctx)) ctx w"

definition builtin_status :: "('w, 'x) env_scheme \<Rightarrow> 'w handler" where
  "builtin_status K cmd ctx w = print_ok K (dec_int (last_exit_status ctx) @ [NL]) ctx w"

definition builtin_reload :: "('w, 'x) env_scheme \<Rightarrow> 'w handler" where
  "builtin_reload K cmd ctx w =
     (case config_load (shell_config ctx) (config_source_of K (config_file ctx) w) of
        (ret, cfg) \<Rightarrow>
          if ret \<noteq> MiniShell_OK then Some ((MiniShell_ERR_UNKNOWN, ctx\<lparr>shell_config := cfg\<rparr>), w)
          else print_ok K (''config reloaded'' @ [NL])
            (ctx\<lparr>shell_config := cfg, current_level := log_setlevel (config_level cfg) (current_level ctx)\<rparr>) w)"

section \<open>Jobs\<close>

text \<open>The slot of the first job with one of the given states.\<close>

fun job_slot :: "JobStatus set \<Rightarrow> job list \<Rightarrow> nat option" where
  "job_slot states [] = None"
| "job_slot states (j # js) = (if status j \<in> states then Some 0 else map_option Suc (job_slot states js))"

definition job_at :: "nat \<Rightarrow> 'w ShellContext \<Rightarrow> job" where
  "job_at i ctx = jobs_head (jobs ctx) ! i"

definition put_job :: "nat \<Rightarrow> job \<Rightarrow> 'w ShellContext \<Rightarrow> 'w ShellContext" where
  "put_job i j ctx = ctx\<lparr>jobs := (jobs ctx)\<lparr>jobs_head := (jobs_head (jobs ctx))[i := j]\<rparr>\<rparr>"

text \<open>The end of \<^verbatim>\<open>builtin_fg\<close>, after the wait.\<close>

definition fg_finish :: "('w, 'x) api_scheme \<Rightarrow> terminal \<Rightarrow> nat \<Rightarrow> 'w ShellContext \<Rightarrow> 'w \<Rightarrow> ((int \<times> 'w ShellContext) \<times> 'w) option" where
  "fg_finish K T i ctx w = do {
     (j, w1) \<leftarrow> (if status (job_at i ctx) = JOB_STOPPED then save_modes K T (job_at i ctx) w else Some (job_at i ctx, w));
     let ctx1 = put_job i j ctx;
     (r, w2) \<leftarrow> terminal_restore K T w1;
     if r \<noteq> Inr () then Some ((MiniShell_ERR_UNKNOWN, ctx1\<lparr>running := False\<rparr>), w2)
     else if status j = JOB_STOPPED then Some ((MiniShell_OK, ctx1), stdout K (stopped_line j) w2)
     else if status j \<noteq> JOB_DONE then Some ((MiniShell_ERR_UNKNOWN, ctx1), w2)
     else Some ((if job_exit_status j < 0 then MiniShell_ERR_UNKNOWN else job_exit_status j, drop_job (pgid j) ctx1), w2) }"

text \<open>An error after the terminal was given away: it is taken back.\<close>

definition fg_fail :: "('w, 'x) api_scheme \<Rightarrow> terminal \<Rightarrow> int \<Rightarrow> 'w ShellContext \<Rightarrow> 'w \<Rightarrow> ((int \<times> 'w ShellContext) \<times> 'w) option" where
  "fg_fail K T code ctx w = do { (_, w1) \<leftarrow> terminal_restore K T w; Some ((code, ctx), w1) }"

definition fg_job :: "('w, 'x) api_scheme \<Rightarrow> terminal \<Rightarrow> nat \<Rightarrow> 'w ShellContext \<Rightarrow> 'w \<Rightarrow> ((int \<times> 'w ShellContext) \<times> 'w) option" where
  "fg_job K T i ctx w = do {
     let j = job_at i ctx;
     (f, w1) \<leftarrow> terminal_set_foreground K T (pgid j) w;
     if f \<noteq> Inr () then Some ((MiniShell_ERR_UNKNOWN, ctx), w1)
     else do {
       (m, w2) \<leftarrow> (if terminal_modes_valid j then terminal_set_modes K T (terminal_modes j) w1 else Some (Inr (), w1));
       if m \<noteq> Inr () then fg_fail K T MiniShell_ERR_UNKNOWN ctx w2
       else do {
         ((c, j1), w3) \<leftarrow> (if status j = JOB_STOPPED then job_continue K j w2 else Some ((0, j), w2));
         let ctx1 = put_job i j1 ctx;
         if c < 0 then fg_fail K T MiniShell_ERR_JOB ctx1 w3
         else do {
           ((r, j2), w4) \<leftarrow> job_wait_foreground K j1 w3;
           let ctx2 = put_job i j2 ctx;
           if r < 0 then fg_fail K T MiniShell_ERR_UNKNOWN ctx2 w4 else fg_finish K T i ctx2 w4 } } } }"

definition builtin_fg :: "('w, 'x) api_scheme \<Rightarrow> terminal \<Rightarrow> 'w handler" where
  "builtin_fg K T cmd ctx w = (case job_slot {JOB_RUNNING, JOB_STOPPED} (jobs_head (jobs ctx)) of
     None \<Rightarrow> Some ((MiniShell_ERR_JOB, ctx), stdout K (''fg: no job'' @ [NL]) w)
   | Some i \<Rightarrow> fg_job K T i ctx w)"

definition builtin_bg :: "('w, 'x) api_scheme \<Rightarrow> 'w handler" where
  "builtin_bg K cmd ctx w = (case job_slot {JOB_STOPPED} (jobs_head (jobs ctx)) of
     None \<Rightarrow> Some ((MiniShell_ERR_JOB, ctx), stdout K (''bg: no stopped job'' @ [NL]) w)
   | Some i \<Rightarrow> do {
       ((c, j), w1) \<leftarrow> job_continue K (job_at i ctx) w;
       if c < 0 then Some ((MiniShell_ERR_JOB, put_job i j ctx), w1)
       else print_ok K (''['' @ dec_int (id_of j) @ ''] '' @ cmdline j @ '' &'' @ [NL]) (put_job i j ctx) w1 })"

section \<open>LEDs\<close>

definition builtin_led_usage :: string where
  "builtin_led_usage = ''usage:'' @ [NL] @ ''  led list'' @ [NL] @ ''  led info <name>'' @ [NL] @ ''  led on <name>'' @ [NL]
     @ ''  led off <name>'' @ [NL] @ ''  led trigger <name> <trigger>'' @ [NL]"

definition builtin_led_find :: "HardwareInfo \<Rightarrow> string \<Rightarrow> LedInfo option" where
  "builtin_led_find info name = find (\<lambda>led. led_info_name led = name) (leds info)"

definition trigger_text :: "LedInfo \<Rightarrow> string" where
  "trigger_text led = (if led_trigger led \<noteq> [] then led_trigger led else ''N/A'')"

definition led_list_line :: "LedInfo \<Rightarrow> string" where
  "led_list_line led = pad_right 16 (led_info_name led)
     @ (case (led_brightness led, led_max_brightness led) of
          (Some b, Some m) \<Rightarrow> '' '' @ dec_int b @ ''/'' @ dec_int m | _ \<Rightarrow> '' N/A'')
     @ '' trigger='' @ trigger_text led @ [NL]"

definition builtin_led_list :: "('w, 'x) files_scheme \<Rightarrow> 'w ShellContext \<Rightarrow> 'w \<Rightarrow> ((int \<times> 'w ShellContext) \<times> 'w) option" where
  "builtin_led_list K ctx w = do {
     (info, w1) \<leftarrow> hardware_info_collect K w;
     print_ok K (if leds info = [] then ''no LEDs found'' @ [NL] else concat (map led_list_line (leds info))) ctx w1 }"

definition led_info_text :: "LedInfo \<Rightarrow> string" where
  "led_info_text led =
     (let number = (\<lambda>v. case v of Some n \<Rightarrow> dec_int n | None \<Rightarrow> ''N/A'')
      in ''Name           : '' @ led_info_name led @ [NL]
       @ ''Brightness     : '' @ number (led_brightness led) @ [NL]
       @ ''Max Brightness : '' @ number (led_max_brightness led) @ [NL]
       @ ''Trigger        : '' @ trigger_text led @ [NL])"

definition builtin_led_info :: "('w, 'x) files_scheme \<Rightarrow> string \<Rightarrow> 'w ShellContext \<Rightarrow> 'w \<Rightarrow> ((int \<times> 'w ShellContext) \<times> 'w) option" where
  "builtin_led_info K name ctx w = do {
     (info, w1) \<leftarrow> hardware_info_collect K w;
     case builtin_led_find info name of
       None \<Rightarrow> Some ((MiniShell_ERR_UNKNOWN, ctx), w1)
     | Some led \<Rightarrow> print_ok K (led_info_text led) ctx w1 }"

definition led_result :: "('w, 'x) api_scheme \<Rightarrow> string \<Rightarrow> 'w ShellContext \<Rightarrow> ((int + unit) \<times> 'w) option \<Rightarrow> ((int \<times> 'w ShellContext) \<times> 'w) option" where
  "led_result K line ctx call = do {
     (r, w) \<leftarrow> call;
     case r of Inl _ \<Rightarrow> Some ((MiniShell_ERR_UNKNOWN, ctx), w) | Inr _ \<Rightarrow> print_ok K line ctx w }"

definition builtin_led :: "('w, 'x) files_scheme \<Rightarrow> 'w handler" where
  "builtin_led K cmd ctx w =
     (let usage = Some ((MiniShell_ERR_PARSE, ctx), stdout K builtin_led_usage w); action = argv cmd ! 1; name = argv cmd ! 2 in
      if argc cmd < 2 then usage
      else if action = ''list'' then (if argc cmd \<noteq> 2 then usage else builtin_led_list K ctx w)
      else if action = ''info'' then (if argc cmd \<noteq> 3 then usage else builtin_led_info K name ctx w)
      else if action = ''on'' then
        (if argc cmd \<noteq> 3 then usage else led_result K (name @ '': on'' @ [NL]) ctx (led_control_set_on (io K) name w))
      else if action = ''off'' then
        (if argc cmd \<noteq> 3 then usage else led_result K (name @ '': off'' @ [NL]) ctx (led_control_set_off (io K) name w))
      else if action = ''trigger'' then
        (if argc cmd \<noteq> 4 then usage
         else led_result K (name @ '': trigger='' @ argv cmd ! 3 @ [NL]) ctx (led_control_set_trigger (io K) name (argv cmd ! 3) w))
      else usage)"

section \<open>Reports\<close>

definition builtin_sysinfo :: "('w, 'x) files_scheme \<Rightarrow> 'w handler" where
  "builtin_sysinfo K cmd ctx w = do {
     (r, w1) \<leftarrow> system_info_collect K w;
     case r of Inl code \<Rightarrow> Some ((code, ctx), w1) | Inr info \<Rightarrow> print_ok K (system_info_print K info) ctx w1 }"

definition builtin_dtinfo :: "('w, 'x) files_scheme \<Rightarrow> 'w handler" where
  "builtin_dtinfo K cmd ctx w = (case device_tree_collect K w of (info, w1) \<Rightarrow> print_ok K (device_tree_print info) ctx w1)"

definition builtin_hwinfo :: "('w, 'x) files_scheme \<Rightarrow> 'w handler" where
  "builtin_hwinfo K cmd ctx w = do {
     (info, w1) \<leftarrow> hardware_info_collect K w;
     print_ok K (hardware_info_print K info) ctx w1 }"

definition builtin_monitor :: "('w, 'x) files_scheme \<Rightarrow> 'w handler" where
  "builtin_monitor K cmd ctx w = cmd_monitor K cmd ctx w"

definition builtin_psinfo :: "('w, 'x) host_scheme \<Rightarrow> 'w handler" where
  "builtin_psinfo K cmd ctx w = cmd_psinfo K (sys_alloc K w) cmd ctx w"

section \<open>The table\<close>

definition builtin_table :: "('w, 'x) host_scheme \<Rightarrow> terminal \<Rightarrow> (nat \<Rightarrow> bool) \<Rightarrow> (string \<times> 'w handler) list" where
  "builtin_table K T calloc_ok = [(''cd'', builtin_cd K), (''pwd'', builtin_pwd K), (''exit'', builtin_exit), (''jobs'', builtin_jobs K),
     (''help'', builtin_help K), (''status'', builtin_status K), (''sysinfo'', builtin_sysinfo K),
     (''monitor'', builtin_monitor K), (''psinfo'', builtin_psinfo K), (''dtinfo'', builtin_dtinfo K),
     (''hwinfo'', builtin_hwinfo K), (''led'', builtin_led K), (''fg'', builtin_fg K T), (''bg'', builtin_bg K),
     (''reload'', builtin_reload K), (''device'', cmd_device K calloc_ok)]"

definition builtin_lookup :: "(string \<times> 'w handler) list \<Rightarrow> string \<Rightarrow> 'w handler option" where
  "builtin_lookup table name = map_of table name"

lemma builtin_table_names: "map fst (builtin_table K T ok) = builtin_names"
  by (simp add: builtin_table_def builtin_names_def)

lemma builtin_lookup_iff: "builtin_lookup (builtin_table K T ok) name \<noteq> None \<longleftrightarrow> name \<in> set builtin_names"
  by (metis builtin_lookup_def builtin_table_names list.set_map map_of_eq_None_iff)

end
