(* ===== verification/Dispatcher.thy ===== *)
theory Dispatcher
  imports Builtin
begin

text \<open>
  Dispatching a parsed command, \<^verbatim>\<open>src/dispatcher.c\<close>: builtins run in the shell itself, with the standard
  streams redirected and restored around them, everything else goes to the executor.
\<close>

section \<open>Redirection around a builtin\<close>

definition dup_cloexec :: "('w, 'x) api_scheme \<Rightarrow> int \<Rightarrow> 'w \<Rightarrow> (int + int) \<times> 'w" where
  "dup_cloexec K fd w = sys_dupfd K fd 3 w"

definition dup2_retry :: "('w, 'x) api_scheme \<Rightarrow> int \<Rightarrow> int \<Rightarrow> 'w \<Rightarrow> ((int + unit) \<times> 'w) option" where
  "dup2_retry K oldfd newfd w = retry (sys_dup2 K oldfd newfd) w"

text \<open>Opening the file and putting it in the place of a standard stream.\<close>

definition replace_stream :: "('w, 'x) api_scheme \<Rightarrow> string \<Rightarrow> uint32 \<Rightarrow> int \<Rightarrow> 'w \<Rightarrow> (int \<times> 'w) option" where
  "replace_stream K name flags target w =
     (case sys_open (io K) name flags w of
        (Inl _, w1) \<Rightarrow> Some (MiniShell_ERR_OPEN, w1)
      | (Inr fd, w1) \<Rightarrow>
          if fd = target then Some (MiniShell_OK, w1)
          else do {
            (r, w2) \<leftarrow> dup2_retry K fd target w1;
            Some (if r = Inr () then MiniShell_OK else MiniShell_ERR_DUP2, close_fd K fd w2) })"

text \<open>The code, \<^verbatim>\<open>saved_out\<close> and \<^verbatim>\<open>saved_in\<close>.\<close>

definition redirect_output :: "('w, 'x) host_scheme \<Rightarrow> command \<Rightarrow> 'w \<Rightarrow> ((int \<times> int) \<times> 'w) option" where
  "redirect_output K cmd w = (case output_file (redirect cmd) of
     None \<Rightarrow> Some ((MiniShell_OK, -1), w)
   | Some name \<Rightarrow>
       (case sys_fflush K w of
          (f, w1) \<Rightarrow>
            if f \<noteq> Inr () \<or> sys_ferror K w1 then Some ((MiniShell_ERR_UNKNOWN, -1), sys_clearerr K w1)
            else (case dup_cloexec K STDOUT_FILENO w1 of
              (Inl _, w2) \<Rightarrow> Some ((MiniShell_ERR_DUP2, -1), w2)
            | (Inr saved_out, w2) \<Rightarrow> do {
                (r, w3) \<leftarrow> replace_stream K name (output_flags (redirect cmd)) STDOUT_FILENO w2;
                Some ((r, saved_out), if r = MiniShell_OK then sys_clearerr K w3 else w3) })))"

definition redirect_input :: "('w, 'x) api_scheme \<Rightarrow> command \<Rightarrow> 'w \<Rightarrow> ((int \<times> int) \<times> 'w) option" where
  "redirect_input K cmd w = (case input_file (redirect cmd) of
     None \<Rightarrow> Some ((MiniShell_OK, -1), w)
   | Some name \<Rightarrow>
       (case dup_cloexec K STDIN_FILENO w of
          (Inl _, w1) \<Rightarrow> Some ((MiniShell_ERR_DUP2, -1), w1)
        | (Inr saved_in, w1) \<Rightarrow> do {
            (r, w2) \<leftarrow> replace_stream K name O_RDONLY STDIN_FILENO w1;
            Some ((r, saved_in), w2) }))"

definition builtin_apply_redirect :: "('w, 'x) host_scheme \<Rightarrow> command \<Rightarrow> 'w \<Rightarrow> ((int \<times> int \<times> int) \<times> 'w) option" where
  "builtin_apply_redirect K cmd w = do {
     ((r, saved_out), w1) \<leftarrow> redirect_output K cmd w;
     if r \<noteq> MiniShell_OK then Some ((r, saved_out, -1), w1)
     else do {
       ((r2, saved_in), w2) \<leftarrow> redirect_input K cmd w1;
       Some ((r2, saved_out, saved_in), w2) } }"

definition restore_stream :: "('w, 'x) api_scheme \<Rightarrow> int \<Rightarrow> int \<Rightarrow> 'w \<Rightarrow> (bool \<times> 'w) option" where
  "restore_stream K saved target w = do {
     (r, w1) \<leftarrow> dup2_retry K saved target w;
     Some (r = Inr (), close_fd K saved w1) }"

definition builtin_restore_redirect :: "('w, 'x) host_scheme \<Rightarrow> int \<Rightarrow> int \<Rightarrow> 'w \<Rightarrow> (int \<times> 'w) option" where
  "builtin_restore_redirect K saved_out saved_in w = do {
     (ok1, w1) \<leftarrow> (if saved_out \<ge> 0 then do {
          (ok, v) \<leftarrow> restore_stream K saved_out STDOUT_FILENO w; Some (ok, sys_clearerr K v) } else Some (True, w));
     (ok2, w2) \<leftarrow> (if saved_in \<ge> 0 then restore_stream K saved_in STDIN_FILENO w1 else Some (True, w1));
     Some (if ok1 \<and> ok2 then MiniShell_OK else MiniShell_ERR_DUP2, w2) }"

section \<open>Dispatching\<close>

definition command_chain_has_builtin :: "(string \<times> 'w handler) list \<Rightarrow> command list \<Rightarrow> bool" where
  "command_chain_has_builtin table cmds = list_ex (\<lambda>c. argv c \<noteq> [] \<and> builtin_lookup table (hd (argv c)) \<noteq> None) cmds"

text \<open>The output of a builtin is flushed before the streams are restored; an error makes a success a failure.\<close>

definition check_output :: "('w, 'x) host_scheme \<Rightarrow> int \<Rightarrow> 'w \<Rightarrow> int \<times> 'w" where
  "check_output K ret w = (case sys_fflush K w of
     (f, w1) \<Rightarrow>
       if f \<noteq> Inr () \<or> sys_ferror K w1 then (if ret = MiniShell_OK then MiniShell_ERR_UNKNOWN else ret, sys_clearerr K w1)
       else (ret, w1))"

text \<open>A builtin with its redirections; \<open>handler\<close> is the entry's.\<close>

definition run_builtin :: "('w, 'x) host_scheme \<Rightarrow> 'w handler \<Rightarrow> 'w handler" where
  "run_builtin K handler cmd ctx w = do {
     ((ret, saved_out, saved_in), w1) \<leftarrow> builtin_apply_redirect K cmd w;
     if ret \<noteq> MiniShell_OK then do {
       (restored, w2) \<leftarrow> builtin_restore_redirect K saved_out saved_in w1;
       Some ((ret, if restored \<noteq> MiniShell_OK then ctx\<lparr>running := False\<rparr> else ctx), w2) }
     else do {
       ((ret1, ctx1), w2) \<leftarrow> handler cmd ctx w1;
       let (ret2, w4) = check_output K ret1 w2;
       (restored, w5) \<leftarrow> builtin_restore_redirect K saved_out saved_in w4;
       if restored \<noteq> MiniShell_OK then Some ((restored, ctx1\<lparr>running := False\<rparr>), w5)
       else Some ((ret2, ctx1), w5) } }"

definition dispatcher_command ::
  "('w, 'x) host_scheme \<Rightarrow> terminal \<Rightarrow> (string \<times> 'w handler) list \<Rightarrow> (nat \<Rightarrow> bool) \<Rightarrow> command list \<Rightarrow> 'w ShellContext \<Rightarrow> 'w
     \<Rightarrow> ((int \<times> 'w ShellContext) \<times> 'w) option" where
  "dispatcher_command K T table mem cmds ctx w =
     (if cmds = [] \<or> argv (hd cmds) = [] then Some ((MiniShell_ERR_UNKNOWN, ctx), w)
      else if tl cmds \<noteq> [] \<and> command_chain_has_builtin table cmds then Some ((MiniShell_ERR_PARSE, ctx), w)
      else case builtin_lookup table (hd (argv (hd cmds))) of
        None \<Rightarrow> execute_command K T mem cmds ctx w
      | Some handler \<Rightarrow>
          if background (hd cmds) then Some ((MiniShell_ERR_PARSE, ctx), w)
          else run_builtin K handler (hd cmds) ctx w)"

end
