(* ===== verification/Shell.thy ===== *)
theory Shell
  imports Dispatcher Parser
begin

text \<open>
  The shell itself, \<^verbatim>\<open>src/shell.c\<close> and \<^verbatim>\<open>src/main.c\<close>: start and end of the program, the event loop, and the
  assembly of input lines.  \<open>shell\<close> is the context together with the static variables of the terminal,
  the event pipe and the signal handler.  A signal that arrives during a turn of the loop is handled
  before the turn's \<^verbatim>\<open>select\<close>; the finer interleaving with draining the pipe is studied with the event pipe.
\<close>

record 'w shell =
  ctx_of :: "'w ShellContext"
  term_of :: terminal
  event_of :: event
  pending_events :: uint32

datatype ShellStatus = SHELL_STATUS_OK | SHELL_STATUS_ERROR

section \<open>Output\<close>

definition shell_normalize_status :: "int \<Rightarrow> int" where
  "shell_normalize_status s = (if s < 0 then 1 else s)"

partial_function (option) shell_flush_stdout :: "('w, 'x) host_scheme \<Rightarrow> 'w \<Rightarrow> (bool \<times> 'w) option" where
  "shell_flush_stdout K w =
     (case sys_fflush K w of
        (Inr _, w1) \<Rightarrow> Some (True, w1)
      | (Inl e, w1) \<Rightarrow> if e \<noteq> EINTR then Some (False, w1) else shell_flush_stdout K (sys_clearerr K w1))"

declare shell_flush_stdout.simps [code]

partial_function (option) shell_write_all :: "('w, 'x) api_scheme \<Rightarrow> int \<Rightarrow> byte list \<Rightarrow> 'w \<Rightarrow> (bool \<times> 'w) option" where
  "shell_write_all K fd bs w =
     (if bs = [] then Some (True, w)
      else case sys_write (io K) fd bs w of
        (Inl e, w1) \<Rightarrow> if e = EINTR then shell_write_all K fd bs w1 else Some (False, w1)
      | (Inr n, w1) \<Rightarrow> if n = 0 then Some (False, w1) else shell_write_all K fd (drop n bs) w1)"

declare shell_write_all.simps [code]

definition prompt_text :: "'w ShellContext \<Rightarrow> string" where
  "prompt_text ctx = ''>>'' @ prompts (shell_config ctx) @ '' ''"

definition shell_print_prompt :: "('w, 'x) host_scheme \<Rightarrow> 'w ShellContext \<Rightarrow> 'w \<Rightarrow> (bool \<times> 'w) option" where
  "shell_print_prompt K ctx w =
     (if length (prompt_text ctx) \<ge> 128 then Some (False, w)
      else do {
        (ok, w1) \<leftarrow> shell_flush_stdout K w;
        if \<not> ok then Some (False, w1) else shell_write_all K STDOUT_FILENO (map char_byte (prompt_text ctx)) w1 })"

section \<open>Input\<close>

definition shell_reset_input :: "'w ShellContext \<Rightarrow> 'w ShellContext" where
  "shell_reset_input ctx = ctx\<lparr>input_buffer := [], input_discarding := False\<rparr>"

definition drop_cr :: "string \<Rightarrow> string" where
  "drop_cr s = (if s \<noteq> [] \<and> last s = CR then butlast s else s)"

text \<open>The command line ends at the first NUL, as a C string does.\<close>

definition shell_dispatch_input :: "('w, 'x) host_scheme \<Rightarrow> terminal \<Rightarrow> 'w ShellContext \<Rightarrow> 'w \<Rightarrow> ('w ShellContext \<times> 'w) option" where
  "shell_dispatch_input K T ctx w =
     (case parse_line (sys_alloc K w) (Some (cstr (drop_cr (input_buffer ctx)))) (Some (last_exit_status ctx)) of
        (None, st, _) \<Rightarrow> Some (shell_reset_input (ctx\<lparr>last_exit_status := the st\<rparr>), w)
      | (Some cmds, st, _) \<Rightarrow> do {
          ((code, ctx1), w1) \<leftarrow> dispatcher_command K T (builtin_table K T (sys_alloc K w)) (sys_alloc K w) cmds (ctx\<lparr>last_exit_status := the st\<rparr>) w;
          Some (shell_reset_input (ctx1\<lparr>last_exit_status := shell_normalize_status code\<rparr>), w1) })"

text \<open>What a byte of input does: it may end a line, be stored, or be discarded.\<close>

datatype input_step = Stored | Line_end | Skipped

definition input_char :: "char \<Rightarrow> 'w ShellContext \<Rightarrow> input_step \<times> 'w ShellContext" where
  "input_char ch ctx =
     (if input_discarding ctx then (if ch = NL then (Skipped, shell_reset_input ctx) else (Stored, ctx))
      else if ch = NL then (Line_end, ctx)
      else if length (input_buffer ctx) + 1 \<ge> SHELL_INPUT_SIZE then
        (Stored, ctx\<lparr>last_exit_status := 2, input_buffer := [], input_discarding := True\<rparr>)
      else (Stored, ctx\<lparr>input_buffer := input_buffer ctx @ [ch]\<rparr>))"

text \<open>The result: whether the call succeeded, \<^verbatim>\<open>line_done\<close> and \<^verbatim>\<open>eof\<close>.\<close>

definition shell_read_input ::
  "('w, 'x) host_scheme \<Rightarrow> terminal \<Rightarrow> 'w ShellContext \<Rightarrow> 'w \<Rightarrow> (((bool \<times> bool \<times> bool) \<times> 'w ShellContext) \<times> 'w) option" where
  "shell_read_input K T ctx w =
     (case sys_read (io K) STDIN_FILENO 1 w of
        (Inl e, w1) \<Rightarrow> Some (((e = EINTR, False, False), ctx), w1)
      | (Inr [], w1) \<Rightarrow>
          if \<not> input_discarding ctx \<and> input_buffer ctx \<noteq> [] then do {
            (ctx1, w2) \<leftarrow> shell_dispatch_input K T ctx w1;
            Some (((True, True, True), ctx1), w2) }
          else Some (((True, True, True), shell_reset_input ctx), w1)
      | (Inr (b # _), w1) \<Rightarrow>
          (case input_char (byte_char b) ctx of
             (Line_end, ctx1) \<Rightarrow> do {
               (ctx2, w2) \<leftarrow> shell_dispatch_input K T ctx1 w1;
               Some (((True, True, False), ctx2), w2) }
           | (Skipped, ctx1) \<Rightarrow> Some (((True, True, False), ctx1), w1)
           | (Stored, ctx1) \<Rightarrow> Some (((True, False, False), ctx1), w1)))"

section \<open>Start and end\<close>

definition shell_init :: "('w, 'x) host_scheme \<Rightarrow> terminal \<Rightarrow> event \<Rightarrow> uint32 \<Rightarrow> 'w \<Rightarrow> ((ShellStatus \<times> 'w shell) \<times> 'w) option" where
  "shell_init K T E p w = do {
     (ctx, w1) \<leftarrow> shell_context_init K (sys_alloc K w) log_init w;
     case event_init K E w1 of
       ((False, E1), w2) \<Rightarrow> do {
         (ctx1, w3) \<leftarrow> shell_context_destroy K ctx w2;
         Some ((SHELL_STATUS_ERROR, \<lparr>ctx_of = ctx1, term_of = T, event_of = E1, pending_events = p\<rparr>), w3) }
     | ((True, E1), w2) \<Rightarrow> do {
         ((ok, T1), w3) \<leftarrow> terminal_init K T w2;
         if \<not> ok then (case event_shut K E1 w3 of
           (E2, w4) \<Rightarrow> do {
             (ctx1, w5) \<leftarrow> shell_context_destroy K ctx w4;
             Some ((SHELL_STATUS_ERROR, \<lparr>ctx_of = ctx1, term_of = T1, event_of = E2, pending_events = p\<rparr>), w5) })
         else (case signal_init K (p, w3) of
           (ok2, p1, w4) \<Rightarrow>
             if ok2 then Some ((SHELL_STATUS_OK, \<lparr>ctx_of = ctx, term_of = T1, event_of = E1, pending_events = p1\<rparr>), w4)
             else (case signal_shutdown K (p1, w4) of
               (p2, w5) \<Rightarrow> do {
                 (T2, w6) \<leftarrow> terminal_shutdown K T1 w5;
                 case event_shut K E1 w6 of
                   (E2, w7) \<Rightarrow> do {
                     (ctx1, w8) \<leftarrow> shell_context_destroy K ctx w7;
                     Some ((SHELL_STATUS_ERROR, \<lparr>ctx_of = ctx1, term_of = T2, event_of = E2, pending_events = p2\<rparr>), w8) } })) } }"

definition farewell :: string where
  "farewell = ''>>MiniShell '' @ map char_of [0xE5 :: nat, 0xB7, 0xB2, 0xE9, 0x80, 0x80, 0xE5, 0x87, 0xBA] @ [CR, NL]"

definition shell_cleanup :: "('w, 'x) host_scheme \<Rightarrow> 'w shell \<Rightarrow> 'w \<Rightarrow> ('w shell \<times> 'w) option" where
  "shell_cleanup K S w = do {
     (ctx1, w1) \<leftarrow> shell_context_destroy K (ctx_of S) w;
     case signal_shutdown K (pending_events S, w1) of
       (p, w2) \<Rightarrow> (case event_shut K (event_of S) w2 of
         (E1, w3) \<Rightarrow> do {
           (T1, w4) \<leftarrow> terminal_shutdown K (term_of S) w3;
           (ok, w5) \<leftarrow> shell_flush_stdout K w4;
           (_, w6) \<leftarrow> (if ok then shell_write_all K STDOUT_FILENO (map char_byte farewell) w5 else Some (False, w5));
           Some (\<lparr>ctx_of = ctx1, term_of = T1, event_of = E1, pending_events = p\<rparr>, w6) }) }"


section \<open>The event loop\<close>

fun handle_signals :: "('w, 'x) api_scheme \<Rightarrow> event \<Rightarrow> int list \<Rightarrow> uint32 \<times> 'w \<Rightarrow> (uint32 \<times> 'w) option" where
  "handle_signals K E [] s = Some s"
| "handle_signals K E (sig # sigs) s = do { s' \<leftarrow> signal_handler K E sig s; handle_signals K E sigs s' }"

text \<open>How a turn of the loop ends: the loop goes on, with the value of \<^verbatim>\<open>prompt\<close>, or \<^verbatim>\<open>shell_run\<close> returns.\<close>

datatype turn = Go bool | Leave ShellStatus

text \<open>The two kinds of events; the result is whether the output worked, and \<^verbatim>\<open>prompt\<close>.\<close>

definition shell_child_event :: "('w, 'x) api_scheme \<Rightarrow> 'w ShellContext \<Rightarrow> 'w \<Rightarrow> ('w ShellContext \<times> 'w) option" where
  "shell_child_event K ctx w = do {
     (m, w1) \<leftarrow> job_reap K (jobs ctx) w;
     Some (ctx\<lparr>jobs := job_cleanup_done m\<rparr>, w1) }"

definition shell_interrupt_event :: "('w, 'x) host_scheme \<Rightarrow> 'w ShellContext \<Rightarrow> 'w \<Rightarrow> ((bool \<times> 'w ShellContext) \<times> 'w) option" where
  "shell_interrupt_event K ctx w = do {
     (ok, w1) \<leftarrow> shell_flush_stdout K w;
     (ok2, w2) \<leftarrow> (if ok then shell_write_all K STDOUT_FILENO [0x0A] w1 else Some (False, w1));
     Some ((ok2, shell_reset_input ctx), w2) }"

definition shell_events :: "('w, 'x) host_scheme \<Rightarrow> 'w shell \<Rightarrow> 'w \<Rightarrow> ((turn \<times> 'w shell) \<times> 'w) option" where
  "shell_events K S w = do {
     (drained, w1) \<leftarrow> event_drain K (event_of S) w;
     if \<not> drained then Some ((Leave SHELL_STATUS_ERROR, S), w1)
     else (case signal_take_events K (pending_events S, w1) of
       (events, p, w2) \<Rightarrow> do {
         (ctx1, w3) \<leftarrow> (if events AND SIGNAL_EVENT_CHILD \<noteq> 0 then shell_child_event K (ctx_of S) w2 else Some (ctx_of S, w2));
         ((ok, ctx2), w4) \<leftarrow> (if events AND SIGNAL_EVENT_INTERRUPT \<noteq> 0 then shell_interrupt_event K ctx1 w3 else Some ((True, ctx1), w3));
         let S1 = S\<lparr>ctx_of := ctx2, pending_events := p\<rparr>;
         Some ((if ok then Go (events AND SIGNAL_EVENT_INTERRUPT \<noteq> 0) else Leave SHELL_STATUS_ERROR, S1), w4) }) }"

definition shell_input :: "('w, 'x) host_scheme \<Rightarrow> bool \<Rightarrow> 'w shell \<Rightarrow> 'w \<Rightarrow> ((turn \<times> 'w shell) \<times> 'w) option" where
  "shell_input K prompt S w = do {
     (((ok, line_done, eof), ctx), w1) \<leftarrow> shell_read_input K (term_of S) (ctx_of S) w;
     let S1 = S\<lparr>ctx_of := ctx\<rparr>;
     Some ((if \<not> ok then Leave SHELL_STATUS_ERROR else if eof then Leave SHELL_STATUS_OK else Go (prompt \<or> line_done), S1), w1) }"

text \<open>What follows a successful \<^verbatim>\<open>select\<close>: \<open>ev\<close> and \<open>inp\<close> are the bits of the event pipe and of standard input.\<close>

definition shell_ready :: "('w, 'x) host_scheme \<Rightarrow> bool \<Rightarrow> bool \<Rightarrow> 'w shell \<Rightarrow> 'w \<Rightarrow> ((turn \<times> 'w shell) \<times> 'w) option" where
  "shell_ready K ev inp S w = do {
     ((t, S1), w1) \<leftarrow> (if ev then shell_events K S w else Some ((Go False, S), w));
     case t of
       Leave st \<Rightarrow> Some ((Leave st, S1), w1)
     | Go prompt \<Rightarrow>
         if \<not> running (ctx_of S1) then Some ((Leave SHELL_STATUS_OK, S1), w1)
         else if inp then shell_input K prompt S1 w1
         else Some ((Go prompt, S1), w1) }"

definition shell_turn :: "('w, 'x) host_scheme \<Rightarrow> bool \<Rightarrow> 'w shell \<Rightarrow> 'w \<Rightarrow> ((turn \<times> 'w shell) \<times> 'w) option" where
  "shell_turn K prompt S w = do {
     (ok, w1) \<leftarrow> (if prompt then shell_print_prompt K (ctx_of S) w else Some (True, w));
     if \<not> ok then Some ((Leave SHELL_STATUS_ERROR, S), w1)
     else do {
       let (sigs, w2) = sys_signals K w1;
       (p, w3) \<leftarrow> handle_signals K (event_of S) sigs (pending_events S, w2);
       let S1 = S\<lparr>pending_events := p\<rparr>;
       case sys_select K (event_getfd (event_of S)) w3 of
         (Inl e, w4) \<Rightarrow> Some ((if e = EINTR then Go False else Leave SHELL_STATUS_ERROR, S1), w4)
       | (Inr (ev, inp), w4) \<Rightarrow> shell_ready K ev inp S1 w4 } }"

partial_function (option) shell_loop :: "('w, 'x) host_scheme \<Rightarrow> bool \<Rightarrow> 'w shell \<Rightarrow> 'w \<Rightarrow> ((ShellStatus \<times> 'w shell) \<times> 'w) option" where
  "shell_loop K prompt S w =
     (if \<not> running (ctx_of S) then Some ((SHELL_STATUS_OK, S), w)
      else do {
        ((t, S1), w1) \<leftarrow> shell_turn K prompt S w;
        case t of Leave st \<Rightarrow> Some ((st, S1), w1) | Go prompt' \<Rightarrow> shell_loop K prompt' S1 w1 })"

declare shell_loop.simps [code]

abbreviation (input) FD_SETSIZE :: int where "FD_SETSIZE \<equiv> 1024"

definition shell_run :: "('w, 'x) host_scheme \<Rightarrow> 'w shell \<Rightarrow> 'w \<Rightarrow> ((ShellStatus \<times> 'w shell) \<times> 'w) option" where
  "shell_run K S w =
     (let event_fd = event_getfd (event_of S)
      in if event_fd < 0 \<or> event_fd \<ge> FD_SETSIZE then Some ((SHELL_STATUS_ERROR, S), w) else shell_loop K True S w)"

section \<open>The program\<close>

definition ensure_standard_fd :: "('w, 'x) api_scheme \<Rightarrow> int \<Rightarrow> uint32 \<Rightarrow> 'w \<Rightarrow> bool \<times> 'w" where
  "ensure_standard_fd K target flags w = (case sys_getfd K target w of
     (Inr _, w1) \<Rightarrow> (True, w1)
   | (Inl e, w1) \<Rightarrow>
       if e \<noteq> EBADF then (False, w1)
       else (case sys_open (io K) ''/dev/null'' flags w1 of
         (Inl _, w2) \<Rightarrow> (False, w2)
       | (Inr fd, w2) \<Rightarrow>
           if fd = target then (True, w2)
           else (case sys_dup2 K fd target w2 of (r, w3) \<Rightarrow> (r = Inr (), close_fd K fd w3))))"

definition ensure_standard_fds :: "('w, 'x) api_scheme \<Rightarrow> 'w \<Rightarrow> bool \<times> 'w" where
  "ensure_standard_fds K w = (case ensure_standard_fd K STDIN_FILENO O_RDONLY w of
     (False, w1) \<Rightarrow> (False, w1)
   | (True, w1) \<Rightarrow> (case ensure_standard_fd K STDOUT_FILENO O_WRONLY w1 of
       (False, w2) \<Rightarrow> (False, w2)
     | (True, w2) \<Rightarrow> ensure_standard_fd K STDERR_FILENO O_WRONLY w2))"

text \<open>The statics at the start of the program.\<close>

definition terminal_start :: terminal where
  "terminal_start = \<lparr>shell_pgid = -1, terminal_fd = -1, terminal_initialized = False, shell_modes_valid = False, shell_modes = termios_zero\<rparr>"

definition main :: "('w, 'x) host_scheme \<Rightarrow> 'w \<Rightarrow> (int \<times> 'w) option" where
  "main K w = (case ensure_standard_fds K w of
     (False, w1) \<Rightarrow> Some (1, w1)
   | (True, w1) \<Rightarrow> do {
       ((st, S), w2) \<leftarrow> shell_init K terminal_start event_none SIGNAL_EVENT_NONE w1;
       if st \<noteq> SHELL_STATUS_OK then Some (1, w2)
       else do {
         ((run_status, S1), w3) \<leftarrow> shell_run K S w2;
         (_, w4) \<leftarrow> shell_cleanup K S1 w3;
         Some (if run_status \<noteq> SHELL_STATUS_OK then 1 else last_exit_status (ctx_of S1), w4) } })"

end
