(* ===== verification/Dispatcher_Safe.thy ===== *)
theory Dispatcher_Safe
  imports Dispatcher
begin

text \<open>
  The descriptors of the process over a command line: every builtin and every command of the executor
  accounts for what it opens, and the redirections around a builtin are undone.
\<close>

section \<open>Descriptors\<close>

text \<open>The remaining calls of the shell open and close nothing.\<close>

definition host_fds :: "('w, 'x) host_scheme \<Rightarrow> ('w \<Rightarrow> int set) \<Rightarrow> bool" where
  "host_fds K fds \<longleftrightarrow> files_fds K fds \<and> (\<forall>p. keeps fds (sys_chdir K p)) \<and> keeps fds (sys_fflush K)
     \<and> (\<forall>w. fds (sys_clearerr K w) = fds w) \<and> (\<forall>fd. keeps fds (sys_select K fd)) \<and> keeps fds (sys_signals K)"

lemma host_fds_laws:
  assumes "host_fds K fds"
  shows "api_fds K fds" "keeps fds (sys_chdir K p)" "files_fds K fds" "side_calls_keep K fds" "keeps fds (sys_fflush K)"
    "fds (sys_clearerr K w) = fds w" "keeps fds (sys_select K fd)" "keeps fds (sys_signals K)" "side_calls_keep K fds"
    "fd_table (io K) fds" "fds (stdout K str w) = fds w"
  using assms by (simp_all add: host_fds_def files_fds_laws(1-3) stdout_fds)

text \<open>The process holds \<open>base\<close> and what the open devices hold.\<close>

definition shell_fds :: "('w, 'x) host_scheme \<Rightarrow> ('w \<Rightarrow> int set) \<Rightarrow> int set \<Rightarrow> 'w ShellContext \<Rightarrow> 'w \<Rightarrow> bool" where
  "shell_fds K fds base ctx w \<longleftrightarrow> table_ok (io K) (device_table ctx) \<and> table_balanced fds base (device_table ctx) w"

lemma shell_fds_same: "shell_fds K fds base ctx w \<Longrightarrow> device_table ctx' = device_table ctx \<Longrightarrow> fds w' = fds w \<Longrightarrow> shell_fds K fds base ctx' w'"
  by (simp add: shell_fds_def table_balanced_def)

lemma shell_fds_add: "shell_fds K fds base ctx w \<Longrightarrow> fds w' = insert fd (fds w) \<Longrightarrow> fd \<notin> fds w \<Longrightarrow> shell_fds K fds (insert fd base) ctx w'"
  using separate_Un [of base "{fd}"] by (auto simp: shell_fds_def table_balanced_def)

lemma shell_fds_drop: "shell_fds K fds (insert fd base) ctx w \<Longrightarrow> fds w' = fds w - {fd} \<Longrightarrow> fd \<notin> base \<Longrightarrow> shell_fds K fds base ctx w'"
  using separate_Un [of base "{fd}"] by (auto simp: shell_fds_def table_balanced_def)

lemma shell_fds_base: "shell_fds K fds base ctx w \<Longrightarrow> base \<subseteq> fds w"
  by (auto simp: shell_fds_def table_balanced_def)

section \<open>Builtins\<close>

text \<open>What the dispatcher relies on in a builtin: it accounts for the descriptors, whatever else is open.\<close>

locale builtin_handler =
  fixes handler :: "('w, 'x) host_scheme \<Rightarrow> 'w handler"
  assumes keeps_table: "host_fds K fds \<Longrightarrow> shell_fds K fds base ctx w \<Longrightarrow> handler K cmd ctx w = Some ((code, ctx'), w')
    \<Longrightarrow> shell_fds K fds base ctx' w'"

lemma print_ok_fds: "host_fds K fds \<Longrightarrow> shell_fds K fds base ctx w \<Longrightarrow> print_ok K s ctx1 w = Some ((code, ctx'), w')
    \<Longrightarrow> device_table ctx1 = device_table ctx \<Longrightarrow> shell_fds K fds base ctx' w'"
  by (auto simp: print_ok_def host_fds_laws(11) intro: shell_fds_same)

lemma chdir_fds:
  assumes "host_fds K fds" "shell_fds K fds base ctx w" "chdir_result K p ctx w = Some ((code, ctx'), w')"
  shows "shell_fds K fds base ctx' w'"
proof -
  obtain ok v where "sys_chdir K p w = (ok, v)" by (meson surj_pair)
  with assms(3) keepsD [OF host_fds_laws(2) [OF assms(1)] this] show ?thesis
    by (auto simp: chdir_result_def intro: shell_fds_same [OF assms(2)])
qed

interpretation b_cd: builtin_handler builtin_cd
  by unfold_locales (auto simp: builtin_cd_def intro: chdir_fds split: if_split_asm option.split_asm)

interpretation b_pwd: builtin_handler builtin_pwd
  by unfold_locales (auto simp: builtin_pwd_def intro: print_ok_fds split: option.split_asm)

interpretation b_exit: builtin_handler "\<lambda>K. builtin_exit"
  by unfold_locales (auto simp: builtin_exit_def intro: shell_fds_same)

interpretation b_jobs: builtin_handler builtin_jobs
  by unfold_locales (auto simp: builtin_jobs_def intro: print_ok_fds)

interpretation b_help: builtin_handler builtin_help
  by unfold_locales (auto simp: builtin_help_def intro: print_ok_fds)

interpretation b_status: builtin_handler builtin_status
  by unfold_locales (auto simp: builtin_status_def intro: print_ok_fds)

text \<open>The reports leave the shell as it is.\<close>

lemma report_fds:
  assumes "host_fds K fds"
  shows "builtin_sysinfo K cmd ctx w = Some ((code, ctx'), w') \<Longrightarrow> ctx' = ctx \<and> fds w' = fds w"
    and "builtin_hwinfo K cmd ctx w = Some ((code, ctx'), w') \<Longrightarrow> ctx' = ctx \<and> fds w' = fds w"
    and "builtin_dtinfo K cmd ctx w = Some ((code, ctx'), w') \<Longrightarrow> ctx' = ctx \<and> fds w' = fds w"
    and "builtin_led_list K ctx w = Some ((code, ctx'), w') \<Longrightarrow> ctx' = ctx \<and> fds w' = fds w"
    and "builtin_led_info K name ctx w = Some ((code, ctx'), w') \<Longrightarrow> ctx' = ctx \<and> fds w' = fds w"
proof -
  note K = host_fds_laws(3) [OF assms]
  note out = print_ok_def stdout_fds [OF K]
  show "ctx' = ctx \<and> fds w' = fds w" if sys: "builtin_sysinfo K cmd ctx w = Some ((code, ctx'), w')"
  proof -
    obtain r v where r: "system_info_collect K w = Some (r, v)"
      using sys by (auto simp: builtin_sysinfo_def split: Option.bind_split_asm)
    have "ctx' = ctx \<and> (w' = v \<or> (\<exists>s. w' = stdout K s v))"
      using sys by (auto simp: builtin_sysinfo_def r print_ok_def split: sum.split_asm)
    then show ?thesis using system_info_fds [OF K r] stdout_fds [OF K] by auto
  qed
  show "builtin_hwinfo K cmd ctx w = Some ((code, ctx'), w') \<Longrightarrow> ctx' = ctx \<and> fds w' = fds w"
    by (auto simp: builtin_hwinfo_def out dest: hardware_collect_fds [OF K] split: Option.bind_split_asm)
  show "builtin_dtinfo K cmd ctx w = Some ((code, ctx'), w') \<Longrightarrow> ctx' = ctx \<and> fds w' = fds w"
    by (auto simp: builtin_dtinfo_def out dest: device_tree_fds [OF K] split: prod.split_asm)
  show "builtin_led_list K ctx w = Some ((code, ctx'), w') \<Longrightarrow> ctx' = ctx \<and> fds w' = fds w"
    by (auto simp: builtin_led_list_def out dest: hardware_collect_fds [OF K] split: Option.bind_split_asm)
  show "ctx' = ctx \<and> fds w' = fds w" if led: "builtin_led_info K name ctx w = Some ((code, ctx'), w')"
  proof -
    obtain r v where r: "hardware_info_collect K w = Some (r, v)"
      using led by (auto simp: builtin_led_info_def split: Option.bind_split_asm)
    have "ctx' = ctx \<and> (w' = v \<or> (\<exists>s. w' = stdout K s v))"
      using led by (auto simp: builtin_led_info_def r print_ok_def split: option.split_asm)
    then show ?thesis using hardware_collect_fds [OF K r] stdout_fds [OF K] by auto
  qed
qed

interpretation b_sysinfo: builtin_handler builtin_sysinfo
  by unfold_locales (auto dest: report_fds(1) intro: shell_fds_same)

interpretation b_hwinfo: builtin_handler builtin_hwinfo
  by unfold_locales (auto dest: report_fds(2) intro: shell_fds_same)

interpretation b_dtinfo: builtin_handler builtin_dtinfo
  by unfold_locales (auto dest: report_fds(3) intro: shell_fds_same)

interpretation b_monitor: builtin_handler builtin_monitor
  by unfold_locales (auto simp: builtin_monitor_def dest: cmd_runtime_fds(1) [OF host_fds_laws(3)] intro: shell_fds_same)

interpretation b_psinfo: builtin_handler builtin_psinfo
  by unfold_locales (auto simp: builtin_psinfo_def dest: cmd_runtime_fds(2) [OF host_fds_laws(3)] intro: shell_fds_same)

interpretation b_reload: builtin_handler builtin_reload
  by unfold_locales (auto simp: builtin_reload_def intro: print_ok_fds shell_fds_same split: prod.split_asm if_split_asm)

lemma device_fds:
  assumes K: "host_fds K fds" and "shell_fds K fds base ctx w" "cmd_device K ok cmd ctx w = Some ((code, ctx'), w')"
  shows "shell_fds K fds base ctx' w'"
proof -
  have "fds (stdout K s v) = fds v" for s v by (rule host_fds_laws(11) [OF K])
  from cmd_device_table [OF host_fds_laws(10) [OF K] this _ _ assms(3), of base] assms(2) show ?thesis by (simp add: shell_fds_def)
qed

interpretation b_device: builtin_handler "\<lambda>K. cmd_device K ok" for ok
  by unfold_locales (rule device_fds)


lemma led_result_fds:
  assumes K: "host_fds K fds" and w: "shell_fds K fds base ctx w"
    and call: "\<And>r v. call = Some (r, v) \<Longrightarrow> fds v = fds w" and res: "led_result K line ctx call = Some ((code, ctx'), w')"
  shows "shell_fds K fds base ctx' w'"
proof -
  obtain r v where c: "call = Some (r, v)" using res by (auto simp: led_result_def split: Option.bind_split_asm)
  have v: "shell_fds K fds base ctx v" by (rule shell_fds_same [OF w refl call [OF c]])
  show ?thesis using res v print_ok_fds [OF K v] by (auto simp: led_result_def c split: sum.split_asm)
qed

lemma led_fds_handler:
  assumes K: "host_fds K fds" and w: "shell_fds K fds base ctx w" and led: "builtin_led K cmd ctx w = Some ((code, ctx'), w')"
  shows "shell_fds K fds base ctx' w'"
proof -
  note ctl = led_control_fds [OF host_fds_laws(10) [OF K]]
  have usage: "shell_fds K fds base ctx (stdout K s w)" for s by (rule shell_fds_same [OF w refl host_fds_laws(11) [OF K]])
  have reports: "builtin_led_list K ctx w = Some ((code, ctx'), w') \<Longrightarrow> shell_fds K fds base ctx' w'"
    "builtin_led_info K name ctx w = Some ((code, ctx'), w') \<Longrightarrow> shell_fds K fds base ctx' w'" for name
    by (auto dest!: report_fds(4,5) [OF K] intro: shell_fds_same [OF w])
  have "builtin_led_list K ctx w = Some ((code, ctx'), w') \<or> (\<exists>n. builtin_led_info K n ctx w = Some ((code, ctx'), w'))
    \<or> ctx' = ctx \<and> (\<exists>s. w' = stdout K s w)
    \<or> (\<exists>l n. led_result K l ctx (led_control_set_on (io K) n w) = Some ((code, ctx'), w'))
    \<or> (\<exists>l n. led_result K l ctx (led_control_set_off (io K) n w) = Some ((code, ctx'), w'))
    \<or> (\<exists>l n t. led_result K l ctx (led_control_set_trigger (io K) n t w) = Some ((code, ctx'), w'))"
    using led unfolding builtin_led_def Let_def by (auto split: if_split_asm)
  then show ?thesis
    using usage reports led_result_fds [OF K w ctl(1)] led_result_fds [OF K w ctl(2)] led_result_fds [OF K w ctl(3)]
    by (elim disjE exE conjE) blast+
qed

interpretation b_led: builtin_handler builtin_led
  by unfold_locales (rule led_fds_handler)

lemma job_continue_keeps:
  assumes "side_calls_keep K P" "job_continue K j w = Some ((c, j'), w')"
  shows "P w' = P w"
  using assms(2) by (auto simp: job_continue_def dest!: keeps_retry [OF side_calls(5) [OF assms(1)]]
      split: if_split_asm Option.bind_split_asm sum.split_asm)

lemma bg_fds:
  assumes K: "host_fds K fds" and w: "shell_fds K fds base ctx w" and bg: "builtin_bg K cmd ctx w = Some ((code, ctx'), w')"
  shows "shell_fds K fds base ctx' w'"
proof (cases "job_slot {JOB_STOPPED} (jobs_head (jobs ctx))")
  case None
  then show ?thesis using bg shell_fds_same [OF w refl host_fds_laws(11) [OF K]] by (auto simp: builtin_bg_def)
next
  case (Some i)
  obtain c j v where c: "job_continue K (job_at i ctx) w = Some ((c, j), v)"
    using bg Some by (auto simp: builtin_bg_def split: Option.bind_split_asm)
  have v: "shell_fds K fds base (put_job i j ctx) v"
    by (rule shell_fds_same [OF w _ job_continue_keeps [OF host_fds_laws(9) [OF K] c]]) (simp add: put_job_def)
  then show ?thesis using bg print_ok_fds [OF K v] by (auto simp: builtin_bg_def Some c split: if_split_asm)
qed

interpretation b_bg: builtin_handler builtin_bg
  by unfold_locales (rule bg_fds)

text \<open>Bringing a job to the foreground only waits and sends signals.\<close>

lemma fg_finish_fds:
  assumes K: "api_fds K fds" and fin: "fg_finish K T i ctx w = Some ((code, ctx'), w')"
  shows "fds w' = fds w \<and> device_table ctx' = device_table ctx"
proof -
  obtain j w1 where j: "(if status (job_at i ctx) = JOB_STOPPED then save_modes K T (job_at i ctx) w else Some (job_at i ctx, w)) = Some (j, w1)"
    using fin by (auto simp: fg_finish_def split: Option.bind_split_asm)
  obtain r w2 where r: "terminal_restore K T w1 = Some (r, w2)"
    using fin by (auto simp: fg_finish_def j Let_def split: Option.bind_split_asm)
  have "fds w1 = fds w" using j save_modes_keeps [OF api_fds_laws(2) [OF K]] by (auto split: if_split_asm)
  moreover have "fds w2 = fds w1" by (rule terminal_keeps(4) [OF api_fds_laws(2) [OF K] r])
  moreover have "w' = w2 \<or> w' = stdout K (stopped_line j) w2" "device_table ctx' = device_table ctx"
    using fin unfolding fg_finish_def Let_def j Option.bind.simps prod.case r
    by (auto simp: put_job_def drop_job_def split: if_split_asm)
  ultimately show ?thesis using side_calls(9) [OF api_fds_laws(2) [OF K]] by metis
qed

lemma fg_job_fds:
  assumes K: "api_fds K fds" and fg: "fg_job K T i ctx w = Some ((code, ctx'), w')"
  shows "fds w' = fds w \<and> device_table ctx' = device_table ctx"
proof -
  note side = api_fds_laws(2) [OF K]
  let ?j = "job_at i ctx"
  have fail: "fds w' = fds v \<and> device_table ctx' = device_table ctx1" if "fg_fail K T c ctx1 v = Some ((code, ctx'), w')" for c ctx1 v
    using that terminal_keeps(4) [OF side] by (auto simp: fg_fail_def split: Option.bind_split_asm)
  have dt: "device_table (put_job i j ctx) = device_table ctx" for j by (simp add: put_job_def)
  obtain f w1 where f: "terminal_set_foreground K T (pgid ?j) w = Some (f, w1)"
    using fg by (auto simp: fg_job_def Let_def split: Option.bind_split_asm)
  have w1: "fds w1 = fds w" by (rule terminal_keeps(1) [OF side f])
  show ?thesis
  proof (cases "f = Inr ()")
    case False
    then show ?thesis using fg w1 by (auto simp: fg_job_def Let_def f)
  next
    case True
    obtain m w2 where m: "(if terminal_modes_valid ?j then terminal_set_modes K T (terminal_modes ?j) w1 else Some (Inr (), w1)) = Some (m, w2)"
      using fg True by (auto simp: fg_job_def Let_def f split: Option.bind_split_asm)
    have w2: "fds w2 = fds w" using m w1 terminal_keeps(3) [OF side] by (auto split: if_split_asm)
    show ?thesis
    proof (cases "m = Inr ()")
      case False
      then have "fg_fail K T MiniShell_ERR_UNKNOWN ctx w2 = Some ((code, ctx'), w')"
        using fg True unfolding fg_job_def Let_def f Option.bind.simps prod.case m by simp
      from fail [OF this] w2 show ?thesis by simp
    next
      case mok: True
      obtain c j1 w3 where c: "(if status ?j = JOB_STOPPED then job_continue K ?j w2 else Some ((0, ?j), w2)) = Some ((c, j1), w3)"
        using fg True mok unfolding fg_job_def Let_def f Option.bind.simps prod.case m by (auto split: Option.bind_split_asm)
      have w3: "fds w3 = fds w" using c w2 job_continue_keeps [OF side] by (auto split: if_split_asm)
      show ?thesis
      proof (cases "c < 0")
        case True
        then have "fg_fail K T MiniShell_ERR_JOB (put_job i j1 ctx) w3 = Some ((code, ctx'), w')"
          using fg \<open>f = Inr ()\<close> mok unfolding fg_job_def Let_def f Option.bind.simps prod.case m c by simp
        from fail [OF this] w3 dt show ?thesis by simp
      next
        case False
        obtain r j2 w4 where r: "job_wait_foreground K j1 w3 = Some ((r, j2), w4)"
          using fg \<open>f = Inr ()\<close> mok False unfolding fg_job_def Let_def f Option.bind.simps prod.case m c by (auto split: Option.bind_split_asm)
        have w4: "fds w4 = fds w" using wait_foreground_fds [OF K r] w3 by simp
        have "(if r < 0 then fg_fail K T MiniShell_ERR_UNKNOWN (put_job i j2 ctx) w4 else fg_finish K T i (put_job i j2 ctx) w4) = Some ((code, ctx'), w')"
          using fg \<open>f = Inr ()\<close> mok False unfolding fg_job_def Let_def f Option.bind.simps prod.case m c r by simp
        then show ?thesis using fail fg_finish_fds [OF K] w4 dt by (metis (no_types, lifting))
      qed
    qed
  qed
qed

interpretation b_fg: builtin_handler "\<lambda>K. builtin_fg K T" for T
proof unfold_locales
  fix K :: "('a, 'b) host_scheme" and fds base ctx w cmd code ctx' w'
  assume K: "host_fds K fds" and w: "shell_fds K fds base ctx w" and fg: "builtin_fg K T cmd ctx w = Some ((code, ctx'), w')"
  show "shell_fds K fds base ctx' w'"
    using fg fg_job_fds [OF host_fds_laws(1) [OF K]] shell_fds_same [OF w] host_fds_laws(11) [OF K]
    by (auto simp: builtin_fg_def split: option.split_asm)
qed


section \<open>Redirections around a builtin\<close>

lemma api_fds_dup:
  assumes "api_fds K fds"
  shows "sys_dupfd K fd n w = (Inr a, w') \<Longrightarrow> n \<le> a \<and> a \<notin> fds w \<and> fds w' = insert a (fds w)"
    and "sys_dupfd K fd n w = (Inl e, w') \<Longrightarrow> fds w' = fds w"
    and "sys_dup2 K a b w = (r, w') \<Longrightarrow> b \<in> fds w \<Longrightarrow> fds w' = fds w"
proof -
  have dup: "sys_dupfd K fd n w = (r, w') \<Longrightarrow> (case r of Inr a \<Rightarrow> n \<le> a \<and> a \<notin> fds w \<and> fds w' = insert a (fds w) | Inl _ \<Rightarrow> fds w' = fds w)" for r
    using assms unfolding api_fds_def by blast
  show "sys_dupfd K fd n w = (Inr a, w') \<Longrightarrow> n \<le> a \<and> a \<notin> fds w \<and> fds w' = insert a (fds w)"
    "sys_dupfd K fd n w = (Inl e, w') \<Longrightarrow> fds w' = fds w" using dup [of "Inr a"] dup [of "Inl e"] by simp_all
  have "sys_dup2 K a b w = (r, w') \<Longrightarrow> (case r of Inr _ \<Rightarrow> fds w' = insert b (fds w) | Inl _ \<Rightarrow> fds w' = fds w)"
    using assms unfolding api_fds_def by blast
  then show "sys_dup2 K a b w = (r, w') \<Longrightarrow> b \<in> fds w \<Longrightarrow> fds w' = fds w" by (auto split: sum.split_asm)
qed

lemma dup2_retry_fds:
  assumes K: "api_fds K fds" and "dup2_retry K a b w = Some (r, w')" and b: "b \<in> fds w"
  shows "fds w' = fds w"
proof -
  have r: "retry (sys_dup2 K a b) w = Some (r, w')" using assms(2) by (simp add: dup2_retry_def)
  have "fds v' = fds w" if "sys_dup2 K a b v = (x, v')" "fds v = fds w" for v v' x
    using api_fds_dup(3) [OF K that(1)] that(2) b by simp
  then show ?thesis using retry_reaches [OF r, where P = "\<lambda>v. fds v = fds w"] by blast
qed

lemma replace_stream_fds:
  assumes K: "api_fds K fds" and rep: "replace_stream K name flags target w = Some (r, w')" and t: "target \<in> fds w"
  shows "fds w' = fds w"
proof -
  obtain o1 w1 where o1: "sys_open (io K) name flags w = (o1, w1)" by (meson surj_pair)
  show ?thesis
  proof (cases o1)
    case (Inl e)
    then show ?thesis using rep o1 fd_table_open(2) [OF api_fds_laws(1) [OF K]] by (auto simp: replace_stream_def)
  next
    case (Inr fd)
    note op = fd_table_open(1) [OF api_fds_laws(1) [OF K] o1 [unfolded Inr]]
    then obtain x w2 where x: "dup2_retry K fd target w1 = Some (x, w2)" "w' = close_fd K fd w2"
      using rep t by (auto simp: replace_stream_def o1 Inr split: if_split_asm Option.bind_split_asm)
    have "fds w2 = fds w1" using dup2_retry_fds [OF K x(1)] op t by auto
    then show ?thesis using op x(2) by (auto simp: api_fds_close [OF K])
  qed
qed

text \<open>A saved descriptor is none (-1) or a new one beside the standard ones.\<close>

definition saved_fd :: "('w \<Rightarrow> int set) \<Rightarrow> int \<Rightarrow> 'w \<Rightarrow> 'w \<Rightarrow> bool" where
  "saved_fd fds saved w w' \<longleftrightarrow> saved = -1 \<and> fds w' = fds w \<or> 3 \<le> saved \<and> saved \<notin> fds w \<and> fds w' = insert saved (fds w)"

lemma saved_stream:
  assumes K: "api_fds K fds" and dup: "dup_cloexec K target w = (Inr saved, w1)"
    and rep: "replace_stream K name flags target w1 = Some (r, w2)" and t: "target \<in> fds w"
  shows "saved_fd fds saved w w2"
proof -
  note d = api_fds_dup(1) [OF K dup [unfolded dup_cloexec_def]]
  then have "fds w2 = fds w1" using replace_stream_fds [OF K rep] t by simp
  with d show ?thesis by (simp add: saved_fd_def)
qed

lemma redirect_output_fds:
  assumes K: "host_fds K fds" and t: "1 \<in> fds w" and red: "redirect_output K cmd w = Some ((r, saved), w')"
  shows "saved_fd fds saved w w'"
proof (cases "output_file (redirect cmd)")
  case None
  then show ?thesis using red by (simp add: redirect_output_def saved_fd_def)
next
  case (Some name)
  obtain f w1 where f: "sys_fflush K w = (f, w1)" by (meson surj_pair)
  have w1: "fds w1 = fds w" by (rule keepsD [OF host_fds_laws(5) [OF K] f])
  obtain d w2 where d: "dup_cloexec K STDOUT_FILENO w1 = (d, w2)" by (meson surj_pair)
  show ?thesis
  proof (cases "(f \<noteq> Inr () \<or> sys_ferror K w1) \<or> (\<exists>e. d = Inl e)")
    case True
    then have "saved = -1 \<and> (w' = sys_clearerr K w1 \<or> (\<exists>e. d = Inl e) \<and> w' = w2)"
      using red by (auto simp: redirect_output_def Some f d split: if_split_asm)
    then show ?thesis
      using w1 host_fds_laws(6) [OF K] api_fds_dup(2) [OF host_fds_laws(1) [OF K]] d by (auto simp: saved_fd_def dup_cloexec_def)
  next
    case False
    then obtain a where a: "d = Inr a" by (cases d) auto
    then obtain w3 where rep: "replace_stream K name (output_flags (redirect cmd)) STDOUT_FILENO w2 = Some (r, w3)" "saved = a"
      "w' = w3 \<or> w' = sys_clearerr K w3"
      using red False by (auto simp: redirect_output_def Some f d split: if_split_asm Option.bind_split_asm)
    have "saved_fd fds saved w1 w3" using saved_stream [OF host_fds_laws(1) [OF K] d [unfolded a] rep(1)] t w1 rep(2) by simp
    then show ?thesis using w1 rep(3) host_fds_laws(6) [OF K] by (auto simp: saved_fd_def)
  qed
qed

lemma redirect_input_fds:
  assumes K: "api_fds K fds" and t: "0 \<in> fds w" and red: "redirect_input K cmd w = Some ((r, saved), w')"
  shows "saved_fd fds saved w w'"
proof (cases "input_file (redirect cmd)")
  case None
  then show ?thesis using red by (simp add: redirect_input_def saved_fd_def)
next
  case (Some name)
  obtain d w1 where d: "dup_cloexec K STDIN_FILENO w = (d, w1)" by (meson surj_pair)
  show ?thesis
  proof (cases d)
    case (Inl e)
    then show ?thesis using red d api_fds_dup(2) [OF K] by (auto simp: redirect_input_def Some saved_fd_def dup_cloexec_def)
  next
    case (Inr a)
    then have "replace_stream K name O_RDONLY STDIN_FILENO w1 = Some (r, w')" "saved = a"
      using red by (auto simp: redirect_input_def Some d split: Option.bind_split_asm)
    then show ?thesis using saved_stream [OF K d [unfolded Inr]] t by simp
  qed
qed

lemma restore_stream_fds:
  assumes K: "api_fds K fds" and "restore_stream K saved target w = Some (ok, w')" "target \<in> fds w"
  shows "fds w' = fds w - {saved}"
  using assms(2,3) by (auto simp: restore_stream_def api_fds_close [OF K] dest: dup2_retry_fds [OF K] split: Option.bind_split_asm)

lemma shell_fds_saved:
  assumes "shell_fds K fds base ctx w" "saved_fd fds saved w w'"
  shows "shell_fds K fds (base \<union> held saved) ctx w'" "held saved \<inter> base = {}"
proof -
  show "shell_fds K fds (base \<union> held saved) ctx w'"
    using assms shell_fds_add [OF assms(1)] shell_fds_same [OF assms(1)] by (auto simp: saved_fd_def held_def)
  show "held saved \<inter> base = {}"
    using assms(2) shell_fds_base [OF assms(1)] by (auto simp: saved_fd_def held_def)
qed

lemma restored_stream:
  assumes K: "host_fds K fds" and w: "shell_fds K fds (base \<union> held saved) ctx w" and apart: "held saved \<inter> base = {}" and t: "target \<in> base"
    and res: "restore_stream K saved target w = Some (ok, w')" and saved: "saved \<ge> 0"
  shows "shell_fds K fds base ctx w'"
proof -
  have "target \<in> fds w" using shell_fds_base [OF w] t by blast
  from restore_stream_fds [OF host_fds_laws(1) [OF K] res this] show ?thesis
    using shell_fds_drop [of K fds saved base ctx w w'] w apart saved by (simp add: held_def)
qed

lemma restore_redirect_fds:
  assumes K: "host_fds K fds" and w: "shell_fds K fds (base \<union> held so \<union> held si) ctx w" and std: "0 \<in> base" "1 \<in> base"
    and so: "held so \<inter> base = {}" and si: "held si \<inter> (base \<union> held so) = {}"
    and res: "builtin_restore_redirect K so si w = Some (r, w')"
  shows "shell_fds K fds base ctx w'"
proof -
  obtain ok1 w1 where ok1: "(if so \<ge> 0 then do { (ok, v) \<leftarrow> restore_stream K so STDOUT_FILENO w; Some (ok, sys_clearerr K v) } else Some (True, w)) = Some (ok1, w1)"
    using res by (auto simp: builtin_restore_redirect_def split: Option.bind_split_asm)
  obtain ok2 where ok2: "(if si \<ge> 0 then restore_stream K si STDIN_FILENO w1 else Some (True, w1)) = Some (ok2, w')"
    using res unfolding builtin_restore_redirect_def ok1 Option.bind.simps prod.case by (auto split: Option.bind_split_asm)
  have "shell_fds K fds (base \<union> held si) ctx w1"
  proof (cases "so \<ge> 0")
    case False
    then show ?thesis using ok1 w by (auto simp: held_def)
  next
    case True
    then obtain v where v: "restore_stream K so STDOUT_FILENO w = Some (ok1, v)" "w1 = sys_clearerr K v"
      using ok1 by (auto split: Option.bind_split_asm)
    have "shell_fds K fds ((base \<union> held si) \<union> held so) ctx w" using w by (simp add: Un_ac)
    from restored_stream [OF K this _ _ v(1) True] so si std have "shell_fds K fds (base \<union> held si) ctx v" by auto
    then show ?thesis using v(2) host_fds_laws(6) [OF K] by (auto intro: shell_fds_same)
  qed
  then show ?thesis
    using ok2 restored_stream [OF K, of base si ctx w1 STDIN_FILENO ok2 w'] si std by (auto simp: held_def split: if_split_asm)
qed

lemma apply_redirect_fds:
  assumes K: "host_fds K fds" and w: "shell_fds K fds base ctx w" and std: "0 \<in> base" "1 \<in> base"
    and app: "builtin_apply_redirect K cmd w = Some ((r, so, si), w')"
  shows "shell_fds K fds (base \<union> held so \<union> held si) ctx w'" "held so \<inter> base = {}" "held si \<inter> (base \<union> held so) = {}"
proof -
  obtain r1 a w1 where out: "redirect_output K cmd w = Some ((r1, a), w1)"
    using app by (auto simp: builtin_apply_redirect_def split: Option.bind_split_asm)
  have a: "so = a" "r1 = MiniShell_OK \<and> redirect_input K cmd w1 = Some ((r, si), w') \<or> si = -1 \<and> w' = w1"
    using app by (auto simp: builtin_apply_redirect_def out split: if_split_asm Option.bind_split_asm)
  have "1 \<in> fds w" using shell_fds_base [OF w] std by blast
  note s1 = shell_fds_saved [OF w redirect_output_fds [OF K this out]]
  have "0 \<in> fds w1" using shell_fds_base [OF s1(1)] std by blast
  from redirect_input_fds [OF host_fds_laws(1) [OF K] this] a(2) have "saved_fd fds si w1 w'" by (metis saved_fd_def)
  note s2 = shell_fds_saved [OF s1(1) this]
  show "shell_fds K fds (base \<union> held so \<union> held si) ctx w'" "held so \<inter> base = {}" "held si \<inter> (base \<union> held so) = {}"
    using s1 s2 a(1) by simp_all
qed

text \<open>The streams are saved, replaced, and put back whatever the builtin does with the device table.\<close>

lemma check_output_fds:
  assumes K: "host_fds K fds" and c: "check_output K ret w = (r, w')"
  shows "fds w' = fds w"
proof -
  obtain f w1 where f: "sys_fflush K w = (f, w1)" by (meson surj_pair)
  have "w' = w1 \<or> w' = sys_clearerr K w1" using c by (auto simp: check_output_def f split: if_split_asm)
  with keepsD [OF host_fds_laws(5) [OF K] f] host_fds_laws(6) [OF K] show ?thesis by metis
qed

context builtin_handler
begin

lemma run_builtin_fds:
  assumes K: "host_fds K fds" and w: "shell_fds K fds base ctx w" and std: "0 \<in> base" "1 \<in> base"
    and run: "run_builtin K (handler K) cmd ctx w = Some ((code, ctx'), w')"
  shows "shell_fds K fds base ctx' w'"
proof -
  obtain ret so si w1 where app: "builtin_apply_redirect K cmd w = Some ((ret, so, si), w1)"
    using run by (auto simp: run_builtin_def split: Option.bind_split_asm)
  note a = apply_redirect_fds [OF K w std app]
  show ?thesis
  proof (cases "ret = MiniShell_OK")
    case False
    then obtain r ctx1 where r: "builtin_restore_redirect K so si w1 = Some (r, w')" "ctx' = ctx\<lparr>running := False\<rparr> \<or> ctx' = ctx"
      using run unfolding run_builtin_def app Option.bind.simps prod.case by (auto split: Option.bind_split_asm if_split_asm)
    from restore_redirect_fds [OF K a(1) std a(2,3) r(1)] r(2) show ?thesis by (auto intro: shell_fds_same)
  next
    case True
    obtain ret1 ctx1 w2 where h: "handler K cmd ctx w1 = Some ((ret1, ctx1), w2)"
      using run True unfolding run_builtin_def app Option.bind.simps prod.case by (auto split: Option.bind_split_asm)
    obtain ret2 w4 where c: "check_output K ret1 w2 = (ret2, w4)" by (meson surj_pair)
    obtain r where r: "builtin_restore_redirect K so si w4 = Some (r, w')" "device_table ctx' = device_table ctx1"
      using run True unfolding run_builtin_def app Option.bind.simps prod.case h Let_def c by (auto split: Option.bind_split_asm if_split_asm)
    have "shell_fds K fds (base \<union> held so \<union> held si) ctx1 w2" by (rule keeps_table [OF K a(1) h])
    then have "shell_fds K fds (base \<union> held so \<union> held si) ctx1 w4" by (rule shell_fds_same) (simp_all add: check_output_fds [OF K c])
    from restore_redirect_fds [OF K this std a(2,3) r(1)] r(2) show ?thesis by (auto intro: shell_fds_same)
  qed
qed

end

section \<open>The dispatcher\<close>

text \<open>Each entry of the table is one of the interpretations above.\<close>

lemmas run_builtins = b_cd.run_builtin_fds b_pwd.run_builtin_fds b_exit.run_builtin_fds b_jobs.run_builtin_fds b_help.run_builtin_fds
  b_status.run_builtin_fds b_sysinfo.run_builtin_fds b_hwinfo.run_builtin_fds b_dtinfo.run_builtin_fds b_monitor.run_builtin_fds
  b_psinfo.run_builtin_fds b_reload.run_builtin_fds b_device.run_builtin_fds b_led.run_builtin_fds b_bg.run_builtin_fds
  b_fg.run_builtin_fds

lemma lookup_fds:
  assumes look: "builtin_lookup (builtin_table K T ok) name = Some h" and K: "host_fds K fds" and w: "shell_fds K fds base ctx w"
    and std: "0 \<in> base" "1 \<in> base" and run: "run_builtin K h cmd ctx w = Some ((code, ctx'), w')"
  shows "shell_fds K fds base ctx' w'"
proof -
  have "(name, h) \<in> set (builtin_table K T ok)" using look by (auto simp: builtin_lookup_def dest: map_of_SomeD)
  then show ?thesis using run by (auto simp: builtin_table_def intro: run_builtins [OF K w std])
qed

lemma put_devices [simp]: "device_table (put_head j ctx) = device_table ctx" "device_table (drop_job grp ctx) = device_table ctx"
  by (simp_all add: put_head_def drop_job_def)

lemma add_job_devices: "add_job mem grp name pids ctx = (ok, ctx') \<Longrightarrow> device_table ctx' = device_table ctx"
  by (auto simp: add_job_def Let_def split: option.split_asm)

lemma start_job_devices: "start_job K T bg grp n rb gate ctx w = Some ((code, ctx'), w') \<Longrightarrow> device_table ctx' = device_table ctx"
  by (auto simp: start_job_def finish_foreground_job_def Let_def split: Option.bind_split_asm if_split_asm)

lemma execute_single_devices:
  assumes "execute_single K T mem com ctx w = Some ((code, ctx'), w')"
  shows "device_table ctx' = device_table ctx"
  using assms add_job_devices [of mem _ _ _ ctx] start_job_devices [of K T]
  by (auto simp: execute_single_def split: prod.split_asm sum.split_asm Option.bind_split_asm if_split_asm bool.split_asm)

lemma execute_pipeline_devices:
  assumes "execute_pipeline K T mem coms ctx w = Some ((code, ctx'), w')"
  shows "device_table ctx' = device_table ctx"
  using assms add_job_devices [of mem _ _ _ ctx] start_job_devices [of K T]
  by (auto simp: execute_pipeline_def Let_def split: prod.split_asm sum.split_asm Option.bind_split_asm if_split_asm bool.split_asm)

lemma execute_fds:
  assumes K: "host_fds K fds" and w: "shell_fds K fds base ctx w" and ex: "execute_command K T mem coms ctx w = Some ((code, ctx'), w')"
  shows "shell_fds K fds base ctx' w'"
proof -
  note a = host_fds_laws(1) [OF K]
  have "fds w' = fds w \<and> device_table ctx' = device_table ctx"
    using ex execute_single_fds [OF a] execute_pipeline_fds [OF a] execute_single_devices execute_pipeline_devices
    by (fastforce simp: execute_command_def split: if_split_asm)
  then show ?thesis using w by (blast intro: shell_fds_same)
qed

lemma dispatcher_fds:
  assumes K: "host_fds K fds" and w: "shell_fds K fds base ctx w" and std: "0 \<in> base" "1 \<in> base"
    and dis: "dispatcher_command K T (builtin_table K T ok) mem coms ctx w = Some ((code, ctx'), w')"
  shows "shell_fds K fds base ctx' w'"
  using dis w lookup_fds [OF _ K w std] execute_fds [OF K w]
  by (auto simp: dispatcher_command_def split: if_split_asm option.split_asm)

end
