(* ===== verification/Shell_Safe.thy ===== *)
theory Shell_Safe
  imports Shell Dispatcher_Safe
begin

text \<open>
  What holds of the shell as a whole: the descriptors of the process over a run of the program, and the
  assembly of input lines.
\<close>

section \<open>The job table opens and closes nothing\<close>

lemma mapW_keeps:
  assumes "mapW f xs w = Some (ys, w')" and "\<And>x v y v'. f x v = Some (y, v') \<Longrightarrow> P v' = P v"
  shows "P w' = P w"
  using assms(1)
proof (induction xs arbitrary: w ys)
  case (Cons x xs)
  then obtain y w1 ys' where "f x w = Some (y, w1)" "mapW f xs w1 = Some (ys', w')" by (auto split: Option.bind_split_asm)
  then show ?case using Cons.IH assms(2) by metis
qed simp

lemma process_reap_fds:
  assumes K: "api_fds K fds"
  shows "process_try_reap K p w = Some (r, w') \<Longrightarrow> fds w' = fds w"
    and "process_force_reap K p w = Some (q, w') \<Longrightarrow> fds w' = fds w"
    and "reap_process K j p w = Some (q, w') \<Longrightarrow> fds w' = fds w"
proof -
  note wait = api_fds_laws(4) [OF K]
  have "process_try_reap K p w = Some (r, w') \<Longrightarrow> w' = w \<or> (\<exists>r. retry (waitpid_one K (pid p) WNOHANG) w = Some (r, w'))"
    "process_force_reap K p w = Some (q, w') \<Longrightarrow> w' = w \<or> (\<exists>r. retry (waitpid_one K (pid p) 0) w = Some (r, w'))"
    by (auto simp: process_try_reap_def process_force_reap_def split: if_split_asm Option.bind_split_asm sum.split_asm option.split_asm)
  then show "process_try_reap K p w = Some (r, w') \<Longrightarrow> fds w' = fds w" "process_force_reap K p w = Some (q, w') \<Longrightarrow> fds w' = fds w"
    by (metis keeps_retry [OF wait])+
  obtain a v where a: "waitpid_one K (pid p) (WNOHANG + WUNTRACED + WCONTINUED) w = (a, v)" by (meson surj_pair)
  have "w' = w \<or> w' = v \<or> (\<exists>s. w' = stdout K s v)" if "reap_process K j p w = Some (q, w')"
    using that by (auto simp: reap_process_def a [simplified] split: if_split_asm sum.split_asm option.split_asm)
  then show "reap_process K j p w = Some (q, w') \<Longrightarrow> fds w' = fds w"
    using keepsD [OF wait a] side_calls(9) [OF api_fds_laws(2) [OF K]] by metis
qed

lemma job_reap_fds:
  assumes K: "api_fds K fds"
  shows "job_reap K m w = Some (m', w') \<Longrightarrow> fds w' = fds w"
    and "jobmanager_try_reap_all K m w = Some (r, w') \<Longrightarrow> fds w' = fds w"
    and "shutdown_force K j w = Some (j', w') \<Longrightarrow> fds w' = fds w"
proof -
  have procs: "mapW (process_try_reap K) ps v = Some (rs, v') \<Longrightarrow> fds v' = fds v" "mapW (process_force_reap K) ps v = Some (qs, v') \<Longrightarrow> fds v' = fds v"
    "mapW (reap_process K j) ps v = Some (qs, v') \<Longrightarrow> fds v' = fds v" for ps v rs qs v' j
    by (erule mapW_keeps [where P = fds], erule process_reap_fds [OF K])+
  have "reap_job K j v = Some (j', v') \<Longrightarrow> fds v' = fds v" "job_try_reap K j v = Some (r', v') \<Longrightarrow> fds v' = fds v" for j v j' v' r'
    by (auto simp: reap_job_def job_try_reap_def dest: procs split: Option.bind_split_asm)
  then have "mapW (reap_job K) js v = Some (js', v') \<Longrightarrow> fds v' = fds v" "mapW (job_try_reap K) js v = Some (rs, v') \<Longrightarrow> fds v' = fds v" for js v js' v' rs
    by (metis mapW_keeps [where P = fds])+
  then show "job_reap K m w = Some (m', w') \<Longrightarrow> fds w' = fds w" "jobmanager_try_reap_all K m w = Some (r, w') \<Longrightarrow> fds w' = fds w"
    by (auto simp: job_reap_def jobmanager_try_reap_all_def split: Option.bind_split_asm)
  show "shutdown_force K j w = Some (j', w') \<Longrightarrow> fds w' = fds w"
    by (auto simp: shutdown_force_def dest: procs split: Option.bind_split_asm)
qed

lemma nanosleep_keeps: "side_calls_keep K P \<Longrightarrow> keeps P (nanosleep K n)"
  by (simp add: side_calls_keep_def)

lemma shutdown_sleep_fds:
  assumes "shutdown_sleep_for K ns w = Some w'" and K: "side_calls_keep K P"
  shows "P w' = P w"
proof -
  let ?Q = "\<lambda>K' (ns :: nat) w w'. K' = K \<longrightarrow> P w' = P w"
  have "?Q K ns w w'"
  proof (rule shutdown_sleep_for.raw_induct [where P = ?Q, OF _ assms(1)], goal_cases)
    case (1 loop K' ns w x)
    obtain a v where a: "nanosleep K ns w = (a, v)" by (meson surj_pair)
    show ?case using 1 keepsD [OF nanosleep_keeps [OF K] a] by (auto simp: a split: sum.split_asm prod.split_asm if_split_asm)
  qed
  then show ?thesis by simp
qed

lemma shutdown_retry_fds: "api_fds K fds \<Longrightarrow> shutdown_retry K n m w = Some (m', w') \<Longrightarrow> fds w' = fds w"
proof (induction n arbitrary: m w)
  case (Suc n)
  then obtain d m1 w1 where r: "jobmanager_try_reap_all K m w = Some ((d, m1), w1)" by (auto split: Option.bind_split_asm)
  have w1: "fds w1 = fds w" by (rule job_reap_fds(2) [OF Suc.prems(1) r])
  show ?case
  proof (cases d)
    case True
    then show ?thesis using Suc.prems w1 r by simp
  next
    case False
    then obtain w2 where w2: "shutdown_sleep_for K JOB_SHUTDOWN_WAIT_NS w1 = Some w2" "shutdown_retry K n m1 w2 = Some (m', w')"
      using Suc.prems r by (auto simp: shutdown_sleep_def split: Option.bind_split_asm)
    then show ?thesis using Suc.IH [OF Suc.prems(1) w2(2)] shutdown_sleep_fds [OF w2(1) api_fds_laws(2) [OF Suc.prems(1)]] w1 by simp
  qed
qed simp

lemma job_shutdown_fds:
  assumes K: "api_fds K fds" and sh: "job_shutdown K m w = Some (m', w')"
  shows "fds w' = fds w"
proof (cases "jobs_head m = []")
  case True
  then show ?thesis using sh by (auto simp: job_shutdown_def)
next
  case False
  note kill = keeps_snd [OF side_calls(5) [OF api_fds_laws(2) [OF K]]]
  obtain js1 w1 js2 w2 m3 w3 js4 w4 js5 w5 where steps: "mapW (shutdown_continue K) (jobs_head m) w = Some (js1, w1)"
    "mapW (shutdown_terminate K) js1 w1 = Some (js2, w2)" "shutdown_retry K JOB_SHUTDOWN_RETRY_COUNT (m\<lparr>jobs_head := js2\<rparr>) w2 = Some (m3, w3)"
    "mapW (shutdown_kill K) (jobs_head m3) w3 = Some (js4, w4)" "mapW (shutdown_force K) js4 w4 = Some (js5, w5)" "w' = w5"
    using sh False by (auto simp: job_shutdown_def split: Option.bind_split_asm)
  have "fds w1 = fds w" by (rule mapW_keeps [where P = fds, OF steps(1)]) (auto simp: shutdown_continue_def continue_stopped_job_def Let_def kill split: if_split_asm)
  moreover have "fds w2 = fds w1" by (rule mapW_keeps [where P = fds, OF steps(2)]) (auto simp: shutdown_terminate_def kill split: if_split_asm)
  moreover have "fds w4 = fds w3" by (rule mapW_keeps [where P = fds, OF steps(4)]) (auto simp: shutdown_kill_def kill split: if_split_asm)
  moreover have "fds w5 = fds w4" by (rule mapW_keeps [where P = fds, OF steps(5) job_reap_fds(3) [OF K]])
  ultimately show ?thesis using shutdown_retry_fds [OF K steps(3)] steps(6) by simp
qed

section \<open>Output, signals and the event pipe\<close>

lemma flush_fds:
  assumes "shell_flush_stdout K w = Some (ok, w')" and K: "host_fds K fds"
  shows "fds w' = fds w"
proof -
  let ?Q = "\<lambda>K' w x. K' = K \<longrightarrow> fds (snd x) = fds w"
  have "?Q K w (ok, w')"
  proof (rule shell_flush_stdout.raw_induct [where P = ?Q, OF _ assms(1)], goal_cases)
    case (1 loop K' w x)
    obtain a v where a: "sys_fflush K w = (a, v)" by (meson surj_pair)
    show ?case using 1 keepsD [OF host_fds_laws(5) [OF K] a] host_fds_laws(6) [OF K]
      by (cases x) (auto simp: a split: sum.split_asm if_split_asm)
  qed
  then show ?thesis by simp
qed

lemma shell_write_fds:
  assumes "shell_write_all K fd bs w = Some (ok, w')" and K: "side_calls_keep K P"
  shows "P w' = P w"
proof -
  let ?Q = "\<lambda>K' (fd :: int) (bs :: byte list) w x. K' = K \<longrightarrow> P (snd x) = P w"
  have "?Q K fd bs w (ok, w')"
  proof (rule shell_write_all.raw_induct [where P = ?Q, OF _ assms(1)], goal_cases)
    case (1 loop K' fd bs w x)
    obtain a v where a: "sys_write (io K) fd bs w = (a, v)" by (meson surj_pair)
    show ?case using 1 keepsD [OF side_calls(6) [OF K] a] by (cases x) (auto simp: a split: sum.split_asm if_split_asm)
  qed
  then show ?thesis by simp
qed

lemma drain_fds:
  assumes "drain_loop K fd w = Some (ok, w')" and K: "side_calls_keep K P"
  shows "P w' = P w"
proof -
  let ?Q = "\<lambda>K' (fd :: int) w x. K' = K \<longrightarrow> P (snd x) = P w"
  have "?Q K fd w (ok, w')"
  proof (rule drain_loop.raw_induct [where P = ?Q, OF _ assms(1)], goal_cases)
    case (1 loop K' fd w x)
    obtain a v where a: "sys_read (io K) fd 64 w = (a, v)" by (meson surj_pair)
    show ?case using 1 keepsD [OF side_calls(12) [OF K] a] by (cases x) (auto simp: a split: option.split_asm)
  qed
  then show ?thesis by simp
qed

lemma prompt_fds:
  assumes K: "host_fds K fds" and "shell_print_prompt K ctx w = Some (ok, w')"
  shows "fds w' = fds w"
proof (cases "length (prompt_text ctx) \<ge> 128")
  case True
  then show ?thesis using assms(2) by (simp add: shell_print_prompt_def)
next
  case False
  then obtain f v where f: "shell_flush_stdout K w = Some (f, v)"
    using assms(2) by (auto simp: shell_print_prompt_def split: Option.bind_split_asm)
  have "w' = v \<or> shell_write_all K STDOUT_FILENO (map char_byte (prompt_text ctx)) v = Some (ok, w')"
    using assms(2) False f by (auto simp: shell_print_prompt_def split: if_split_asm)
  then show ?thesis using flush_fds [OF f K] shell_write_fds [OF _ host_fds_laws(9) [OF K]] by metis
qed

lemma handle_signals_fds:
  assumes "side_calls_keep K P"
  shows "handle_signals K E sigs s = Some s' \<Longrightarrow> P (snd s') = P (snd s)"
proof (induction sigs arbitrary: s)
  case (Cons sig sigs)
  then obtain s1 where s1: "signal_handler K E sig s = Some s1" "handle_signals K E sigs s1 = Some s'" by (auto split: Option.bind_split_asm)
  have "P (snd s1) = P (snd s)"
    using s1(1) keeps_retry [OF side_calls(6) [OF assms]]
    by (auto simp: signal_handler_def event_notify_def split: prod.split_asm if_split_asm Option.bind_split_asm)
  then show ?case using Cons.IH [OF s1(2)] by simp
qed simp

lemma take_events_fds:
  assumes K: "side_calls_keep K P" and "signal_take_events K (p, w) = (ev, p', w')"
  shows "P w' = P w"
proof -
  obtain a v where a: "sys_sigprocmask K SIG_BLOCK {SIGINT, SIGCHLD} w = (a, v)" by (meson surj_pair)
  show ?thesis using assms(2) keepsD [OF side_calls(13) [OF K] a] keeps_snd [OF side_calls(13) [OF K]]
    by (auto simp: signal_take_events_def a split: sum.split_asm)
qed

lemma sigaction_keeps: "side_calls_keep K P \<Longrightarrow> keeps P (sys_sigaction K sig d m)"
  by (simp add: side_calls_keep_def)

lemma all_calls_fds: "all_calls cs w = (ok, w') \<Longrightarrow> (\<And>c. c \<in> set cs \<Longrightarrow> keeps P c) \<Longrightarrow> P w' = P w"
proof (induction cs arbitrary: w)
  case (Cons c cs)
  obtain a v where a: "c w = (a, v)" by (meson surj_pair)
  have "P v = P w" using keepsD [of P c w a v] Cons.prems(2) a by simp
  then show ?case using Cons a by (auto split: sum.split_asm)
qed simp

lemma signal_init_fds: "side_calls_keep K P \<Longrightarrow> signal_init K (p, w) = (ok, p', w') \<Longrightarrow> P w' = P w"
  by (auto simp: signal_init_def set_signal_action_def [abs_def] ignore_signal_def [abs_def] simp del: all_calls.simps split: prod.split_asm
      elim!: all_calls_fds dest: sigaction_keeps)

lemma signal_shutdown_fds:
  assumes K: "side_calls_keep K P" and "signal_shutdown K (p, w) = (p', w')"
  shows "P w' = P w"
proof -
  obtain a v where a: "sys_sigprocmask K SIG_BLOCK {SIGINT, SIGCHLD} w = (a, v)" by (meson surj_pair)
  show ?thesis using assms(2) keepsD [OF side_calls(13) [OF K] a] keeps_snd [OF side_calls(13) [OF K]] keeps_snd [OF sigaction_keeps [OF K]]
    by (auto simp: signal_shutdown_def a ignore_signal_def Let_def split: sum.split_asm)
qed

section \<open>A turn of the loop\<close>

lemma shell_fds_unions:
  assumes "shell_fds K fds base ctx w" "fds w' = fds w \<union> A" "A \<inter> fds w = {}"
  shows "shell_fds K fds (base \<union> A) ctx w'"
  using assms unfolding shell_fds_def table_balanced_def by (auto simp: separate_Un)

lemma reset_devices [simp]: "device_table (shell_reset_input ctx) = device_table ctx"
  by (simp add: shell_reset_input_def)

text \<open>\<open>base\<close> holds the standard streams throughout.\<close>

lemma dispatch_input_fds:
  assumes K: "host_fds K fds" and std: "0 \<in> base" "1 \<in> base" and w: "shell_fds K fds base ctx w" and d: "shell_dispatch_input K T ctx w = Some (ctx', w')"
  shows "shell_fds K fds base ctx' w'"
proof -
  obtain c st m where p: "parse_line (sys_alloc K w) (Some (cstr (drop_cr (input_buffer ctx)))) (Some (last_exit_status ctx)) = (c, st, m)"
    by (metis prod_cases3)
  show ?thesis
  proof (cases c)
    case None
    then show ?thesis using d p w by (auto simp: shell_dispatch_input_def intro: shell_fds_same)
  next
    case (Some cmds)
    let ?ctx = "ctx\<lparr>last_exit_status := the st\<rparr>"
    obtain code ctx1 where dis: "dispatcher_command K T (builtin_table K T (sys_alloc K w)) (sys_alloc K w) cmds ?ctx w = Some ((code, ctx1), w')"
      "ctx' = shell_reset_input (ctx1\<lparr>last_exit_status := shell_normalize_status code\<rparr>)"
      using d p Some by (auto simp: shell_dispatch_input_def split: Option.bind_split_asm)
    have "shell_fds K fds base ?ctx w" using w by (rule shell_fds_same) simp_all
    from dispatcher_fds [OF K this std dis(1)] show ?thesis using dis(2) by (auto intro: shell_fds_same)
  qed
qed

lemma input_char_devices: "input_char ch ctx = (r, ctx') \<Longrightarrow> device_table ctx' = device_table ctx"
  by (auto simp: input_char_def split: if_split_asm)

lemma read_input_fds:
  assumes K: "host_fds K fds" and std: "0 \<in> base" "1 \<in> base" and w: "shell_fds K fds base ctx w" and r: "shell_read_input K T ctx w = Some ((res, ctx'), w')"
  shows "shell_fds K fds base ctx' w'"
proof -
  obtain a v where a: "sys_read (io K) STDIN_FILENO 1 w = (a, v)" by (meson surj_pair)
  have v: "fds v = fds w" by (rule keepsD [OF side_calls(12) [OF host_fds_laws(9) [OF K]] a])
  consider (dispatched) ctx1 where "shell_dispatch_input K T ctx1 v = Some (ctx', w')" "device_table ctx1 = device_table ctx"
    | (other) "w' = v" "device_table ctx' = device_table ctx"
    using r by (auto simp: shell_read_input_def a [simplified] dest: input_char_devices
        split: sum.split_asm list.split_asm if_split_asm Option.bind_split_asm prod.split_asm input_step.split_asm)
  then show ?thesis
  proof cases
    case dispatched
    show ?thesis by (rule dispatch_input_fds [OF K std shell_fds_same [OF w dispatched(2) v] dispatched(1)])
  next
    case other
    then show ?thesis using shell_fds_same [OF w other(2)] v by simp
  qed
qed

lemma events_fds:
  assumes K: "host_fds K fds" and w: "shell_fds K fds base (ctx_of S) w" and e: "shell_events K S w = Some ((t, S'), w')"
  shows "shell_fds K fds base (ctx_of S') w' \<and> event_of S' = event_of S \<and> term_of S' = term_of S"
proof -
  note api = host_fds_laws(1) [OF K] and side = host_fds_laws(9) [OF K]
  obtain d w1 where d: "event_drain K (event_of S) w = Some (d, w1)" using e by (auto simp: shell_events_def split: Option.bind_split_asm)
  have w1: "fds w1 = fds w" using d drain_fds [OF _ side] by (auto simp: event_drain_def split: if_split_asm)
  obtain ev p w2 where ev: "signal_take_events K (pending_events S, w1) = (ev, p, w2)" by (metis prod_cases3)
  have w2: "fds w2 = fds w" using take_events_fds [OF side ev] w1 by simp
  show ?thesis
  proof (cases d)
    case False
    then show ?thesis using e d shell_fds_same [OF w refl w1] by (auto simp: shell_events_def)
  next
    case True
    obtain c1 w3 where c1: "(if ev AND SIGNAL_EVENT_CHILD \<noteq> 0 then shell_child_event K (ctx_of S) w2 else Some (ctx_of S, w2)) = Some (c1, w3)"
      using e True unfolding shell_events_def d Option.bind.simps prod.case ev by (auto split: Option.bind_split_asm)
    have w3: "fds w3 = fds w2" "device_table c1 = device_table (ctx_of S)"
      using c1 job_reap_fds(1) [OF api] by (auto simp: shell_child_event_def split: if_split_asm Option.bind_split_asm)
    obtain ok c2 where c2: "(if ev AND SIGNAL_EVENT_INTERRUPT \<noteq> 0 then shell_interrupt_event K c1 w3 else Some ((True, c1), w3)) = Some ((ok, c2), w')"
      "S' = S\<lparr>ctx_of := c2, pending_events := p\<rparr>"
      using e True unfolding shell_events_def d Option.bind.simps prod.case ev c1 Let_def by (auto split: Option.bind_split_asm)
    have "fds w' = fds w3 \<and> device_table c2 = device_table c1"
    proof (cases "ev AND SIGNAL_EVENT_INTERRUPT = 0")
      case True
      then show ?thesis using c2 by simp
    next
      case False
      then obtain f v where f: "shell_flush_stdout K w3 = Some (f, v)" "w' = v \<or> shell_write_all K STDOUT_FILENO [0x0A] v = Some (ok, w')"
        "c2 = shell_reset_input c1"
        using c2(1) by (auto simp: shell_interrupt_event_def split: Option.bind_split_asm if_split_asm)
      then show ?thesis using flush_fds [OF f(1) K] shell_write_fds [OF _ side] by (metis reset_devices)
    qed
    then show ?thesis using shell_fds_same [OF w, of c2 w'] w3 w2 c2(2) by simp
  qed
qed

lemma ready_fds:
  assumes K: "host_fds K fds" and std: "0 \<in> base" "1 \<in> base" and w: "shell_fds K fds base (ctx_of S) w"
    and r: "shell_ready K ev inp S w = Some ((t, S'), w')"
  shows "shell_fds K fds base (ctx_of S') w' \<and> event_of S' = event_of S \<and> term_of S' = term_of S"
proof -
  obtain t1 S1 w1 where e: "(if ev then shell_events K S w else Some ((Go False, S), w)) = Some ((t1, S1), w1)"
    using r by (auto simp: shell_ready_def split: Option.bind_split_asm)
  have S1: "shell_fds K fds base (ctx_of S1) w1 \<and> event_of S1 = event_of S \<and> term_of S1 = term_of S"
    using e events_fds [OF K w] w by (auto split: if_split_asm)
  consider (stays) "S' = S1" "w' = w1" | (reads) prompt where "shell_input K prompt S1 w1 = Some ((t, S'), w')"
    using r unfolding shell_ready_def e Option.bind.simps prod.case by (auto split: turn.split_asm if_split_asm)
  then show ?thesis
  proof cases
    case stays
    then show ?thesis using S1 by simp
  next
    case reads
    then obtain res ctx where "shell_read_input K (term_of S1) (ctx_of S1) w1 = Some ((res, ctx), w')" "S' = S1\<lparr>ctx_of := ctx\<rparr>"
      by (auto simp: shell_input_def split: Option.bind_split_asm)
    then show ?thesis using read_input_fds [OF K std] S1 by fastforce
  qed
qed

lemma turn_fds:
  assumes K: "host_fds K fds" and std: "0 \<in> base" "1 \<in> base" and w: "shell_fds K fds base (ctx_of S) w"
    and r: "shell_turn K prompt S w = Some ((t, S'), w')"
  shows "shell_fds K fds base (ctx_of S') w' \<and> event_of S' = event_of S \<and> term_of S' = term_of S"
proof -
  obtain ok w1 where p: "(if prompt then shell_print_prompt K (ctx_of S) w else Some (True, w)) = Some (ok, w1)"
    using r by (auto simp: shell_turn_def split: Option.bind_split_asm)
  have w1: "fds w1 = fds w" using p prompt_fds [OF K] by (auto split: if_split_asm)
  show ?thesis
  proof (cases ok)
    case False
    then have "S' = S" "w' = w1" using r unfolding shell_turn_def p Option.bind.simps prod.case by simp_all
    then show ?thesis using shell_fds_same [OF w refl w1] by simp
  next
    case True
    obtain sigs w2 where s: "sys_signals K w1 = (sigs, w2)" by (meson surj_pair)
    obtain q w3 where h: "handle_signals K (event_of S) sigs (pending_events S, w2) = Some (q, w3)"
      using r True unfolding shell_turn_def p Option.bind.simps prod.case Let_def s by (auto split: Option.bind_split_asm)
    obtain x w4 where x: "sys_select K (event_getfd (event_of S)) w3 = (x, w4)" by (meson surj_pair)
    let ?S = "S\<lparr>pending_events := q\<rparr>"
    have "fds w2 = fds w1" by (rule keepsD [OF host_fds_laws(8) [OF K] s])
    moreover have "fds w3 = fds w2" using handle_signals_fds [OF host_fds_laws(9) [OF K] h] by simp
    moreover have "fds w4 = fds w3" by (rule keepsD [OF host_fds_laws(7) [OF K] x])
    ultimately have w4: "shell_fds K fds base (ctx_of ?S) w4" using shell_fds_same [OF w, of "ctx_of ?S" w4] w1 by simp
    have "S' = ?S \<and> w' = w4 \<or> (\<exists>ev inp. shell_ready K ev inp ?S w4 = Some ((t, S'), w'))"
      using r True unfolding shell_turn_def p Option.bind.simps prod.case Let_def s h
      by (auto simp: x [simplified] split: sum.split_asm prod.split_asm)
    then show ?thesis using w4 ready_fds [OF K std w4] by auto
  qed
qed

lemma loop_fds:
  assumes "shell_loop K prompt S w = Some ((st, S'), w')" and K: "host_fds K fds" and std: "0 \<in> base" "1 \<in> base"
    and w: "shell_fds K fds base (ctx_of S) w"
  shows "shell_fds K fds base (ctx_of S') w' \<and> event_of S' = event_of S \<and> term_of S' = term_of S"
proof -
  let ?I = "\<lambda>S w S' w'. shell_fds K fds base (ctx_of S) w \<longrightarrow> shell_fds K fds base (ctx_of S') w' \<and> event_of S' = event_of S \<and> term_of S' = term_of S"
  let ?Q = "\<lambda>K' (prompt :: bool) S w x. K' = K \<longrightarrow> ?I S w (snd (fst x)) (snd x)"
  have "?Q K prompt S w ((st, S'), w')"
  proof (rule shell_loop.raw_induct [where P = ?Q, OF _ assms(1)], goal_cases)
    case (1 loop K' prompt S w x)
    show ?case
    proof (intro impI)
      assume K': "K' = K" and w: "shell_fds K fds base (ctx_of S) w"
      show "shell_fds K fds base (ctx_of (snd (fst x))) (snd x) \<and> event_of (snd (fst x)) = event_of S \<and> term_of (snd (fst x)) = term_of S"
      proof (cases "running (ctx_of S)")
        case False
        then show ?thesis using 1(2) w by auto
      next
        case True
        obtain t S1 w1 where t: "shell_turn K prompt S w = Some ((t, S1), w1)"
          using 1(2) True K' by (auto split: Option.bind_split_asm)
        note S1 = turn_fds [OF K std w t]
        show ?thesis
        proof (cases t)
          case (Go prompt')
          then have "loop K prompt' S1 w1 = Some x" using 1(2) True K' t by simp
          from 1(1) [OF this] S1 show ?thesis by simp
        next
          case (Leave s)
          then show ?thesis using 1(2) True K' t S1 by auto
        qed
      qed
    qed
  qed
  then show ?thesis using w by simp
qed

section \<open>Start and end\<close>

lemma path_devices:
  "shell_context_set_environment_config_path K p w ctx = (ok, ctx') \<Longrightarrow> device_table ctx' = device_table ctx"
  "shell_context_try_config_path K d rel w ctx = (ok, ctx') \<Longrightarrow> device_table ctx' = device_table ctx"
  "shell_context_devices_path K d rel b w ctx = (ok, ctx') \<Longrightarrow> device_table ctx' = device_table ctx"
  by (auto simp: shell_context_set_environment_config_path_def shell_context_try_config_path_def shell_context_copy_config_path_def
      shell_context_devices_path_def split: if_split_asm option.split_asm)

lemma paths_devices:
  "shell_context_set_config_path K w ctx = (ok, ctx') \<Longrightarrow> device_table ctx' = device_table ctx"
  "shell_context_set_devices_path K w ctx = (ok, ctx') \<Longrightarrow> device_table ctx' = device_table ctx"
  by (auto simp: shell_context_set_config_path_def shell_context_set_devices_path_def Let_def
      split: if_split_asm option.split_asm prod.split_asm list.split_asm bool.split_asm dest!: path_devices)

lemma context_init_fds:
  assumes K: "host_fds (K :: ('w, 'x) host_scheme) fds" and i: "shell_context_init K ok level w = Some (ctx, w')"
  shows "shell_fds K fds (fds w) ctx w'"
proof -
  let ?r = "shell_context_set_config_path K w (shell_context_zero level)"
  obtain c :: "'w ShellContext" where c: "device_table c = device_manager_init"
    "device_table ctx = device_manager_init \<and> w' = w
     \<or> (\<exists>r. device_manager_load (io K) (devices_source_of K w) ok (device_table c) (Some (devices_file c)) w = Some (r, device_table ctx, w'))"
  proof -
    obtain f c1 where c1: "?r = (f, c1)" by (meson surj_pair)
    have t1: "device_table c1 = device_manager_init" using paths_devices(1) [OF c1] by (simp add: shell_context_zero_def)
    define c2 where "c2 = (if f then c1\<lparr>shell_config := snd (config_load (shell_config c1) (config_source_of K (config_file c1) w))\<rparr> else c1)"
    define c3 where "c3 = c2\<lparr>current_level := log_setlevel (config_level (shell_config c2)) (current_level c2)\<rparr>"
    have t3: "device_table c3 = device_manager_init" using t1 by (simp add: c2_def c3_def)
    obtain g c4 where c4: "shell_context_set_devices_path K w c3 = (g, c4)" by (meson surj_pair)
    have "device_table c4 = device_manager_init" using paths_devices(2) [OF c4] t3 by simp
    moreover have "device_table ctx = device_table c4 \<and> w' = w
      \<or> (\<exists>r. device_manager_load (io K) (devices_source_of K w) ok (device_table c4) (Some (devices_file c4)) w = Some (r, device_table ctx, w'))"
      using i unfolding shell_context_init_def Let_def c1 prod.case c2_def [symmetric] c3_def [symmetric] c4
      by (auto split: if_split_asm Option.bind_split_asm)
    ultimately show ?thesis using that [of c4] by auto
  qed
  have init: "table_ok (io K) (device_table c)" "table_balanced fds (fds w) (device_table c) w" by (simp_all add: c(1) init_table)
  show ?thesis
  proof (cases "device_table ctx = device_manager_init \<and> w' = w")
    case True
    then show ?thesis by (simp add: shell_fds_def init_table)
  next
    case False
    then obtain r where "device_manager_load (io K) (devices_source_of K w) ok (device_table c) (Some (devices_file c)) w = Some (r, device_table ctx, w')"
      using c(2) by blast
    from manager_load_table [OF host_fds_laws(10) [OF K] init this]
    have "table_ok (io K) (device_table ctx) \<and> owned (devices (device_table ctx)) = {} \<and> fds w' = fds w"
      using c(1) init_table(1) by (auto simp: owned_def list_all_iff device_manager_init_def)
    then show ?thesis by (simp add: shell_fds_def table_balanced_def separate_none)
  qed
qed

lemma context_destroy_fds:
  assumes K: "host_fds K fds" and w: "shell_fds K fds base ctx w" and d: "shell_context_destroy K ctx w = Some (ctx', w')"
  shows "fds w' = base"
proof -
  obtain m w1 t where m: "job_shutdown K (jobs ctx) w = Some (m, w1)" "device_manager_destroy (device_table ctx) w1 = Some (t, w')"
    using d by (auto simp: shell_context_destroy_def split: Option.bind_split_asm)
  have "shell_fds K fds base ctx w1" by (rule shell_fds_same [OF w refl job_shutdown_fds [OF host_fds_laws(1) [OF K] m(1)]])
  then show ?thesis using destroy_balanced_table [OF host_fds_laws(10) [OF K] _ _ m(2)] by (auto simp: shell_fds_def)
qed

text \<open>What the program holds while it runs: the event pipe and the terminal beside \<open>base\<close>.\<close>

definition running_fds :: "'w shell \<Rightarrow> int set \<Rightarrow> int set" where
  "running_fds S base = base \<union> event_fds (event_of S) \<union> terminal_fds (term_of S)"

lemma event_none_fds [simp]: "event_fds event_none = {}" "event_ok event_none"
  by (auto simp: event_fds_def event_none_def event_ok_def)

lemma shell_init_fds:
  assumes K: "host_fds K fds" and i: "shell_init K T event_none p w = Some ((st, S), w')"
  shows "if st = SHELL_STATUS_OK then shell_fds K fds (running_fds S (fds w)) (ctx_of S) w' \<and> event_fds (event_of S) \<inter> fds w = {}
      \<and> terminal_fds (term_of S) \<inter> (fds w \<union> event_fds (event_of S)) = {}
    else fds w' = fds w"
proof -
  note api = host_fds_laws(1) [OF K] and side = host_fds_laws(9) [OF K]
  obtain ctx w1 where c: "shell_context_init K (sys_alloc K w) log_init w = Some (ctx, w1)"
    using i by (auto simp: shell_init_def split: Option.bind_split_asm)
  note w1 = context_init_fds [OF K c]
  obtain ok E1 w2 where e: "event_init K event_none w1 = ((ok, E1), w2)" by (metis surj_pair)
  note w2 = event_init_fds [OF api event_none_fds(2) e]
  have base1: "fds w \<subseteq> fds w1" by (rule shell_fds_base [OF w1])
  show ?thesis
  proof (cases ok)
    case False
    then obtain ctx1 where d: "shell_context_destroy K ctx w2 = Some (ctx1, w')" "st = SHELL_STATUS_ERROR"
      using i unfolding shell_init_def c Option.bind.simps prod.case e by (auto split: Option.bind_split_asm)
    have "shell_fds K fds (fds w) ctx w2" using w2 False by (auto intro: shell_fds_same [OF w1 refl])
    from context_destroy_fds [OF K this d(1)] d(2) show ?thesis by simp
  next
    case True
    let ?A = "event_fds E1"
    have A: "shell_fds K fds (fds w \<union> ?A) ctx w2" "?A \<inter> fds w = {}" using shell_fds_unions [OF w1, of w2 ?A] w2 base1 by auto
    obtain ok1 T1 w3 where t: "terminal_init K T w2 = Some ((ok1, T1), w3)"
      using i True unfolding shell_init_def c Option.bind.simps prod.case e by (auto split: Option.bind_split_asm)
    note w3 = terminal_init_fds [OF api t]
    let ?B = "terminal_fds T1"
    have B: "shell_fds K fds (fds w \<union> ?A \<union> ?B) ctx w3" using shell_fds_unions [OF A(1), of w3 ?B] w3 by auto
    have apart: "?B \<inter> (fds w \<union> ?A) = {}" using w3 shell_fds_base [OF A(1)] by blast
    show ?thesis
    proof (cases ok1)
      case False
      obtain E2 w4 where s: "event_shut K E1 w3 = (E2, w4)" by (meson surj_pair)
      obtain ctx1 where d: "shell_context_destroy K ctx w4 = Some (ctx1, w')" "st = SHELL_STATUS_ERROR"
        using i True False unfolding shell_init_def c Option.bind.simps prod.case e t s by (auto split: Option.bind_split_asm)
      have "terminal_fds T1 = {}" using w3 False by (auto simp: terminal_fds_def terminal_ok_def)
      then have "fds w4 = fds w1" using event_shut_fds [OF api s] w3 w2 by auto
      from context_destroy_fds [OF K shell_fds_same [OF w1 refl this] d(1)] d(2) show ?thesis by simp
    next
      case ok1: True
      obtain ok2 p1 w4 where g: "signal_init K (p, w3) = (ok2, p1, w4)" by (metis prod_cases3)
      have w4: "shell_fds K fds (fds w \<union> ?A \<union> ?B) ctx w4" by (rule shell_fds_same [OF B refl signal_init_fds [OF side g]])
      show ?thesis
      proof (cases ok2)
        case True
        then have "st = SHELL_STATUS_OK" "S = \<lparr>ctx_of = ctx, term_of = T1, event_of = E1, pending_events = p1\<rparr>" "w' = w4"
          using i \<open>ok\<close> ok1 unfolding shell_init_def c Option.bind.simps prod.case e t g by simp_all
        then show ?thesis using w4 A(2) apart by (simp add: running_fds_def)
      next
        case False
        obtain p2 w5 where x: "signal_shutdown K (p1, w4) = (p2, w5)" by (meson surj_pair)
        obtain T2 w6 where y: "terminal_shutdown K T1 w5 = Some (T2, w6)"
          using i True ok1 False unfolding shell_init_def c Option.bind.simps prod.case e t g x by (auto split: Option.bind_split_asm)
        obtain E2 w7 where s: "event_shut K E1 w6 = (E2, w7)" by (meson surj_pair)
        obtain ctx1 where d: "shell_context_destroy K ctx w7 = Some (ctx1, w')" "st = SHELL_STATUS_ERROR"
          using i True ok1 False unfolding shell_init_def c Option.bind.simps prod.case e t g x y s by (auto split: Option.bind_split_asm)
        have "fds w5 = fds w2 \<union> ?B" using signal_init_fds [OF side g] signal_shutdown_fds [OF side x] w3 by simp
        then have "fds w6 = fds w2" using terminal_shutdown_fds [OF api y] w3 by auto
        then have "fds w7 = fds w1" using event_shut_fds [OF api s] w2 by auto
        from context_destroy_fds [OF K shell_fds_same [OF w1 refl this] d(1)] d(2) show ?thesis by simp
      qed
    qed
  qed
qed

lemma shell_cleanup_fds:
  assumes K: "host_fds K fds" and w: "shell_fds K fds (running_fds S base) (ctx_of S) w"
    and apart: "event_fds (event_of S) \<inter> base = {}" "terminal_fds (term_of S) \<inter> base = {}"
    and c: "shell_cleanup K S w = Some (S', w')"
  shows "fds w' = base"
proof -
  note api = host_fds_laws(1) [OF K] and side = host_fds_laws(9) [OF K]
  obtain ctx w1 where d: "shell_context_destroy K (ctx_of S) w = Some (ctx, w1)"
    using c by (auto simp: shell_cleanup_def split: Option.bind_split_asm)
  obtain p w2 where p: "signal_shutdown K (pending_events S, w1) = (p, w2)" by (meson surj_pair)
  obtain E w3 where e: "event_shut K (event_of S) w2 = (E, w3)" by (meson surj_pair)
  obtain T w4 where t: "terminal_shutdown K (term_of S) w3 = Some (T, w4)"
    using c unfolding shell_cleanup_def d Option.bind.simps prod.case p e by (auto split: Option.bind_split_asm)
  obtain ok w5 where f: "shell_flush_stdout K w4 = Some (ok, w5)"
    using c unfolding shell_cleanup_def d Option.bind.simps prod.case p e t by (auto split: Option.bind_split_asm)
  have "w' = w5 \<or> (\<exists>r. shell_write_all K STDOUT_FILENO (map char_byte farewell) w5 = Some (r, w'))"
    using c unfolding shell_cleanup_def d Option.bind.simps prod.case p e t f by (auto split: Option.bind_split_asm if_split_asm)
  then have "fds w' = fds w5" using shell_write_fds [OF _ side] by blast
  also have "\<dots> = fds w4" by (rule flush_fds [OF f K])
  also have "\<dots> = running_fds S base - event_fds (event_of S) - terminal_fds (term_of S)"
    using terminal_shutdown_fds [OF api t] event_shut_fds [OF api e] signal_shutdown_fds [OF side p] context_destroy_fds [OF K w d] by simp
  also have "\<dots> = base" using apart by (auto simp: running_fds_def)
  finally show ?thesis .
qed

text \<open>\<^verbatim>\<open>F_GETFD\<close> fails with \<^verbatim>\<open>EBADF\<close> exactly on a descriptor that is not open.\<close>

definition getfd_law :: "('w, 'x) api_scheme \<Rightarrow> ('w \<Rightarrow> int set) \<Rightarrow> bool" where
  "getfd_law K fds \<longleftrightarrow> (\<forall>fd w r w'. sys_getfd K fd w = (r, w') \<longrightarrow> (case r of Inr _ \<Rightarrow> fd \<in> fds w | Inl e \<Rightarrow> e = EBADF \<longrightarrow> fd \<notin> fds w))"

lemma ensure_standard_fd_fds:
  assumes K: "api_fds K fds" and law: "getfd_law K fds" and e: "ensure_standard_fd K target flags w = (ok, w')"
  shows "fds w' = (if ok then insert target (fds w) else fds w)"
proof -
  obtain a w1 where a: "sys_getfd K target w = (a, w1)" by (meson surj_pair)
  have w1: "fds w1 = fds w" by (rule keepsD [OF side_calls(2) [OF api_fds_laws(2) [OF K]] a])
  show ?thesis
  proof (cases "a = Inl EBADF")
    case False
    have "case a of Inr _ \<Rightarrow> target \<in> fds w | Inl e \<Rightarrow> e = EBADF \<longrightarrow> target \<notin> fds w" using law a unfolding getfd_law_def by blast
    then show ?thesis using e a False w1 by (auto simp: ensure_standard_fd_def split: sum.split_asm if_split_asm)
  next
    case True
    obtain b w2 where b: "sys_open (io K) ''/dev/null'' flags w1 = (b, w2)" by (meson surj_pair)
    show ?thesis
    proof (cases b)
      case (Inl x)
      then show ?thesis using e a True b w1 fd_table_open(2) [OF api_fds_laws(1) [OF K] b [unfolded Inl]] by (simp add: ensure_standard_fd_def)
    next
      case (Inr fd)
      note o = fd_table_open(1) [OF api_fds_laws(1) [OF K] b [unfolded Inr]]
      obtain r w3 where r: "sys_dup2 K fd target w2 = (r, w3)" by (meson surj_pair)
      have "case r of Inr _ \<Rightarrow> fds w3 = insert target (fds w2) | Inl _ \<Rightarrow> fds w3 = fds w2" using K r unfolding api_fds_def by blast
      then show ?thesis using e a True b Inr r o w1 api_fds_close [OF K, of fd w3]
        by (auto simp: ensure_standard_fd_def split: sum.split_asm if_split_asm)
    qed
  qed
qed

lemma ensure_standard_fds_fds:
  assumes K: "api_fds K fds" and law: "getfd_law K fds" and e: "ensure_standard_fds K w = (ok, w')"
  shows "fds w \<subseteq> fds w' \<and> fds w' \<subseteq> fds w \<union> {0, 1, 2} \<and> (ok \<longrightarrow> fds w' = fds w \<union> {0, 1, 2})"
proof -
  obtain o1 w1 where a: "ensure_standard_fd K STDIN_FILENO O_RDONLY w = (o1, w1)" by (meson surj_pair)
  obtain o2 w2 where b: "ensure_standard_fd K STDOUT_FILENO O_WRONLY w1 = (o2, w2)" by (meson surj_pair)
  obtain o3 w3 where c: "ensure_standard_fd K STDERR_FILENO O_WRONLY w2 = (o3, w3)" by (meson surj_pair)
  note ens = ensure_standard_fd_fds [OF K law]
  show ?thesis using e ens [OF a] ens [OF b] ens [OF c] by (auto simp: ensure_standard_fds_def a [simplified] b [simplified] c [simplified] split: if_split_asm bool.split_asm)
qed

lemma main_fds:
  assumes K: "host_fds K fds" and law: "getfd_law K fds" and m: "main K w = Some (code, w')"
  shows "fds w \<subseteq> fds w' \<and> fds w' \<subseteq> fds w \<union> {0, 1, 2} \<and> (fst (ensure_standard_fds K w) \<longrightarrow> fds w' = fds w \<union> {0, 1, 2})"
proof -
  obtain ok w1 where e: "ensure_standard_fds K w = (ok, w1)" by (meson surj_pair)
  note w1 = ensure_standard_fds_fds [OF host_fds_laws(1) [OF K] law e]
  show ?thesis
  proof (cases ok)
    case False
    then show ?thesis using m e w1 by (auto simp: main_def)
  next
    case True
    have std: "0 \<in> fds w1" "1 \<in> fds w1" using w1 True by auto
    obtain st S w2 where i: "shell_init K terminal_start event_none SIGNAL_EVENT_NONE w1 = Some ((st, S), w2)"
      using m e True by (auto simp: main_def split: Option.bind_split_asm)
    note init = shell_init_fds [OF K i]
    have "fds w' = fds w1"
    proof (cases "st = SHELL_STATUS_OK")
      case False
      then show ?thesis using m e True i init by (simp add: main_def)
    next
      case ok: True
      obtain st2 S1 w3 where r: "shell_run K S w2 = Some ((st2, S1), w3)"
        using m True ok unfolding main_def e Option.bind.simps prod.case by (auto simp: i split: Option.bind_split_asm)
      have run: "shell_fds K fds (running_fds S (fds w1)) (ctx_of S1) w3 \<and> event_of S1 = event_of S \<and> term_of S1 = term_of S"
        using r init ok loop_fds [OF _ K, of True S w2 st2 S1 w3 "running_fds S (fds w1)"] std
        by (auto simp: shell_run_def Let_def running_fds_def split: if_split_asm)
      obtain S2 where c: "shell_cleanup K S1 w3 = Some (S2, w')"
        using m True ok r unfolding main_def e Option.bind.simps prod.case by (auto simp: i split: Option.bind_split_asm)
      have "running_fds S1 (fds w1) = running_fds S (fds w1)" using run by (simp add: running_fds_def)
      with shell_cleanup_fds [OF K _ _ _ c, of "fds w1"] run init ok show ?thesis by auto
    qed
    then show ?thesis using w1 True e by auto
  qed
qed

section \<open>Lines of input\<close>

text \<open>Successive reads of standard input give the bytes \<open>bs\<close>, one by one.\<close>

fun input_bytes :: "('w, 'x) api_scheme \<Rightarrow> byte list \<Rightarrow> 'w \<Rightarrow> 'w \<Rightarrow> bool" where
  "input_bytes K [] w w' \<longleftrightarrow> w' = w"
| "input_bytes K (b # bs) w w' \<longleftrightarrow> fst (sys_read (io K) STDIN_FILENO 1 w) = Inr [b] \<and> input_bytes K bs (snd (sys_read (io K) STDIN_FILENO 1 w)) w'"

text \<open>At most \<open>n\<close> calls of \<open>shell_read_input\<close>, up to the end of a line, of the input, or an error.\<close>

fun read_line :: "('w, 'x) host_scheme \<Rightarrow> terminal \<Rightarrow> nat \<Rightarrow> 'w ShellContext \<Rightarrow> 'w \<Rightarrow> (((bool \<times> bool \<times> bool) \<times> 'w ShellContext) \<times> 'w) option" where
  "read_line K T 0 ctx w = None"
| "read_line K T (Suc n) ctx w = do {
     (((ok, line_done, eof), ctx1), w1) \<leftarrow> shell_read_input K T ctx w;
     if \<not> ok \<or> line_done then Some (((ok, line_done, eof), ctx1), w1) else read_line K T n ctx1 w1 }"

definition end_of_line :: "('w, 'x) host_scheme \<Rightarrow> terminal \<Rightarrow> 'w ShellContext \<Rightarrow> 'w \<Rightarrow> (((bool \<times> bool \<times> bool) \<times> 'w ShellContext) \<times> 'w) option" where
  "end_of_line K T ctx w =
     (if input_discarding ctx then Some (((True, True, False), shell_reset_input ctx), w)
      else do { (ctx1, w1) \<leftarrow> shell_dispatch_input K T ctx w; Some (((True, True, False), ctx1), w1) })"

definition input_chars :: "string \<Rightarrow> 'w ShellContext \<Rightarrow> 'w ShellContext" where
  "input_chars line ctx = fold (\<lambda>ch ctx. snd (input_char ch ctx)) line ctx"

lemma read_line_chars:
  "NL \<notin> set line \<Longrightarrow> input_bytes K (map char_byte line @ [char_byte NL]) w w'
    \<Longrightarrow> read_line K T (Suc (length line)) ctx w = end_of_line K T (input_chars line ctx) w'"
proof (induction line arbitrary: ctx w)
  case Nil
  obtain v where v: "sys_read (io K) STDIN_FILENO 1 w = (Inr [char_byte NL], v)" "w' = v"
    using Nil by (cases "sys_read (io K) STDIN_FILENO 1 w") auto
  have "byte_char (char_byte NL) = NL" by simp
  with v(1) [simplified] show ?case
    by (cases "shell_dispatch_input K T ctx v") (auto simp: shell_read_input_def input_char_def end_of_line_def input_chars_def v(2))
next
  case (Cons ch line)
  obtain v where v: "sys_read (io K) STDIN_FILENO 1 w = (Inr [char_byte ch], v)" "input_bytes K (map char_byte line @ [char_byte NL]) v w'"
    using Cons.prems by (cases "sys_read (io K) STDIN_FILENO 1 w") auto
  have "fst (input_char ch ctx) = Stored" using Cons.prems(1) by (auto simp: input_char_def)
  then obtain c where ch: "input_char ch ctx = (Stored, c)" by (metis prod.collapse)
  have "shell_read_input K T ctx w = Some (((True, False, False), c), v)"
    using v(1) [simplified] ch by (simp add: shell_read_input_def)
  then show ?case using Cons.IH [OF _ v(2)] Cons.prems(1) ch by (simp add: input_chars_def)
qed

lemma input_chars_discard: "input_discarding ctx \<Longrightarrow> NL \<notin> set line \<Longrightarrow> input_chars line ctx = ctx"
  by (induction line) (auto simp: input_chars_def input_char_def)

lemma input_chars_buffer:
  "\<not> input_discarding ctx \<Longrightarrow> NL \<notin> set line \<Longrightarrow> input_chars line ctx =
     (if length (input_buffer ctx @ line) < SHELL_INPUT_SIZE \<or> line = [] then ctx\<lparr>input_buffer := input_buffer ctx @ line\<rparr>
      else ctx\<lparr>last_exit_status := 2, input_buffer := [], input_discarding := True\<rparr>)"
proof (induction line arbitrary: ctx)
  case (Cons ch line)
  show ?case
  proof (cases "length (input_buffer ctx) + 1 \<ge> SHELL_INPUT_SIZE")
    case True
    then have "snd (input_char ch ctx) = ctx\<lparr>last_exit_status := 2, input_buffer := [], input_discarding := True\<rparr>"
      using Cons.prems by (auto simp: input_char_def)
    then show ?thesis using input_chars_discard [of "ctx\<lparr>last_exit_status := 2, input_buffer := [], input_discarding := True\<rparr>" line] True Cons.prems
      by (simp add: input_chars_def)
  next
    case False
    let ?c = "ctx\<lparr>input_buffer := input_buffer ctx @ [ch]\<rparr>"
    have "input_chars (ch # line) ctx = input_chars line ?c" using Cons.prems False by (auto simp: input_chars_def input_char_def)
    then show ?thesis using Cons.IH [of ?c] Cons.prems False by (auto simp: input_chars_def)
  qed
qed (simp add: input_chars_def)

text \<open>C11. A line of input is dispatched as a whole or not at all.  Read at the beginning of a line, the
  characters up to the next newline take one call of \<^verbatim>\<open>shell_read_input\<close> each; a line of at most 4095
  characters is then dispatched exactly as it was typed, a longer one is discarded to its end, sets the
  exit status 2, and leaves the shell at the beginning of a line.\<close>

theorem shell_input_line:
  assumes "NL \<notin> set line" "input_bytes K (map char_byte line @ [char_byte NL]) w w'"
    and "input_buffer ctx = []" "\<not> input_discarding ctx"
  shows "read_line K T (Suc (length line)) ctx w =
    (if length line < SHELL_INPUT_SIZE
     then do { (ctx1, w1) \<leftarrow> shell_dispatch_input K T (ctx\<lparr>input_buffer := line\<rparr>) w'; Some (((True, True, False), ctx1), w1) }
     else Some (((True, True, False), ctx\<lparr>last_exit_status := 2, input_buffer := [], input_discarding := False\<rparr>), w'))"
  using read_line_chars [OF assms(1,2), of T ctx] input_chars_buffer [OF assms(4,1)] assms(3,4)
  by (auto simp: end_of_line_def shell_reset_input_def)

section \<open>A concrete run\<close>

text \<open>The kernel of the demonstration with standard input at its end, and a second one that types the
  characters of \<open>line\<close> first; \<open>d_code\<close> counts them.\<close>

definition demo_host :: "demo_world host" where
  "demo_host = (files.extend demo_streams (host.fields (\<lambda>w. (Inr (), w)) (\<lambda>w. False) (\<lambda>w. w)
     (\<lambda>fd w. (Inr (False, True), w)) (\<lambda>w. ([], w)) (\<lambda>w n. True)))
     \<lparr>sys_getfd := \<lambda>fd w. if fd \<in> set (d_fds w) then (Inr 0, w) else (Inl EBADF, w),
      io := demo_io\<lparr>sys_read := \<lambda>fd n w. let i = unat (d_code w); line = ''ls'' @ [NL] in
        if i < length line then (Inr [char_byte (line ! i)], w\<lparr>d_code := d_code w + 1\<rparr>) else (Inr [], w)\<rparr>\<rparr>"

declare demo_host_def [code]

lemma demo_host_sel:
  "waitpid_one demo_host = waitpid_one demo_env" "waitpid_group demo_host = waitpid_group demo_env" "Job.kill demo_host = Job.kill demo_env"
  "nanosleep demo_host = nanosleep demo_env" "stdout demo_host = stdout demo_env"
  "sys_pipe demo_host = sys_pipe demo_env" "sys_fork demo_host = sys_fork demo_env" "sys_setpgid demo_host = sys_setpgid demo_env"
  "sys_setfd demo_host = sys_setfd demo_env" "sys_getfl demo_host = sys_getfl demo_env" "sys_setfl demo_host = sys_setfl demo_env"
  "sys_dupfd demo_host = sys_dupfd demo_env" "sys_dup2 demo_host = sys_dup2 demo_env" "sys_tcgetpgrp demo_host = sys_tcgetpgrp demo_env"
  "sys_tcsetpgrp demo_host = sys_tcsetpgrp demo_env" "sys_sigprocmask demo_host = sys_sigprocmask demo_env"
  "sys_sigaction demo_host = sys_sigaction demo_env" "sys_chdir demo_host = (\<lambda>p w. (True, w))"
  "c_fopen demo_host = c_fopen demo_streams" "c_opendir demo_host = c_opendir demo_streams" "c_fclose demo_host = c_fclose demo_streams"
  "c_closedir demo_host = c_closedir demo_streams" "c_fgets demo_host = c_fgets demo_streams" "c_fread demo_host = c_fread demo_streams"
  "c_fscanf_lf demo_host = c_fscanf_lf demo_streams" "c_fscanf_ld demo_host = c_fscanf_ld demo_streams" "c_readdir demo_host = c_readdir demo_streams"
  "sys_fflush demo_host = (\<lambda>w. (Inr (), w))"
  "sys_clearerr demo_host = (\<lambda>w. w)" "sys_select demo_host = (\<lambda>fd w. (Inr (False, True), w))" "sys_signals demo_host = (\<lambda>w. ([], w))"
  "sys_getfd demo_host = (\<lambda>fd w. if fd \<in> set (d_fds w) then (Inr 0, w) else (Inl EBADF, w))"
  "sys_write (io demo_host) = sys_write (io demo_env)" "sys_open (io demo_host) = sys_open (io demo_env)"
  "sys_close (io demo_host) = sys_close (io demo_env)" "sys_tcgetattr (io demo_host) = sys_tcgetattr (io demo_env)"
  "sys_tcsetattr (io demo_host) = sys_tcsetattr (io demo_env)"
  by (simp_all add: demo_host_def demo_streams_def demo_env_def demo_api_def api.defs env.defs files.defs host.defs)

lemma demo_host_read: "keeps demo_fds (sys_read (io demo_host) fd n)" "keeps demo_kids (sys_read (io demo_host) fd n)"
  by (simp_all add: demo_host_def keeps_def Let_def)

lemma demo_host_fds: "host_fds demo_host demo_fds" "getfd_law demo_host demo_fds"
proof -
  have "side_calls_keep demo_host demo_fds"
    using demo_env_laws(1) demo_host_read(1) by (simp add: side_calls_keep_def demo_host_sel keeps_def)
  moreover have "fd_table (io demo_host) demo_fds"
    by (auto simp: fd_table_def demo_host_def demo_io_def Let_def d_fresh_ge split: if_split_asm)
  ultimately have "api_fds demo_host demo_fds" using demo_env_laws(3) by (simp add: api_fds_def demo_host_sel)
  then show "host_fds demo_host demo_fds"
    using demo_stream_laws by (simp add: host_fds_def files_fds_def demo_host_sel keeps_def)
  show "getfd_law demo_host demo_fds" by (auto simp: getfd_law_def demo_host_sel split: if_split_asm)
qed

text \<open>Standard error is closed at the start.\<close>

definition demo_begin :: demo_world where
  "demo_begin = \<lparr>d_fds = [0, 1], d_kids = [], d_next = 1, d_unread = 0, d_code = 0, d_clock = 0, d_streams = []\<rparr>"

lemma demo_main: "map_option (\<lambda>(code, w). (code, set (d_fds w), d_kids w)) (main demo_host demo_begin) = Some (3, {0, 1, 2}, [])"
  by code_simp



theorem shell_input_line_witness:
  "\<exists>ctx w'. read_line demo_host terminal_start 3 demo_ctx demo_begin = Some (((True, True, False), ctx), w') \<and> last_exit_status ctx = 3"
proof -
  have "input_bytes demo_host (map char_byte ''ls'' @ [char_byte NL]) demo_begin (demo_begin\<lparr>d_code := 3\<rparr>)"
    by code_simp
  from shell_input_line [OF _ this, of demo_ctx terminal_start]
  have "read_line demo_host terminal_start 3 demo_ctx demo_begin =
    do { (ctx1, w1) \<leftarrow> shell_dispatch_input demo_host terminal_start (demo_ctx\<lparr>input_buffer := ''ls''\<rparr>) (demo_begin\<lparr>d_code := 3\<rparr>);
         Some (((True, True, False), ctx1), w1) }"
    by (simp add: demo_ctx_def shell_context_zero_def numeral_3_eq_3)
  moreover have "map_option (\<lambda>(ctx, w). last_exit_status ctx)
      (shell_dispatch_input demo_host terminal_start (demo_ctx\<lparr>input_buffer := ''ls''\<rparr>) (demo_begin\<lparr>d_code := 3\<rparr>)) = Some 3"
    by code_simp
  ultimately show ?thesis by auto
qed

end
