(* ===== verification/Monitor_Properties.thy ===== *)
theory Monitor_Properties
  imports Cmd_Runtime System_Info
begin

text \<open>
  What the monitors promise: the snapshot of the runtime and its bounds, the list of processes, the reading of a
  process's status, the choice of the zone and the interface that are shown, and the strings of the device tree.
\<close>

section \<open>Reading a status file\<close>

text \<open>The stream gives these lines and then its end.\<close>

fun gives_lines :: "('w, 'x) files_scheme \<Rightarrow> int \<Rightarrow> nat \<Rightarrow> string list \<Rightarrow> 'w \<Rightarrow> 'w option" where
  "gives_lines K fp n [] w = (case c_fgets K fp n w of (None, w1) \<Rightarrow> Some w1 | (Some _, _) \<Rightarrow> None)"
| "gives_lines K fp n (l # ls) w = (case c_fgets K fp n w of
     (Some line, w1) \<Rightarrow> if line = l then gives_lines K fp n ls w1 else None | (None, _) \<Rightarrow> None)"

lemma line_loop_lines: "gives_lines K fp n ls w = Some w' \<Longrightarrow> line_loop K fp n body acc w = Some (fold body ls acc, w')"
proof (induction ls arbitrary: acc w)
  case Nil
  then show ?case by (subst line_loop.simps) (auto split: prod.split_asm option.split_asm)
next
  case (Cons l ls)
  then show ?case by (subst line_loop.simps) (auto split: prod.split_asm option.split_asm if_split_asm)
qed

abbreviation (input) TAB :: char where "TAB \<equiv> CHR 0x09"

definition blank :: "char \<Rightarrow> bool" where
  "blank c \<longleftrightarrow> c = CHR '' '' \<or> c = TAB"

text \<open>A line with none of the four keys, and a status file with such lines between those that count.\<close>

definition other_line :: "string \<Rightarrow> bool" where
  "other_line l \<longleftrightarrow> (\<forall>key \<in> {''Name:'', ''State:'', ''VmRSS:'', ''Threads:''}. after_prefix key l = None)"

definition status_file :: "ProcessInfo \<Rightarrow> string \<Rightarrow> string list \<Rightarrow> string list \<Rightarrow> string list \<Rightarrow> string list \<Rightarrow> string list" where
  "status_file p word a b c d =
     (''Name:'' @ [TAB] @ info_name p @ [NL]) # a @ (''State:'' @ [TAB] @ [info_state p] @ word @ [NL]) # b
     @ (''VmRSS:'' @ [TAB] @ '' '' @ dec (rss_kb p) @ '' kB'' @ [NL]) # c
     @ (''Threads:'' @ [TAB] @ dec (unat (threads p)) @ [NL]) # d"

lemma after_prefix_append [simp]: "after_prefix p (p @ s) = Some s"
  by (simp add: after_prefix_def)

lemma other_lines: "list_all other_line ls \<Longrightarrow> fold status_line ls p = p"
  by (induction ls arbitrary: p) (simp_all add: other_line_def status_line_def)

lemma scan_dec:
  assumes "n \<le> ULONG_MAX" "list_all isspace ws" "rest = [] \<or> \<not> isdigit (hd rest)"
  shows "scan_ulong (ws @ dec n @ rest) = Some (n, rest)"
proof -
  obtain c ds where c: "dec n = c # ds" "isdigit c" using hd_dec [of n] by (cases "dec n") auto
  have "\<not> isspace c" using c(2) by (rule isdigit_not_isspace)
  then have sp: "dropWhile isspace (ws @ dec n @ rest) = dec n @ rest"
    using assms(2) c by (simp add: dropWhile_append list_all_iff)
  have sg: "strip_sign (dec n @ rest) = (False, dec n @ rest)"
    using c by (auto simp: strip_sign_def ctype_simps)
  have dig: "\<forall>x \<in> set (dec n). isdigit x" using dec_isdigit [of n] by (simp add: list_all_iff)
  have tw: "takeWhile isdigit (dec n @ rest) = dec n" "dropWhile isdigit (dec n @ rest) = rest"
    using dig assms(3) by (cases rest; simp add: takeWhile_append dropWhile_append)+
  have "strtoul 10 (dec n) = (n, [], False)" by (rule strtoul10_dec [OF assms(1)])
  then have num: "number_of 10 (dec n) = n"
    using assms(1) dig by (simp add: number_of_10 strtoul_def dropWhile_isspace_dec strip_sign_dec strip_base_def digit_of_10
        takeWhile_eq_all_conv [THEN iffD2] dropWhile_eq_Nil_conv [THEN iffD2] split: if_split_asm)
  have "strtoul 10 (ws @ dec n @ rest) = (n, rest, False)"
    using assms(1) by (simp only: strtoul_def sp sg strip_base_def if_True if_False prod.case Let_def digit_of_10
        zero_neq_numeral [symmetric] not_False_eq_True tw num) simp
  then show ?thesis using c by (simp add: scan_ulong_def)
qed

lemma status_keys:
  "after_prefix ''Name:'' (''State:'' @ s) = None" "after_prefix ''Name:'' (''VmRSS:'' @ s) = None" "after_prefix ''Name:'' (''Threads:'' @ s) = None"
  "after_prefix ''State:'' (''VmRSS:'' @ s) = None" "after_prefix ''State:'' (''Threads:'' @ s) = None" "after_prefix ''VmRSS:'' (''Threads:'' @ s) = None"
  by (simp_all add: after_prefix_def)

lemma status_line_key:
  "status_line (''Name:'' @ s) p = p\<lparr>info_name := copy_status_text 64 s\<rparr>"
  "status_line (''State:'' @ s) p = (case skip_blanks s of [] \<Rightarrow> p | c # _ \<Rightarrow> p\<lparr>info_state := c\<rparr>)"
  "status_line (''VmRSS:'' @ s) p = (case scan_ulong s of Some (v, _) \<Rightarrow> p\<lparr>rss_kb := v\<rparr> | None \<Rightarrow> p)"
  "status_line (''Threads:'' @ s) p = (case scan_ulong s of Some (v, _) \<Rightarrow> p\<lparr>threads := of_nat v\<rparr> | None \<Rightarrow> p)"
  unfolding status_line_def status_keys after_prefix_append option.case by (rule refl)+

lemma skip_blanks_simps: "blank c \<Longrightarrow> skip_blanks (c # s) = skip_blanks s" "\<not> blank c \<Longrightarrow> skip_blanks (c # s) = c # s"
  by (auto simp: skip_blanks_def blank_def)

lemma copy_name:
  assumes "process_info_ok p" "\<not> blank (hd (info_name p))"
  shows "copy_status_text 64 ([TAB] @ info_name p @ [NL]) = info_name p"
proof -
  obtain c s where c: "info_name p = c # s" using assms(1) by (cases "info_name p") (auto simp: process_info_ok_def)
  have "skip_blanks ([TAB] @ info_name p @ [NL]) = info_name p @ [NL]"
    using c assms(2) by (simp add: skip_blanks_simps blank_def [of TAB])
  moreover have "until_newline (info_name p @ [NL]) = info_name p"
    using assms(1) unfolding until_newline_def process_info_ok_def by (subst takeWhile_append2) auto
  ultimately show ?thesis using assms(1) by (simp add: copy_status_text_def process_info_ok_def)
qed

lemma status_file_read:
  assumes p: "process_info_ok p" "\<not> blank (hd (info_name p))" "\<not> blank (info_state p)" "rss_kb p \<le> ULONG_MAX"
    and other: "list_all other_line (a @ b @ c @ d)"
    and q: "info_pid q = info_pid p"
  shows "fold status_line (status_file p word a b c d) q = p"
proof -
  have rss: "scan_ulong ([TAB] @ '' '' @ dec (rss_kb p) @ '' kB'' @ [NL]) = Some (rss_kb p, '' kB'' @ [NL])"
    using scan_dec [of "rss_kb p" "[TAB, CHR '' '']" "'' kB'' @ [NL]"] p(4) by (simp add: ctype_simps)
  have "unat (threads p) \<le> ULONG_MAX" using unsigned_less [of "threads p", where 'a = nat] by simp
  then have thr: "scan_ulong ([TAB] @ dec (unat (threads p)) @ [NL]) = Some (unat (threads p), [NL])"
    using scan_dec [of "unat (threads p)" "[TAB]" "[NL]"] by (simp add: ctype_simps)
  have st: "skip_blanks ([TAB] @ [info_state p] @ word @ [NL]) = info_state p # word @ [NL]"
    using p(3) by (simp add: skip_blanks_simps blank_def [of TAB])
  have "list_all other_line a" "list_all other_line b" "list_all other_line c" "list_all other_line d" using other by simp_all
  then show ?thesis
    using q unfolding status_file_def
    by (simp only: fold.simps fold_append comp_apply other_lines status_line_key copy_name [OF p(1,2)] st rss thr
        option.case list.case prod.case) simp
qed


section \<open>The strings of the device tree\<close>

declare compatible_items.simps [simp del]

lemma compatible_items_0: "compatible_items 0 s = []"
  by (cases s) (simp_all add: compatible_items.simps)

lemma compatible_items_step:
  assumes "NUL \<notin> set s"
  shows "compatible_items (Suc n) (s @ NUL # rest) =
    (if s = [] then compatible_items (Suc n) rest else take 127 s # compatible_items n rest)"
proof -
  have "takeWhile (\<lambda>c. c \<noteq> NUL) (s @ NUL # rest) = s" using assms by (subst takeWhile_append2) auto
  moreover have "dropWhile (\<lambda>c. c \<noteq> NUL) (s @ NUL # rest) = NUL # rest" using assms by (subst dropWhile_append2) auto
  ultimately show ?thesis by (cases s) (auto simp: compatible_items.simps)
qed

lemma compatible_items_strings:
  "list_all (\<lambda>s. NUL \<notin> set s) items \<Longrightarrow>
     compatible_items n (concat (map (\<lambda>s. s @ [NUL]) items)) = map (take 127) (take n (filter (\<lambda>s. s \<noteq> []) items))"
proof (induction items arbitrary: n)
  case Nil
  show ?case by (simp add: compatible_items.simps)
next
  case (Cons s items)
  show ?case
  proof (cases n)
    case 0
    then show ?thesis by (simp add: compatible_items_0)
  next
    case (Suc m)
    then show ?thesis using Cons compatible_items_step [of s m] by simp
  qed
qed

text \<open>What a run shows of its result.\<close>

lemma run_shows:
  assumes "map_option (\<lambda>(r, w). case r of Inl _ \<Rightarrow> None | Inr s \<Rightarrow> Some (f s)) x = Some (Some v)"
  shows "\<exists>s w'. x = Some (Inr s, w') \<and> f s = v"
  using assms by (cases x) (auto split: sum.split_asm)

section \<open>Properties\<close>

text \<open>C26. What \<^verbatim>\<open>monitor\<close> shows makes sense, whatever the files of the system hold: a snapshot that is collected has
  percentages between 0 and 100, three load averages, at most 16 zones and interfaces in the order of their names;
  the system is among its sources, each of the other two is either available or failed, never both, and one that
  failed has no entries.  Collecting closes every file and directory it opened, also when it fails.\<close>

theorem runtime_snapshot_correct:
  assumes "files_fds K fds" "runtime_snapshot_collect K w = Some (r, w')"
  shows "fds w' = fds w \<and> (\<forall>s. r = Inr s \<longrightarrow> snapshot_ok s)"
  by (rule runtime_snapshot_fds [OF assms])

definition demo_sample :: demo_world where
  "demo_sample = \<lparr>d_fds = [0, 1, 2], d_kids = [], d_next = 1, d_unread = 0, d_code = 0, d_clock = 0, d_streams = []\<rparr>"

theorem runtime_snapshot_correct_witness:
  "\<exists>s w'. runtime_snapshot_collect demo_streams demo_sample = Some (Inr s, w') \<and> demo_fds w' = {0, 1, 2}
     \<and> cpu_usage (runtime s) = 25 \<and> map thermal_name (thermal s) = [''thermal_zone0'', ''thermal_zone1''] \<and> failed_sources s = 4"
proof -
  have "\<exists>s w'. runtime_snapshot_collect demo_streams demo_sample = Some (Inr s, w')
      \<and> (cpu_usage (runtime s), map thermal_name (thermal s), failed_sources s) = (25, [''thermal_zone0'', ''thermal_zone1''], 4)"
    by (rule run_shows) code_simp
  then obtain s w' where s: "runtime_snapshot_collect demo_streams demo_sample = Some (Inr s, w')"
    "(cpu_usage (runtime s), map thermal_name (thermal s), failed_sources s) = (25, [''thermal_zone0'', ''thermal_zone1''], 4)" by (elim exE conjE) (rule that)
  from runtime_snapshot_correct [OF demo_streams_fds s(1)] s show ?thesis by (auto simp: demo_sample_def)
qed

text \<open>C27. The list that \<^verbatim>\<open>psinfo\<close> prints is sorted by process number and holds only complete entries: numbers from 1
  to the largest \<^verbatim>\<open>pid_t\<close>, names that are not empty, fit their buffer and contain no line break.  Processes that
  end while the list is made are left out, and every file is closed again.\<close>

theorem process_list_correct:
  assumes "files_fds K fds" "process_monitor_collect K mem w = Some (r, w')"
  shows "fds w' = fds w \<and> (\<forall>ps. r = Inr ps \<longrightarrow> sorted (map info_pid ps) \<and> list_all process_info_ok ps)"
  by (rule process_collect_fds [OF assms])

theorem process_list_correct_witness:
  "\<exists>ps w'. process_monitor_collect demo_streams (\<lambda>n. True) demo_sample = Some (Inr ps, w') \<and> demo_fds w' = {0, 1, 2}
     \<and> map (\<lambda>p. (info_pid p, info_name p)) ps = [(7, ''init''), (12, ''sshd'')] \<and> list_all process_info_ok ps"
proof -
  have "\<exists>ps w'. process_monitor_collect demo_streams (\<lambda>n. True) demo_sample = Some (Inr ps, w')
      \<and> map (\<lambda>p. (info_pid p, info_name p)) ps = [(7, ''init''), (12, ''sshd'')]"
    by (rule run_shows) code_simp
  then obtain ps w' where ps: "process_monitor_collect demo_streams (\<lambda>n. True) demo_sample = Some (Inr ps, w')"
    "map (\<lambda>p. (info_pid p, info_name p)) ps = [(7, ''init''), (12, ''sshd'')]" by (elim exE conjE) (rule that)
  from process_list_correct [OF demo_streams_fds ps(1)] ps show ?thesis by (auto simp: demo_sample_def)
qed


definition demo_sshd :: ProcessInfo where
  "demo_sshd = \<lparr>info_pid = 12, info_name = ''sshd'', info_state = CHR ''S'', rss_kb = 900, threads = 2\<rparr>"


text \<open>C39. The zone whose temperature is shown is one with a temperature, and none is hotter; there is none only if no
  zone has a temperature.  The interface that is shown is up and not the loopback if there is such a one, otherwise
  not the loopback if there is such a one, otherwise any; there is none only if the list is empty.\<close>

theorem monitor_choices:
  "hottest_of zones (thermal_monitor_hottest zones)
   \<and> (case network_monitor_primary nets of None \<Rightarrow> nets = [] | Some i \<Rightarrow> primary_of nets i)"
  by (intro conjI hottest_foldl primary_network)

text \<open>C40. The compatible strings of the device tree are the strings of the property, each ended by a NUL: the empty
  ones are left out, the first eight are kept, each cut to the 127 characters of its buffer.\<close>

theorem device_tree_strings:
  assumes "list_all (\<lambda>s. NUL \<notin> set s) items"
    and "c_fopen K ''/proc/device-tree/compatible'' w = (Inr fp, w1)"
    and "c_fread K fp 1024 w1 = (concat (map (\<lambda>s. s @ [NUL]) items), w2)"
  shows "collect_compatible K w = (map (take 127) (take 8 (filter (\<lambda>s. s \<noteq> []) items)), c_fclose K fp w2)"
  using assms compatible_items_strings [OF assms(1), of 8] by (simp add: collect_compatible_def read_property_def)

theorem device_tree_strings_witness:
  "\<exists>w'. collect_compatible (demo_streams\<lparr>c_fopen := \<lambda>p. d_open (Some [''rockchip,rk3399'' @ [NUL], [NUL], ''rockchip,rk3288'' @ [NUL]])\<rparr>) demo_sample
    = ([''rockchip,rk3399'', ''rockchip,rk3288''], w')"
proof -
  let ?K = "demo_streams\<lparr>c_fopen := \<lambda>p. d_open (Some [''rockchip,rk3399'' @ [NUL], [NUL], ''rockchip,rk3288'' @ [NUL]])\<rparr>"
  let ?items = "[''rockchip,rk3399'', [], ''rockchip,rk3288'']"
  let ?w1 = "snd (c_fopen ?K ''/proc/device-tree/compatible'' demo_sample)"
  have "c_fopen ?K ''/proc/device-tree/compatible'' demo_sample = (Inr 3, ?w1)" by code_simp
  moreover have "c_fread ?K 3 1024 ?w1 = (concat (map (\<lambda>s. s @ [NUL]) ?items), ?w1)" by code_simp
  moreover have "list_all (\<lambda>s. NUL \<notin> set s) ?items" by code_simp
  ultimately show ?thesis using device_tree_strings [of ?items ?K demo_sample 3 ?w1 ?w1] by simp
qed

end
