(* ===== verification/Watchdog.thy ===== *)
theory Watchdog
  imports Cmd_Device Demo_Process
begin

text \<open>
  The watchdog device, \<^verbatim>\<open>src/watchdog_device.c\<close>, and the tool that shows and feeds it,
  \<^verbatim>\<open>tools/watchdog_demo.c\<close>.  \<open>watchdog\<close> adds the \<^verbatim>\<open>ioctl\<close> requests of the driver; \<open>stop_requested\<close> is the flag that
  the handler of \<^verbatim>\<open>SIGINT\<close> and \<^verbatim>\<open>SIGTERM\<close> sets.  Device and result pointers are not NULL here.
\<close>

record watchdog_info =
  options :: uint32
  firmware_version :: uint32
  identity :: string

record 'w watchdog = "'w api" +
  wdioc_getsupport :: "int \<Rightarrow> 'w \<Rightarrow> (int + watchdog_info) \<times> 'w"
  wdioc_gettimeout :: "int \<Rightarrow> 'w \<Rightarrow> (int + int) \<times> 'w"
  wdioc_settimeout :: "int \<Rightarrow> int \<Rightarrow> 'w \<Rightarrow> (int + int) \<times> 'w"
  wdioc_keepalive :: "int \<Rightarrow> 'w \<Rightarrow> (int + unit) \<times> 'w"
  wdioc_gettimeleft :: "int \<Rightarrow> 'w \<Rightarrow> (int + int) \<times> 'w"
  wdioc_setoptions :: "int \<Rightarrow> uint32 \<Rightarrow> 'w \<Rightarrow> (int + unit) \<times> 'w"
  stop_requested :: "'w \<Rightarrow> bool"

abbreviation (input) WDIOF_SETTIMEOUT :: uint32 where "WDIOF_SETTIMEOUT \<equiv> 0x80"
abbreviation (input) WDIOF_MAGICCLOSE :: uint32 where "WDIOF_MAGICCLOSE \<equiv> 0x100"
abbreviation (input) WDIOF_PRETIMEOUT :: uint32 where "WDIOF_PRETIMEOUT \<equiv> 0x200"
abbreviation (input) WDIOF_KEEPALIVEPING :: uint32 where "WDIOF_KEEPALIVEPING \<equiv> 0x8000"
abbreviation (input) WDIOS_DISABLECARD :: uint32 where "WDIOS_DISABLECARD \<equiv> 1"

section \<open>The device\<close>

record WatchdogDevice =
  watchdog_fd :: int
  support :: watchdog_info
  watchdog_timeout :: int
  has_info :: bool

definition no_info :: watchdog_info where
  "no_info = \<lparr>options = 0, firmware_version = 0, identity = []\<rparr>"

definition watchdog_device_init :: WatchdogDevice where
  "watchdog_device_init = \<lparr>watchdog_fd = -1, support = no_info, watchdog_timeout = 0, has_info = False\<rparr>"

definition write_magic_close :: "('w, 'x) watchdog_scheme \<Rightarrow> int \<Rightarrow> 'w \<Rightarrow> ((int + unit) \<times> 'w) option" where
  "write_magic_close K fd w = do {
     (written, w1) \<leftarrow> retry (sys_write (io K) fd [char_byte CHR ''V'']) w;
     Some (case written of Inl e \<Rightarrow> Inl e | Inr n \<Rightarrow> if n = 1 then Inr () else Inl EIO, w1) }"

definition watchdog_device_open ::
  "('w, 'x) watchdog_scheme \<Rightarrow> WatchdogDevice \<Rightarrow> string \<Rightarrow> 'w \<Rightarrow> (((int + unit) \<times> WatchdogDevice) \<times> 'w) option" where
  "watchdog_device_open K d device_path w =
     (if device_path = [] then Some ((Inl EINVAL, d), w)
      else if watchdog_fd d \<ge> 0 then Some ((Inl EBUSY, d), w)
      else case sys_open (io K) device_path (O_RDWR OR O_CLOEXEC) w of
        (Inl e, w1) \<Rightarrow> Some ((Inl e, d), w1)
      | (Inr fd, w1) \<Rightarrow>
          (case wdioc_getsupport K fd w1 of
             (Inl e, w2) \<Rightarrow> do { (_, w3) \<leftarrow> write_magic_close K fd w2; Some ((Inl e, d), close_fd K fd w3) }
           | (Inr info, w2) \<Rightarrow>
               (case wdioc_gettimeout K fd w2 of
                  (Inl e, w3) \<Rightarrow> do {
                    w4 \<leftarrow> (if options info AND WDIOF_MAGICCLOSE \<noteq> 0 then map_option snd (write_magic_close K fd w3) else Some w3);
                    Some ((Inl e, d), close_fd K fd w4) }
                | (Inr t, w3) \<Rightarrow> Some ((Inr (), d\<lparr>watchdog_fd := fd, support := info, watchdog_timeout := t, has_info := True\<rparr>), w3))))"

definition watchdog_device_get_timeout :: "('w, 'x) watchdog_scheme \<Rightarrow> WatchdogDevice \<Rightarrow> 'w \<Rightarrow> ((int + int) \<times> WatchdogDevice) \<times> 'w" where
  "watchdog_device_get_timeout K d w =
     (if watchdog_fd d < 0 then ((Inl EINVAL, d), w)
      else case wdioc_gettimeout K (watchdog_fd d) w of
        (Inl e, w1) \<Rightarrow> ((Inl e, d), w1) | (Inr t, w1) \<Rightarrow> ((Inr t, d\<lparr>watchdog_timeout := t\<rparr>), w1))"

definition watchdog_device_set_timeout ::
  "('w, 'x) watchdog_scheme \<Rightarrow> WatchdogDevice \<Rightarrow> int \<Rightarrow> 'w \<Rightarrow> ((int + unit) \<times> WatchdogDevice) \<times> 'w" where
  "watchdog_device_set_timeout K d t w =
     (if watchdog_fd d < 0 \<or> t \<le> 0 then ((Inl EINVAL, d), w)
      else case wdioc_settimeout K (watchdog_fd d) t w of
        (Inl e, w1) \<Rightarrow> ((Inl e, d), w1) | (Inr v, w1) \<Rightarrow> ((Inr (), d\<lparr>watchdog_timeout := v\<rparr>), w1))"

definition watchdog_device_keepalive :: "('w, 'x) watchdog_scheme \<Rightarrow> WatchdogDevice \<Rightarrow> 'w \<Rightarrow> (int + unit) \<times> 'w" where
  "watchdog_device_keepalive K d w = (if watchdog_fd d < 0 then (Inl EINVAL, w) else wdioc_keepalive K (watchdog_fd d) w)"

definition watchdog_device_get_timeleft :: "('w, 'x) watchdog_scheme \<Rightarrow> WatchdogDevice \<Rightarrow> 'w \<Rightarrow> (int + int) \<times> 'w" where
  "watchdog_device_get_timeleft K d w = (if watchdog_fd d < 0 then (Inl EINVAL, w) else wdioc_gettimeleft K (watchdog_fd d) w)"

definition watchdog_device_disable :: "('w, 'x) watchdog_scheme \<Rightarrow> WatchdogDevice \<Rightarrow> 'w \<Rightarrow> (int + unit) \<times> 'w" where
  "watchdog_device_disable K d w =
     (if watchdog_fd d < 0 then (Inl EINVAL, w) else wdioc_setoptions K (watchdog_fd d) WDIOS_DISABLECARD w)"

definition watchdog_device_close ::
  "('w, 'x) watchdog_scheme \<Rightarrow> WatchdogDevice \<Rightarrow> 'w \<Rightarrow> (((int + unit) \<times> WatchdogDevice) \<times> 'w) option" where
  "watchdog_device_close K d w =
     (if watchdog_fd d < 0 then Some ((Inr (), d), w)
      else do {
        (magic, w1) \<leftarrow> (if has_info d \<and> options (support d) AND WDIOF_MAGICCLOSE \<noteq> 0 then write_magic_close K (watchdog_fd d) w
                        else Some (Inr (), w));
        let (closed, w2) = sys_close (io K) (watchdog_fd d) w1;
        Some ((if magic = Inr () then closed else magic,
               d\<lparr>watchdog_fd := -1, watchdog_timeout := 0, has_info := False, support := no_info\<rparr>), w2) })"

section \<open>The tool\<close>

definition install_signal_handlers :: "('w, 'x) watchdog_scheme \<Rightarrow> 'w \<Rightarrow> (int + unit) \<times> 'w" where
  "install_signal_handlers K w = (case sys_sigaction K SIGINT Handler {} w of
     (Inl e, w1) \<Rightarrow> (Inl e, w1) | (Inr _, w1) \<Rightarrow> sys_sigaction K SIGTERM Handler {} w1)"

partial_function (option) sleep_for :: "('w, 'x) watchdog_scheme \<Rightarrow> nat \<Rightarrow> 'w \<Rightarrow> ((int + unit) \<times> 'w) option" where
  "sleep_for K ns w = (case nanosleep K ns w of
     (Inr _, w1) \<Rightarrow> Some (Inr (), w1)
   | (Inl (e, rest), w1) \<Rightarrow>
       if e \<noteq> EINTR then Some (Inl e, w1) else if stop_requested K w1 then Some (Inr (), w1) else sleep_for K rest w1)"

declare sleep_for.simps [code]

definition sleep_seconds :: "('w, 'x) watchdog_scheme \<Rightarrow> nat \<Rightarrow> 'w \<Rightarrow> ((int + unit) \<times> 'w) option" where
  "sleep_seconds K seconds w = sleep_for K (seconds * 1000000000) w"

text \<open>The empty text is read as 0, and refused as that.\<close>

definition parse_positive_int :: "string \<Rightarrow> int option" where
  "parse_positive_int s = (case strtol10 s of (parsed, rest, erange) \<Rightarrow>
     if erange \<or> rest \<noteq> [] \<or> parsed \<le> 0 \<or> parsed > 86400 then None else Some parsed)"

definition watchdog_print_options :: "uint32 \<Rightarrow> string" where
  "watchdog_print_options opts =
     (let h = hex (unat opts); flag = (\<lambda>bit. if opts AND bit \<noteq> 0 then ''yes'' else ''no'') in
      ''Options       : 0x'' @ replicate (8 - length h) CHR ''0'' @ h @ [NL]
      @ ''  SETTIMEOUT  : '' @ flag WDIOF_SETTIMEOUT @ [NL] @ ''  MAGICCLOSE  : '' @ flag WDIOF_MAGICCLOSE @ [NL]
      @ ''  KEEPALIVE   : '' @ flag WDIOF_KEEPALIVEPING @ [NL] @ ''  PRETIMEOUT  : '' @ flag WDIOF_PRETIMEOUT @ [NL])"

definition print_device_info :: "('w, 'x) watchdog_scheme \<Rightarrow> WatchdogDevice \<Rightarrow> 'w \<Rightarrow> 'w" where
  "print_device_info K d w =
     (let info = support d; head = [NL] @ ''========== Watchdog =========='' @ [NL]
        @ ''Identity      : '' @ identity info @ [NL]
        @ ''Firmware      : '' @ dec (unat (firmware_version info)) @ [NL]
        @ ''Timeout       : '' @ dec_int (watchdog_timeout d) @ '' s'' @ [NL] @ watchdog_print_options (options info)
      in case watchdog_device_get_timeleft K d (stdout K head w) of
        (left, w1) \<Rightarrow> stdout K ((case left of Inr t \<Rightarrow> ''Time Left     : '' @ dec_int t @ '' s'' | Inl _ \<Rightarrow> ''Time Left     : N/A'')
          @ [NL] @ ''=============================='' @ [NL, NL]) w1)"

definition run_info :: "('w, 'x) watchdog_scheme \<Rightarrow> WatchdogDevice \<Rightarrow> 'w \<Rightarrow> int \<times> 'w" where
  "run_info K d w = (0, print_device_info K d w)"

text \<open>The loop of \<^verbatim>\<open>run_keepalive\<close>, once every second.\<close>

partial_function (option) keepalive_loop ::
  "('w, 'x) watchdog_scheme \<Rightarrow> WatchdogDevice \<Rightarrow> int \<Rightarrow> int \<Rightarrow> 'w \<Rightarrow> (int \<times> 'w) option" where
  "keepalive_loop K d duration elapsed w =
     (if stop_requested K w \<or> elapsed \<ge> duration then Some (0, w)
      else case watchdog_device_keepalive K d w of
        (Inl _, w1) \<Rightarrow> Some (-1, w1)
      | (Inr _, w1) \<Rightarrow>
          (case watchdog_device_get_timeleft K d w1 of
             (left, w2) \<Rightarrow> do {
               (slept, w3) \<leftarrow> sleep_seconds K 1 (stdout K (''keep alive: elapsed='' @ dec_int elapsed @ '' s''
                 @ (case left of Inr t \<Rightarrow> '' timeleft='' @ dec_int t @ '' s'' | Inl _ \<Rightarrow> []) @ [NL]) w2);
               case slept of Inl _ \<Rightarrow> Some (-1, w3) | Inr _ \<Rightarrow> keepalive_loop K d duration (elapsed + 1) w3 }))"

declare keepalive_loop.simps [code]

definition run_keepalive ::
  "('w, 'x) watchdog_scheme \<Rightarrow> WatchdogDevice \<Rightarrow> int \<Rightarrow> int \<Rightarrow> 'w \<Rightarrow> ((int \<times> WatchdogDevice) \<times> 'w) option" where
  "run_keepalive K d t duration w =
     (if options (support d) AND WDIOF_SETTIMEOUT = 0 then Some ((-1, d), w)
      else case watchdog_device_set_timeout K d t w of
        ((Inl _, d1), w1) \<Rightarrow> Some ((-1, d1), w1)
      | ((Inr _, d1), w1) \<Rightarrow> do {
          (r, w2) \<leftarrow> keepalive_loop K d1 duration 0 (stdout K (''Requested timeout : '' @ dec_int t @ '' s'' @ [NL]
            @ ''Actual timeout    : '' @ dec_int (watchdog_timeout d1) @ '' s'' @ [NL]
            @ ''Duration          : '' @ dec_int duration @ '' s'' @ [NL, NL]) w1);
          Some ((r, d1), w2) })"

text \<open>The mode of the command line on an open device.\<close>

definition run_mode :: "('w, 'x) watchdog_scheme \<Rightarrow> string list \<Rightarrow> WatchdogDevice \<Rightarrow> 'w \<Rightarrow> ((int \<times> WatchdogDevice) \<times> 'w) option" where
  "run_mode K args d w =
     (if args ! 2 = ''info'' then
        (if length args \<noteq> 3 then Some ((-1, d), w) else case run_info K d w of (r, w1) \<Rightarrow> Some ((r, d), w1))
      else if args ! 2 = ''keepalive'' then
        (if length args \<noteq> 5 then Some ((-1, d), w)
         else case (parse_positive_int (args ! 3), parse_positive_int (args ! 4)) of
           (Some t, Some duration) \<Rightarrow> run_keepalive K d t duration w
         | _ \<Rightarrow> Some ((-1, d), w))
      else Some ((-1, d), w))"

definition watchdog_demo_main :: "('w, 'x) watchdog_scheme \<Rightarrow> string list \<Rightarrow> 'w \<Rightarrow> (int \<times> 'w) option" where
  "watchdog_demo_main K args w =
     (if length args < 3 then Some (1, w)
      else case install_signal_handlers K w of
        (Inl _, w1) \<Rightarrow> Some (1, w1)
      | (Inr _, w1) \<Rightarrow> do {
          ((opened, d), w2) \<leftarrow> watchdog_device_open K watchdog_device_init (args ! 1) w1;
          if opened \<noteq> Inr () then Some (1, w2)
          else do {
            ((result, d1), w3) \<leftarrow> run_mode K args d w2;
            ((closed, _), w4) \<leftarrow> watchdog_device_close K d1 w3;
            Some (if result = 0 \<and> closed = Inr () then 0 else 1, w4) } })"


section \<open>The driver\<close>

text \<open>The requests open and close nothing.  \<open>ready\<close> are the descriptors on which the magic character was written
  last, and \<open>alive\<close> says whether the timer runs: closing a ready descriptor stops it.\<close>

definition watchdog_calls :: "('w, 'x) watchdog_scheme \<Rightarrow> ('w \<Rightarrow> int set) \<Rightarrow> bool" where
  "watchdog_calls K fds \<longleftrightarrow> api_fds K fds \<and> (\<forall>fd. keeps fds (wdioc_getsupport K fd)) \<and> (\<forall>fd. keeps fds (wdioc_gettimeout K fd))
     \<and> (\<forall>fd t. keeps fds (wdioc_settimeout K fd t)) \<and> (\<forall>fd. keeps fds (wdioc_keepalive K fd))
     \<and> (\<forall>fd. keeps fds (wdioc_gettimeleft K fd)) \<and> (\<forall>fd opts. keeps fds (wdioc_setoptions K fd opts))"

lemma watchdog_laws:
  assumes "watchdog_calls K fds"
  shows "api_fds K fds" "keeps fds (wdioc_getsupport K fd)" "keeps fds (wdioc_gettimeout K fd)" "keeps fds (wdioc_settimeout K fd t)"
    "keeps fds (wdioc_keepalive K fd)" "keeps fds (wdioc_gettimeleft K fd)" "keeps fds (wdioc_setoptions K fd opts)"
    "fd_table (io K) fds" "side_calls_keep K fds" "fds (stdout K s w) = fds w"
proof -
  show "api_fds K fds" "keeps fds (wdioc_getsupport K fd)" "keeps fds (wdioc_gettimeout K fd)" "keeps fds (wdioc_settimeout K fd t)"
    "keeps fds (wdioc_keepalive K fd)" "keeps fds (wdioc_gettimeleft K fd)" "keeps fds (wdioc_setoptions K fd opts)"
    using assms by (simp_all add: watchdog_calls_def)
  then show "fd_table (io K) fds" "side_calls_keep K fds" by (simp_all add: api_fds_laws)
  then show "fds (stdout K s w) = fds w" by (simp add: side_calls(9))
qed

definition magic_close :: "('w, 'x) watchdog_scheme \<Rightarrow> ('w \<Rightarrow> int set) \<Rightarrow> ('w \<Rightarrow> bool) \<Rightarrow> bool" where
  "magic_close K ready alive \<longleftrightarrow>
     (\<forall>fd w w'. sys_write (io K) fd [char_byte CHR ''V''] w = (Inr 1, w') \<longrightarrow> fd \<in> ready w')
     \<and> (\<forall>fd w r w'. fd \<in> ready w \<longrightarrow> sys_close (io K) fd w = (r, w') \<longrightarrow> \<not> alive w')"

text \<open>What the driver says it supports.\<close>

definition supports :: "('w, 'x) watchdog_scheme \<Rightarrow> uint32 \<Rightarrow> bool" where
  "supports K flag \<longleftrightarrow> (\<forall>fd w info w'. wdioc_getsupport K fd w = (Inr info, w') \<longrightarrow> options info AND flag \<noteq> 0)"

lemma write_magic_close_fds: "watchdog_calls K fds \<Longrightarrow> write_magic_close K fd w = Some (r, w') \<Longrightarrow> fds w' = fds w"
  by (auto simp: write_magic_close_def dest: fd_table_retry(2) [OF watchdog_laws(8)] split: Option.bind_split_asm)

lemma write_magic_close_ready:
  assumes K: "magic_close K ready alive" and m: "write_magic_close K fd w = Some (Inr (), w')"
  shows "fd \<in> ready w'"
proof -
  have "retry (sys_write (io K) fd [char_byte CHR ''V'']) w = Some (Inr 1, w')"
    using m by (auto simp: write_magic_close_def split: Option.bind_split_asm sum.split_asm if_split_asm)
  from retry_reaches [OF this, where P = "\<lambda>_. True"]
  obtain w1 where "sys_write (io K) fd [char_byte CHR ''V''] w1 = (Inr 1, w')" by auto
  then show ?thesis using K by (simp add: magic_close_def)
qed

section \<open>Opening and closing\<close>

lemma watchdog_open:
  assumes K: "watchdog_calls K fds" and run: "watchdog_device_open K d p w = Some ((r, d'), w')" and closed: "watchdog_fd d < 0"
  shows "(r = Inr () \<and> 0 \<le> watchdog_fd d' \<and> watchdog_fd d' \<notin> fds w \<and> fds w' = insert (watchdog_fd d') (fds w) \<and> has_info d'
      \<and> (\<forall>flag. supports K flag \<longrightarrow> options (support d') AND flag \<noteq> 0))
    \<or> ((\<exists>e. r = Inl e) \<and> d' = d \<and> fds w' = fds w)"
proof -
  note t = watchdog_laws(8) [OF K]
  obtain o1 w1 where o1: "sys_open (io K) p (O_RDWR OR O_CLOEXEC) w = (o1, w1)" by (meson surj_pair)
  show ?thesis
  proof (cases "p = [] \<or> (\<exists>e. o1 = Inl e)")
    case True
    then have "(\<exists>e. r = Inl e) \<and> d' = d \<and> (w' = w \<or> (\<exists>e. o1 = Inl e) \<and> w' = w1)"
      using run closed unfolding watchdog_device_open_def o1 by (auto split: if_split_asm)
    then show ?thesis using fd_table_open(2) [OF t] o1 by metis
  next
    case False
    then obtain fd where fd: "o1 = Inr fd" by (cases o1) auto
    note op = fd_table_open(1) [OF t o1 [unfolded fd]]
    obtain s w2 where s: "wdioc_getsupport K fd w1 = (s, w2)" by (meson surj_pair)
    obtain g w3 where g: "wdioc_gettimeout K fd w2 = (g, w3)" by (meson surj_pair)
    note w2 = keepsD [OF watchdog_laws(2) [OF K] s] and w3 = keepsD [OF watchdog_laws(3) [OF K] g]
    have given_up: "fds (close_fd K fd v) = fds w" if "fds v = fds w1" for v
      using that op fd_table_close [OF t, of fd v] by auto
    show ?thesis
    proof (cases s)
      case (Inl e)
      then obtain x v where "write_magic_close K fd w2 = Some (x, v)" "r = Inl e" "d' = d" "w' = close_fd K fd v"
        using run closed False unfolding watchdog_device_open_def o1 fd by (auto simp: s split: Option.bind_split_asm)
      then show ?thesis using given_up w2 write_magic_close_fds [OF K] by simp
    next
      case (Inr info)
      show ?thesis
      proof (cases g)
        case (Inl e)
        then obtain v where "v = w3 \<or> (\<exists>x. write_magic_close K fd w3 = Some (x, v))" "r = Inl e" "d' = d" "w' = close_fd K fd v"
          using run closed False unfolding watchdog_device_open_def o1 fd by (auto simp: s Inr g split: if_split_asm Option.bind_split_asm)
        then show ?thesis using given_up w2 w3 write_magic_close_fds [OF K] by auto
      next
        case g1: (Inr tmo)
        then have "r = Inr ()" "d' = d\<lparr>watchdog_fd := fd, support := info, watchdog_timeout := tmo, has_info := True\<rparr>" "w' = w3"
          using run closed False unfolding watchdog_device_open_def o1 fd by (auto simp: s Inr g)
        moreover have "\<forall>flag. supports K flag \<longrightarrow> options info AND flag \<noteq> 0" using s Inr unfolding supports_def by blast
        ultimately show ?thesis using op w2 w3 by simp
      qed
    qed
  qed
qed

lemma watchdog_close:
  assumes K: "watchdog_calls K fds" and run: "watchdog_device_close K d w = Some ((r, d'), w')" and op: "0 \<le> watchdog_fd d"
  shows "fds w' = fds w - {watchdog_fd d}"
    and "magic_close K ready alive \<Longrightarrow> has_info d \<Longrightarrow> options (support d) AND WDIOF_MAGICCLOSE \<noteq> 0 \<Longrightarrow> r = Inr () \<Longrightarrow> \<not> alive w'"
proof -
  obtain m w1 where m: "(if has_info d \<and> options (support d) AND WDIOF_MAGICCLOSE \<noteq> 0 then write_magic_close K (watchdog_fd d) w
      else Some (Inr (), w)) = Some (m, w1)"
    using run op by (auto simp: watchdog_device_close_def split: Option.bind_split_asm)
  obtain c w2 where c: "sys_close (io K) (watchdog_fd d) w1 = (c, w2)" by (meson surj_pair)
  have r: "r = (if m = Inr () then c else m)" "w' = w2"
    using run op unfolding watchdog_device_close_def m by (simp_all add: c)
  have "fds w1 = fds w" using m write_magic_close_fds [OF K] by (auto split: if_split_asm)
  then show "fds w' = fds w - {watchdog_fd d}" using fd_table_close [OF watchdog_laws(8) [OF K], of "watchdog_fd d" w1] c r by simp
  show "\<not> alive w'" if mc: "magic_close K ready alive" and has: "has_info d" "options (support d) AND WDIOF_MAGICCLOSE \<noteq> 0" and ok: "r = Inr ()"
  proof -
    have "m = Inr ()" using r ok by (auto split: if_split_asm)
    then have "watchdog_fd d \<in> ready w1" using m has write_magic_close_ready [OF mc] by simp
    then show ?thesis using mc c r unfolding magic_close_def by blast
  qed
qed

section \<open>The runs of the tool\<close>

lemma sleep_for_keeps:
  assumes K: "\<And>n. keeps P (nanosleep K n)" and run: "sleep_for K ns w = Some (r, w')"
  shows "P w' = P w"
proof -
  let ?Q = "\<lambda>K' (ns :: nat) w x. K' = K \<longrightarrow> P (snd x) = P w"
  have "?Q K ns w (r, w')"
  proof (rule sleep_for.raw_induct [where P = ?Q, OF _ run], goal_cases)
    case (1 loop K' ns w x)
    obtain r v where r: "nanosleep K ns w = (r, v)" by (meson surj_pair)
    show ?case using 1 keepsD [OF K r] by (cases x) (auto simp: r split: sum.split_asm prod.split_asm if_split_asm)
  qed
  then show ?thesis by simp
qed

lemma watchdog_requests_keep:
  assumes K: "watchdog_calls K fds"
  shows "watchdog_device_keepalive K d w = (a, w') \<Longrightarrow> fds w' = fds w" and "watchdog_device_get_timeleft K d w = (b, w') \<Longrightarrow> fds w' = fds w"
    and "sleep_seconds K n w = Some (c, w') \<Longrightarrow> fds w' = fds w"
    and "watchdog_device_set_timeout K d t w = ((c, d'), w') \<Longrightarrow> fds w' = fds w \<and> d' = d\<lparr>watchdog_timeout := watchdog_timeout d'\<rparr>"
proof -
  show "watchdog_device_keepalive K d w = (a, w') \<Longrightarrow> fds w' = fds w"
    by (auto simp: watchdog_device_keepalive_def dest: keepsD [OF watchdog_laws(5) [OF K]] split: if_split_asm)
  show "watchdog_device_get_timeleft K d w = (b, w') \<Longrightarrow> fds w' = fds w"
    by (auto simp: watchdog_device_get_timeleft_def dest: keepsD [OF watchdog_laws(6) [OF K]] split: if_split_asm)
  show "sleep_seconds K n w = Some (c, w') \<Longrightarrow> fds w' = fds w"
    unfolding sleep_seconds_def by (erule sleep_for_keeps [rotated]) (use watchdog_laws(9) [OF K] in \<open>simp add: side_calls_keep_def\<close>)
  show "watchdog_device_set_timeout K d t w = ((c, d'), w') \<Longrightarrow> fds w' = fds w \<and> d' = d\<lparr>watchdog_timeout := watchdog_timeout d'\<rparr>"
    by (auto simp: watchdog_device_set_timeout_def dest: keepsD [OF watchdog_laws(4) [OF K]] split: if_split_asm sum.split_asm prod.split_asm)
qed

lemma keepalive_loop_keeps:
  assumes K: "watchdog_calls K fds" and run: "keepalive_loop K d duration elapsed w = Some (r, w')"
  shows "fds w' = fds w"
proof -
  let ?Q = "\<lambda>K' (d :: WatchdogDevice) (n :: int) (e :: int) w x. K' = K \<longrightarrow> fds (snd x) = fds w"
  have "?Q K d duration elapsed w (r, w')"
  proof (rule keepalive_loop.raw_induct [where P = ?Q, OF _ run], goal_cases)
    case (1 loop K' d n e w x)
    show ?case
    proof
      assume [simp]: "K' = K"
      obtain a w1 where a: "watchdog_device_keepalive K d w = (a, w1)" by (meson surj_pair)
      obtain b w2 where b: "watchdog_device_get_timeleft K d w1 = (b, w2)" by (meson surj_pair)
      note keep = watchdog_requests_keep(1) [OF K a] watchdog_requests_keep(2) [OF K b]
      consider "snd x = w" | "snd x = w1"
        | s c v where "sleep_seconds K 1 (stdout K s w2) = Some (c, v)" "snd x = v \<or> loop K d n (e + 1) v = Some x"
        using 1(2) by (auto simp: a b split: if_split_asm sum.split_asm Option.bind_split_asm)
      then show "fds (snd x) = fds w"
      proof cases
        case 3
        have "fds v = fds w" using watchdog_requests_keep(3) [OF K 3(1)] keep watchdog_laws(10) [OF K] by simp
        then show ?thesis using 3(2) 1(1) [of K d n "e + 1" v x] by auto
      qed (use keep in simp_all)
    qed
  qed
  then show ?thesis by simp
qed

lemma run_mode_keeps:
  assumes K: "watchdog_calls K fds" and run: "run_mode K args d w = Some ((r, d'), w')"
  shows "fds w' = fds w \<and> d' = d\<lparr>watchdog_timeout := watchdog_timeout d'\<rparr>"
proof -
  note out = watchdog_laws(10) [OF K]
  have info: "fds (print_device_info K d w) = fds w"
    by (auto simp: print_device_info_def Let_def out dest: watchdog_requests_keep(2) [OF K] split: prod.split)
  have feed: "fds w' = fds w \<and> d' = d\<lparr>watchdog_timeout := watchdog_timeout d'\<rparr>" if "run_keepalive K d t n w = Some ((r, d'), w')" for t n
    using that watchdog_requests_keep(4) [OF K, of d t w] keepalive_loop_keeps [OF K] out
    by (fastforce simp: run_keepalive_def split: if_split_asm prod.split_asm sum.split_asm Option.bind_split_asm)
  show ?thesis
    using run info feed unfolding run_mode_def run_info_def by (auto split: if_split_asm option.split_asm)
qed

lemma set_handler_keeps: "side_calls_keep K P \<Longrightarrow> keeps P (sys_sigaction K sig disp m)"
  by (simp add: side_calls_keep_def)

lemma install_keeps:
  assumes K: "watchdog_calls K fds" and run: "install_signal_handlers K w = (r, w')"
  shows "fds w' = fds w"
proof -
  note act = set_handler_keeps [OF watchdog_laws(9) [OF K]]
  obtain a w1 where a: "sys_sigaction K SIGINT Handler {} w = (a, w1)" by (meson surj_pair)
  obtain b w2 where b: "sys_sigaction K SIGTERM Handler {} w1 = (b, w2)" by (meson surj_pair)
  have "w' = w1 \<or> w' = w2" using run by (auto simp: install_signal_handlers_def a b split: sum.split_asm)
  then show ?thesis using keepsD [OF act a] keepsD [OF act b] by auto
qed

lemma watchdog_demo:
  assumes K: "watchdog_calls K fds" and run: "watchdog_demo_main K args w = Some (code, w')"
  shows "fds w' = fds w" and "code = 0 \<or> code = 1"
    and "magic_close K ready alive \<Longrightarrow> supports K WDIOF_MAGICCLOSE \<Longrightarrow> code = 0 \<Longrightarrow> \<not> alive w'"
proof -
  let ?goal = "fds w' = fds w \<and> (code = 0 \<or> code = 1)
    \<and> (magic_close K ready alive \<longrightarrow> supports K WDIOF_MAGICCLOSE \<longrightarrow> code = 0 \<longrightarrow> \<not> alive w')"
  obtain i w1 where i: "install_signal_handlers K w = (i, w1)" by (meson surj_pair)
  note w1 = install_keeps [OF K i]
  have ?goal
  proof (cases "length args < 3 \<or> (\<exists>e. i = Inl e)")
    case True
    then have "code = 1 \<and> (w' = w \<or> w' = w1)"
      using run unfolding watchdog_demo_main_def i by (auto split: if_split_asm)
    then show ?thesis using w1 by fastforce
  next
    case False
    then have i2: "i = Inr ()" "\<not> length args < 3" by (cases i; simp)+
    note run1 = run [unfolded watchdog_demo_main_def i i2(1) if_not_P [OF i2(2)] prod.case sum.case]
    then obtain o1 d w2 where o1: "watchdog_device_open K watchdog_device_init (args ! 1) w1 = Some ((o1, d), w2)"
      by (auto split: Option.bind_split_asm)
    have init: "watchdog_fd watchdog_device_init < 0" by (simp add: watchdog_device_init_def)
    note op = watchdog_open [OF K o1 init] and run2 = run1 [unfolded o1 Option.bind.simps prod.case]
    show ?thesis
    proof (cases "o1 = Inr ()")
      case fails: False
      then have "code = 1 \<and> w' = w2" using run2 by simp
      moreover have "fds w2 = fds w" using op fails w1 by simp
      ultimately show ?thesis by simp
    next
      case True
      have "\<not> o1 \<noteq> Inr ()" using True by simp
      note run3 = run2 [unfolded if_not_P [OF this]]
      obtain r d1 w3 where r: "run_mode K args d w2 = Some ((r, d1), w3)"
        using run3 by (auto split: Option.bind_split_asm)
      obtain c d2 w4 where c: "watchdog_device_close K d1 w3 = Some ((c, d2), w4)"
        using run3 [unfolded r Option.bind.simps prod.case] by (auto split: Option.bind_split_asm)
      have res: "code = (if r = 0 \<and> c = Inr () then 0 else 1)" "w' = w4"
        using run3 [unfolded r c Option.bind.simps prod.case] by simp_all
      note mode = run_mode_keeps [OF K r]
      have d1: "watchdog_fd d1 = watchdog_fd d" "support d1 = support d" "has_info d1 = has_info d"
        by (metis mode WatchdogDevice.select_convs WatchdogDevice.surjective WatchdogDevice.update_convs)+
      have "0 \<le> watchdog_fd d1" using op True d1 by simp
      note cl = watchdog_close(1) [OF K c this] watchdog_close(2) [OF K c this, of ready alive]
      show ?thesis using op True mode d1 cl res w1 by (auto split: if_split_asm)
    qed
  qed
  then show "fds w' = fds w" "code = 0 \<or> code = 1"
    "magic_close K ready alive \<Longrightarrow> supports K WDIOF_MAGICCLOSE \<Longrightarrow> code = 0 \<Longrightarrow> \<not> alive w'" by blast+
qed

section \<open>The property of the tool\<close>

text \<open>A kernel with a watchdog: opening it starts the timer, which \<open>d_code\<close> says; the last write is kept with its
  descriptor.\<close>

definition demo_watchdog :: "demo_world watchdog" where
  "demo_watchdog = (api.extend demo_api (watchdog.fields
       (\<lambda>fd w. (Inr \<lparr>options = 0x8180, firmware_version = 3, identity = ''demo''\<rparr>, w)) (\<lambda>fd w. (Inr 60, w)) (\<lambda>fd t w. (Inr t, w))
       (\<lambda>fd w. (Inr (), w)) (\<lambda>fd w. (Inr 9, w)) (\<lambda>fd opts w. (Inl EINVAL, w)) (\<lambda>w. False)))
     \<lparr>io := demo_io
       \<lparr>sys_open := \<lambda>p f w. let fd = d_fresh (d_fds w) in (Inr fd, w\<lparr>d_fds := fd # d_fds w, d_code := 1\<rparr>),
        sys_write := \<lambda>fd bs w. (Inr (length bs), w\<lparr>d_streams := (fd, [map byte_char bs]) # d_streams w\<rparr>),
        sys_close := \<lambda>fd w. (Inr (), w\<lparr>d_fds := filter (\<lambda>x. x \<noteq> fd) (d_fds w),
          d_code := (if map_of (d_streams w) fd = Some [''V''] then 0 else d_code w)\<rparr>)\<rparr>\<rparr>"

declare demo_watchdog_def [code]

definition demo_ready :: "demo_world \<Rightarrow> int set" where
  "demo_ready w = {fd. map_of (d_streams w) fd = Some [''V'']}"

definition demo_alive :: "demo_world \<Rightarrow> bool" where
  "demo_alive w \<longleftrightarrow> d_code w \<noteq> 0"

lemma demo_watchdog_sel:
  "waitpid_one demo_watchdog = waitpid_one demo_api" "waitpid_group demo_watchdog = waitpid_group demo_api"
  "Job.kill demo_watchdog = Job.kill demo_api" "nanosleep demo_watchdog = nanosleep demo_api" "stdout demo_watchdog = stdout demo_api"
  "sys_pipe demo_watchdog = sys_pipe demo_api" "sys_fork demo_watchdog = sys_fork demo_api" "sys_setpgid demo_watchdog = sys_setpgid demo_api"
  "sys_getfd demo_watchdog = sys_getfd demo_api" "sys_setfd demo_watchdog = sys_setfd demo_api" "sys_getfl demo_watchdog = sys_getfl demo_api"
  "sys_setfl demo_watchdog = sys_setfl demo_api" "sys_dupfd demo_watchdog = sys_dupfd demo_api" "sys_dup2 demo_watchdog = sys_dup2 demo_api"
  "sys_tcgetpgrp demo_watchdog = sys_tcgetpgrp demo_api" "sys_tcsetpgrp demo_watchdog = sys_tcsetpgrp demo_api"
  "sys_sigprocmask demo_watchdog = sys_sigprocmask demo_api" "sys_sigaction demo_watchdog = sys_sigaction demo_api"
  "sys_read (io demo_watchdog) = sys_read demo_io" "sys_tcgetattr (io demo_watchdog) = sys_tcgetattr demo_io"
  "sys_tcsetattr (io demo_watchdog) = sys_tcsetattr demo_io"
  by (simp_all add: demo_watchdog_def demo_api_def api.defs watchdog.defs)

lemma demo_watchdog_calls: "watchdog_calls demo_watchdog demo_fds"
proof -
  have "fd_table (io demo_watchdog) demo_fds"
    by (auto simp: fd_table_def demo_watchdog_def demo_io_def Let_def d_fresh_ge split: if_split_asm)
  moreover have "side_calls_keep demo_watchdog demo_fds"
    using demo_side_calls(1) by (simp add: side_calls_keep_def demo_watchdog_sel demo_api_def keeps_def demo_watchdog_def api.defs watchdog.defs)
  ultimately have "api_fds demo_watchdog demo_fds" using demo_api_fds by (simp add: api_fds_def demo_watchdog_sel)
  then show ?thesis by (simp add: watchdog_calls_def keeps_def demo_watchdog_def api.defs watchdog.defs)
qed

lemma demo_magic_close: "magic_close demo_watchdog demo_ready demo_alive" "supports demo_watchdog WDIOF_MAGICCLOSE"
  by (auto simp: magic_close_def supports_def demo_ready_def demo_alive_def demo_watchdog_def api.defs watchdog.defs)

text \<open>C24. The watchdog tool never leaves the machine to be reset behind its back: whatever the command line says and
  whichever calls fail, the descriptor is closed again; and when the tool reports success on a driver that stops at
  the magic close, it has written the magic character and closed the device after that, so that the timer does not
  run on.  The hypotheses are what the kernel documents: the requests open and close nothing, and closing a
  descriptor on which the magic character was written last stops the timer.\<close>

theorem watchdog_demo_stops:
  assumes "watchdog_calls K fds" "magic_close K ready alive" "supports K WDIOF_MAGICCLOSE"
    and "watchdog_demo_main K args w = Some (code, w')"
  shows "fds w' = fds w \<and> (code = 0 \<or> code = 1) \<and> (code = 0 \<longrightarrow> \<not> alive w')"
  using watchdog_demo [OF assms(1,4)] assms(2,3) by blast

definition demo_dog :: demo_world where
  "demo_dog = \<lparr>d_fds = [0, 1, 2], d_kids = [], d_next = 1, d_unread = 0, d_code = 0, d_clock = 0, d_streams = []\<rparr>"

theorem watchdog_demo_stops_witness:
  "\<exists>w'. watchdog_demo_main demo_watchdog [''watchdog_demo'', ''/dev/watchdog'', ''keepalive'', ''10'', ''2''] demo_dog = Some (0, w')
    \<and> demo_fds w' = {0, 1, 2} \<and> \<not> demo_alive w' \<and> d_clock w' = 2"
proof -
  have "map_option (\<lambda>(code, w). (code, d_clock w))
      (watchdog_demo_main demo_watchdog [''watchdog_demo'', ''/dev/watchdog'', ''keepalive'', ''10'', ''2''] demo_dog) = Some (0, 2)"
    by code_simp
  then obtain w' where w': "watchdog_demo_main demo_watchdog [''watchdog_demo'', ''/dev/watchdog'', ''keepalive'', ''10'', ''2''] demo_dog
      = Some (0, w')" "d_clock w' = 2" by auto
  from watchdog_demo_stops [OF demo_watchdog_calls demo_magic_close w'(1)] w' show ?thesis by (auto simp: demo_dog_def)
qed

end
