(* ===== verification/Tools.thy ===== *)
theory Tools
  imports Cmd_Device Demo_Process
begin

text \<open>
  The command line tools for one device each: \<^verbatim>\<open>tools/gpio_probe.c\<close>, \<^verbatim>\<open>tools/i2c_probe.c\<close>,
  \<^verbatim>\<open>tools/serial_test.c\<close> and \<^verbatim>\<open>tools/oled_demo.c\<close>.  \<open>args\<close> are the arguments with the name of the program first; a
  result is the exit code, 0 for success.  The two loops that only an error ends are \<open>None\<close> when there is none.
\<close>

section \<open>GPIO\<close>

definition parse_offset :: "string \<Rightarrow> uint32 option" where
  "parse_offset s =
     (if s = [] then None
      else case strtoul 10 s of (v, rest, erange) \<Rightarrow>
        if erange \<or> rest = s \<or> rest \<noteq> [] \<or> v > 4294967295 then None else Some (of_nat v))"

definition parse_value :: "string \<Rightarrow> int option" where
  "parse_value s = (if s = ''0'' then Some 0 else if s = ''1'' then Some 1 else None)"

definition parse_bias :: "string \<Rightarrow> int option" where
  "parse_bias s =
     (if s = ''default'' then Some 0 else if s = ''up'' then Some 1 else if s = ''down'' then Some 2
      else if s = ''disabled'' then Some 3 else None)"

definition run_input :: "('w, 'x) api_scheme \<Rightarrow> string \<Rightarrow> uint32 \<Rightarrow> int \<Rightarrow> 'w \<Rightarrow> int \<times> 'w" where
  "run_input K chip_path off b w =
     (case gpio_line_open_input (io K) gpio_line_init chip_path off b w of
        ((Inl _, _), w1) \<Rightarrow> (1, w1)
      | ((Inr _, line), w1) \<Rightarrow>
          (case gpio_line_get_value (io K) line w1 of
             (Inl _, w2) \<Rightarrow> (1, snd (gpio_line_close (io K) line w2))
           | (Inr v, w2) \<Rightarrow> (0, snd (gpio_line_close (io K) line (stdout K (dec_int v @ [NL]) w2)))))"

text \<open>The pause between two readings, and the loop that prints each change.\<close>

partial_function (option) pause :: "('w, 'x) kernel_scheme \<Rightarrow> nat \<Rightarrow> 'w \<Rightarrow> ((int + unit) \<times> 'w) option" where
  "pause K ns w = (case nanosleep K ns w of
     (Inr _, w1) \<Rightarrow> Some (Inr (), w1)
   | (Inl (e, rest), w1) \<Rightarrow> if e = EINTR then pause K rest w1 else Some (Inl e, w1))"

declare pause.simps [code]

partial_function (option) watch_loop :: "('w, 'x) api_scheme \<Rightarrow> GpioLine \<Rightarrow> int \<Rightarrow> 'w \<Rightarrow> (int \<times> 'w) option" where
  "watch_loop K line previous w = do {
     (slept, w1) \<leftarrow> pause K 50000000 w;
     if slept \<noteq> Inr () then Some (1, snd (gpio_line_close (io K) line w1))
     else case gpio_line_get_value (io K) line w1 of
       (Inl _, w2) \<Rightarrow> Some (1, snd (gpio_line_close (io K) line w2))
     | (Inr v, w2) \<Rightarrow> watch_loop K line v (if v \<noteq> previous then stdout K (''value='' @ dec_int v @ [NL]) w2 else w2) }"

declare watch_loop.simps [code]

definition run_watch :: "('w, 'x) api_scheme \<Rightarrow> string \<Rightarrow> uint32 \<Rightarrow> int \<Rightarrow> 'w \<Rightarrow> (int \<times> 'w) option" where
  "run_watch K chip_path off b w =
     (case gpio_line_open_input (io K) gpio_line_init chip_path off b w of
        ((Inl _, _), w1) \<Rightarrow> Some (1, w1)
      | ((Inr _, line), w1) \<Rightarrow>
          (case gpio_line_get_value (io K) line w1 of
             (Inl _, w2) \<Rightarrow> Some (1, snd (gpio_line_close (io K) line w2))
           | (Inr v, w2) \<Rightarrow> watch_loop K line v (stdout K (''value='' @ dec_int v @ [NL]) w2)))"

definition run_output :: "('w, 'x) api_scheme \<Rightarrow> string \<Rightarrow> uint32 \<Rightarrow> int \<Rightarrow> 'w \<Rightarrow> int \<times> 'w" where
  "run_output K chip_path off v w =
     (case gpio_line_open_output (io K) gpio_line_init chip_path off v w of
        ((Inl _, _), w1) \<Rightarrow> (1, w1)
      | ((Inr _, line), w1) \<Rightarrow> (0, snd (gpio_line_close (io K) line (stdout K (''value='' @ dec_int v @ [NL]) w1))))"

definition gpio_probe_main :: "('w, 'x) api_scheme \<Rightarrow> string list \<Rightarrow> 'w \<Rightarrow> (int \<times> 'w) option" where
  "gpio_probe_main K args w =
     (if length args < 4 then Some (2, w)
      else case parse_offset (args ! 3) of
        None \<Rightarrow> Some (2, w)
      | Some off \<Rightarrow>
          if args ! 1 = ''input'' \<or> args ! 1 = ''watch'' then
            (if length args > 5 then Some (2, w)
             else case (if length args = 5 then parse_bias (args ! 4) else Some 0) of
               None \<Rightarrow> Some (2, w)
             | Some b \<Rightarrow>
                 if args ! 1 = ''input'' then Some (run_input K (args ! 2) off b w) else run_watch K (args ! 2) off b w)
          else if args ! 1 = ''output'' then
            (if length args \<noteq> 5 then Some (2, w)
             else case parse_value (args ! 4) of
               None \<Rightarrow> Some (2, w)
             | Some v \<Rightarrow> Some (run_output K (args ! 2) off v w))
          else Some (2, w))"

text \<open>\<^verbatim>\<open>strtoul\<close> takes a minus sign, so that a large negative number is read as a small offset.\<close>

lemma parse_offset_negative: "parse_offset ''-18446744073709551615'' = Some 1"
  by code_simp

section \<open>I2C\<close>

text \<open>The empty text is read as 0, and refused as that.\<close>

definition parse_address :: "string \<Rightarrow> byte option" where
  "parse_address s = (case strtoul 0 s of (v, rest, erange) \<Rightarrow>
     if erange \<or> rest \<noteq> [] \<or> v < 0x03 \<or> v > 0x77 then None else Some (of_nat v))"

definition hex2_upper :: "nat \<Rightarrow> string" where
  "hex2_upper n = map (\<lambda>d. if d < 10 then digit d else char_of (55 + d)) [n div 16, n mod 16]"

definition detected_text :: "string \<Rightarrow> byte \<Rightarrow> string" where
  "detected_text bus a = ''I2C device detected: bus='' @ bus @ '' address=0x'' @ hex2_upper (unat a) @ [NL]"

definition i2c_probe_main :: "('w, 'x) api_scheme \<Rightarrow> string list \<Rightarrow> 'w \<Rightarrow> int \<times> 'w" where
  "i2c_probe_main K args w =
     (if length args \<noteq> 3 then (1, w)
      else case parse_address (args ! 2) of
        None \<Rightarrow> (1, w)
      | Some a \<Rightarrow>
          (case i2c_bus_open (io K) i2c_bus_init (args ! 1) a w of
             ((Inl _, _), w1) \<Rightarrow> (1, w1)
           | ((Inr _, bus), w1) \<Rightarrow>
               (case i2c_bus_probe (io K) bus w1 of
                  (Inl _, w2) \<Rightarrow> (1, snd (i2c_bus_close (io K) bus w2))
                | (Inr _, w2) \<Rightarrow> (0, snd (i2c_bus_close (io K) bus
                    (stdout K (detected_text (args ! 1) a) w2))))))"

section \<open>The display\<close>

text \<open>The four lines of text of the demo, in UTF-8, with their position.\<close>

definition oled_demo_lines :: "(int \<times> byte list) list" where
  "oled_demo_lines = [
     (0, [0xE9, 0xA6, 0x99, 0xE6, 0xA9, 0x99, 0xE6, 0xB4, 0xBE, 0x20, 0x4F, 0x4C, 0x45, 0x44]),
     (16, [0xE7, 0xB3, 0xBB, 0xE7, 0xBB, 0x9F, 0xE6, 0xAD, 0xA3, 0xE5, 0xB8, 0xB8]),
     (32, [0xE6, 0xB8, 0xA9, 0xE5, 0xBA, 0xA6, 0x3A, 0x20, 0x34, 0x36, 0x2E, 0x32, 0x20, 0x43]),
     (48, [0xE7, 0xBD, 0x91, 0xE7, 0xBB, 0x9C, 0x3A, 0x20, 0x4F, 0x4B])]"

fun draw_lines :: "(int \<times> byte list) list \<Rightarrow> Oled \<Rightarrow> (int + Oled)" where
  "draw_lines [] d = Inr d"
| "draw_lines ((y, s) # ls) d = (case oled_draw_text_utf8 0 y (Some s) d of (Inl e, _) \<Rightarrow> Inl e | (Inr _, d') \<Rightarrow> draw_lines ls d')"

definition oled_parse_address :: "string \<Rightarrow> byte option" where
  "oled_parse_address s = (case strtoul 0 s of (v, rest, erange) \<Rightarrow>
     if erange \<or> rest \<noteq> [] \<or> v < 0x03 \<or> v > 0x77 then None else Some (of_nat v))"

definition oled_zero :: Oled where
  "oled_zero = \<lparr>attached = False, buffer = replicate OLED_BUFFER_SIZE 0\<rparr>"

definition displayed_text :: "string \<Rightarrow> byte \<Rightarrow> string" where
  "displayed_text bus a = ''OLED UTF-8 demo displayed: bus='' @ bus @ '' address=0x'' @ hex2_upper (unat a) @ [NL]"

definition oled_demo_main :: "('w, 'x) api_scheme \<Rightarrow> string list \<Rightarrow> 'w \<Rightarrow> (int \<times> 'w) option" where
  "oled_demo_main K args w =
     (if length args \<noteq> 3 then Some (1, w)
      else case oled_parse_address (args ! 2) of
        None \<Rightarrow> Some (1, w)
      | Some a \<Rightarrow>
          (case i2c_bus_open (io K) i2c_bus_init (args ! 1) a w of
             ((Inl _, _), w1) \<Rightarrow> Some (1, w1)
           | ((Inr _, bus), w1) \<Rightarrow> do {
               ((started, d), w2) \<leftarrow> oled_init (io K) bus oled_zero w1;
               case started of
                 Inl _ \<Rightarrow> Some (1, snd (i2c_bus_close (io K) bus w2))
               | Inr _ \<Rightarrow>
                   (case draw_lines oled_demo_lines (oled_clear d) of
                      Inl _ \<Rightarrow> Some (1, snd (i2c_bus_close (io K) bus w2))
                    | Inr picture \<Rightarrow> do {
                        (shown, w3) \<leftarrow> oled_refresh (io K) bus picture w2;
                        case shown of
                          Inl _ \<Rightarrow> Some (1, snd (i2c_bus_close (io K) bus w3))
                        | Inr _ \<Rightarrow> Some (0, snd (i2c_bus_close (io K) bus
                            (stdout K (displayed_text (args ! 1) a) w3))) }) }))"

section \<open>The serial port\<close>

abbreviation (input) SERIAL_TIMEOUT_MS :: int where "SERIAL_TIMEOUT_MS \<equiv> 5000"
abbreviation (input) SERIAL_BUFFER_SIZE :: nat where "SERIAL_BUFFER_SIZE \<equiv> 1024"

definition parse_baudrate :: "string \<Rightarrow> int option" where
  "parse_baudrate s = (case strtol10 s of (v, rest, erange) \<Rightarrow>
     if erange \<or> rest \<noteq> [] \<or> v \<le> 0 \<or> v > 10000000 then None else Some v)"

definition run_send :: "('w, 'x) api_scheme \<Rightarrow> SerialPort \<Rightarrow> string \<Rightarrow> 'w \<Rightarrow> (int \<times> 'w) option" where
  "run_send K port message w = do {
     (r, w1) \<leftarrow> serial_port_write_all (io K) port (Some (map char_byte message)) SERIAL_TIMEOUT_MS w;
     case r of
       Inl _ \<Rightarrow> Some (-1, w1)
     | Inr _ \<Rightarrow> Some (0, stdout K (''TX ('' @ dec (length message) @ '' bytes): '' @ message @ [NL]) w1) }"

definition received_text :: "byte list \<Rightarrow> string" where
  "received_text bs = ''RX ('' @ dec (length bs) @ '' bytes): '' @ map byte_char bs @ [NL]"

partial_function (option) receive_forever :: "('w, 'x) api_scheme \<Rightarrow> SerialPort \<Rightarrow> 'w \<Rightarrow> (int \<times> 'w) option" where
  "receive_forever K port w = do {
     (ready, w1) \<leftarrow> serial_port_wait_readable (io K) port 1000 w;
     case ready of
       Inl _ \<Rightarrow> Some (-1, w1)
     | Inr n \<Rightarrow>
         if n = 0 then receive_forever K port w1
         else do {
           (received, w2) \<leftarrow> serial_port_read (io K) port SERIAL_BUFFER_SIZE w1;
           case received of
             Inr bs \<Rightarrow> receive_forever K port (if bs = [] then w2
               else stdout K (received_text bs) w2)
           | Inl e \<Rightarrow> if e = EAGAIN then receive_forever K port w2 else Some (-1, w2) } }"

declare receive_forever.simps [code]

definition run_receive :: "('w, 'x) api_scheme \<Rightarrow> SerialPort \<Rightarrow> 'w \<Rightarrow> (int \<times> 'w) option" where
  "run_receive K port w = receive_forever K port (stdout K (''Waiting for serial data. Press Ctrl+C to stop.'' @ [NL]) w)"

definition serial_banner :: "string \<Rightarrow> int \<Rightarrow> string" where
  "serial_banner device baud = ''Device : '' @ device @ [NL] @ ''Baud   : '' @ dec_int baud @ [NL]
     @ ''Mode   : 8N1 raw nonblocking'' @ [NL]"

definition serial_mode :: "('w, 'x) api_scheme \<Rightarrow> string list \<Rightarrow> SerialPort \<Rightarrow> 'w \<Rightarrow> (int \<times> 'w) option" where
  "serial_mode K args port w =
     (if args ! 3 = ''send'' then (if length args \<noteq> 5 then Some (-1, w) else run_send K port (args ! 4) w)
      else if args ! 3 = ''recv'' then (if length args \<noteq> 4 then Some (-1, w) else run_receive K port w)
      else Some (-1, w))"

definition serial_test_main :: "('w, 'x) api_scheme \<Rightarrow> string list \<Rightarrow> 'w \<Rightarrow> (int \<times> 'w) option" where
  "serial_test_main K args w =
     (if length args < 4 then Some (1, w)
      else case parse_baudrate (args ! 2) of
        None \<Rightarrow> Some (1, w)
      | Some baud \<Rightarrow>
          (case serial_port_open (io K) serial_port_init (args ! 1) baud True w of
             ((Inl _, _), w1) \<Rightarrow> Some (1, w1)
           | ((Inr _, port), w1) \<Rightarrow> do {
               (result, w2) \<leftarrow> serial_mode K args port (stdout K (serial_banner (args ! 1) baud) w1);
               Some (if result = 0 then 0 else 1, snd (serial_port_close (io K) port w2)) }))"

section \<open>Descriptors\<close>

lemma line_close_fds: "fd_table K fds \<Longrightarrow> 0 \<le> line_fd line \<Longrightarrow> fds (snd (gpio_line_close K line w)) = fds w - {line_fd line}"
  by (simp add: gpio_line_close_def fd_table_close)

lemma bus_close_fds: "fd_table K fds \<Longrightarrow> 0 \<le> bus_fd bus \<Longrightarrow> fds (snd (i2c_bus_close K bus w)) = fds w - {bus_fd bus}"
  by (simp add: i2c_bus_close_def fd_table_close)

lemma port_close_fds: "fd_table K fds \<Longrightarrow> 0 \<le> port_fd port \<Longrightarrow> fds (snd (serial_port_close K port w)) = fds w - {port_fd port}"
  by (simp add: serial_port_close_def fd_table_close)

lemma pause_keeps:
  assumes K: "\<And>n. keeps P (nanosleep K n)" and run: "pause K ns w = Some (r, w')"
  shows "P w' = P w"
proof -
  let ?Q = "\<lambda>K' (ns :: nat) w x. K' = K \<longrightarrow> P (snd x) = P w"
  have "?Q K ns w (r, w')"
  proof (rule pause.raw_induct [where P = ?Q, OF _ run], goal_cases)
    case (1 loop K' ns w x)
    obtain r v where r: "nanosleep K ns w = (r, v)" by (meson surj_pair)
    show ?case using 1 keepsD [OF K r] by (cases x) (auto simp: r split: sum.split_asm prod.split_asm if_split_asm)
  qed
  then show ?thesis by simp
qed


lemma watch_loop_fds:
  assumes K: "api_fds K fds" and run: "watch_loop K line v w = Some (r, w')" and op: "0 \<le> line_fd line"
  shows "fds w' = fds w - {line_fd line} \<and> r = 1"
proof -
  note t = api_fds_laws(1) [OF K] and side = api_fds_laws(2) [OF K]
  let ?Q = "\<lambda>K' l (v :: int) w x. K' = K \<longrightarrow> l = line \<longrightarrow> fds (snd x) = fds w - {line_fd line} \<and> fst x = 1"
  have "?Q K line v w (r, w')"
  proof (rule watch_loop.raw_induct [where P = ?Q, OF _ run], goal_cases)
    case (1 loop K' l v w x)
    show ?case
    proof (intro impI)
      assume [simp]: "K' = K" "l = line"
      obtain s w1 where s: "pause K 50000000 w = Some (s, w1)"
        using 1(2) by (auto split: Option.bind_split_asm)
      obtain g w2 where g: "gpio_line_get_value (io K) line w1 = (g, w2)" by (meson surj_pair)
      have w1: "fds w1 = fds w" by (rule pause_keeps [OF _ s]) (use side in \<open>simp add: side_calls_keep_def\<close>)
      have w2: "fds w2 = fds w1" by (rule gpio_line_fds(1) [OF t g])
      note cl = line_close_fds [OF t op]
      consider u where "x = (1, snd (gpio_line_close (io K) line u))" "u = w1 \<or> u = w2"
        | n u where "u = w2 \<or> (\<exists>m. u = stdout K m w2)" "loop K line n u = Some x"
        using 1(2) by (auto simp: s g split: if_split_asm sum.split_asm)
      then show "fds (snd x) = fds w - {line_fd line} \<and> fst x = 1"
      proof cases
        case (2 n u)
        have "fds u = fds w" using 2(1) w1 w2 side_calls(9) [OF side] by auto
        then show ?thesis using 1(1) [OF 2(2)] by simp
      qed (use cl w1 w2 in auto)
    qed
  qed
  then show ?thesis by simp
qed

text \<open>A line that was opened, used and closed.\<close>

lemma line_used:
  assumes K: "fd_table K fds" and l: "(\<exists>v. gpio_line_open_output K gpio_line_init p off v w = ((r, line), w1)) \<or> (\<exists>b. gpio_line_open_input K gpio_line_init p off b w = ((r, line), w1))"
  shows "(r = Inr 0 \<and> 0 \<le> line_fd line \<and> fds w1 - {line_fd line} = fds w \<and> (\<forall>u. fds u = fds w1 \<longrightarrow> fds (snd (gpio_line_close K line u)) = fds w))
    \<or> ((\<exists>e. r = Inl e) \<and> fds w1 = fds w)"
proof -
  have "line_fd gpio_line_init < 0" by (simp add: gpio_line_init_def)
  then have "(r = Inr 0 \<and> 0 \<le> line_fd line \<and> line_fd line \<notin> fds w \<and> fds w1 = insert (line_fd line) (fds w))
    \<or> ((\<exists>e. r = Inl e) \<and> line = gpio_line_init \<and> fds w1 = fds w)"
    using gpio_line_open_fds [OF K] l by blast
  then show ?thesis using line_close_fds [OF K] by auto
qed

lemma gpio_runs_fds:
  assumes K: "api_fds K fds"
  shows "run_input K p off b w = (c, w') \<Longrightarrow> fds w' = fds w \<and> c \<in> {0, 1}"
    and "run_output K p off v w = (c, w') \<Longrightarrow> fds w' = fds w \<and> c \<in> {0, 1}"
    and "run_watch K p off b w = Some (c, w') \<Longrightarrow> fds w' = fds w \<and> c \<in> {0, 1}"
proof -
  note t = api_fds_laws(1) [OF K] and out = side_calls(9) [OF api_fds_laws(2) [OF K]]
  obtain r line w1 where i: "gpio_line_open_input (io K) gpio_line_init p off b w = ((r, line), w1)" by (metis surj_pair)
  obtain r' line' w1' where o1: "gpio_line_open_output (io K) gpio_line_init p off v w = ((r', line'), w1')" by (metis surj_pair)
  obtain g w2 where g: "gpio_line_get_value (io K) line w1 = (g, w2)" by (meson surj_pair)
  note w2 = gpio_line_fds(1) [OF t g]
  have ui: "(r = Inr 0 \<and> 0 \<le> line_fd line \<and> fds w1 - {line_fd line} = fds w \<and> (\<forall>u. fds u = fds w1 \<longrightarrow> fds (snd (gpio_line_close (io K) line u)) = fds w))
    \<or> ((\<exists>e. r = Inl e) \<and> fds w1 = fds w)" by (rule line_used [OF t]) (use i in blast)
  have uo: "(r' = Inr 0 \<and> 0 \<le> line_fd line' \<and> fds w1' - {line_fd line'} = fds w \<and> (\<forall>u. fds u = fds w1' \<longrightarrow> fds (snd (gpio_line_close (io K) line' u)) = fds w))
    \<or> ((\<exists>e. r' = Inl e) \<and> fds w1' = fds w)" by (rule line_used [OF t]) (use o1 in blast)
  show "run_input K p off b w = (c, w') \<Longrightarrow> fds w' = fds w \<and> c \<in> {0, 1}"
    using ui w2 out by (auto simp: run_input_def i g split: sum.split_asm)
  show "run_output K p off v w = (c, w') \<Longrightarrow> fds w' = fds w \<and> c \<in> {0, 1}"
    using uo out by (auto simp: run_output_def o1)
  show "fds w' = fds w \<and> c \<in> {0, 1}" if run: "run_watch K p off b w = Some (c, w')"
  proof (cases "(\<exists>e. r = Inl e) \<or> (\<exists>e. g = Inl e)")
    case True
    then have "c = 1 \<and> ((\<exists>e. r = Inl e) \<and> w' = w1 \<or> r \<noteq> Inl (projl r) \<and> w' = snd (gpio_line_close (io K) line w2))"
      using run by (auto simp: run_watch_def i g split: sum.split_asm)
    then show ?thesis using ui w2 by auto
  next
    case False
    then obtain n where n: "g = Inr n" "r = Inr 0" "0 \<le> line_fd line" using ui by (cases g) auto
    then have "watch_loop K line n (stdout K (''value='' @ dec_int n @ [NL]) w2) = Some (c, w')"
      using run by (simp add: run_watch_def i g)
    from watch_loop_fds [OF K this n(3)] show ?thesis using ui n w2 out by simp
  qed
qed

lemma bus_used:
  assumes K: "fd_table K fds" and b: "i2c_bus_open K i2c_bus_init p a w = ((r, bus), w1)"
  shows "(r = Inr 0 \<and> (\<forall>u. fds u = fds w1 \<longrightarrow> fds (snd (i2c_bus_close K bus u)) = fds w)) \<or> ((\<exists>e. r = Inl e) \<and> fds w1 = fds w)"
proof -
  have "bus_fd i2c_bus_init < 0" by (simp add: i2c_bus_init_def)
  from i2c_bus_open_fds [OF K b this] show ?thesis using bus_close_fds [OF K] by auto
qed

lemma i2c_probe_fds:
  assumes K: "api_fds K fds" and run: "i2c_probe_main K args w = (c, w')"
  shows "fds w' = fds w \<and> c \<in> {0, 1}"
proof (cases "length args \<noteq> 3 \<or> parse_address (args ! 2) = None")
  case True
  then show ?thesis using run by (auto simp: i2c_probe_main_def split: if_split_asm)
next
  case False
  note t = api_fds_laws(1) [OF K] and out = side_calls(9) [OF api_fds_laws(2) [OF K]]
  obtain a where a: "parse_address (args ! 2) = Some a" using False by auto
  obtain r bus w1 where b: "i2c_bus_open (io K) i2c_bus_init (args ! 1) a w = ((r, bus), w1)" by (metis surj_pair)
  obtain p w2 where p: "i2c_bus_probe (io K) bus w1 = (p, w2)" by (meson surj_pair)
  have "keeps fds (ioctl_i2c_quick (io K) fd)" for fd using t unfolding fd_table_def keeps_def by (metis prod.collapse)
  then have "fds w2 = fds w1" using p by (auto simp: i2c_bus_probe_def dest: keepsD split: if_split_asm prod.split_asm sum.split_asm)
  then show ?thesis
    using run False a bus_used [OF t b] out by (auto simp: i2c_probe_main_def b [unfolded One_nat_def] p split: sum.split_asm)
qed

lemma oled_demo_fds:
  assumes K: "api_fds K fds" and run: "oled_demo_main K args w = Some (c, w')"
  shows "fds w' = fds w \<and> c \<in> {0, 1}"
proof (cases "length args \<noteq> 3 \<or> oled_parse_address (args ! 2) = None")
  case True
  then show ?thesis using run by (auto simp: oled_demo_main_def split: if_split_asm)
next
  case False
  note t = api_fds_laws(1) [OF K] and out = side_calls(9) [OF api_fds_laws(2) [OF K]]
  obtain a where a: "oled_parse_address (args ! 2) = Some a" using False by auto
  obtain r bus w1 where b: "i2c_bus_open (io K) i2c_bus_init (args ! 1) a w = ((r, bus), w1)" by (metis surj_pair)
  note used = bus_used [OF t b]
  show ?thesis
  proof (cases "\<exists>e. r = Inl e")
    case True
    then have "c = 1 \<and> w' = w1" using run False a by (auto simp: oled_demo_main_def b [unfolded One_nat_def])
    then show ?thesis using used True by auto
  next
    case ok: False
    then obtain n where n: "r = Inr n" by (cases r) auto
    obtain s d w2 where ini: "oled_init (io K) bus oled_zero w1 = Some ((s, d), w2)"
      using run False a n by (auto simp: oled_demo_main_def b [unfolded One_nat_def] split: Option.bind_split_asm)
    note run1 = run [unfolded oled_demo_main_def a b n ini option.case prod.case sum.case Option.bind.simps]
    have "c \<in> {0, 1} \<and> (\<exists>u. w' = snd (i2c_bus_close (io K) bus u)
        \<and> (u = w2 \<or> (\<exists>q x v. oled_refresh (io K) bus q w2 = Some (x, v) \<and> (u = v \<or> (\<exists>m. u = stdout K m v)))))"
    proof (cases s)
      case (Inl e)
      then show ?thesis using run1 False by auto
    next
      case (Inr k)
      show ?thesis
      proof (cases "draw_lines oled_demo_lines (oled_clear d)")
        case (Inl e)
        then show ?thesis using run1 False \<open>s = Inr k\<close> by auto
      next
        case lines: (Inr q)
        then obtain x v where x: "oled_refresh (io K) bus q w2 = Some (x, v)"
          using run1 False Inr by (auto split: Option.bind_split_asm)
        then have "c \<in> {0, 1} \<and> (\<exists>u. w' = snd (i2c_bus_close (io K) bus u) \<and> (u = v \<or> (\<exists>m. u = stdout K m v)))"
          using run1 False Inr lines by (cases x) auto
        then show ?thesis using x by blast
      qed
    qed
    moreover have "fds w2 = fds w1" by (rule oled_fds(4) [OF t ini])
    ultimately show ?thesis using used ok out oled_fds(1) [OF t] by auto
  qed
qed

lemma receive_forever_fds:
  assumes K: "api_fds K fds" and run: "receive_forever K port w = Some (r, w')"
  shows "fds w' = fds w"
proof -
  note t = api_fds_laws(1) [OF K] and side = api_fds_laws(2) [OF K]
  let ?Q = "\<lambda>K' p w x. K' = K \<longrightarrow> p = port \<longrightarrow> fds (snd x) = fds w"
  have "?Q K port w (r, w')"
  proof (rule receive_forever.raw_induct [where P = ?Q, OF _ run], goal_cases)
    case (1 loop K' p w x)
    show ?case
    proof (intro impI)
      assume [simp]: "K' = K" "p = port"
      obtain a w1 where a: "serial_port_wait_readable (io K) port 1000 w = Some (a, w1)"
        using 1(2) by (auto split: Option.bind_split_asm)
      have w1: "fds w1 = fds w" by (rule serial_port_fds(3) [OF t a])
      show "fds (snd x) = fds w"
      proof (cases "\<exists>n. a = Inr n \<and> n \<noteq> 0")
        case False
        then have "snd x = w1 \<or> loop K port w1 = Some x" using 1(2) by (auto simp: a split: if_split_asm sum.split_asm)
        then show ?thesis using w1 1(1) [of K port w1 x] by auto
      next
        case True
        then obtain n where n: "a = Inr n" "n \<noteq> 0" by blast
        obtain b w2 where b: "serial_port_read (io K) port 1024 w1 = Some (b, w2)"
          using 1(2) n by (auto simp: a split: Option.bind_split_asm)
        have "\<exists>u. (u = w2 \<or> (\<exists>m. u = stdout K m w2)) \<and> (snd x = u \<or> loop K port u = Some x)"
        proof (cases b)
          case (Inl e)
          then show ?thesis using 1(2) n by (auto simp: a b split: if_split_asm)
        next
          case (Inr bs)
          then have "(bs = [] \<longrightarrow> loop K port w2 = Some x) \<and> (bs \<noteq> [] \<longrightarrow> loop K port (stdout K (received_text bs) w2) = Some x)"
            using 1(2) n by (auto simp: a b)
          then show ?thesis by blast
        qed
        then obtain u where u: "u = w2 \<or> (\<exists>m. u = stdout K m w2)" "snd x = u \<or> loop K port u = Some x" by blast
        have "fds u = fds w" using serial_port_fds(1) [OF t b] u(1) w1 side_calls(9) [OF side] by auto
        then show ?thesis using u(2) 1(1) [of K port u x] by auto
      qed
    qed
  qed
  then show ?thesis by simp
qed

lemma serial_test_fds:
  assumes K: "api_fds K fds" and run: "serial_test_main K args w = Some (c, w')"
  shows "fds w' = fds w \<and> c \<in> {0, 1}"
proof (cases "length args < 4 \<or> parse_baudrate (args ! 2) = None")
  case True
  then show ?thesis using run by (auto simp: serial_test_main_def split: if_split_asm)
next
  case False
  note t = api_fds_laws(1) [OF K] and out = side_calls(9) [OF api_fds_laws(2) [OF K]]
  obtain b where b: "parse_baudrate (args ! 2) = Some b" using False by auto
  obtain r port w1 where o1: "serial_port_open (io K) serial_port_init (args ! 1) b True w = ((r, port), w1)" by (metis surj_pair)
  have "port_fd serial_port_init < 0" by (simp add: serial_port_init_def)
  note op = serial_port_open_fds [OF t o1 this]
  have send: "fds v' = fds v" if "run_send K port m v = Some (x, v')" for m x v v'
    using that serial_port_fds(5) [OF t] out by (fastforce simp: run_send_def split: Option.bind_split_asm sum.split_asm)
  have recv: "fds v' = fds v" if "run_receive K port v = Some (x, v')" for x v v'
    using receive_forever_fds [OF K that [unfolded run_receive_def]] out by simp
  show ?thesis
  proof (cases "\<exists>e. r = Inl e")
    case True
    then have "c = 1 \<and> w' = w1" using run False b by (auto simp: serial_test_main_def o1 [unfolded One_nat_def])
    then show ?thesis using op True by auto
  next
    case ok: False
    then obtain n where n: "r = Inr n" by (cases r) auto
    then obtain x v where m: "serial_mode K args port (stdout K (serial_banner (args ! 1) b) w1) = Some (x, v)"
      "c \<in> {0, 1}" "w' = snd (serial_port_close (io K) port v)"
      using run False b by (auto simp: serial_test_main_def o1 [unfolded One_nat_def] split: Option.bind_split_asm)
    have "fds v = fds w1" using m(1) send recv out by (fastforce simp: serial_mode_def split: if_split_asm)
    then show ?thesis using op ok port_close_fds [OF t] m(2,3) by auto
  qed
qed

lemma gpio_probe_fds:
  assumes K: "api_fds K fds" and run: "gpio_probe_main K args w = Some (c, w')"
  shows "fds w' = fds w \<and> c \<in> {0, 1, 2}"
proof -
  have "c = 2 \<and> w' = w \<or> (\<exists>p off b. run_input K p off b w = (c, w') \<or> run_watch K p off b w = Some (c, w') \<or> run_output K p off b w = (c, w'))"
    using run by (auto simp: gpio_probe_main_def split: if_split_asm option.split_asm)
  then show ?thesis using gpio_runs_fds [OF K] by fastforce
qed

section \<open>The property of the tools\<close>

text \<open>C28. A tool that ends has closed what it opened, whatever its command line and whichever calls fail, and its exit
  code is one of the documented ones.  The hypothesis is what POSIX says of the calls that open and close
  descriptors, and that no other call does.\<close>

theorem tools_leave_nothing_open:
  assumes "api_fds K fds"
    and "gpio_probe_main K args w = Some (code, w') \<or> i2c_probe_main K args w = (code, w')
      \<or> oled_demo_main K args w = Some (code, w') \<or> serial_test_main K args w = Some (code, w')"
  shows "fds w' = fds w \<and> code \<in> {0, 1, 2}"
  using assms(2) gpio_probe_fds [OF assms(1)] i2c_probe_fds [OF assms(1)] oled_demo_fds [OF assms(1)] serial_test_fds [OF assms(1)]
  by (elim disjE) (metis insert_iff)+

definition demo_tool :: demo_world where
  "demo_tool = \<lparr>d_fds = [0, 1, 2], d_kids = [], d_next = 1, d_unread = 0, d_code = 0, d_clock = 0, d_streams = []\<rparr>"

theorem tools_leave_nothing_open_witness:
  "\<exists>w'. i2c_probe_main demo_api [''i2c_probe'', ''/dev/i2c-4'', ''0x3c''] demo_tool = (1, w') \<and> demo_fds w' = {0, 1, 2}"
proof -
  have "fst (i2c_probe_main demo_api [''i2c_probe'', ''/dev/i2c-4'', ''0x3c''] demo_tool) = 1" by code_simp
  then obtain w' where w': "i2c_probe_main demo_api [''i2c_probe'', ''/dev/i2c-4'', ''0x3c''] demo_tool = (1, w')" by (metis fst_conv surj_pair)
  from tools_leave_nothing_open [OF demo_api_fds, of _ demo_tool 1 w'] w' show ?thesis by (auto simp: demo_tool_def)
qed

end
