(* ===== verification/Spec2Isabelle.thy ===== *)
theory Spec2Isabelle
  imports Parser Config Job Device_Manager Stm32_Protocol Terminal Event_Sig Shell_Safe Monitor_Properties Watchdog Tools
begin

text \<open>
  Verification of the embedded Linux device runtime: a shell with job control (\<^verbatim>\<open>src/\<close>), a device layer below its
  command \<^verbatim>\<open>device\<close>, a line protocol to a microcontroller with the firmware's side of it
  (\<^verbatim>\<open>examples/stm32_uart_protocol\<close>), system reports, and the tools under \<^verbatim>\<open>tools/\<close>.  This theory only collects the
  others; the paths below are those of the repository.

  \<^bold>\<open>The program.\<close>  \<^verbatim>\<open>main\<close> makes sure of the standard streams and runs the shell: \<^verbatim>\<open>shell_init\<close> sets up the context
  (log, configuration, job table, device table), the self-pipe and signal handlers and the terminal; \<^verbatim>\<open>shell_run\<close> waits
  with \<^verbatim>\<open>select\<close> for events and input; a complete line goes to the parser and its chain of commands to the dispatcher,
  which runs a builtin in the shell itself, with redirections around it, or hands the chain to the executor, which forks
  the processes of a command or pipeline and enters them in the job table.  The builtin \<^verbatim>\<open>device\<close> works on the device
  table, whose devices call one of five backends (UART, I2C, OLED, GPIO, LED) through a table of operations; the other
  builtins list and control jobs, reload the configuration, switch LEDs and print reports.

  \<^bold>\<open>Theories and sources.\<close>  Data are records and datatypes with the fields and constructors of the C types, one
  definition stands for one function of the same name, in the order of its file, and loops and long branches have
  definitions of their own.

  \<^item> \<open>Prelude\<close>: the C library on strings and numbers (\<^verbatim>\<open>ctype.h\<close>, \<^verbatim>\<open>strtol\<close>, \<^verbatim>\<open>strtoul\<close>, decimal printing), error
    numbers, and \<open>retry\<close>, the loop around a call that a signal may interrupt.  \<open>Sysio\<close>: the system calls of the device
    code.  \<open>Common\<close>: \<^verbatim>\<open>common/\<close>.
  \<^item> \<open>Command\<close>, \<open>Parser\<close>: \<^verbatim>\<open>src/command.c\<close>, \<^verbatim>\<open>src/parser.c\<close>.  \<open>Config\<close>: \<^verbatim>\<open>config/config.c\<close>.
  \<^item> \<open>Job\<close>: \<^verbatim>\<open>src/job.c\<close>, with the wait status of the kernel as a 32-bit word.  \<open>Process_Api\<close>: the further calls of the
    shell and what POSIX says of descriptors and children.  \<open>Terminal\<close>: \<^verbatim>\<open>src/terminal.c\<close>.  \<open>Event_Sig\<close>:
    \<^verbatim>\<open>src/event.c\<close> and \<^verbatim>\<open>src/sig.c\<close>.
  \<^item> \<open>Device\<close>, \<open>Device_Config\<close>, \<open>Device_Backend\<close>, \<open>Device_Manager\<close>: \<^verbatim>\<open>src/device.c\<close>, \<^verbatim>\<open>src/device_config.c\<close>,
    \<^verbatim>\<open>src/device_backend.c\<close>, \<^verbatim>\<open>src/device_manager.c\<close>.  \<open>Serial_Port\<close>, \<open>I2c_Bus\<close>, \<open>Gpio_Line\<close>, \<open>Sysfs_Io\<close>,
    \<open>Led_Control\<close>, \<open>Oled\<close> and \<open>Oled_Font\<close>: the drivers' files of these names.
  \<^item> \<open>Uart_Protocol\<close>, \<open>Stm32_Protocol\<close>: the host and the board side of the line protocol.
  \<^item> \<open>Shell_Context\<close>, \<open>Executor\<close>, \<open>Cmd_Device\<close>, \<open>Builtin\<close>, \<open>Dispatcher\<close>, \<open>Shell\<close>: \<^verbatim>\<open>src/shell_context.c\<close>,
    \<^verbatim>\<open>src/executor.c\<close>, \<^verbatim>\<open>src/cmd_device.c\<close>, \<^verbatim>\<open>src/builtin.c\<close> with \<^verbatim>\<open>src/builtin_table.c\<close>, \<^verbatim>\<open>src/dispatcher.c\<close>, and
    \<^verbatim>\<open>src/shell.c\<close> with \<^verbatim>\<open>src/main.c\<close>; \<open>Executor_Safe\<close>, \<open>Dispatcher_Safe\<close> and \<open>Shell_Safe\<close> hold what is proved of them.
  \<^item> \<open>File_Streams\<close>: streams, directories and formatted numbers of the C library.  \<open>Monitors\<close>: \<^verbatim>\<open>src/thermal_monitor.c\<close>,
    \<^verbatim>\<open>src/network_monitor.c\<close>, \<^verbatim>\<open>src/process_monitor.c\<close>.  \<open>Runtime_Monitor\<close>: \<^verbatim>\<open>src/runtime_monitor.c\<close>,
    \<^verbatim>\<open>src/runtime_snapshot.c\<close>.  \<open>Cmd_Runtime\<close>: \<^verbatim>\<open>src/commands/cmd_runtime.c\<close>.  \<open>Hardware_Info\<close>: \<^verbatim>\<open>src/hardware_info.c\<close>.
    \<open>System_Info\<close>: \<^verbatim>\<open>src/system_info.c\<close>, \<^verbatim>\<open>src/device_tree.c\<close>.  \<open>Monitor_Properties\<close>: what is proved of them.
  \<^item> \<open>Watchdog\<close>: \<^verbatim>\<open>src/watchdog_device.c\<close>, \<^verbatim>\<open>tools/watchdog_demo.c\<close>.  \<open>Tools\<close>: \<^verbatim>\<open>tools/gpio_probe.c\<close>,
    \<^verbatim>\<open>tools/i2c_probe.c\<close>, \<^verbatim>\<open>tools/oled_demo.c\<close>, \<^verbatim>\<open>tools/serial_test.c\<close>.
  \<^item> \<open>Demo_Process\<close>, \<open>Demo_Files\<close>: a small kernel with files, on which the properties are evaluated.

  \<^bold>\<open>State and errors.\<close>  The world outside is a type variable \<open>'w\<close>.  The system and library calls are the fields of a
  record, functions of the world: \<open>sysio\<close> and \<open>kernel\<close>, extended by \<open>api\<close>, \<open>env\<close>, \<open>files\<close> and \<open>host\<close> as the callers
  need them.  A property holds for every such record with the laws it names, which are what POSIX and the Linux manual
  say of the calls.  A call that fails is \<open>Inl\<close> of the error, a success \<open>Inr\<close> of the value; static variables and
  objects behind pointers are records that are passed and returned; integers have their width where it matters.  A
  loop that need not end is a \<open>partial_function\<close> whose value is \<open>None\<close> when it does not; there is no fuel.  That such a
  loop ends is proved where the code promises it, from laws that say that no call is interrupted for ever
  (\<open>settles\<close>, \<open>sys_settling\<close>), that the clock advances (\<open>ticking\<close>) or that the kernel has finitely many events left.

  \<^bold>\<open>What is proved.\<close>

  \<^item> Input: printing and parsing a chain of commands gives it back, the tokenizer is the unbounded lexer with its limits,
    every chain is within the bounds the executor relies on; a line is dispatched as typed or discarded whole.
  \<^item> Jobs: the job table keeps its invariant in every reachable state (rule induction on \<open>job_step\<close>), waiting for a
    foreground job returns and gives its status; the outcomes of running a command; every child is a process of a job or
    has been waited for, on every path of the executor; starting in the background returns.
  \<^item> Signals: no event is lost, however signals interleave with waiting and taking.
  \<^item> Descriptors: each layer accounts for the ones it opens, up to the whole program, which leaks none.
  \<^item> Devices: a device refines a life cycle of five phases; the table keeps its invariant; loading a table is all or
    nothing; device and shell configuration files are read back as written; the drivers' contracts (deadline and partial
    writes, verified LED changes, UTF-8, pixels).
  \<^item> Protocol: host and board agree on requests and replies, the board's byte-wise machine refines the line-wise
    specification, and a request sent through all layers has its effect on the board.
  \<^item> Reports: bounds and order of what the monitors collect, the status of a process, the strings of the device tree.
  \<^item> Tools: they close what they opened; the watchdog is stopped when the tool reports success.

  The interfaces are locales: \<open>job_store\<close> for the table the executor uses, \<open>backend\<close> and its extension \<open>fd_backend\<close> for
  what the device layer relies on in a backend, interpreted by the five backends and by their union, and
  \<open>builtin_handler\<close> for what the dispatcher relies on in a builtin, interpreted by each of the sixteen.

  \<^bold>\<open>Conventions.\<close>  A C string is the list of its characters without the NUL; a pointer that may be NULL is an option,
  and one that the callers never make NULL has no case for it.  Log lines and messages on standard error are left
  out, except where they are what a function is for.  Whether an allocation succeeds is an input, so that both branches are covered;
  giving memory back has no effect.  \<^verbatim>\<open>fork\<close> splits a function into the parent's part and the child's.  Handlers of
  signals run between the turns of the event loop in \<open>Shell\<close>; \<open>Event_Sig\<close> proves that their place does not matter for
  what is reported.  A \<^verbatim>\<open>double\<close> is the rational number it stands for, and \<open>printf_f\<close> its conversion to text.  Where
  \<^verbatim>\<open>qsort\<close> may leave equal keys in any order, they keep theirs.

  \<^bold>\<open>Not modelled.\<close>  The test programs under \<^verbatim>\<open>tests/\<close> and the generator of the font, which are not part of the
  program; the build files; the functions that only free memory (\<^verbatim>\<open>command_free\<close>, \<^verbatim>\<open>process_monitor_free\<close>); the NULL
  checks of functions that are never called with NULL; rounding of floating-point arithmetic; the kernel itself, the
  terminal and the devices, which are the parameters above.
\<close>

end
